(* ===== verification/Prelude.thy ===== *)
theory Prelude
  imports
    Main
    "HOL-Library.Word"
    "HOL-Library.Char_ord"
    "HOL-Library.List_Lexorder"
begin

text \<open>
  What the components share: the named fact collections, the parts of the Go
  standard library the sources call (string splitting and trimming, lexical path
  cleaning, decimal rendering), the predicate for a name that stays inside a
  directory, and two interfaces that several components implement: a validator of
  caller-supplied names, and a transition system with an invariant.

  Go strings are byte strings, so a \<open>string\<close> here is a list of bytes and
  \<open>length\<close> counts bytes, as Go's \<open>len\<close> does. \<open>trim_space\<close> removes the six ASCII
  white space characters; Go's \<open>strings.TrimSpace\<close> also removes the Unicode ones.
\<close>

named_theorems go_defs "definitions of the Go library functions the sources call"

unbundle bit_operations_syntax

section \<open>Machine integers\<close>

type_synonym u8 = "8 word"
type_synonym u32 = "32 word"
type_synonym u64 = "64 word"

section \<open>Strings\<close>

definition has_prefix :: "string \<Rightarrow> string \<Rightarrow> bool" where
  "has_prefix s p \<longleftrightarrow> take (length p) s = p"

definition has_suffix :: "string \<Rightarrow> string \<Rightarrow> bool" where
  "has_suffix s p \<longleftrightarrow> length p \<le> length s \<and> drop (length s - length p) s = p"

fun contains_sub :: "string \<Rightarrow> string \<Rightarrow> bool" where
  "contains_sub [] p \<longleftrightarrow> p = []"
| "contains_sub (c # s) p \<longleftrightarrow> has_prefix (c # s) p \<or> contains_sub s p"

definition is_space :: "char \<Rightarrow> bool" where
  "is_space c \<longleftrightarrow> of_char c \<in> {9, 10, 11, 12, 13, 32 :: nat}"

definition trim_space :: "string \<Rightarrow> string" where
  "trim_space s = rev (dropWhile is_space (rev (dropWhile is_space s)))"

text \<open>\<open>strings.Split\<close> with a separator of one byte: never an empty list.\<close>

fun split_on :: "char \<Rightarrow> string \<Rightarrow> string list" where
  "split_on c [] = [[]]"
| "split_on c (x # xs) =
     (if x = c then [] # split_on c xs
      else (case split_on c xs of [] \<Rightarrow> [[x]] | y # ys \<Rightarrow> (x # y) # ys))"

fun join_with :: "char \<Rightarrow> string list \<Rightarrow> string" where
  "join_with c [] = []"
| "join_with c [x] = x"
| "join_with c (x # y # ys) = x @ c # join_with c (y # ys)"

lemma split_on_nonempty [simp]: "split_on c s \<noteq> []"
  by (induction s) (auto split: list.splits)

lemma split_on_no_sep: "\<forall>e \<in> set (split_on c s). c \<notin> set e"
  by (induction s) (auto split: list.splits)

lemma join_split [simp]: "join_with c (split_on c s) = s"
proof (induction s)
  case (Cons x xs)
  show ?case
    using Cons split_on_nonempty [of c xs]
    by (cases "split_on c xs"; cases "tl (split_on c xs)") auto
qed simp

lemma split_on_single: "c \<notin> set s \<Longrightarrow> split_on c s = [s]"
  by (induction s) auto

lemma split_on_append: "c \<notin> set x \<Longrightarrow> split_on c (x @ c # s) = x # split_on c s"
  by (induction x) auto

lemma split_join:
  "xs \<noteq> [] \<Longrightarrow> \<forall>e \<in> set xs. c \<notin> set e \<Longrightarrow> split_on c (join_with c xs) = xs"
  by (induction c xs rule: join_with.induct) (auto simp: split_on_single split_on_append)

lemma has_prefix_self [simp]: "has_prefix s []" "has_prefix (p @ s) p"
  by (simp_all add: has_prefix_def)

lemma has_prefix_append: "has_prefix s p \<longleftrightarrow> (\<exists>r. s = p @ r)"
  by (metis append_eq_conv_conj append_take_drop_id has_prefix_def)

section \<open>Decimal rendering\<close>

fun dec_nat :: "nat \<Rightarrow> string" where
  "dec_nat n = (if n < 10 then [char_of (48 + n)]
                else dec_nat (n div 10) @ [char_of (48 + n mod 10)])"

declare dec_nat.simps [simp del]

definition dec_int :: "int \<Rightarrow> string" where
  "dec_int i = (if i < 0 then CHR ''-'' # dec_nat (nat (- i)) else dec_nat (nat i))"

definition is_digit :: "char \<Rightarrow> bool" where
  "is_digit c \<longleftrightarrow> (48::nat) \<le> of_char c \<and> of_char c \<le> (57::nat)"

definition is_lower :: "char \<Rightarrow> bool" where
  "is_lower c \<longleftrightarrow> (97::nat) \<le> of_char c \<and> of_char c \<le> (122::nat)"

definition is_upper :: "char \<Rightarrow> bool" where
  "is_upper c \<longleftrightarrow> (65::nat) \<le> of_char c \<and> of_char c \<le> (90::nat)"

section \<open>Lexical paths\<close>

text \<open>
  Go's \<open>path.Clean\<close> (and \<open>filepath.Clean\<close> on Linux): empty and \<open>.\<close> elements go,
  a \<open>..\<close> removes the element before it, a \<open>..\<close> at the start of a rooted path goes,
  and the empty result is \<open>.\<close>. \<open>clean_elems\<close> keeps the kept elements as a stack.
\<close>

abbreviation slash :: char where
  "slash \<equiv> CHR ''/''"

definition is_abs :: "string \<Rightarrow> bool" where
  "is_abs s \<longleftrightarrow> has_prefix s ''/''"

fun clean_elems :: "bool \<Rightarrow> string list \<Rightarrow> string list \<Rightarrow> string list" where
  "clean_elems rooted out [] = rev out"
| "clean_elems rooted out (e # es) =
     (if e = [] \<or> e = ''.'' then clean_elems rooted out es
      else if e = ''..'' then
        (case out of
           [] \<Rightarrow> clean_elems rooted (if rooted then [] else [e]) es
         | p # ps \<Rightarrow> clean_elems rooted (if p = ''..'' then e # out else ps) es)
      else clean_elems rooted (e # out) es)"

definition path_elems :: "string \<Rightarrow> string list" where
  "path_elems s = clean_elems (is_abs s) [] (split_on slash s)"

definition path_clean :: "string \<Rightarrow> string" where
  "path_clean s =
     (if is_abs s then slash # join_with slash (path_elems s)
      else if path_elems s = [] then ''.''
      else join_with slash (path_elems s))"

text \<open>\<open>path.Join\<close> of two non-empty elements, \<open>path.Base\<close> and \<open>path.Dir\<close>.\<close>

definition path_join :: "string \<Rightarrow> string \<Rightarrow> string" where
  "path_join a b =
     (if a = [] \<and> b = [] then []
      else if a = [] then path_clean b
      else if b = [] then path_clean a
      else path_clean (a @ slash # b))"

definition path_base :: "string \<Rightarrow> string" where
  "path_base s =
     (if s = [] then ''.''
      else (case filter (\<lambda>e. e \<noteq> []) (split_on slash s) of
              [] \<Rightarrow> ''/''
            | es \<Rightarrow> last es))"

definition path_dir :: "string \<Rightarrow> string" where
  "path_dir s =
     path_clean (join_with slash (butlast (split_on slash s)) @
                 (if 1 < length (split_on slash s) then ''/'' else []))"

lemmas path_defs [go_defs] = path_clean_def path_elems_def path_join_def is_abs_def

definition plain_elem :: "string \<Rightarrow> bool" where
  "plain_elem e \<longleftrightarrow> e \<noteq> [] \<and> e \<noteq> ''.'' \<and> e \<noteq> ''..'' \<and> slash \<notin> set e"

text \<open>
  A name that stays inside the directory it is joined to: relative, with at least one
  element, and every element an ordinary one.
\<close>

definition confined :: "string \<Rightarrow> bool" where
  "confined s \<longleftrightarrow> (\<forall>e \<in> set (split_on slash s). plain_elem e)"

text \<open>\<open>below root p\<close>: the path \<open>p\<close> is a proper descendant of the directory \<open>root\<close>.\<close>

definition below :: "string \<Rightarrow> string \<Rightarrow> bool" where
  "below root p \<longleftrightarrow> (\<exists>r. p = root @ slash # r \<and> confined r)"

section \<open>Cleaning keeps a name confined\<close>

lemma split_on_join_slash: "split_on c (a @ c # b) = split_on c a @ split_on c b"
proof (induction a)
  case (Cons x xs)
  then show ?case
    by (cases "split_on c xs") (auto split: list.splits)
qed simp

lemma join_with_append:
  "xs \<noteq> [] \<Longrightarrow> ys \<noteq> [] \<Longrightarrow>
    join_with c (xs @ ys) = join_with c xs @ c # join_with c ys"
proof (induction c xs rule: join_with.induct)
  case (2 c x)
  then show ?case by (cases ys) auto
qed auto

lemma clean_elems_append:
  "clean_elems r out (es @ fs) = clean_elems r (rev (clean_elems r out es)) fs"
  by (induction r out es rule: clean_elems.induct) (auto split: list.splits)

lemma clean_elems_plain:
  "\<forall>e \<in> set es. plain_elem e \<Longrightarrow> clean_elems r out es = rev out @ es"
  by (induction es arbitrary: out) (auto simp: plain_elem_def)

lemma clean_elems_shape:
  assumes "\<forall>p \<in> set ps. plain_elem p" and "\<forall>e \<in> set es. slash \<notin> set e"
    and "r \<Longrightarrow> k = 0"
  shows "\<exists>j qs. clean_elems r (ps @ replicate k ''..'') es = replicate j ''..'' @ qs
    \<and> (\<forall>q \<in> set qs. plain_elem q) \<and> (r \<longrightarrow> j = 0)"
  using assms
proof (induction es arbitrary: ps k)
  case Nil
  then show ?case
    by (intro exI [of _ k] exI [of _ "rev ps"]) auto
next
  case (Cons e es)
  have rest: "\<forall>e \<in> set es. slash \<notin> set e" using Cons.prems(2) by simp
  consider (skip) "e = [] \<or> e = ''.''" | (up) "e = ''..''" | (keep) "plain_elem e"
    using Cons.prems(2) by (auto simp: plain_elem_def)
  then show ?case
  proof cases
    case skip
    then show ?thesis using Cons.IH [OF Cons.prems(1) rest] Cons.prems(3) by auto
  next
    case keep
    then have "\<forall>p \<in> set (e # ps). plain_elem p" using Cons.prems(1) by simp
    from Cons.IH [OF this rest, of k] keep show ?thesis
      using Cons.prems(3) by (auto simp: plain_elem_def)
  next
    case up
    show ?thesis
    proof (cases ps)
      case (Cons p ps')
      then have "\<forall>q \<in> set ps'. plain_elem q" using Cons.prems(1) by simp
      from Cons.IH [OF this rest, of k] show ?thesis
        using up Cons Cons.prems(1,3) by (auto simp: plain_elem_def)
    next
      case Nil
      show ?thesis
      proof (cases k)
        case 0
        have "\<exists>j qs. clean_elems r ([] @ replicate (if r then 0 else 1) ''..'') es =
            replicate j ''..'' @ qs \<and> (\<forall>q \<in> set qs. plain_elem q) \<and> (r \<longrightarrow> j = 0)"
          by (rule Cons.IH) (use rest in auto)
        then show ?thesis using up Nil 0 by (cases r) auto
      next
        case (Suc k')
        have "\<exists>j qs. clean_elems r ([] @ replicate (Suc k) ''..'') es =
            replicate j ''..'' @ qs \<and> (\<forall>q \<in> set qs. plain_elem q) \<and> (r \<longrightarrow> j = 0)"
          by (rule Cons.IH) (use rest Cons.prems(3) Suc in auto)
        then show ?thesis using up Nil Suc by simp
      qed
    qed
  qed
qed

lemma path_elems_shape:
  "\<exists>j qs. path_elems s = replicate j ''..'' @ qs \<and> (\<forall>q \<in> set qs. plain_elem q)
    \<and> (is_abs s \<longrightarrow> j = 0)"
  using clean_elems_shape [of "[]" "split_on slash s" "is_abs s" 0] split_on_no_sep [of slash s]
  by (simp add: path_elems_def)

lemma confined_join:
  "qs \<noteq> [] \<Longrightarrow> \<forall>q \<in> set qs. plain_elem q \<Longrightarrow> confined (join_with slash qs)"
  by (simp add: confined_def split_join plain_elem_def)

lemma path_clean_confined:
  assumes rel: "\<not> is_abs s" and dot: "path_clean s \<noteq> ''.''"
    and up: "path_clean s \<noteq> ''..''" and pre: "\<not> has_prefix (path_clean s) ''../''"
  shows "confined (path_clean s)"
proof -
  obtain j qs where e: "path_elems s = replicate j ''..'' @ qs" and q: "\<forall>q \<in> set qs. plain_elem q"
    using path_elems_shape by blast
  have ne: "path_elems s \<noteq> []" using dot by (auto simp: path_clean_def rel)
  then have c: "path_clean s = join_with slash (path_elems s)" by (simp add: path_clean_def rel)
  have "j = 0"
  proof (rule ccontr)
    assume "j \<noteq> 0"
    then obtain r where r: "path_elems s = ''..'' # r" using e by (cases j) auto
    show False
    proof (cases r)
      case Nil
      then show False using c r up by simp
    next
      case (Cons x xs)
      then show False using c r pre by (simp add: has_prefix_def)
    qed
  qed
  then show ?thesis using c e q ne by (simp add: confined_join)
qed

lemma confined_single:
  "i \<noteq> [] \<Longrightarrow> slash \<notin> set i \<Longrightarrow> i \<noteq> ''.'' \<Longrightarrow> i \<noteq> ''..'' \<Longrightarrow> confined i"
  by (simp add: confined_def split_on_single plain_elem_def)

lemma not_plain [simp]: "\<not> plain_elem []" "\<not> plain_elem ''..''" "\<not> plain_elem ''.''"
  by (simp_all add: plain_elem_def)

lemma confined_props:
  assumes c: "confined t"
  shows "t \<noteq> []" "\<not> is_abs t" "''..'' \<notin> set (split_on slash t)"
proof -
  from c have p: "plain_elem e" if "e \<in> set (split_on slash t)" for e
    using that by (simp add: confined_def)
  show "''..'' \<notin> set (split_on slash t)" using p [of "''..''"] not_plain by blast
  show "t \<noteq> []" using p [of "[]"] by (cases t) simp_all
  show "\<not> is_abs t"
  proof
    assume "is_abs t"
    then obtain r where "t = slash # r" by (auto simp: is_abs_def has_prefix_append)
    then have "[] \<in> set (split_on slash t)" by simp
    then show False using p [of "[]"] by simp
  qed
qed

lemma path_join_below:
  assumes "is_abs root" and "path_elems root \<noteq> []" and "confined t"
  shows "path_join root t = path_clean root @ slash # t" "below (path_clean root) (path_join root t)"
proof -
  have t: "t \<noteq> []" using confined_props(1) [OF assms(3)] .
  have r: "root \<noteq> []" using assms(1) by (auto simp: is_abs_def has_prefix_def)
  have abs: "is_abs (root @ slash # t)"
    using assms(1) by (auto simp: is_abs_def has_prefix_append)
  have pl: "\<forall>e \<in> set (split_on slash t). plain_elem e"
    using assms(3) by (simp add: confined_def)
  have "path_elems (root @ slash # t) = path_elems root @ split_on slash t"
    unfolding path_elems_def using assms(1) abs
    by (simp add: split_on_join_slash clean_elems_append clean_elems_plain [OF pl])
  then have "path_clean (root @ slash # t) = slash # (join_with slash (path_elems root) @ slash # t)"
    unfolding path_clean_def using assms(2) abs by (simp only: if_True join_with_append split_on_nonempty
        join_split not_False_eq_True)
  moreover have "path_clean root = slash # join_with slash (path_elems root)"
    using assms(1) by (simp only: path_clean_def if_True)
  moreover have "path_join root t = path_clean (root @ slash # t)"
    using t r by (simp only: path_join_def if_False simp_thms)
  ultimately show "path_join root t = path_clean root @ slash # t"
    by (simp only: append_Cons)
  then show "below (path_clean root) (path_join root t)"
    using assms(3) by (auto simp: below_def)
qed

section \<open>Interfaces several components implement\<close>

text \<open>
  A validator of names an outside caller supplies. What the sources rely on is that
  an accepted name is confined, so joining it to a directory stays below it.
\<close>

locale name_validator =
  fixes accept :: "string \<Rightarrow> 'e + string"
  assumes accepted_confined: "accept s = Inr t \<Longrightarrow> confined t"
begin

lemma no_parent_element: "accept s = Inr t \<Longrightarrow> ''..'' \<notin> set (split_on slash t)"
  by (rule confined_props(3)) (rule accepted_confined)

lemma accepted_relative: "accept s = Inr t \<Longrightarrow> \<not> is_abs t \<and> t \<noteq> []"
  using confined_props accepted_confined by blast

lemma joined_below:
  "accept s = Inr t \<Longrightarrow> is_abs root \<Longrightarrow> path_elems root \<noteq> [] \<Longrightarrow>
    below (path_clean root) (path_join root t)"
  by (rule path_join_below(2)) (auto intro: accepted_confined)

end

text \<open>
  A deterministic machine with an invariant: what one event keeps, a run of events keeps.
\<close>

locale invariant_machine =
  fixes step :: "'s \<Rightarrow> 'e \<Rightarrow> 's" and inv :: "'s \<Rightarrow> bool"
  assumes inv_step: "inv s \<Longrightarrow> inv (step s e)"
begin

lemma inv_run: "inv s \<Longrightarrow> inv (foldl step s es)"
  by (induction es arbitrary: s) (auto intro: inv_step)

end

text \<open>A step relation with an invariant: every state reachable from a good one is good.\<close>

locale invariant_relation =
  fixes step :: "'s \<Rightarrow> 's \<Rightarrow> bool" and inv :: "'s \<Rightarrow> bool"
  assumes inv_rel: "step s t \<Longrightarrow> inv s \<Longrightarrow> inv t"
begin

lemma inv_reach: "step\<^sup>*\<^sup>* s t \<Longrightarrow> inv s \<Longrightarrow> inv t"
  by (induction rule: rtranclp_induct) (auto intro: inv_rel)

end

end
