(* ===== verification/Paths.thy ===== *)
theory Paths
  imports Prelude
begin

text \<open>
  What the components that walk paths share: \<open>path.Dir\<close> ends (each step is shorter, or is
  \<open>.\<close> or \<open>/\<close>), and on a confined name it drops the last element.
\<close>

section \<open>Walking up ends\<close>

fun elems_size :: "string list \<Rightarrow> nat" where
  "elems_size [] = 0"
| "elems_size (e # es) = Suc (length e) + elems_size es"

lemma elems_size_append [simp]: "elems_size (xs @ ys) = elems_size xs + elems_size ys"
  by (induction xs) auto

lemma elems_size_rev [simp]: "elems_size (rev xs) = elems_size xs"
  by (induction xs) auto

lemma elems_size_join: "xs \<noteq> [] \<Longrightarrow> elems_size xs = Suc (length (join_with c xs))"
  by (induction c xs rule: join_with.induct) auto

lemma clean_elems_size: "elems_size (clean_elems r out es) \<le> elems_size out + elems_size es"
proof (induction r out es rule: clean_elems.induct)
  case (2 rooted out e es)
  then show ?case by (auto split: list.splits if_splits)
qed simp

lemma clean_elems_skip: "clean_elems r out (es @ [[]]) = clean_elems r out es"
  by (induction r out es rule: clean_elems.induct) (auto split: list.splits)

lemma path_dir_shorter:
  assumes "p \<noteq> ''.''" and "p \<noteq> ''/''" and "path_dir p \<noteq> ''.''" and "path_dir p \<noteq> ''/''"
  shows "length (path_dir p) < length p"
proof (cases "butlast (split_on slash p)")
  case Nil
  then have "path_dir p = ''.''"
    using split_on_nonempty [of slash p]
    by (cases "split_on slash p") (auto simp: path_dir_def path_defs has_prefix_def split: if_splits)
  then show ?thesis using assms(3) by simp
next
  case (Cons a as)
  define es where "es = butlast (split_on slash p)"
  define d where "d = join_with slash es"
  have ne: "es \<noteq> []" using Cons by (simp add: es_def)
  have sp: "split_on slash p = es @ [last (split_on slash p)]" by (simp add: es_def)
  have noslash: "\<forall>e \<in> set es. slash \<notin> set e"
    using split_on_no_sep [of slash p] sp by (metis Un_iff set_append)
  have long: "1 < length (split_on slash p)" using Cons by (cases "split_on slash p") auto
  have len_p: "length d < length p"
    using elems_size_join [of "split_on slash p" slash] elems_size_join [OF ne, of slash]
      arg_cong [OF sp, of elems_size] by (simp add: d_def)
  have dir: "path_dir p = path_clean (d @ ''/'')" using long by (simp add: path_dir_def es_def d_def)
  have sd: "split_on slash (d @ ''/'') = es @ [[]]"
    using split_on_join_slash [of slash d "[]"] split_join [OF ne noslash] by (simp add: d_def)
  have pe: "path_elems (d @ ''/'') = clean_elems (is_abs (d @ ''/'')) [] es"
    by (simp add: path_elems_def sd clean_elems_skip)
  show ?thesis
  proof (cases "is_abs (d @ ''/'')")
    case False
    have ne': "path_elems (d @ ''/'') \<noteq> []" using assms(3) dir False by (auto simp: path_clean_def)
    have "Suc (length (path_dir p)) \<le> Suc (length d)"
      using clean_elems_size [of False "[]" es] elems_size_join [OF ne', of slash]
        elems_size_join [OF ne, of slash] dir pe False ne' by (simp add: path_clean_def d_def)
    then show ?thesis using len_p by simp
  next
    case True
    then obtain r where r: "d @ ''/'' = slash # r" by (auto simp: is_abs_def has_prefix_append)
    have "\<exists>es'. es = [] # es'"
    proof (cases es)
      case (Cons x xs)
      have "x = []"
      proof (cases x)
        case (Cons y ys)
        then have "y = slash" using r \<open>es = x # xs\<close> by (cases xs) (auto simp: d_def)
        then show ?thesis using noslash Cons \<open>es = x # xs\<close> by simp
      qed simp
      then show ?thesis using Cons by simp
    qed (use ne in simp)
    then obtain es' where es': "es = [] # es'" by blast
    have ne': "path_elems (d @ ''/'') \<noteq> []" using assms(4) dir True by (auto simp: path_clean_def)
    have "length (path_dir p) = elems_size (path_elems (d @ ''/''))"
      using elems_size_join [OF ne', of slash] dir True by (simp add: path_clean_def)
    also have "\<dots> \<le> elems_size es'"
      using clean_elems_size [of True "[]" es'] pe True es' by simp
    also have "\<dots> \<le> length d" using elems_size_join [OF ne, of slash] es' by (simp add: d_def)
    finally show ?thesis using len_p by simp
  qed
qed

section \<open>The directory of a confined name\<close>

lemma confined_path_dir:
  assumes "confined n"
  shows "path_dir n =
    (if length (split_on slash n) = 1 then ''.'' else join_with slash (butlast (split_on slash n)))"
proof (cases "length (split_on slash n) = 1")
  case True
  then have "butlast (split_on slash n) = []" by (cases "split_on slash n") auto
  then show ?thesis using True by (simp add: path_dir_def path_defs has_prefix_def)
next
  case False
  define es where "es = butlast (split_on slash n)"
  have long: "1 < length (split_on slash n)"
    using False split_on_nonempty [of slash n] by (cases "split_on slash n") auto
  have pl: "\<forall>e \<in> set es. plain_elem e"
    using assms by (auto simp: confined_def es_def dest: in_set_butlastD)
  have ne: "es \<noteq> []" using long length_butlast [of "split_on slash n"] by (auto simp: es_def simp del: length_butlast)
  have noslash: "\<forall>e \<in> set es. slash \<notin> set e" using pl by (simp add: plain_elem_def)
  have sd: "split_on slash (join_with slash es @ ''/'') = es @ [[]]"
    using split_on_join_slash [of slash "join_with slash es" "[]"] split_join [OF ne noslash] by simp
  have "\<not> is_abs (join_with slash es)"
    by (rule confined_props(2)) (rule confined_join [OF ne pl])
  moreover have "join_with slash es \<noteq> []"
    using confined_props(1) [OF confined_join [OF ne pl]] .
  ultimately have "\<not> is_abs (join_with slash es @ ''/'')"
    by (cases "join_with slash es") (auto simp: is_abs_def has_prefix_def)
  then have "path_clean (join_with slash es @ ''/'') = join_with slash es"
    using ne by (simp add: path_clean_def path_elems_def sd clean_elems_skip clean_elems_plain [OF pl])
  then show ?thesis using long by (simp add: path_dir_def es_def)
qed

lemma confined_path_dir_cases:
  assumes "confined n"
  shows "path_dir n = ''.'' \<or> confined (path_dir n)"
proof (cases "length (split_on slash n) = 1")
  case True
  then show ?thesis using confined_path_dir [OF assms] by simp
next
  case False
  have "butlast (split_on slash n) \<noteq> []"
    using False split_on_nonempty [of slash n] by (cases "split_on slash n") auto
  moreover have "\<forall>e \<in> set (butlast (split_on slash n)). plain_elem e"
    using assms by (auto simp: confined_def dest: in_set_butlastD)
  ultimately show ?thesis using confined_path_dir [OF assms] False confined_join by simp
qed

section \<open>One path relative to another\<close>

text \<open>\<open>filepath.Rel\<close> of two absolute paths.\<close>

fun common_prefix :: "string list \<Rightarrow> string list \<Rightarrow> nat" where
  "common_prefix (x # xs) (y # ys) = (if x = y then Suc (common_prefix xs ys) else 0)"
| "common_prefix _ _ = 0"

definition rel_path :: "string \<Rightarrow> string \<Rightarrow> string" where
  "rel_path base p =
     (let b = path_elems base; t = path_elems p; k = common_prefix b t;
          es = replicate (length b - k) ''..'' @ drop k t
      in if es = [] then ''.'' else join_with slash es)"

text \<open>
  The test two components make with it: the path is the root or below it. For absolute
  paths that is the prefix relation on their elements.
\<close>

definition path_within :: "string \<Rightarrow> string \<Rightarrow> bool" where
  "path_within base p \<longleftrightarrow>
     is_abs base = is_abs p \<and> rel_path base p \<noteq> ''..'' \<and> \<not> has_prefix (rel_path base p) ''../''"

lemma path_elems_plain: "is_abs p \<Longrightarrow> \<forall>e \<in> set (path_elems p). plain_elem e"
  using clean_elems_shape [of "[]" "split_on slash p" True 0] split_on_no_sep [of slash p]
  by (auto simp: path_elems_def)

lemma common_prefix_le: "common_prefix b t \<le> length b"
  by (induction b t rule: common_prefix.induct) auto

lemma common_prefix_all: "common_prefix b t = length b \<longleftrightarrow> (\<exists>r. t = b @ r)"
  by (induction b t rule: common_prefix.induct) auto

lemma path_within_prefix:
  assumes "is_abs base" and "is_abs p"
  shows "path_within base p \<longleftrightarrow> (\<exists>r. path_elems p = path_elems base @ r)"
proof -
  define b t k where "b = path_elems base" and "t = path_elems p" and "k = common_prefix b t"
  define es where "es = replicate (length b - k) ''..'' @ drop k t"
  have plain: "\<forall>e \<in> set t. plain_elem e" using path_elems_plain [OF assms(2)] by (simp add: t_def)
  have "set es \<subseteq> insert ''..'' (set t)"
    unfolding es_def using set_drop_subset [of k t] by (auto simp: set_replicate_conv_if)
  then have no_slash: "\<forall>e \<in> set es. slash \<notin> set e"
    using plain unfolding plain_elem_def by fastforce
  have rel: "rel_path base p = (if es = [] then ''.'' else join_with slash es)"
    by (simp add: rel_path_def Let_def es_def b_def t_def k_def)
  show ?thesis
  proof (cases "k = length b")
    case True
    then have es: "es = drop k t" by (simp add: es_def)
    have "rel_path base p \<noteq> ''..'' \<and> \<not> has_prefix (rel_path base p) ''../''"
    proof (cases "es = []")
      case False
      then have split: "split_on slash (rel_path base p) = es"
        using split_join [OF False no_slash] rel by simp
      have "hd es \<in> set t" using False es by (metis hd_in_set in_set_dropD)
      then have hd_es: "hd es \<noteq> ''..''" using plain not_plain(2) by metis
      have "hd (split_on slash (''../'' @ r)) = ''..''" for r
        using split_on_append [of slash "''..''" r] by simp
      then have "\<not> has_prefix (rel_path base p) ''../''"
        using split hd_es unfolding has_prefix_append by metis
      moreover have "rel_path base p \<noteq> ''..''"
        using split hd_es split_on_single [of slash "''..''"] by auto
      ultimately show ?thesis by simp
    qed (simp add: rel has_prefix_def)
    then show ?thesis
      using True assms common_prefix_all [of b t] by (simp add: path_within_def b_def t_def k_def)
  next
    case False
    then obtain m where "length b - k = Suc m"
      using common_prefix_le [of b t] by (cases "length b - k") (auto simp: k_def)
    then have "es = ''..'' # (replicate m ''..'' @ drop k t)" by (simp add: es_def)
    then have "rel_path base p = ''..'' \<or> has_prefix (rel_path base p) ''../''"
      using rel by (cases "replicate m ''..'' @ drop k t") (auto simp: has_prefix_def)
    then show ?thesis
      using False common_prefix_all [of b t] by (auto simp: path_within_def b_def t_def k_def)
  qed
qed

end
