(* ===== verification/Path_Below.thy ===== *)
theory Path_Below
  imports Paths
begin

text \<open>
  Paths below a directory: the elements of a cleaned path, of a joined path and of a parent,
  and what stays within a directory under them.
\<close>

section \<open>Elements of cleaned, joined and parent paths\<close>

lemma split_on_empty [simp]: "split_on c [] = [[]]"
  by simp

lemma clean_elems_rooted_plain: "\<forall>e \<in> set es. plain_elem e \<Longrightarrow> clean_elems True [] ([] # es) = es"
  by (simp add: clean_elems_plain)

lemma path_clean_abs [simp]: "is_abs s \<Longrightarrow> is_abs (path_clean s)"
  by (simp add: path_clean_def is_abs_def has_prefix_def)

lemma path_elems_clean [simp]:
  assumes "is_abs s"
  shows "path_elems (path_clean s) = path_elems s"
proof -
  define es where "es = path_elems s"
  have plain: "\<forall>e \<in> set es. plain_elem e" using path_elems_plain [OF assms] by (simp add: es_def)
  have clean: "path_clean s = [] @ slash # join_with slash es" using assms by (simp add: path_clean_def es_def)
  have "path_elems ([] @ slash # join_with slash es) = es"
  proof (cases "es = []")
    case True
    then show ?thesis by (simp add: path_elems_def is_abs_def has_prefix_def)
  next
    case False
    have "\<forall>e \<in> set es. slash \<notin> set e" using plain by (simp add: plain_elem_def)
    then have "split_on slash ([] @ slash # join_with slash es) = [] # es"
      unfolding split_on_join_slash using split_join [OF False] by simp
    then show ?thesis using plain by (simp add: path_elems_def is_abs_def has_prefix_def clean_elems_plain)
  qed
  then show ?thesis using clean by (simp add: es_def)
qed

lemma path_elems_below:
  assumes "is_abs d" and "\<forall>e \<in> set (split_on slash n). plain_elem e"
  shows "path_elems (d @ slash # n) = path_elems d @ split_on slash n"
proof -
  have "is_abs (d @ slash # n)" using assms(1) by (auto simp: is_abs_def has_prefix_append)
  then show ?thesis
    using assms by (simp add: path_elems_def split_on_join_slash clean_elems_append clean_elems_plain)
qed

lemma path_join_confined:
  assumes "is_abs d" and "confined n"
  shows "is_abs (path_join d n)" "path_elems (path_join d n) = path_elems d @ split_on slash n"
    "path_clean (path_join d n) = path_join d n"
proof -
  have "d \<noteq> []" "n \<noteq> []" using assms(1) confined_props(1) [OF assms(2)] by (auto simp: is_abs_def has_prefix_def)
  then have join: "path_join d n = path_clean (d @ slash # n)" by (simp add: path_join_def)
  have abs: "is_abs (d @ slash # n)" using assms(1) by (auto simp: is_abs_def has_prefix_append)
  show "is_abs (path_join d n)" using join abs by simp
  show "path_elems (path_join d n) = path_elems d @ split_on slash n"
    using join abs path_elems_below [OF assms(1)] assms(2) by (simp add: confined_def)
  show "path_clean (path_join d n) = path_join d n"
    using join abs by (simp add: path_clean_def [of "path_clean _"]) (simp add: path_clean_def)
qed

lemma plain_confined: "plain_elem n \<Longrightarrow> confined n"
  by (simp add: plain_elem_def confined_single)

lemma path_join_plain:
  assumes "is_abs d" and "plain_elem n"
  shows "is_abs (path_join d n)" "path_elems (path_join d n) = path_elems d @ [n]"
    "path_clean (path_join d n) = path_join d n"
  using path_join_confined [OF assms(1) plain_confined [OF assms(2)]] assms(2)
  by (simp_all add: split_on_single plain_elem_def)

text \<open>The parent of a clean absolute path lacks its last element.\<close>

lemma path_dir_elems:
  assumes "is_abs p" and "path_clean p = p"
  shows "is_abs (path_dir p)" "path_elems (path_dir p) = butlast (path_elems p)"
proof -
  define es where "es = path_elems p"
  have plain: "\<forall>e \<in> set es. plain_elem e" using path_elems_plain [OF assms(1)] by (simp add: es_def)
  have p: "p = slash # join_with slash es"
    using assms by (simp add: path_clean_def es_def)
  have "is_abs (path_dir p) \<and> path_elems (path_dir p) = butlast es"
  proof (cases "es = []")
    case True
    then have "path_dir p = ''/''" using p by (simp add: path_dir_def path_defs has_prefix_def)
    then show ?thesis using True by (simp add: path_defs has_prefix_def)
  next
    case False
    have no_slash: "\<forall>e \<in> set es. slash \<notin> set e" using plain by (simp add: plain_elem_def)
    have split: "split_on slash p = [] # es"
      using split_on_join_slash [of slash "[]" "join_with slash es"] split_join [OF False no_slash] p by simp
    define up where "up = join_with slash ([] # butlast es)"
    have dir: "path_dir p = path_clean (up @ slash # [])"
      using split False by (simp add: path_dir_def up_def)
    have "split_on slash up = [] # butlast es"
      unfolding up_def using no_slash by (intro split_join) (auto dest: in_set_butlastD)
    then have split_up: "split_on slash (up @ slash # []) = [] # butlast es @ [[]]"
      using split_on_join_slash [of slash up "[]"] by simp
    have abs: "is_abs (up @ slash # [])"
      by (cases "butlast es") (simp_all add: up_def is_abs_def has_prefix_def)
    have "path_elems (up @ slash # []) = butlast es"
      using plain abs split_up clean_elems_skip [of True "[]" "[] # butlast es"]
      by (simp add: path_elems_def clean_elems_plain in_set_butlastD)
    then show ?thesis using dir abs by simp
  qed
  then show "is_abs (path_dir p)" "path_elems (path_dir p) = butlast (path_elems p)"
    by (simp_all add: es_def)
qed

lemma path_within_refl: "is_abs p \<Longrightarrow> path_within p p"
  by (simp add: path_within_prefix)

lemma path_within_join:
  assumes "is_abs base" and "path_within base p" and "confined n"
  shows "path_within base (path_join p n)"
proof -
  have p: "is_abs p" using assms(1,2) by (simp add: path_within_def)
  then show ?thesis
    using assms path_join_confined [OF p assms(3)] by (auto simp: path_within_prefix)
qed

text \<open>Strictly below: the parent is still within.\<close>

definition path_below :: "string \<Rightarrow> string \<Rightarrow> bool" where
  "path_below base p \<longleftrightarrow>
     is_abs p \<and> path_clean p = p \<and> (\<exists>e r. path_elems p = path_elems base @ e # r)"

lemma path_below_within: "is_abs base \<Longrightarrow> path_below base p \<Longrightarrow> path_within base p"
  by (auto simp: path_below_def path_within_prefix)

lemma path_below_dir:
  assumes "is_abs base" and "path_below base p"
  shows "path_within base (path_dir p)"
proof -
  obtain e r where "is_abs p" "path_clean p = p" "path_elems p = path_elems base @ e # r"
    using assms(2) by (auto simp: path_below_def)
  then show ?thesis
    using assms(1) path_dir_elems [of p] by (auto simp: path_within_prefix butlast_append)
qed

lemma path_below_join:
  assumes "is_abs base" and "confined n"
  shows "path_below base (path_join base n)"
  using path_join_confined [OF assms] split_on_nonempty [of slash n]
  by (auto simp: path_below_def neq_Nil_conv simp del: split_on_nonempty)

lemma path_below_join_below:
  assumes "path_below base p" and "confined n"
  shows "path_below base (path_join p n)"
  using assms path_join_confined [of p n] by (auto simp: path_below_def)

end
