(* ===== verification/Numbers.thy ===== *)
theory Numbers
  imports Prelude
begin

text \<open>
  The integers the components read from text: \<open>strconv.Atoi\<close> on a 64-bit \<open>int\<close>, and
  \<open>strconv.ParseUint\<close> in base 8 for 32 bits. Both refuse an empty text, any other
  character and a value out of range.
\<close>

fun digits_value :: "nat \<Rightarrow> nat \<Rightarrow> string \<Rightarrow> nat option" where
  "digits_value base acc [] = Some acc"
| "digits_value base acc (c # s) =
     (let d = of_char c
      in if 48 \<le> d \<and> d < 48 + base then digits_value base (acc * base + (d - 48)) s else None)"

definition parse_nat :: "nat \<Rightarrow> string \<Rightarrow> nat option" where
  "parse_nat base s = (if s = [] then None else digits_value base 0 s)"

definition atoi :: "string \<Rightarrow> int option" where
  "atoi s =
     (let neg = (s \<noteq> [] \<and> hd s = CHR ''-'');
          digits = (if s \<noteq> [] \<and> (hd s = CHR ''-'' \<or> hd s = CHR ''+'') then tl s else s)
      in case parse_nat 10 digits of
           None \<Rightarrow> None
         | Some n \<Rightarrow>
             let v = (if neg then - int n else int n)
             in if - (2 ^ 63) \<le> v \<and> v < 2 ^ 63 then Some v else None)"

definition parse_octal :: "string \<Rightarrow> u32 option" where
  "parse_octal s =
     (case parse_nat 8 s of
        Some n \<Rightarrow> if n < 2 ^ 32 then Some (of_nat n) else None
      | None \<Rightarrow> None)"

lemma digits_value_append:
  "digits_value b acc (s @ r) =
    (case digits_value b acc s of Some n \<Rightarrow> digits_value b n r | None \<Rightarrow> None)"
  by (induction b acc s rule: digits_value.induct) (auto simp: Let_def)

lemma digit_char: "n < 10 \<Longrightarrow> of_char (char_of (48 + n) :: char) = (48 + n :: nat)"
  by (simp only: of_char_of) simp

lemma digits_dec_nat: "digits_value 10 0 (dec_nat n) = Some n"
proof (induction n rule: dec_nat.induct)
  case (1 n)
  show ?case
  proof (cases "n < 10")
    case True
    then show ?thesis by (subst dec_nat.simps) (simp add: digit_char Let_def)
  next
    case False
    have "n mod 10 < 10" by simp
    note d = digit_char [OF this]
    have "digits_value 10 0 (dec_nat (n div 10)) = Some (n div 10)" using 1 False by simp
    then show ?thesis
      using False by (subst dec_nat.simps) (simp add: digits_value_append d Let_def)
  qed
qed

lemma dec_nat_head: "\<exists>c s. dec_nat n = c # s \<and> (48::nat) \<le> of_char c"
proof (induction n rule: dec_nat.induct)
  case (1 n)
  show ?case
  proof (cases "n < 10")
    case True
    then have "dec_nat n = [char_of (48 + n)]" by (subst dec_nat.simps) simp
    then show ?thesis using digit_char [OF True] by simp
  next
    case False
    obtain c s where c: "dec_nat (n div 10) = c # s" "(48::nat) \<le> of_char c" using 1 False by blast
    have "dec_nat n = dec_nat (n div 10) @ [char_of (48 + n mod 10)]"
      using False by (subst dec_nat.simps) simp
    then show ?thesis using c by simp
  qed
qed

text \<open>A rendered number is read back.\<close>

lemma atoi_dec_int: "- (2 ^ 63) \<le> i \<Longrightarrow> i < 2 ^ 63 \<Longrightarrow> atoi (dec_int i) = Some i"
proof -
  obtain c s where c1: "dec_nat (nat i) = c # s" "(48::nat) \<le> of_char c" using dec_nat_head by blast
  then have c: "dec_nat (nat i) = c # s" "c \<noteq> CHR ''-''" "c \<noteq> CHR ''+''" by auto
  obtain d t where d: "dec_nat (nat (- i)) = d # t" using dec_nat_head by blast
  have v: "digits_value 10 0 (c # s) = Some (nat i)" "digits_value 10 0 (d # t) = Some (nat (- i))"
    using digits_dec_nat [of "nat i"] digits_dec_nat [of "nat (- i)"] c(1) d by simp_all
  show "- (2 ^ 63) \<le> i \<Longrightarrow> i < 2 ^ 63 \<Longrightarrow> atoi (dec_int i) = Some i"
    using c d v by (cases "i < 0") (simp_all add: atoi_def dec_int_def parse_nat_def Let_def del: digits_value.simps)
qed

end
