(* ===== verification/Results.thy ===== *)
theory Results
  imports Prelude
begin

text \<open>
  The result contract (\<open>internal/result\<close>): the failure codes, their exit statuses and
  which of them are permanent, the failure document and the envelope every command
  writes. A code is a Go string, so a document can carry one that is not declared:
  \<open>OtherCode\<close>. A failure's \<open>f_message\<close> is the format string of the source; its
  arguments are not rendered into it, because the contract makes the code authoritative
  and the message free to change. Details are the key and value pairs the source sets,
  in the order it sets them.
\<close>

section \<open>Codes\<close>

datatype code =
    EngineUnavailable | EngineNotRootless | ProtectionDegraded | ImageUnavailable
  | PayloadRejected | SessionNotReady | WindowNotFound | StaleRevision | NotAuthorized
  | CaptureUnavailable | CaptureFailed | WaitTimeout | ProcessExited
  | WestonProtocolMismatch | UsageError
  | OtherCode string

definition all_codes :: "code list" where
  "all_codes =
     [EngineUnavailable, EngineNotRootless, ProtectionDegraded, ImageUnavailable,
      PayloadRejected, SessionNotReady, WindowNotFound, StaleRevision, NotAuthorized,
      CaptureUnavailable, CaptureFailed, WaitTimeout, ProcessExited,
      WestonProtocolMismatch, UsageError]"

fun code_string :: "code \<Rightarrow> string" where
  "code_string EngineUnavailable = ''engine_unavailable''"
| "code_string EngineNotRootless = ''engine_not_rootless''"
| "code_string ProtectionDegraded = ''protection_degraded''"
| "code_string ImageUnavailable = ''image_unavailable''"
| "code_string PayloadRejected = ''payload_rejected''"
| "code_string SessionNotReady = ''session_not_ready''"
| "code_string WindowNotFound = ''window_not_found''"
| "code_string StaleRevision = ''stale_revision''"
| "code_string NotAuthorized = ''not_authorized''"
| "code_string CaptureUnavailable = ''capture_unavailable''"
| "code_string CaptureFailed = ''capture_failed''"
| "code_string WaitTimeout = ''wait_timeout''"
| "code_string ProcessExited = ''process_exited''"
| "code_string WestonProtocolMismatch = ''weston_protocol_mismatch''"
| "code_string UsageError = ''usage_error''"
| "code_string (OtherCode s) = s"

fun exit_code :: "code \<Rightarrow> nat" where
  "exit_code UsageError = 2"
| "exit_code EngineUnavailable = 3"
| "exit_code EngineNotRootless = 3"
| "exit_code ProtectionDegraded = 3"
| "exit_code ImageUnavailable = 3"
| "exit_code WestonProtocolMismatch = 3"
| "exit_code WaitTimeout = 5"
| "exit_code PayloadRejected = 4"
| "exit_code SessionNotReady = 4"
| "exit_code WindowNotFound = 4"
| "exit_code StaleRevision = 4"
| "exit_code NotAuthorized = 4"
| "exit_code CaptureUnavailable = 4"
| "exit_code CaptureFailed = 4"
| "exit_code ProcessExited = 4"
| "exit_code (OtherCode _) = 4"

definition fatal :: "code \<Rightarrow> bool" where
  "fatal c \<longleftrightarrow> c \<in> {EngineNotRootless, ImageUnavailable, WestonProtocolMismatch, UsageError,
     PayloadRejected, WindowNotFound, StaleRevision, NotAuthorized}"

section \<open>Failures and envelopes\<close>

record failure =
  f_code :: code
  f_message :: string
  f_operation :: string
  f_session :: string
  f_retriable :: bool
  f_details :: "(string \<times> string) list"

definition new_failure :: "code \<Rightarrow> string \<Rightarrow> string \<Rightarrow> failure" where
  "new_failure c op fmt =
     \<lparr>f_code = c, f_message = fmt, f_operation = op, f_session = [],
      f_retriable = (\<not> fatal c), f_details = []\<rparr>"

definition with_details :: "(string \<times> string) list \<Rightarrow> failure \<Rightarrow> failure" where
  "with_details ds f = f\<lparr>f_details := ds\<rparr>"

definition failure_error :: "failure option \<Rightarrow> string" where
  "failure_error fo =
     (case fo of
        None \<Rightarrow> ''result: nil failure''
      | Some f \<Rightarrow>
          if f_operation f \<noteq> [] then
            f_operation f @ '': '' @ code_string (f_code f) @ '': '' @ f_message f
          else code_string (f_code f) @ '': '' @ f_message f)"

lemma new_failure_sel [simp]:
  "f_code (new_failure c op m) = c" "f_operation (new_failure c op m) = op"
  "f_message (new_failure c op m) = m" "f_details (new_failure c op m) = []"
  "f_session (new_failure c op m) = []" "f_retriable (new_failure c op m) = (\<not> fatal c)"
  by (simp_all add: new_failure_def)

lemma with_details_sel [simp]:
  "f_code (with_details ds f) = f_code f" "f_operation (with_details ds f) = f_operation f"
  "f_message (with_details ds f) = f_message f" "f_details (with_details ds f) = ds"
  by (simp_all add: with_details_def)

text \<open>
  A Go \<open>error\<close>: a typed failure, the sentinel an engine wraps for a container it does
  not hold, or any other error, of which only the text is known.
\<close>

datatype goerr =
    Typed failure
  | EngineNotFound string
  | PlainErr string

definition err_code :: "goerr \<Rightarrow> code option" where
  "err_code e = (case e of Typed f \<Rightarrow> Some (f_code f) | _ \<Rightarrow> None)"

abbreviation usage :: "string \<Rightarrow> string \<Rightarrow> goerr" where
  "usage op m \<equiv> Typed (new_failure UsageError op m)"

definition schema :: string where
  "schema = ''wlvision/v1''"

record 'a envelope =
  env_schema :: string
  env_ok :: bool
  env_operation :: string
  env_session :: string
  env_revision :: u64
  env_result :: "'a option"
  env_error :: "failure option"
  env_warnings :: "string list"

definition env_OK :: "string \<Rightarrow> string \<Rightarrow> u64 \<Rightarrow> 'a \<Rightarrow> 'a envelope" where
  "env_OK op sess revn v =
     \<lparr>env_schema = schema, env_ok = True, env_operation = op, env_session = sess,
      env_revision = revn, env_result = Some v, env_error = None, env_warnings = []\<rparr>"

definition env_Fail :: "string \<Rightarrow> string \<Rightarrow> failure option \<Rightarrow> 'a envelope" where
  "env_Fail op sess f =
     \<lparr>env_schema = schema, env_ok = False, env_operation = op, env_session = sess,
      env_revision = 0, env_result = None, env_error = f, env_warnings = []\<rparr>"

text \<open>
  The terminal rendering. \<open>body\<close> is the marshalled result of \<open>humanResult\<close>, which is
  \<open>encoding/json\<close>'s: \<open>None\<close> when it cannot be marshalled.
\<close>

definition newline :: string where
  "newline = [char_of (10::nat)]"

definition render_human_failure :: "failure option \<Rightarrow> goerr + string" where
  "render_human_failure fo =
     (case fo of
        None \<Rightarrow> Inl (PlainErr ''result: failure envelope without an error'')
      | Some f \<Rightarrow>
          Inr (''error: '' @ code_string (f_code f) @ '': '' @ f_message f @ newline @
               (case map_of (f_details f) ''hint'' of
                  Some h \<Rightarrow> if h \<noteq> [] then ''hint: '' @ h @ newline else []
                | None \<Rightarrow> [])))"

definition render_human :: "('a option \<Rightarrow> string option) \<Rightarrow> 'a envelope \<Rightarrow> goerr + string" where
  "render_human human_result env =
     (if \<not> env_ok env then render_human_failure (env_error env)
      else (case human_result (env_result env) of
              None \<Rightarrow> Inl (PlainErr ''result: rendering %s: %w'')
            | Some body \<Rightarrow>
                Inr (''ok'' @
                     (if env_operation env \<noteq> [] then '': '' @ env_operation env else []) @
                     newline @ body)))"

section \<open>The exit status contract\<close>

lemma exit_code_range: "exit_code c \<in> {2, 3, 4, 5}"
  by (cases c) auto

lemma all_codes_complete: "c \<in> set all_codes \<longleftrightarrow> (\<nexists>s. c = OtherCode s)"
  by (cases c) (auto simp: all_codes_def)

lemma code_string_inj: "inj_on code_string (set all_codes)"
  by (simp add: all_codes_def inj_on_def)

text \<open>
  The exit status a code selects is 2 exactly for a usage error, 5 exactly for a
  timeout, 3 exactly for the five missing prerequisites, and 4 for everything else, an
  undeclared code included; so no failure exits with the status of success, and the
  declared codes have pairwise different names.
\<close>

lemma exit_code_contract:
  "(exit_code c = 2 \<longleftrightarrow> c = UsageError) \<and>
   (exit_code c = 5 \<longleftrightarrow> c = WaitTimeout) \<and>
   (exit_code c = 3 \<longleftrightarrow> c \<in> {EngineUnavailable, EngineNotRootless, ProtectionDegraded,
      ImageUnavailable, WestonProtocolMismatch}) \<and>
   exit_code (OtherCode s) = 4 \<and> exit_code c \<noteq> 0 \<and>
   inj_on code_string (set all_codes)"
  by (cases c) (simp_all add: code_string_inj)

end
