(* ===== verification/Engine.thy ===== *)
theory Engine
  imports Results
begin

text \<open>
  The container engine boundary (\<open>internal/engine\<close>): what an engine can enforce, the
  specification of a session container, the argument list that is its isolation
  contract, and the two command-line adapters. Running a command is the parameter
  \<open>run\<close>: from the world and an argument list, what the command wrote, how it ended, and
  the next world. Standard error arrives in chunks, as a process writes it. Decoding an
  engine's JSON reports is \<open>encoding/json\<close>'s and is a parameter of the operations that
  read one.
\<close>

section \<open>Capabilities\<close>

datatype kind = KindDocker | KindPodman

record capabilities =
  cap_kind :: kind
  cap_context :: string
  cap_server_version :: string
  cap_rootless :: bool
  cap_seccomp :: string
  cap_cgroup_version :: string
  cap_cgroup_driver :: string
  cap_memory_limit :: bool
  cap_pids_limit :: bool

record limits =
  lim_memory_bytes :: int
  lim_pids :: int
  lim_file_size_bytes :: int
  lim_open_files :: int

definition degradation_cgroup_v1 :: string where
  "degradation_cgroup_v1 = ''cgroup_v1''"

definition degradation_memory :: string where
  "degradation_memory = ''memory_limit_unavailable''"

definition degradation_pids :: string where
  "degradation_pids = ''pids_limit_unavailable''"

definition validate_capabilities :: "capabilities \<Rightarrow> goerr option" where
  "validate_capabilities c =
     (if \<not> cap_rootless c then
        Some (Typed (new_failure EngineNotRootless ''engine.capabilities''
          ''the container engine runs as root; wlvision requires a rootless engine and has no override''))
      else if cap_seccomp c = [] then
        Some (Typed (with_details [(''missing'', ''seccomp'')]
          (new_failure ProtectionDegraded ''engine.capabilities''
            ''the container engine provides no seccomp profile, so a session cannot be confined'')))
      else None)"

definition degradations :: "capabilities \<Rightarrow> string list" where
  "degradations c =
     (if cap_cgroup_version c \<noteq> [] \<and> cap_cgroup_version c \<noteq> ''2'' then [degradation_cgroup_v1] else []) @
     (if \<not> cap_memory_limit c then [degradation_memory] else []) @
     (if \<not> cap_pids_limit c then [degradation_pids] else [])"

definition missing_limits :: "capabilities \<Rightarrow> limits \<Rightarrow> string list" where
  "missing_limits c l =
     (if 0 < lim_memory_bytes l \<and> \<not> cap_memory_limit c then [degradation_memory] else []) @
     (if 0 < lim_pids l \<and> \<not> cap_pids_limit c then [degradation_pids] else [])"

section \<open>The session container\<close>

record tmpfs =
  tm_path :: string
  tm_size_bytes :: int
  tm_mode :: nat
  tm_exec :: bool

record create_spec =
  cs_image :: string
  cs_name :: string
  cs_session :: string
  cs_control_uid :: nat
  cs_control_gid :: nat
  cs_application_uid :: nat
  cs_application_gid :: nat
  cs_command :: "string list"
  cs_tmpfs :: "tmpfs list"
  cs_limits :: limits

definition bad_mount :: "tmpfs \<Rightarrow> bool" where
  "bad_mount m \<longleftrightarrow> \<not> has_prefix (tm_path m) ''/'' \<or> tm_size_bytes m \<le> 0"

definition validate_create :: "create_spec \<Rightarrow> goerr option" where
  "validate_create s =
     (if cs_image s = [] then Some (usage ''engine.create'' ''a session image is required'')
      else if cs_name s = [] then Some (usage ''engine.create'' ''a container name is required'')
      else if cs_session s = [] then
        Some (usage ''engine.create'' ''a session identifier is required'')
      else if cs_command s = [] then
        Some (usage ''engine.create'' ''the session needs a supervisor command'')
      else if cs_control_uid s = cs_application_uid s then
        Some (usage ''engine.create'' ''the control and application identities must differ'')
      else if list_ex bad_mount (cs_tmpfs s) then
        Some (usage ''engine.create'' ''tmpfs mount %q needs an absolute path and a size'')
      else None)"

fun octal :: "nat \<Rightarrow> string" where
  "octal n = (if n < 8 then [char_of (48 + n)] else octal (n div 8) @ [char_of (48 + n mod 8)])"

declare octal.simps [simp del]

definition tmpfs_option :: "tmpfs \<Rightarrow> string" where
  "tmpfs_option m =
     join_with (CHR '','')
       [''rw'', ''size='' @ dec_int (tm_size_bytes m), ''mode=0'' @ octal (tm_mode m),
        (if tm_exec m then ''exec'' else ''noexec''), ''nosuid'', ''nodev'']"

definition opt_args :: "bool \<Rightarrow> string list \<Rightarrow> string list" where
  "opt_args b xs = (if b then xs else [])"

definition create_args :: "create_spec \<Rightarrow> string list" where
  "create_args s =
     [''create'',
      ''--name'', cs_name s,
      ''--label'', ''wlvision.session='' @ cs_session s,
      ''--network'', ''none'',
      ''--read-only'',
      ''--cap-drop'', ''ALL'',
      ''--security-opt'', ''no-new-privileges'',
      ''--user'', dec_nat (cs_control_uid s) @ '':'' @ dec_nat (cs_control_gid s)] @
     opt_args (0 < lim_memory_bytes (cs_limits s))
       [''--memory'', dec_int (lim_memory_bytes (cs_limits s))] @
     opt_args (0 < lim_pids (cs_limits s)) [''--pids-limit'', dec_int (lim_pids (cs_limits s))] @
     opt_args (0 < lim_file_size_bytes (cs_limits s))
       [''--ulimit'', ''fsize='' @ dec_int (lim_file_size_bytes (cs_limits s))] @
     opt_args (0 < lim_open_files (cs_limits s))
       [''--ulimit'', ''nofile='' @ dec_int (lim_open_files (cs_limits s))] @
     concat (map (\<lambda>m. [''--tmpfs'', tm_path m @ '':'' @ tmpfs_option m]) (cs_tmpfs s)) @
     [''-e'', ''WLVISION_SESSION='' @ cs_session s,
      ''-e'', ''WLVISION_CONTROL_UID='' @ dec_nat (cs_control_uid s),
      ''-e'', ''WLVISION_APPLICATION_UID='' @ dec_nat (cs_application_uid s),
      cs_image s] @
     cs_command s"

record build_spec =
  bs_context :: string
  bs_containerfile :: string
  bs_tag :: string
  bs_network :: bool

definition validate_build_spec :: "build_spec \<Rightarrow> goerr option" where
  "validate_build_spec s =
     (if bs_context s = [] \<or> \<not> is_abs (bs_context s) then
        Some (usage ''engine.build'' ''the build context must be an absolute directory'')
      else if bs_tag s = [] then Some (usage ''engine.build'' ''an image tag is required'')
      else if bs_containerfile s = [] then
        Some (usage ''engine.build'' ''a Containerfile name is required'')
      else if is_abs (bs_containerfile s) \<or> bs_containerfile s = ''.'' \<or>
          bs_containerfile s = ''..'' \<or>
          list_ex (\<lambda>c. c = slash \<or> c = CHR '':'' \<or> c = CHR 0x5C) (bs_containerfile s) then
        Some (usage ''engine.build'' ''the Containerfile %q is not a name inside the build context'')
      else None)"

text \<open>
  \<open>isFlagLike\<close> on ASCII: letters and digits are those of Unicode in the source, so a byte
  above 127 is taken for a letter here.
\<close>

definition flag_char_ok :: "char \<Rightarrow> bool" where
  "flag_char_ok c \<longleftrightarrow> c = CHR ''-'' \<or> is_lower c \<or> is_upper c \<or> is_digit c \<or> c = CHR ''_'' \<or>
     c = CHR ''.'' \<or> (128::nat) \<le> of_char c"

definition is_flag_like :: "string \<Rightarrow> bool" where
  "is_flag_like v \<longleftrightarrow> v = [] \<or> v = ''-'' \<or> has_prefix v ''--'' \<or> \<not> list_all flag_char_ok v"

section \<open>Running engine commands\<close>

datatype cmd_err = CmdExit nat | CmdDeadline | CmdFail string

record cmd_out =
  co_err :: "cmd_err option"
  co_stdout :: string
  co_stderr :: "string list"

type_synonym 'w runner = "string list \<Rightarrow> 'w \<Rightarrow> cmd_out \<times> 'w"

definition max_stderr_details :: nat where
  "max_stderr_details = 4096"

definition bounded_write :: "nat \<Rightarrow> string \<Rightarrow> string \<Rightarrow> string" where
  "bounded_write limit buf p =
     (if limit \<le> length buf then buf
      else
        let room = limit - length buf in
        if length p \<le> room then buf @ p
        else if room \<le> 3 then buf
        else buf @ take (room - 3) p @ ''...'')"

definition stderr_copy :: "string list \<Rightarrow> string" where
  "stderr_copy chunks = foldl (bounded_write max_stderr_details) [] chunks"

definition command_failure :: "string \<Rightarrow> string \<Rightarrow> cmd_err \<Rightarrow> failure" where
  "command_failure op stderr err =
     (let s = trim_space stderr;
          f = (if err = CmdDeadline
               then new_failure WaitTimeout op ''the container engine did not answer in time''
               else new_failure EngineUnavailable op ''the container engine command failed: %v'')
      in if s \<noteq> [] then with_details [(''stderr'', s)] f else f)"

definition to_lower :: "string \<Rightarrow> string" where
  "to_lower s = map (\<lambda>c. if is_upper c then char_of (of_char c + 32 :: nat) else c) s"

definition missing_container :: "goerr \<Rightarrow> string \<Rightarrow> goerr" where
  "missing_container err i =
     (case err of
        Typed f \<Rightarrow>
          if f_code f \<noteq> EngineUnavailable then err
          else
            let s = to_lower (case map_of (f_details f) ''stderr'' of None \<Rightarrow> [] | Some t \<Rightarrow> t) in
            if contains_sub s ''no such object'' \<or> contains_sub s ''no such container'' \<or>
               contains_sub s ''no such image'' \<or> contains_sub s ''no container with name or id'' \<or>
               contains_sub s ''image not known'' \<or> contains_sub s ''container not known''
            then EngineNotFound i else err
      | _ \<Rightarrow> err)"

text \<open>The endpoint a command is pinned to: \<open>--context\<close> for Docker, \<open>--connection\<close> for Podman.\<close>

record adapter =
  ad_kind :: kind
  ad_endpoint :: string

definition docker_args :: "adapter \<Rightarrow> string list \<Rightarrow> string list" where
  "docker_args ad args =
     (if ad_endpoint ad = [] then args else [''--context'', ad_endpoint ad] @ args)"

definition podman_args :: "adapter \<Rightarrow> string list \<Rightarrow> string list" where
  "podman_args ad args =
     (if ad_endpoint ad = [] then args else [''--connection'', ad_endpoint ad] @ args)"

definition engine_args :: "adapter \<Rightarrow> string list \<Rightarrow> string list" where
  "engine_args ad args =
     (case ad_kind ad of KindDocker \<Rightarrow> docker_args ad args | KindPodman \<Rightarrow> podman_args ad args)"

definition new_adapter :: "kind \<Rightarrow> string \<Rightarrow> goerr + adapter" where
  "new_adapter k endpoint =
     (if endpoint \<noteq> [] \<and> is_flag_like endpoint then
        Inl (PlainErr (case k of KindDocker \<Rightarrow> ''engine: invalid context name %q''
                       | KindPodman \<Rightarrow> ''engine: invalid connection name %q''))
      else Inr \<lparr>ad_kind = k, ad_endpoint = endpoint\<rparr>)"

definition run_cmd ::
  "'w runner \<Rightarrow> adapter \<Rightarrow> string \<Rightarrow> string list \<Rightarrow> 'w \<Rightarrow> (goerr option \<times> string \<times> string) \<times> 'w" where
  "run_cmd run ad op args w =
     (let (out, w') = run (engine_args ad args) w;
          stderr = stderr_copy (co_stderr out)
      in ((map_option (\<lambda>e. Typed (command_failure op stderr e)) (co_err out),
           co_stdout out, stderr), w'))"

section \<open>The operations\<close>

definition op_create ::
  "'w runner \<Rightarrow> adapter \<Rightarrow> create_spec \<Rightarrow> 'w \<Rightarrow> (goerr + string) \<times> 'w" where
  "op_create run ad s w =
     (case validate_create s of
        Some e \<Rightarrow> (Inl e, w)
      | None \<Rightarrow>
          (case run_cmd run ad ''engine.create'' (create_args s) w of
             ((Some e, _, _), w') \<Rightarrow> (Inl e, w')
           | ((None, out, _), w') \<Rightarrow>
               if trim_space out = [] then
                 (Inl (Typed (new_failure EngineUnavailable ''engine.create''
                    ''the engine created a container but reported no identifier'')), w')
               else (Inr (trim_space out), w')))"

definition op_start :: "'w runner \<Rightarrow> adapter \<Rightarrow> string \<Rightarrow> 'w \<Rightarrow> goerr option \<times> 'w" where
  "op_start run ad i w =
     (if i = [] then (Some (usage ''engine.start'' ''a container identifier is required''), w)
      else
        (case run_cmd run ad ''engine.start'' [''start'', i] w of
           ((err, _, stderr), w') \<Rightarrow>
             if ad_kind ad = KindDocker \<and> contains_sub stderr ''is already running''
             then (None, w') else (err, w')))"

record exec_spec =
  ex_container :: string
  ex_user :: nat
  ex_workdir :: string
  ex_env :: "string list"
  ex_argv :: "string list"

definition exec_args :: "exec_spec \<Rightarrow> string list" where
  "exec_args s =
     [''exec'', ''-i'', ''--user'', dec_nat (ex_user s)] @
     opt_args (ex_workdir s \<noteq> []) [''--workdir'', ex_workdir s] @
     concat (map (\<lambda>e. [''-e'', e]) (ex_env s)) @ [ex_container s] @ ex_argv s"

record exec_result =
  xr_exit_code :: nat
  xr_stdout :: string
  xr_stderr :: string

definition op_exec ::
  "'w runner \<Rightarrow> adapter \<Rightarrow> exec_spec \<Rightarrow> 'w \<Rightarrow> (exec_result \<times> goerr option) \<times> 'w" where
  "op_exec run ad s w =
     (if ex_container s = [] \<or> ex_argv s = [] then
        ((\<lparr>xr_exit_code = 0, xr_stdout = [], xr_stderr = []\<rparr>,
          Some (usage ''engine.exec'' ''a container identifier and a command are required'')), w)
      else
        let (out, w') = run (engine_args ad (exec_args s)) w;
            stderr = concat (co_stderr out);
            res = (\<lambda>c. \<lparr>xr_exit_code = c, xr_stdout = co_stdout out, xr_stderr = stderr\<rparr>)
        in (case co_err out of
              None \<Rightarrow> ((res 0, None), w')
            | Some (CmdExit c) \<Rightarrow> ((res c, None), w')
            | Some e \<Rightarrow>
                ((res 0, Some (Typed (command_failure ''engine.exec'' (stderr_copy (co_stderr out)) e))), w')))"

definition op_stream ::
  "'w runner \<Rightarrow> adapter \<Rightarrow> exec_spec \<Rightarrow> 'w \<Rightarrow> (goerr option \<times> string \<times> string) \<times> 'w" where
  "op_stream run ad s w =
     (if ex_container s = [] \<or> ex_argv s = [] then
        ((Some (usage ''engine.stream'' ''a container identifier and a command are required''), [], []), w)
      else
        run_cmd run ad ''engine.stream''
          ([''exec'', ''-i'', ''--user'', dec_nat (ex_user s), ex_container s] @ ex_argv s) w)"

record container_state =
  cst_running :: bool
  cst_exit_code :: int
  cst_started :: int
  cst_finished :: int

record reported_state =
  rs_running :: bool
  rs_exit_code :: int
  rs_started_at :: string
  rs_finished_at :: string

definition parse_engine_time :: "(string \<Rightarrow> int option) \<Rightarrow> string \<Rightarrow> int option" where
  "parse_engine_time parse v = (if v = [] then Some 0 else parse v)"

definition op_state ::
  "(string \<Rightarrow> reported_state option) \<Rightarrow> (string \<Rightarrow> int option) \<Rightarrow> 'w runner \<Rightarrow> adapter \<Rightarrow> string \<Rightarrow> 'w \<Rightarrow>
    (goerr + container_state) \<times> 'w" where
  "op_state decode parse run ad i w =
     (let unavailable = (\<lambda>m. Inl (Typed (new_failure EngineUnavailable ''engine.state'' m))) in
      if i = [] then (Inl (usage ''engine.state'' ''a container identifier is required''), w)
      else
        (case run_cmd run ad ''engine.state'' [''inspect'', ''--format'', ''{{json .State}}'', i] w of
           ((Some e, _, _), w') \<Rightarrow> (Inl (missing_container e i), w')
         | ((None, out, _), w') \<Rightarrow>
             (case decode (trim_space out) of
                None \<Rightarrow> (unavailable ''cannot read the container state: %v'', w')
              | Some rs \<Rightarrow>
                  (case parse_engine_time parse (rs_started_at rs) of
                     None \<Rightarrow> (unavailable ''the container start time is not a timestamp: %v'', w')
                   | Some t1 \<Rightarrow>
                       (case parse_engine_time parse (rs_finished_at rs) of
                          None \<Rightarrow> (unavailable ''the container finish time is not a timestamp: %v'', w')
                        | Some t2 \<Rightarrow>
                            (Inr \<lparr>cst_running = rs_running rs, cst_exit_code = rs_exit_code rs,
                                  cst_started = t1, cst_finished = t2\<rparr>, w'))))))"

definition stop_seconds :: "int \<Rightarrow> int" where
  "stop_seconds timeout_ns = max 1 (- ((- timeout_ns) div 1000000000))"

definition op_stop :: "'w runner \<Rightarrow> adapter \<Rightarrow> string \<Rightarrow> int \<Rightarrow> 'w \<Rightarrow> goerr option \<times> 'w" where
  "op_stop run ad i timeout w =
     (if i = [] then (Some (usage ''engine.stop'' ''a container identifier is required''), w)
      else
        (case run_cmd run ad ''engine.stop''
                [''stop'', ''--time'', dec_int (stop_seconds timeout), i] w of
           ((err, _, _), w') \<Rightarrow> (map_option (\<lambda>e. missing_container e i) err, w')))"

definition op_remove :: "'w runner \<Rightarrow> adapter \<Rightarrow> string \<Rightarrow> 'w \<Rightarrow> goerr option \<times> 'w" where
  "op_remove run ad i w =
     (if i = [] then (Some (usage ''engine.remove'' ''a container identifier is required''), w)
      else
        (case run_cmd run ad ''engine.remove'' [''rm'', ''--force'', i] w of
           ((err, _, _), w') \<Rightarrow> (map_option (\<lambda>e. missing_container e i) err, w')))"

definition op_logs ::
  "'w runner \<Rightarrow> adapter \<Rightarrow> string \<Rightarrow> int \<Rightarrow> 'w \<Rightarrow> (goerr option \<times> string) \<times> 'w" where
  "op_logs run ad i tail w =
     (if i = [] then
        ((Some (usage ''engine.logs'' ''a container identifier and a writer are required''), []), w)
      else if tail \<le> 0 then
        ((Some (usage ''engine.logs'' ''a positive tail is required''), []), w)
      else
        (case run_cmd run ad ''engine.logs'' [''logs'', ''--tail'', dec_int tail, i] w of
           ((err, out, _), w') \<Rightarrow> ((err, out), w')))"

section \<open>Images\<close>

definition canonical_image_id :: "string \<Rightarrow> string" where
  "canonical_image_id reported =
     (let i = trim_space reported
      in if i = [] \<or> contains_sub i '':'' then i else ''sha256:'' @ i)"

definition op_image_id :: "'w runner \<Rightarrow> adapter \<Rightarrow> string \<Rightarrow> 'w \<Rightarrow> (goerr + string) \<times> 'w" where
  "op_image_id run ad ref w =
     (if ref = [] \<or> has_prefix ref ''-'' then
        (Inl (usage ''engine.image_id'' ''an image reference is required''), w)
      else
        (case run_cmd run ad ''engine.image_id''
                [''image'', ''inspect'', ''--format'', ''{{.Id}}'', ref] w of
           ((Some e, _, _), w') \<Rightarrow> (Inl (missing_container e ref), w')
         | ((None, out, _), w') \<Rightarrow>
             if canonical_image_id out = [] then
               (Inl (Typed (new_failure ImageUnavailable ''engine.image_id''
                  ''the engine holds %q but reported no image identifier'')), w')
             else (Inr (canonical_image_id out), w')))"

definition build_network :: "kind \<Rightarrow> bool \<Rightarrow> string" where
  "build_network k net =
     (if net then (case k of KindDocker \<Rightarrow> ''default'' | KindPodman \<Rightarrow> ''private'') else ''none'')"

definition build_args :: "kind \<Rightarrow> build_spec \<Rightarrow> string list" where
  "build_args k s =
     [''build'', ''--network='' @ build_network k (bs_network s),
      ''--file'', path_join (bs_context s) (bs_containerfile s),
      ''--tag'', bs_tag s, bs_context s]"

definition op_build :: "'w runner \<Rightarrow> adapter \<Rightarrow> build_spec \<Rightarrow> 'w \<Rightarrow> (goerr + string) \<times> 'w" where
  "op_build run ad s w =
     (case validate_build_spec s of
        Some e \<Rightarrow> (Inl e, w)
      | None \<Rightarrow>
          let (out, w1) = run (engine_args ad (build_args (ad_kind ad) s)) w;
              output = trim_space (stderr_copy (co_stderr out))
          in (case co_err out of
                Some _ \<Rightarrow>
                  (Inl (Typed (with_details (if output \<noteq> [] then [(''build_output'', output)] else [])
                     (new_failure ImageUnavailable ''engine.build''
                       ''the engine could not build %s: %v''))), w1)
              | None \<Rightarrow>
                  (case run_cmd run ad ''engine.build''
                          [''image'', ''inspect'', ''--format'', ''{{.Id}}'', bs_tag s] w1 of
                     ((Some e, _, _), w2) \<Rightarrow> (Inl e, w2)
                   | ((None, o2, _), w2) \<Rightarrow>
                       if canonical_image_id o2 = [] then
                         (Inl (Typed (new_failure ImageUnavailable ''engine.build''
                            ''the engine built %s but reported no image identifier'')), w2)
                       else (Inr (canonical_image_id o2), w2))))"

section \<open>Capability reports\<close>

text \<open>\<open>strings.Cut\<close> at one byte, and \<open>strings.Fields\<close> on ASCII white space.\<close>

definition cut_at :: "char \<Rightarrow> string \<Rightarrow> (string \<times> string) option" where
  "cut_at c s =
     (if c \<in> set s then Some (takeWhile (\<lambda>x. x \<noteq> c) s, drop 1 (dropWhile (\<lambda>x. x \<noteq> c) s))
      else None)"

fun fields_acc :: "string \<Rightarrow> string \<Rightarrow> string list" where
  "fields_acc acc [] = (if acc = [] then [] else [rev acc])"
| "fields_acc acc (c # s) =
     (if is_space c then (if acc = [] then fields_acc [] s else rev acc # fields_acc [] s)
      else fields_acc (c # acc) s)"

definition str_fields :: "string \<Rightarrow> string list" where
  "str_fields s = fields_acc [] s"

definition parse_security_option :: "string \<Rightarrow> (string \<rightharpoonup> string)" where
  "parse_security_option opt =
     foldl (\<lambda>m pair. case cut_at (CHR ''='') pair of
              None \<Rightarrow> m
            | Some (k, v) \<Rightarrow> m(trim_space k \<mapsto> trim_space v))
       Map.empty (split_on (CHR '','') opt)"

definition go_get :: "(string \<rightharpoonup> string) \<Rightarrow> string \<Rightarrow> string" where
  "go_get m k = (case m k of None \<Rightarrow> [] | Some v \<Rightarrow> v)"

record docker_info =
  di_server_version :: string
  di_security_options :: "string list"
  di_cgroup_version :: string
  di_cgroup_driver :: string
  di_memory_limit :: bool
  di_pids_limit :: bool

definition docker_option :: "capabilities \<Rightarrow> string \<Rightarrow> capabilities" where
  "docker_option c opt =
     (let fields = parse_security_option opt in
      if go_get fields ''name'' = ''rootless'' then c\<lparr>cap_rootless := True\<rparr>
      else if go_get fields ''name'' = ''seccomp'' then
        c\<lparr>cap_seccomp := (if go_get fields ''profile'' = [] then ''default''
                           else go_get fields ''profile'')\<rparr>
      else c)"

definition docker_report :: "string \<Rightarrow> docker_info \<Rightarrow> capabilities" where
  "docker_report name info =
     foldl docker_option
       \<lparr>cap_kind = KindDocker, cap_context = name, cap_server_version = di_server_version info,
        cap_rootless = False, cap_seccomp = [], cap_cgroup_version = di_cgroup_version info,
        cap_cgroup_driver = di_cgroup_driver info, cap_memory_limit = di_memory_limit info,
        cap_pids_limit = di_pids_limit info\<rparr>
       (di_security_options info)"

definition docker_context_name :: "'w runner \<Rightarrow> adapter \<Rightarrow> 'w \<Rightarrow> (goerr + string) \<times> 'w" where
  "docker_context_name run ad w =
     (if ad_endpoint ad \<noteq> [] then (Inr (ad_endpoint ad), w)
      else
        (case run_cmd run ad ''engine.capabilities'' [''context'', ''show''] w of
           ((Some e, _, _), w') \<Rightarrow> (Inl e, w')
         | ((None, out, _), w') \<Rightarrow>
             if trim_space out = [] then
               (Inl (Typed (new_failure EngineUnavailable ''engine.capabilities''
                  ''the engine reports no current context'')), w')
             else (Inr (trim_space out), w')))"

definition checked :: "capabilities \<Rightarrow> goerr + capabilities" where
  "checked c = (case validate_capabilities c of Some e \<Rightarrow> Inl e | None \<Rightarrow> Inr c)"

definition unreadable_report :: goerr where
  "unreadable_report =
     Typed (new_failure EngineUnavailable ''engine.capabilities''
       ''cannot read the engine report: %v'')"

definition docker_capabilities ::
  "(string \<Rightarrow> docker_info option) \<Rightarrow> 'w runner \<Rightarrow> adapter \<Rightarrow> 'w \<Rightarrow> (goerr + capabilities) \<times> 'w" where
  "docker_capabilities decode run ad w =
     (case docker_context_name run ad w of
        (Inl e, w1) \<Rightarrow> (Inl e, w1)
      | (Inr name, w1) \<Rightarrow>
          (case run_cmd run \<lparr>ad_kind = KindDocker, ad_endpoint = name\<rparr> ''engine.capabilities''
                  [''info'', ''--format'', ''{{json .}}''] w1 of
             ((Some e, _, _), w2) \<Rightarrow> (Inl e, w2)
           | ((None, out, _), w2) \<Rightarrow>
               (case decode out of
                  None \<Rightarrow> (Inl unreadable_report, w2)
                | Some info \<Rightarrow> (checked (docker_report name info), w2))))"

datatype controllers = NoControllers | ControllerList "string list" | ControllerText string

record podman_info =
  pi_version :: string
  pi_rootless :: bool
  pi_seccomp_enabled :: bool
  pi_seccomp_path :: string
  pi_cgroup_version :: string
  pi_cgroup_manager :: string
  pi_controllers :: controllers

definition canonical_cgroup_version :: "string \<Rightarrow> string" where
  "canonical_cgroup_version reported =
     (let s = trim_space reported in if has_prefix s ''v'' then drop 1 s else s)"

fun podman_controllers :: "controllers \<Rightarrow> string list" where
  "podman_controllers NoControllers = []"
| "podman_controllers (ControllerList cs) = cs"
| "podman_controllers (ControllerText t) = str_fields t"

definition podman_context_name :: "adapter \<Rightarrow> string" where
  "podman_context_name ad = (if ad_endpoint ad \<noteq> [] then ad_endpoint ad else ''local'')"

definition podman_report :: "string \<Rightarrow> podman_info \<Rightarrow> capabilities" where
  "podman_report name info =
     \<lparr>cap_kind = KindPodman, cap_context = name, cap_server_version = pi_version info,
      cap_rootless = pi_rootless info,
      cap_seccomp =
        (if pi_seccomp_enabled info \<and>
            \<not> contains_sub (to_lower (trim_space (pi_seccomp_path info))) ''unconfined''
         then ''default'' else []),
      cap_cgroup_version = canonical_cgroup_version (pi_cgroup_version info),
      cap_cgroup_driver = pi_cgroup_manager info,
      cap_memory_limit = ''memory'' \<in> set (podman_controllers (pi_controllers info)),
      cap_pids_limit = ''pids'' \<in> set (podman_controllers (pi_controllers info))\<rparr>"

definition podman_capabilities ::
  "(string \<Rightarrow> podman_info option) \<Rightarrow> 'w runner \<Rightarrow> adapter \<Rightarrow> 'w \<Rightarrow> (goerr + capabilities) \<times> 'w" where
  "podman_capabilities decode run ad w =
     (case run_cmd run ad ''engine.capabilities'' [''info'', ''--format'', ''json''] w of
        ((Some e, _, _), w') \<Rightarrow> (Inl e, w')
      | ((None, out, _), w') \<Rightarrow>
          (case decode out of
             None \<Rightarrow> (Inl unreadable_report, w')
           | Some info \<Rightarrow> (checked (podman_report (podman_context_name ad) info), w')))"

section \<open>How a process ended\<close>

text \<open>
  \<open>CLIRunner.Run\<close>. \<open>ProcExit\<close> carries \<open>ProcessState.ExitCode\<close>, which is -1 for a process a
  signal ended; \<open>os/exec\<close> reports that state, and not the context's error, also for a
  process it killed because the deadline passed.
\<close>

datatype proc_end = ProcOk | ProcExit int | ProcNotStarted bool

definition cli_run :: "proc_end \<Rightarrow> cmd_err option" where
  "cli_run p =
     (case p of
        ProcOk \<Rightarrow> None
      | ProcExit c \<Rightarrow> Some (if 0 < c then CmdExit (nat c) else CmdFail ''signal: killed'')
      | ProcNotStarted deadline \<Rightarrow>
          Some (if deadline then CmdDeadline else CmdFail ''exec: not started''))"

section \<open>Facts\<close>

lemma checked_Inr:
  "checked c = Inr d \<longleftrightarrow> d = c \<and> cap_rootless c \<and> cap_seccomp c \<noteq> []"
  by (auto simp: checked_def validate_capabilities_def)

lemma bounded_write_length:
  "length buf \<le> limit \<Longrightarrow> length (bounded_write limit buf p) \<le> limit"
  by (auto simp: bounded_write_def Let_def)

interpretation stderr_buffer: invariant_machine "bounded_write n" "\<lambda>buf. length buf \<le> n" for n
  by unfold_locales (rule bounded_write_length)

lemma stderr_copy_length: "length (stderr_copy chunks) \<le> max_stderr_details"
  unfolding stderr_copy_def by (rule stderr_buffer.inv_run) simp

lemma stderr_copy_fits:
  "length (concat chunks) + length buf \<le> n \<Longrightarrow>
    foldl (bounded_write n) buf chunks = buf @ concat chunks"
proof (induction chunks arbitrary: buf)
  case (Cons c cs)
  then have "bounded_write n buf c = buf @ c"
    by (auto simp: bounded_write_def Let_def)
  then show ?case using Cons.IH [of "buf @ c"] Cons.prems by simp
qed simp

lemma trim_space_length: "length (trim_space s) \<le> length s"
proof -
  have "length (dropWhile is_space (rev (dropWhile is_space s))) \<le> length (dropWhile is_space s)"
    by (metis length_dropWhile_le length_rev)
  also have "\<dots> \<le> length s" by (rule length_dropWhile_le)
  finally show ?thesis by (simp add: trim_space_def)
qed

lemma missing_container_cases:
  "missing_container e i = e \<or> missing_container e i = EngineNotFound i"
  by (cases e) (auto simp: missing_container_def Let_def)

lemma run_cmd_failure:
  "run_cmd run ad op args w = ((Some e, out, err), w') \<Longrightarrow>
    \<exists>f. e = Typed f \<and> f_operation f = op \<and> f_code f \<in> {EngineUnavailable, WaitTimeout} \<and>
      (\<forall>(k, v) \<in> set (f_details f). k = ''stderr'' \<and> length v \<le> max_stderr_details)"
  by (auto simp: run_cmd_def command_failure_def Let_def split: prod.splits if_splits
      intro: order_trans [OF trim_space_length stderr_copy_length])

subsection \<open>The shape of the create command\<close>

text \<open>
  The options of a create command, each with its values: what \<open>create_args\<close> is, grouped.
\<close>

definition create_groups :: "create_spec \<Rightarrow> string list list" where
  "create_groups s =
     [[''--name'', cs_name s], [''--label'', ''wlvision.session='' @ cs_session s],
      [''--network'', ''none''], [''--read-only''], [''--cap-drop'', ''ALL''],
      [''--security-opt'', ''no-new-privileges''],
      [''--user'', dec_nat (cs_control_uid s) @ '':'' @ dec_nat (cs_control_gid s)]] @
     (if 0 < lim_memory_bytes (cs_limits s)
      then [[''--memory'', dec_int (lim_memory_bytes (cs_limits s))]] else []) @
     (if 0 < lim_pids (cs_limits s)
      then [[''--pids-limit'', dec_int (lim_pids (cs_limits s))]] else []) @
     (if 0 < lim_file_size_bytes (cs_limits s)
      then [[''--ulimit'', ''fsize='' @ dec_int (lim_file_size_bytes (cs_limits s))]] else []) @
     (if 0 < lim_open_files (cs_limits s)
      then [[''--ulimit'', ''nofile='' @ dec_int (lim_open_files (cs_limits s))]] else []) @
     map (\<lambda>m. [''--tmpfs'', tm_path m @ '':'' @ tmpfs_option m]) (cs_tmpfs s) @
     [[''-e'', ''WLVISION_SESSION='' @ cs_session s],
      [''-e'', ''WLVISION_CONTROL_UID='' @ dec_nat (cs_control_uid s)],
      [''-e'', ''WLVISION_APPLICATION_UID='' @ dec_nat (cs_application_uid s)]]"

lemma create_args_groups:
  "create_args s = ''create'' # concat (create_groups s) @ cs_image s # cs_command s"
  by (simp add: create_args_def create_groups_def opt_args_def)

definition allowed_options :: "string list" where
  "allowed_options =
     [''--name'', ''--label'', ''--network'', ''--read-only'', ''--cap-drop'', ''--security-opt'',
      ''--user'', ''--memory'', ''--pids-limit'', ''--ulimit'', ''--tmpfs'', ''-e'']"

lemma create_groups_heads: "g \<in> set (create_groups s) \<Longrightarrow> g \<noteq> [] \<and> hd g \<in> set allowed_options"
  by (auto simp: create_groups_def allowed_options_def split: if_splits)

lemma create_groups_tmpfs:
  assumes "g \<in> set (create_groups s)" and "hd g = ''--tmpfs''"
  shows "\<exists>m \<in> set (cs_tmpfs s). g = [''--tmpfs'', tm_path m @ '':'' @ tmpfs_option m]"
proof -
  have "g \<in> (\<lambda>m. [''--tmpfs'', tm_path m @ '':'' @ tmpfs_option m]) ` set (cs_tmpfs s)"
    using assms by (simp add: create_groups_def split: if_splits) (elim disjE, simp_all)
  then show ?thesis by blast
qed

lemma create_groups_fixed:
  assumes "g \<in> set (create_groups s)"
  shows "hd g = ''--network'' \<longrightarrow> g = [''--network'', ''none'']"
    and "hd g = ''--security-opt'' \<longrightarrow> g = [''--security-opt'', ''no-new-privileges'']"
proof -
  have tm: "hd x = ''--tmpfs'' \<and> x = g" if "x = g" "g \<in> (\<lambda>m. [''--tmpfs'', tm_path m @ '':'' @ tmpfs_option m]) ` M"
    for x M
    using that by auto
  show "hd g = ''--network'' \<longrightarrow> g = [''--network'', ''none'']"
    using assms tm [OF refl] by (simp add: create_groups_def split: if_splits) (elim disjE, simp_all)
  show "hd g = ''--security-opt'' \<longrightarrow> g = [''--security-opt'', ''no-new-privileges'']"
    using assms tm [OF refl] by (simp add: create_groups_def split: if_splits) (elim disjE, simp_all)
qed

lemma tmpfs_option_suffix: "has_suffix (tmpfs_option m) '',nosuid,nodev''"
proof -
  have "\<exists>p. tmpfs_option m = p @ '',nosuid,nodev''"
    by (simp add: tmpfs_option_def)
  then obtain p where "tmpfs_option m = p @ '',nosuid,nodev''" ..
  then show ?thesis by (simp add: has_suffix_def)
qed

section \<open>Properties\<close>

text \<open>
  C5. The isolation contract of a session container. The argument list an engine is
  given is \<open>create\<close>, then options from a closed list, then the image and the supervisor
  command. Whatever the specification says, the network is none, the root is read-only,
  every capability is dropped, privileges cannot be gained, every mount is a tmpfs with
  setuid and devices denied, and the two identities differ; no option outside the list
  (a bind mount, a device, a capability, a privileged mode) is ever among them.
\<close>

theorem create_args_isolated:
  assumes "validate_create s = None"
  shows "create_args s = ''create'' # concat (create_groups s) @ cs_image s # cs_command s \<and>
    {[''--network'', ''none''], [''--read-only''], [''--cap-drop'', ''ALL''],
     [''--security-opt'', ''no-new-privileges'']} \<subseteq> set (create_groups s) \<and>
    (\<forall>g \<in> set (create_groups s). hd g \<in> set allowed_options \<and>
       (hd g = ''--network'' \<longrightarrow> g = [''--network'', ''none'']) \<and>
       (hd g = ''--security-opt'' \<longrightarrow> g = [''--security-opt'', ''no-new-privileges'']) \<and>
       (hd g = ''--tmpfs'' \<longrightarrow> (\<exists>m \<in> set (cs_tmpfs s). has_prefix (tm_path m) ''/'' \<and>
          0 < tm_size_bytes m \<and> g = [''--tmpfs'', tm_path m @ '':'' @ tmpfs_option m] \<and>
          has_suffix (tmpfs_option m) '',nosuid,nodev''))) \<and>
    cs_control_uid s \<noteq> cs_application_uid s"
proof -
  have mounts: "has_prefix (tm_path m) ''/'' \<and> 0 < tm_size_bytes m" if "m \<in> set (cs_tmpfs s)" for m
    using assms that by (auto simp: validate_create_def bad_mount_def list_ex_iff split: if_splits)
  have uid: "cs_control_uid s \<noteq> cs_application_uid s"
    using assms by (auto simp: validate_create_def split: if_splits)
  have tm: "hd g = ''--tmpfs'' \<longrightarrow> (\<exists>m \<in> set (cs_tmpfs s). has_prefix (tm_path m) ''/'' \<and>
          0 < tm_size_bytes m \<and> g = [''--tmpfs'', tm_path m @ '':'' @ tmpfs_option m] \<and>
          has_suffix (tmpfs_option m) '',nosuid,nodev'')" if "g \<in> set (create_groups s)" for g
    using create_groups_tmpfs [OF that] mounts tmpfs_option_suffix by blast
  note fixed = create_groups_fixed
  have "{[''--network'', ''none''], [''--read-only''], [''--cap-drop'', ''ALL''],
     [''--security-opt'', ''no-new-privileges'']} \<subseteq> set (create_groups s)"
    by (simp add: create_groups_def)
  then show ?thesis
    using create_args_groups create_groups_heads uid tm fixed by (intro conjI ballI) simp_all
qed

definition demo_spec :: create_spec where
  "demo_spec =
     \<lparr>cs_image = ''img'', cs_name = ''wlvision-demo'', cs_session = ''demo'',
      cs_control_uid = 1000, cs_control_gid = 1000, cs_application_uid = 1001,
      cs_application_gid = 1001, cs_command = [''/usr/libexec/wlvision-supervisor''],
      cs_tmpfs = [\<lparr>tm_path = ''/tmp'', tm_size_bytes = 1024, tm_mode = 1023, tm_exec = False\<rparr>],
      cs_limits = \<lparr>lim_memory_bytes = 1, lim_pids = 0, lim_file_size_bytes = 0, lim_open_files = 0\<rparr>\<rparr>"

theorem create_args_isolated_witness:
  "validate_create demo_spec = None \<and>
   [''--network'', ''none''] \<in> set (create_groups demo_spec)"
proof -
  have v: "validate_create demo_spec = None"
    by (simp add: validate_create_def demo_spec_def bad_mount_def has_prefix_def)
  then show ?thesis using create_args_isolated [OF v] by blast
qed

text \<open>
  An engine whose capabilities are returned at all is rootless and applies a seccomp
  profile, whatever it reported; for Podman the profile is never an unconfined one. The
  gaps of the limits a session asks for are among the gaps the engine reports.
\<close>

lemma capabilities_confine:
  "(fst (docker_capabilities dd run ad w) = Inr c \<longrightarrow> cap_rootless c \<and> cap_seccomp c \<noteq> []) \<and>
   (fst (podman_capabilities dp run ad w) = Inr c \<longrightarrow>
      cap_rootless c \<and> cap_seccomp c = ''default'') \<and>
   set (missing_limits c l) \<subseteq> set (degradations c)"
  by (auto simp: docker_capabilities_def podman_capabilities_def checked_Inr podman_report_def
      missing_limits_def degradations_def
      split: sum.splits prod.splits option.splits if_splits)

text \<open>
  What an engine command failed with: the failure names the operation, is a timeout
  or an unavailable engine, and carries at most \<open>maxStderrDetails\<close> bytes of diagnostics
  whatever the engine printed; output that fits is kept whole.
\<close>

lemma command_failure_bounded:
  "(fst (run_cmd run ad op args w) = (Some e, out, err) \<longrightarrow>
      (\<exists>f. e = Typed f \<and> f_operation f = op \<and> f_code f \<in> {EngineUnavailable, WaitTimeout} \<and>
        (\<forall>(k, v) \<in> set (f_details f). k = ''stderr'' \<and> length v \<le> max_stderr_details))) \<and>
   (length (concat chunks) \<le> max_stderr_details \<longrightarrow> stderr_copy chunks = concat chunks)"
proof -
  have "\<exists>f. e = Typed f \<and> f_operation f = op \<and> f_code f \<in> {EngineUnavailable, WaitTimeout} \<and>
        (\<forall>(k, v) \<in> set (f_details f). k = ''stderr'' \<and> length v \<le> max_stderr_details)"
    if "fst (run_cmd run ad op args w) = (Some e, out, err)"
    using that run_cmd_failure by (metis prod.collapse)
  then show ?thesis
    using stderr_copy_fits [of chunks "[]" max_stderr_details] by (auto simp: stderr_copy_def)
qed

definition demo_runner :: "unit runner" where
  "demo_runner args w = (\<lparr>co_err = Some CmdDeadline, co_stdout = [], co_stderr = [''late'']\<rparr>, w)"

definition demo_adapter :: adapter where
  "demo_adapter = \<lparr>ad_kind = KindDocker, ad_endpoint = ''rootless''\<rparr>"

lemma command_failure_bounded_witness:
  "\<exists>f. fst (run_cmd demo_runner demo_adapter ''engine.stop'' [''stop''] ()) =
      (Some (Typed f), [], ''late'') \<and> f_operation f = ''engine.stop'' \<and>
      f_code f \<in> {EngineUnavailable, WaitTimeout}"
proof -
  obtain e where e: "fst (run_cmd demo_runner demo_adapter ''engine.stop'' [''stop''] ()) =
      (Some e, [], ''late'')"
    by (simp add: run_cmd_def demo_runner_def stderr_copy_def bounded_write_def
        max_stderr_details_def Let_def)
  from command_failure_bounded [THEN conjunct1, THEN mp, OF this] e show ?thesis by auto
qed

definition demo_info :: "docker_info" where
  "demo_info =
     \<lparr>di_server_version = ''28'',
      di_security_options = [''name=seccomp,profile=unconfined'', ''name=rootless''],
      di_cgroup_version = ''2'', di_cgroup_driver = ''systemd'',
      di_memory_limit = True, di_pids_limit = False\<rparr>"

definition ok_runner :: "unit runner" where
  "ok_runner args w = (\<lparr>co_err = None, co_stdout = [], co_stderr = []\<rparr>, w)"

definition demo_caps :: capabilities where
  "demo_caps =
     \<lparr>cap_kind = KindDocker, cap_context = ''rootless'', cap_server_version = ''28'',
      cap_rootless = True, cap_seccomp = ''unconfined'', cap_cgroup_version = ''2'',
      cap_cgroup_driver = ''systemd'', cap_memory_limit = True, cap_pids_limit = False\<rparr>"

text \<open>
  A Docker daemon that runs its containers with seccomp unconfined says so in its report,
  and the adapter takes the word \<open>unconfined\<close> for the name of a profile.
\<close>

lemma demo_options:
  "parse_security_option ''name=rootless'' = [''name'' \<mapsto> ''rootless'']"
  "parse_security_option ''name=seccomp,profile=unconfined'' =
     [''name'' \<mapsto> ''seccomp'', ''profile'' \<mapsto> ''unconfined'']"
  by (simp_all add: parse_security_option_def cut_at_def trim_space_def is_space_def)

lemma demo_report: "docker_report ''rootless'' demo_info = demo_caps"
  by (simp add: docker_report_def demo_info_def demo_caps_def docker_option_def demo_options
      go_get_def Let_def)

lemma docker_unconfined_accepted:
  "fst (docker_capabilities (\<lambda>_. Some demo_info) ok_runner demo_adapter ()) = Inr demo_caps"
proof -
  have "checked demo_caps = Inr demo_caps" by (simp add: checked_Inr demo_caps_def)
  then show ?thesis
    by (simp add: docker_capabilities_def docker_context_name_def demo_adapter_def ok_runner_def
        run_cmd_def demo_report Let_def)
qed

lemma capabilities_confine_witness:
  "fst (docker_capabilities (\<lambda>_. Some demo_info) ok_runner demo_adapter ()) = Inr demo_caps \<and>
   cap_rootless demo_caps \<and> cap_seccomp demo_caps \<noteq> []"
  using capabilities_confine [of "\<lambda>_. Some demo_info" ok_runner demo_adapter "()" demo_caps]
    docker_unconfined_accepted by blast

text \<open>
  A command the deadline killed is reported as an unavailable engine: the process state
  wins over the context's error, so only a command that never started is a timeout.
\<close>

lemma killed_command_not_timeout:
  "cli_run (ProcExit (- 1)) = Some e \<Longrightarrow> f_code (command_failure op stderr e) = EngineUnavailable"
  by (auto simp: cli_run_def command_failure_def Let_def)

end
