(* ===== verification/Session_Model.thy ===== *)
theory Session_Model
  imports Engine
begin

text \<open>
  The session record and its life cycle (\<open>internal/session/model.go\<close>): the states and
  the table of accepted transitions, the record and its validation, the stamped
  transition, retention, and the reconciliation of a record with what the engine
  reports. A time is the number of nanoseconds since Go's zero time, so the zero time is
  0; a state is a Go string, so a record can hold one that is not defined.
\<close>

type_synonym time = int

section \<open>States and transitions\<close>

datatype sess_state = Creating | Ready | Running | Failed | Closing | Closed | UnknownState string

definition transitions :: "sess_state \<Rightarrow> sess_state list option" where
  "transitions s =
     (case s of
        Creating \<Rightarrow> Some [Ready, Failed, Closing]
      | Ready \<Rightarrow> Some [Running, Failed, Closing]
      | Running \<Rightarrow> Some [Ready, Failed, Closing]
      | Failed \<Rightarrow> Some [Closing, Closed]
      | Closing \<Rightarrow> Some [Closed, Failed]
      | Closed \<Rightarrow> Some []
      | UnknownState _ \<Rightarrow> None)"

definition valid_state :: "sess_state \<Rightarrow> bool" where
  "valid_state s \<longleftrightarrow> transitions s \<noteq> None"

definition can_transition :: "sess_state \<Rightarrow> sess_state \<Rightarrow> bool" where
  "can_transition s n = (case transitions s of None \<Rightarrow> False | Some cs \<Rightarrow> n \<in> set cs)"

definition terminal :: "sess_state \<Rightarrow> bool" where
  "terminal s \<longleftrightarrow> s = Closed"

definition interactive :: "sess_state \<Rightarrow> bool" where
  "interactive s \<longleftrightarrow> s = Ready \<or> s = Running"

named_theorems state_simps "the transition table, decided"

lemma can_transition_simps [simp, state_simps]:
  "can_transition Creating n \<longleftrightarrow> n = Ready \<or> n = Failed \<or> n = Closing"
  "can_transition Ready n \<longleftrightarrow> n = Running \<or> n = Failed \<or> n = Closing"
  "can_transition Running n \<longleftrightarrow> n = Ready \<or> n = Failed \<or> n = Closing"
  "can_transition Failed n \<longleftrightarrow> n = Closing \<or> n = Closed"
  "can_transition Closing n \<longleftrightarrow> n = Closed \<or> n = Failed"
  "\<not> can_transition Closed n"
  "\<not> can_transition (UnknownState u) n"
  by (auto simp: can_transition_def transitions_def)

lemma valid_state_simps [simp, state_simps]:
  "valid_state Creating" "valid_state Ready" "valid_state Running" "valid_state Failed"
  "valid_state Closing" "valid_state Closed" "\<not> valid_state (UnknownState u)"
  by (auto simp: valid_state_def transitions_def)

lemma interactive_simps [simp, state_simps]:
  "\<not> interactive Creating" "interactive Ready" "interactive Running" "\<not> interactive Failed"
  "\<not> interactive Closing" "\<not> interactive Closed" "\<not> interactive (UnknownState u)"
  by (auto simp: interactive_def)

section \<open>Records\<close>

record engine_info =
  ei_kind :: string
  ei_context :: string
  ei_server_version :: string

record process_exit =
  px_code :: int
  px_at :: time
  px_command :: "string list"

record payload =
  pl_digest :: string
  pl_path :: string
  pl_bytes :: int
  pl_received_at :: time

record sess_record =
  r_schema :: string
  r_session :: string
  r_container_id :: string
  r_container_name :: string
  r_state :: sess_state
  r_revision :: u64
  r_engine :: engine_info
  r_image :: string
  r_weston :: string
  r_limits :: limits
  r_degradations :: "string list"
  r_payloads :: "payload list"
  r_process :: "process_exit option"
  r_created_at :: time
  r_updated_at :: time
  r_retention_deadline :: time

definition id_head :: "char \<Rightarrow> bool" where
  "id_head c \<longleftrightarrow> is_lower c \<or> is_digit c"

definition id_tail :: "char \<Rightarrow> bool" where
  "id_tail c \<longleftrightarrow> id_head c \<or> c = CHR ''-''"

fun valid_session_id :: "string \<Rightarrow> bool" where
  "valid_session_id [] = False"
| "valid_session_id (c # cs) \<longleftrightarrow> id_head c \<and> length cs \<le> 62 \<and> list_all id_tail cs"

definition container_name :: "string \<Rightarrow> string" where
  "container_name i = ''wlvision-'' @ i"

definition validate_record :: "sess_record \<Rightarrow> goerr option" where
  "validate_record r =
     (if \<not> valid_session_id (r_session r) then
        Some (usage ''session.record'' ''invalid session identifier %q'')
      else if r_container_name r = [] \<or> path_base (r_container_name r) \<noteq> r_container_name r then
        Some (usage ''session.record'' ''invalid container name %q'')
      else if \<not> valid_state (r_state r) then
        Some (usage ''session.record'' ''unknown session state %q'')
      else if r_schema r \<noteq> schema then
        Some (usage ''session.record'' ''record schema %q is not %q'')
      else None)"

definition transition :: "sess_state \<Rightarrow> time \<Rightarrow> sess_record \<Rightarrow> goerr + sess_record" where
  "transition n now r =
     (if \<not> valid_state n then Inl (usage ''session.transition'' ''unknown session state %q'')
      else if \<not> can_transition (r_state r) n then
        Inl (usage ''session.transition'' ''cannot move session %q from %s to %s'')
      else Inr (r\<lparr>r_state := n, r_updated_at := now\<rparr>))"

definition expired :: "sess_record \<Rightarrow> time \<Rightarrow> bool" where
  "expired r now \<longleftrightarrow>
     \<not> (r_state r = Closed \<or> r_retention_deadline r = 0) \<and> r_retention_deadline r < now"

section \<open>Reconciliation\<close>

datatype anomaly = ContainerMissing | CreationInterrupted | ContainerRetained | ContainerStopped

record observed =
  ob_found :: bool
  ob_running :: bool

definition fail_record :: "sess_record \<Rightarrow> time \<Rightarrow> sess_record" where
  "fail_record r now =
     (if terminal (r_state r) \<or> r_state r = Closing \<or> r_state r = Failed then r
      else r\<lparr>r_state := Failed, r_updated_at := now\<rparr>)"

definition reconcile :: "sess_record \<Rightarrow> observed \<Rightarrow> time \<Rightarrow> sess_record \<times> anomaly list" where
  "reconcile r ob now =
     (if r_state r = Closed then
        (r, if ob_found ob then [ContainerRetained] else [])
      else if \<not> ob_found ob then (fail_record r now, [ContainerMissing])
      else if \<not> ob_running ob then (fail_record r now, [ContainerStopped])
      else if r_state r = Creating then (fail_record r now, [CreationInterrupted])
      else (r, []))"

section \<open>Facts\<close>

lemma transition_Inr:
  "transition n now r = Inr r' \<longleftrightarrow>
     can_transition (r_state r) n \<and> r' = r\<lparr>r_state := n, r_updated_at := now\<rparr>"
  by (cases n; cases "r_state r") (auto simp: transition_def)

lemma valid_id_chars:
  "valid_session_id i \<Longrightarrow> c \<in> set i \<Longrightarrow> c \<noteq> slash \<and> c \<noteq> CHR ''.''"
  by (cases i) (auto simp: id_tail_def id_head_def is_lower_def is_digit_def list_all_iff)

lemma valid_id_confined: "valid_session_id i \<Longrightarrow> confined i"
  using valid_id_chars [of i slash] valid_id_chars [of i "CHR ''.''"]
  by (intro confined_single) auto

definition check_session_id :: "string \<Rightarrow> goerr + string" where
  "check_session_id i =
     (if valid_session_id i then Inr i
      else Inl (usage ''session.store'' ''invalid session identifier %q''))"

interpretation session_id: name_validator check_session_id
  by unfold_locales (auto simp: check_session_id_def valid_id_confined split: if_splits)

lemma container_name_base: "valid_session_id i \<Longrightarrow> path_base (container_name i) = container_name i"
proof -
  assume i: "valid_session_id i"
  then have "slash \<notin> set (container_name i)"
    using valid_id_chars [OF i, of slash] by (auto simp: container_name_def)
  then show ?thesis by (simp add: path_base_def split_on_single) (simp add: container_name_def)
qed

lemma validate_record_None:
  "validate_record r = None \<longleftrightarrow>
     valid_session_id (r_session r) \<and> r_container_name r \<noteq> [] \<and>
     path_base (r_container_name r) = r_container_name r \<and> valid_state (r_state r) \<and>
     r_schema r = schema"
  by (auto simp: validate_record_def)

lemma fail_record_sel [simp]:
  "r_session (fail_record r t) = r_session r"
  "r_container_name (fail_record r t) = r_container_name r"
  "r_container_id (fail_record r t) = r_container_id r"
  "r_schema (fail_record r t) = r_schema r"
  by (simp_all add: fail_record_def)

lemma reconcile_sel:
  "r_session (fst (reconcile r ob t)) = r_session r"
  "r_container_name (fst (reconcile r ob t)) = r_container_name r"
  "r_container_id (fst (reconcile r ob t)) = r_container_id r"
  "r_schema (fst (reconcile r ob t)) = r_schema r"
  by (simp_all add: reconcile_def)

lemma reconcile_valid:
  "validate_record r = None \<Longrightarrow> validate_record (fst (reconcile r ob t)) = None"
  by (auto simp: validate_record_None reconcile_sel reconcile_def fail_record_def)

text \<open>
  The transition table: a stamped transition succeeds exactly for an accepted
  change and then changes the state and the update time only; a closed session accepts
  none; every other defined state but closing itself accepts a move to closing, and
  closing ends in closed or failed; ready is entered from creating and running only.
\<close>

lemma transition_contract:
  "(transition n now r = Inr r' \<longleftrightarrow>
      can_transition (r_state r) n \<and> r' = r\<lparr>r_state := n, r_updated_at := now\<rparr>) \<and>
   \<not> can_transition Closed n \<and>
   (can_transition s Closing \<longleftrightarrow> valid_state s \<and> s \<noteq> Closing \<and> s \<noteq> Closed) \<and>
   (can_transition Closing n \<longleftrightarrow> n = Closed \<or> n = Failed) \<and>
   (can_transition s Ready \<longleftrightarrow> s = Creating \<or> s = Running) \<and>
   (can_transition s Running \<longleftrightarrow> s = Ready)"
  by (cases s) (auto simp: transition_Inr)

text \<open>
  Reconciliation is idempotent on the record: reconciling the result again with the
  same observation, at any later time, leaves it byte for byte the same.
\<close>

lemma reconcile_idempotent:
  "fst (reconcile (fst (reconcile r ob t)) ob t') = fst (reconcile r ob t)"
  by (auto simp: reconcile_def fail_record_def terminal_def)

text \<open>
  C28. Reconciliation never invents progress: the state stays, or an accepted transition
  to failed is taken; what it says is exact (a retained container for a closed record,
  a missing or a stopped one, an interrupted creation), and a live record is left alone
  with nothing to report exactly when its container runs and it is past creation.
\<close>

theorem reconcile_sound:
  assumes "valid_state (r_state r)" and "reconcile r ob t = (r', as)"
  shows "(r_state r' = r_state r \<or> r_state r' = Failed \<and> can_transition (r_state r) Failed)
    \<and> r_session r' = r_session r \<and> r_container_id r' = r_container_id r
    \<and> (ContainerRetained \<in> set as \<longleftrightarrow> r_state r = Closed \<and> ob_found ob)
    \<and> (ContainerMissing \<in> set as \<longleftrightarrow> r_state r \<noteq> Closed \<and> \<not> ob_found ob)
    \<and> (ContainerStopped \<in> set as \<longleftrightarrow> r_state r \<noteq> Closed \<and> ob_found ob \<and> \<not> ob_running ob)
    \<and> (CreationInterrupted \<in> set as \<longleftrightarrow> r_state r = Creating \<and> ob_found ob \<and> ob_running ob)
    \<and> (interactive (r_state r') \<longrightarrow> r' = r \<and> as = [] \<and> ob_found ob \<and> ob_running ob)"
  using assms by (cases "r_state r") (auto simp: reconcile_def fail_record_def terminal_def split: if_splits)

definition demo_record :: sess_record where
  "demo_record =
     \<lparr>r_schema = schema, r_session = ''demo'', r_container_id = ''c1'',
      r_container_name = container_name ''demo'', r_state = Running, r_revision = 0,
      r_engine = \<lparr>ei_kind = ''docker'', ei_context = ''rootless'', ei_server_version = ''28''\<rparr>,
      r_image = ''img'', r_weston = [],
      r_limits = \<lparr>lim_memory_bytes = 0, lim_pids = 0, lim_file_size_bytes = 0, lim_open_files = 0\<rparr>,
      r_degradations = [], r_payloads = [], r_process = None,
      r_created_at = 10, r_updated_at = 20, r_retention_deadline = 1000\<rparr>"

theorem reconcile_sound_witness:
  "ContainerStopped \<in> set (snd (reconcile demo_record \<lparr>ob_found = True, ob_running = False\<rparr> 30))"
proof -
  let ?ob = "\<lparr>ob_found = True, ob_running = False\<rparr>"
  have v: "valid_state (r_state demo_record)" by (simp add: demo_record_def)
  show ?thesis
    using reconcile_sound [OF v prod.collapse [symmetric], of ?ob 30]
    by (simp add: demo_record_def)
qed

end
