(* ===== verification/Session_Store.thy ===== *)
theory Session_Store
  imports Session_Model "HOL-Library.Multiset"
begin

text \<open>
  The record store (\<open>internal/session/store.go\<close>). The directory of the records is a
  list of entries with distinct names. A file holds a decodable record, something that
  is not one, or something the process may not read; \<open>encoding/json\<close> is taken to decode
  what it encoded. A save is the sequence of system calls of \<open>Store.Save\<close>: any of them
  may fail (\<open>st_faults\<close> is the environment's schedule, one entry per operation that
  writes, no fault when it is exhausted) and the process may die after any of them.
\<close>

section \<open>The directory\<close>

datatype entry = EDir | EDoc sess_record | EBad | ENoRead

type_synonym entries = "(string \<times> entry) list"

definition put_entry :: "string \<Rightarrow> entry \<Rightarrow> entries \<Rightarrow> entries" where
  "put_entry k v es = (k, v) # filter (\<lambda>p. fst p \<noteq> k) es"

definition del_entry :: "string \<Rightarrow> entries \<Rightarrow> entries" where
  "del_entry k es = filter (\<lambda>p. fst p \<noteq> k) es"

lemma map_of_put [simp]: "map_of (put_entry k v es) = (map_of es)(k \<mapsto> v)"
proof -
  have "map_of (filter (\<lambda>p. fst p \<noteq> k) es) x = (if x = k then None else map_of es x)" for x
    by (induction es) auto
  then show ?thesis by (auto simp: put_entry_def fun_eq_iff)
qed

lemma map_of_del [simp]: "map_of (del_entry k es) = (map_of es)(k := None)"
proof -
  have "map_of (filter (\<lambda>p. fst p \<noteq> k) es) x = (if x = k then None else map_of es x)" for x
    by (induction es) auto
  then show ?thesis by (auto simp: del_entry_def fun_eq_iff)
qed

lemma distinct_put [simp]: "distinct (map fst es) \<Longrightarrow> distinct (map fst (put_entry k v es))"
  by (auto simp: put_entry_def distinct_map_filter)

lemma distinct_del [simp]: "distinct (map fst es) \<Longrightarrow> distinct (map fst (del_entry k es))"
  by (simp add: del_entry_def distinct_map_filter)

datatype io_step = FMkdir | FCreateTemp | FWrite | FSync | FClose | FRename | FSyncDir | FRemove

record store =
  st_root :: string
  st_entries :: entries
  st_faults :: "io_step option list"

definition take_fault :: "store \<Rightarrow> io_step option \<times> store" where
  "take_fault st =
     (case st_faults st of [] \<Rightarrow> (None, st) | f # fs \<Rightarrow> (f, st\<lparr>st_faults := fs\<rparr>))"

section \<open>Names\<close>

definition record_file :: "string \<Rightarrow> string" where
  "record_file i = i @ ''.json''"

definition store_path :: "store \<Rightarrow> string \<Rightarrow> goerr + string" where
  "store_path st i =
     (case check_session_id i of
        Inl e \<Rightarrow> Inl e
      | Inr j \<Rightarrow> Inr (record_file j))"

definition is_temp_name :: "string \<Rightarrow> bool" where
  "is_temp_name s \<longleftrightarrow> has_prefix s ''.record-'' \<and> has_suffix s ''.tmp''"

text \<open>\<open>filepath.Ext\<close>: what follows the last dot, the dot included.\<close>

definition path_ext :: "string \<Rightarrow> string" where
  "path_ext s =
     (let tail = takeWhile (\<lambda>c. c \<noteq> CHR ''.'') (rev s)
      in if length tail = length s then [] else CHR ''.'' # rev tail)"

section \<open>Save\<close>

definition save_steps :: "string \<Rightarrow> sess_record \<Rightarrow> (io_step \<times> (entries \<Rightarrow> entries)) list" where
  "save_steps tmp r =
     [(FMkdir, id),
      (FCreateTemp, put_entry tmp EBad),
      (FWrite, put_entry tmp (EDoc r)),
      (FSync, id),
      (FClose, id),
      (FRename, \<lambda>es. put_entry (record_file (r_session r)) (EDoc r) (del_entry tmp es)),
      (FSyncDir, id)]"

text \<open>What a failing step leaves: the temporary file is removed once it exists.\<close>

definition discard :: "io_step \<Rightarrow> string \<Rightarrow> entries \<Rightarrow> entries" where
  "discard f tmp es =
     (if f \<in> {FWrite, FSync, FClose, FRename} then del_entry tmp es else es)"

fun save_error :: "io_step \<Rightarrow> goerr" where
  "save_error FMkdir = PlainErr ''session: cannot create %s: %w''"
| "save_error FCreateTemp = PlainErr ''session: cannot stage the record of %s: %w''"
| "save_error FWrite = PlainErr ''session: cannot write the record of %s: %w''"
| "save_error FSync = PlainErr ''session: cannot sync the record of %s: %w''"
| "save_error FClose = PlainErr ''session: cannot close the record of %s: %w''"
| "save_error FRename = PlainErr ''session: cannot publish the record of %s: %w''"
| "save_error FSyncDir = PlainErr ''session: cannot sync %s: %w''"
| "save_error FRemove = PlainErr ''session: cannot remove the record of %s: %w''"

fun run_steps ::
  "io_step option \<Rightarrow> string \<Rightarrow> (io_step \<times> (entries \<Rightarrow> entries)) list \<Rightarrow> entries \<Rightarrow> goerr option \<times> entries" where
  "run_steps fault tmp [] es = (None, es)"
| "run_steps fault tmp ((f, act) # rest) es =
     (if fault = Some f then (Some (save_error f), discard f tmp es)
      else run_steps fault tmp rest (act es))"

definition temp_name :: string where
  "temp_name = ''.record-0.tmp''"

definition save :: "store \<Rightarrow> sess_record \<Rightarrow> goerr option \<times> store" where
  "save st r =
     (case validate_record r of
        Some e \<Rightarrow> (Some e, st)
      | None \<Rightarrow>
          (case store_path st (r_session r) of
             Inl e \<Rightarrow> (Some e, st)
           | Inr _ \<Rightarrow>
               let (fault, st1) = take_fault st;
                   (err, es) = run_steps fault temp_name (save_steps temp_name r) (st_entries st1)
               in (err, st1\<lparr>st_entries := es\<rparr>)))"

text \<open>The directory the process leaves when it dies after \<open>k\<close> of the calls.\<close>

definition crash_entries :: "nat \<Rightarrow> string \<Rightarrow> sess_record \<Rightarrow> entries \<Rightarrow> entries" where
  "crash_entries k tmp r es = fold (\<lambda>(f, act) e. act e) (take k (save_steps tmp r)) es"

section \<open>Load, List, Delete\<close>

definition load :: "store \<Rightarrow> string \<Rightarrow> goerr + sess_record" where
  "load st i =
     (case store_path st i of
        Inl e \<Rightarrow> Inl e
      | Inr p \<Rightarrow>
          (case map_of (st_entries st) p of
             None \<Rightarrow> Inl (Typed (with_details [(''session'', i)]
                      (new_failure SessionNotReady ''session.load'' ''unknown session %q'')))
           | Some EDir \<Rightarrow> Inl (PlainErr ''session: cannot read the record of %s: %w'')
           | Some ENoRead \<Rightarrow> Inl (PlainErr ''session: cannot read the record of %s: %w'')
           | Some EBad \<Rightarrow> Inl (Typed (new_failure SessionNotReady ''session.load''
                      ''the record of session %q is unreadable: %v''))
           | Some (EDoc r) \<Rightarrow>
               (case validate_record r of Some e \<Rightarrow> Inl e | None \<Rightarrow> Inr r)))"

definition is_record_entry :: "string \<times> entry \<Rightarrow> bool" where
  "is_record_entry p \<longleftrightarrow> snd p \<noteq> EDir \<and> path_ext (fst p) = ''.json''"

definition entry_id :: "string \<Rightarrow> string" where
  "entry_id name = take (length name - length ''.json'') name"

fun load_all :: "store \<Rightarrow> string list \<Rightarrow> goerr + sess_record list" where
  "load_all st [] = Inr []"
| "load_all st (i # ids) =
     (case load st i of
        Inl e \<Rightarrow> Inl e
      | Inr r \<Rightarrow> (case load_all st ids of Inl e \<Rightarrow> Inl e | Inr rs \<Rightarrow> Inr (r # rs)))"

definition stored_ids :: "store \<Rightarrow> string list" where
  "stored_ids st = map (entry_id \<circ> fst) (filter is_record_entry (sort_key fst (st_entries st)))"

definition list_records :: "store \<Rightarrow> goerr + sess_record list" where
  "list_records st =
     (case load_all st (stored_ids st) of
        Inl e \<Rightarrow> Inl e
      | Inr rs \<Rightarrow> Inr (sort_key r_session rs))"

definition delete_record :: "store \<Rightarrow> string \<Rightarrow> goerr option \<times> store" where
  "delete_record st i =
     (case store_path st i of
        Inl e \<Rightarrow> (Some e, st)
      | Inr p \<Rightarrow>
          let (fault, st1) = take_fault st in
          if fault = Some FRemove then
            (Some (save_error FRemove), st1)
          else
            ((if fault = Some FSyncDir then Some (save_error FSyncDir) else None),
             st1\<lparr>st_entries := del_entry p (st_entries st1)\<rparr>))"

section \<open>Facts about names\<close>

lemma record_file_inj [simp]: "record_file i = record_file j \<longleftrightarrow> i = j"
  by (simp add: record_file_def)

lemma entry_id_record_file [simp]: "entry_id (record_file i) = i"
  by (simp add: entry_id_def record_file_def)

lemma path_ext_record_file [simp]: "path_ext (record_file i) = ''.json''"
  by (simp add: path_ext_def record_file_def Let_def)

lemma temp_not_json: "is_temp_name tmp \<Longrightarrow> path_ext tmp \<noteq> ''.json''"
proof -
  assume t: "is_temp_name tmp"
  then obtain p where p: "tmp = p @ ''.tmp''"
    by (metis append_take_drop_id has_suffix_def is_temp_name_def)
  show ?thesis by (simp add: p path_ext_def Let_def)
qed

lemma temp_not_record_file: "is_temp_name tmp \<Longrightarrow> tmp \<noteq> record_file i"
  using temp_not_json by fastforce

lemma temp_name_is_temp: "is_temp_name temp_name"
  by (simp add: is_temp_name_def temp_name_def has_prefix_def has_suffix_def)

section \<open>Facts about a save\<close>

definition wf_store :: "store \<Rightarrow> bool" where
  "wf_store st \<longleftrightarrow> distinct (map fst (st_entries st)) \<and>
     (\<forall>i r. map_of (st_entries st) (record_file i) = Some (EDoc r) \<longrightarrow> r_session r = i)"

definition only_target :: "string \<Rightarrow> sess_record \<Rightarrow> entries \<Rightarrow> entries \<Rightarrow> bool" where
  "only_target tmp r es es' \<longleftrightarrow>
     (\<forall>k. k \<noteq> tmp \<longrightarrow> map_of es' k = map_of es k \<or>
        k = record_file (r_session r) \<and> map_of es' k = Some (EDoc r))"

lemma run_steps_cases:
  assumes "run_steps fault tmp (save_steps tmp r) es = (err, es')"
  shows "err = None \<and> es' = put_entry (record_file (r_session r)) (EDoc r)
             (del_entry tmp (put_entry tmp (EDoc r) (put_entry tmp EBad es)))
           \<and> fault \<notin> Some ` set (map fst (save_steps tmp r))
       \<or> err = Some (save_error FSyncDir) \<and> fault = Some FSyncDir \<and>
           es' = put_entry (record_file (r_session r)) (EDoc r)
             (del_entry tmp (put_entry tmp (EDoc r) (put_entry tmp EBad es)))
       \<or> err \<noteq> None \<and> (es' = es \<or> es' = del_entry tmp (put_entry tmp EBad es) \<or>
           es' = del_entry tmp (put_entry tmp (EDoc r) (put_entry tmp EBad es)))"
  using assms by (auto simp: save_steps_def discard_def split: if_splits)

lemma load_def2:
  "load st i =
     (if \<not> valid_session_id i then Inl (usage ''session.store'' ''invalid session identifier %q'')
      else (case map_of (st_entries st) (record_file i) of
             None \<Rightarrow> Inl (Typed (with_details [(''session'', i)]
                      (new_failure SessionNotReady ''session.load'' ''unknown session %q'')))
           | Some EDir \<Rightarrow> Inl (PlainErr ''session: cannot read the record of %s: %w'')
           | Some ENoRead \<Rightarrow> Inl (PlainErr ''session: cannot read the record of %s: %w'')
           | Some EBad \<Rightarrow> Inl (Typed (new_failure SessionNotReady ''session.load''
                      ''the record of session %q is unreadable: %v''))
           | Some (EDoc r) \<Rightarrow> (case validate_record r of Some e \<Rightarrow> Inl e | None \<Rightarrow> Inr r)))"
  by (simp add: load_def store_path_def check_session_id_def)

lemma load_cong: "map_of (st_entries st') (record_file i) = map_of (st_entries st) (record_file i) \<Longrightarrow>
    load st' i = load st i"
  by (simp only: load_def2)

lemma load_doc: "validate_record r = None \<Longrightarrow>
    map_of (st_entries st) (record_file (r_session r)) = Some (EDoc r) \<Longrightarrow>
    load st (r_session r) = Inr r"
  using validate_record_None [of r] by (simp add: load_def2)

lemma load_Inr:
  "load st i = Inr r \<Longrightarrow> valid_session_id i \<and> validate_record r = None \<and>
     map_of (st_entries st) (record_file i) = Some (EDoc r)"
  by (auto simp: load_def2 split: if_splits option.splits entry.splits)

lemma save_cases:
  assumes "save st r = (err, st')"
  obtains (refused) e where "err = Some e" "st' = st" "validate_record r \<noteq> None"
  | (unchanged) "err \<noteq> None" "\<And>i. map_of (st_entries st') (record_file i) = map_of (st_entries st) (record_file i)"
  | (written) "validate_record r = None" "err = None \<or> err = Some (save_error FSyncDir)"
        "\<And>i. map_of (st_entries st') (record_file i) =
           ((map_of (st_entries st))(record_file (r_session r) \<mapsto> EDoc r)) (record_file i)"
proof (cases "validate_record r")
  case (Some e)
  then have "err = Some e" "st' = st" using assms by (auto simp: save_def)
  then show thesis using Some refused by simp
next
  case None
  then have v: "valid_session_id (r_session r)" by (simp add: validate_record_None)
  obtain fault st1 where f: "take_fault st = (fault, st1)" by (cases "take_fault st")
  then have e1: "st_entries st1 = st_entries st"
    by (auto simp: take_fault_def split: list.splits)
  obtain es where r: "run_steps fault temp_name (save_steps temp_name r) (st_entries st1) = (err, es)"
    and st': "st' = st1\<lparr>st_entries := es\<rparr>"
    using assms None v f
    by (auto simp: save_def store_path_def check_session_id_def split: prod.splits)
  have t: "temp_name \<noteq> record_file i" "record_file i \<noteq> temp_name" for i
    using temp_not_record_file [OF temp_name_is_temp, of i] by auto
  from run_steps_cases [OF r] show thesis
  proof (elim disjE conjE)
    assume "err \<noteq> None" "es = st_entries st1"
    then show thesis using unchanged st' e1 by simp
  next
    assume "err \<noteq> None" "es = del_entry temp_name (put_entry temp_name EBad (st_entries st1))"
    then show thesis using unchanged st' e1 t by simp
  next
    assume "err \<noteq> None"
      "es = del_entry temp_name (put_entry temp_name (EDoc r) (put_entry temp_name EBad (st_entries st1)))"
    then show thesis using unchanged st' e1 t by simp
  qed (use None st' e1 t v in \<open>auto intro!: written\<close>)
qed

lemma save_distinct:
  "distinct (map fst (st_entries st)) \<Longrightarrow> save st r = (err, st') \<Longrightarrow>
    distinct (map fst (st_entries st'))"
  by (auto simp: save_def take_fault_def discard_def save_steps_def Let_def store_path_def
      check_session_id_def split: option.splits if_splits list.splits prod.splits)

section \<open>The interface the session service uses\<close>

text \<open>
  A store of records, as its client sees it: after a save the record it wrote is the one
  a load returns, or, when the save failed, the old one or the new one; no save touches
  another session; what is loaded is valid and belongs to the session asked for.
\<close>

locale record_store =
  fixes good :: "'st \<Rightarrow> bool"
    and store_load :: "'st \<Rightarrow> string \<Rightarrow> goerr + sess_record"
    and store_save :: "'st \<Rightarrow> sess_record \<Rightarrow> goerr option \<times> 'st"
  assumes good_save: "good st \<Longrightarrow> store_save st r = (e, st') \<Longrightarrow> good st'"
    and load_valid: "good st \<Longrightarrow> store_load st i = Inr r \<Longrightarrow>
      validate_record r = None \<and> r_session r = i"
    and save_ok: "store_save st r = (None, st') \<Longrightarrow> store_load st' (r_session r) = Inr r"
    and save_frame: "store_save st r = (e, st') \<Longrightarrow> i \<noteq> r_session r \<Longrightarrow> store_load st' i = store_load st i"
    and save_atomic: "store_save st r = (e, st') \<Longrightarrow>
      store_load st' (r_session r) = store_load st (r_session r) \<or>
      store_load st' (r_session r) = Inr r"
begin

text \<open>The abstract store: the records by identifier. A save updates it at one key or not at all.\<close>

definition view :: "'st \<Rightarrow> string \<Rightarrow> sess_record option" where
  "view st i = (case store_load st i of Inl _ \<Rightarrow> None | Inr r \<Rightarrow> Some r)"

lemma view_iff: "view st i = Some r \<longleftrightarrow> store_load st i = Inr r"
  by (auto simp: view_def split: sum.splits)

lemma save_view:
  "store_save st r = (e, st') \<Longrightarrow> view st' = view st \<or> view st' = (view st)(r_session r \<mapsto> r)"
proof -
  assume s: "store_save st r = (e, st')"
  have other: "view st' i = view st i" if "i \<noteq> r_session r" for i
    using save_frame [OF s that] by (simp add: view_def)
  from save_atomic [OF s] show ?thesis
  proof
    assume "store_load st' (r_session r) = store_load st (r_session r)"
    then have "view st' = view st"
      using other by (metis ext view_def)
    then show ?thesis ..
  next
    assume "store_load st' (r_session r) = Inr r"
    then have "view st' = (view st)(r_session r \<mapsto> r)"
      using other by (auto simp: fun_eq_iff view_iff)
    then show ?thesis ..
  qed
qed

lemma save_view_ok: "store_save st r = (None, st') \<Longrightarrow> view st' = (view st)(r_session r \<mapsto> r)"
  using save_ok [of st r st'] save_frame [of st r None st'] by (auto simp: fun_eq_iff view_def)

lemma view_session: "good st \<Longrightarrow> view st i = Some r \<Longrightarrow> r_session r = i"
  using load_valid by (auto simp: view_iff)

end

lemma save_written_None: "save st r = (None, st') \<Longrightarrow> validate_record r = None \<and>
   map_of (st_entries st') (record_file (r_session r)) = Some (EDoc r)"
  by (erule save_cases) (auto simp: validate_record_None)

lemma wf_save: "wf_store st \<Longrightarrow> save st r = (e, st') \<Longrightarrow> wf_store st'"
proof -
  assume w: "wf_store st" and s: "save st r = (e, st')"
  have d: "distinct (map fst (st_entries st'))"
    using w s save_distinct by (auto simp: wf_store_def)
  from s show ?thesis
    by (cases rule: save_cases) (use w d in \<open>auto simp: wf_store_def split: if_splits\<close>)
qed

interpretation session_store: record_store wf_store load save
proof unfold_locales
  show "wf_store st'" if "wf_store st" "save st r = (e, st')" for st r e st'
    using that by (rule wf_save)
  show "validate_record r = None \<and> r_session r = i" if "wf_store st" "load st i = Inr r" for st i r
    using that load_Inr by (auto simp: wf_store_def)
  show "load st' (r_session r) = Inr r" if "save st r = (None, st')" for st r st'
    using save_written_None [OF that] by (auto intro: load_doc)
  show "load st' i = load st i" if s: "save st r = (e, st')" and i: "i \<noteq> r_session r"
    for st r e st' i
    using s by (cases rule: save_cases) (use i in \<open>auto intro!: load_cong\<close>)
  show "load st' (r_session r) = load st (r_session r) \<or> load st' (r_session r) = Inr r"
    if s: "save st r = (e, st')" for st r e st'
    using s by (cases rule: save_cases) (auto intro: load_cong load_doc)
qed

section \<open>Facts about a listing\<close>

lemma load_all_Inr: "load_all st ids = Inr rs \<longleftrightarrow>
    length rs = length ids \<and> (\<forall>k < length ids. load st (ids ! k) = Inr (rs ! k))"
proof (induction ids arbitrary: rs)
  case (Cons i ids)
  show ?case
  proof (cases rs)
    case Nil
    then show ?thesis by (auto split: sum.splits)
  next
    case (Cons r rs')
    then show ?thesis
      using Cons.IH [of rs'] by (auto simp: less_Suc_eq_0_disj split: sum.splits)
  qed
qed auto

lemma load_all_Inl: "load_all st ids = Inl e \<Longrightarrow> \<exists>i \<in> set ids. load st i = Inl e"
  by (induction ids) (auto split: sum.splits)

lemma load_all_eq: "load_all st ids = Inr rs \<Longrightarrow> rs = map (\<lambda>i. projr (load st i)) ids"
  by (induction ids arbitrary: rs) (auto split: sum.splits)

lemma path_ext_json: "path_ext s = ''.json'' \<Longrightarrow> s = record_file (entry_id s)"
proof -
  assume e: "path_ext s = ''.json''"
  let ?t = "takeWhile (\<lambda>c. c \<noteq> CHR ''.'') (rev s)"
  have ne: "length ?t \<noteq> length s" and t: "rev ?t = ''json''"
    using e by (auto simp: path_ext_def Let_def split: if_splits)
  then have d: "dropWhile (\<lambda>c. c \<noteq> CHR ''.'') (rev s) \<noteq> []"
    by (metis append_Nil2 length_rev takeWhile_dropWhile_id)
  then obtain rest where "dropWhile (\<lambda>c. c \<noteq> CHR ''.'') (rev s) = CHR ''.'' # rest"
    using hd_dropWhile [OF d] by (cases "dropWhile (\<lambda>c. c \<noteq> CHR ''.'') (rev s)") auto
  then have "rev s = ?t @ CHR ''.'' # rest" by (metis takeWhile_dropWhile_id)
  then have "s = rev rest @ CHR ''.'' # rev ?t" by (metis append.assoc append_Cons append_Nil rev.simps(2) rev_append rev_rev_ident)
  then have "s = record_file (rev rest)" by (simp only: t record_file_def)
  then show ?thesis by (metis entry_id_record_file)
qed

lemma stored_ids_distinct: "distinct (map fst (st_entries st)) \<Longrightarrow> distinct (stored_ids st)"
proof -
  assume d: "distinct (map fst (st_entries st))"
  let ?es = "filter is_record_entry (sort_key fst (st_entries st))"
  have "distinct (map fst (sort_key fst (st_entries st)))"
    using d by (metis distinct_map distinct_sort set_sort)
  then have "distinct (map fst ?es)" by (rule distinct_map_filter)
  moreover have "inj_on entry_id (set (map fst ?es))"
    by (rule inj_onI) (auto simp: is_record_entry_def, metis path_ext_json)
  ultimately have "distinct (map entry_id (map fst ?es))"
    by (simp only: distinct_map)
  then show ?thesis by (simp add: stored_ids_def)
qed

lemma list_records_Inr:
  assumes "wf_store st" and "list_records st = Inr rs"
  shows "distinct (map r_session rs)" "\<forall>r \<in> set rs. load st (r_session r) = Inr r"
proof -
  obtain rs' where a: "load_all st (stored_ids st) = Inr rs'" and rs: "rs = sort_key r_session rs'"
    using assms(2) by (auto simp: list_records_def split: sum.splits)
  have l: "\<forall>k < length (stored_ids st). load st (stored_ids st ! k) = Inr (rs' ! k) \<and>
      r_session (rs' ! k) = stored_ids st ! k" and len: "length rs' = length (stored_ids st)"
    using a session_store.load_valid [OF assms(1)] by (auto simp: load_all_Inr)
  then have ids: "map r_session rs' = stored_ids st" by (auto intro: nth_equalityI)
  have "distinct (map r_session rs')"
    unfolding ids using assms(1) by (auto simp: wf_store_def intro: stored_ids_distinct)
  then show "distinct (map r_session rs)"
    unfolding rs by (metis distinct_map distinct_sort set_sort)
  show "\<forall>r \<in> set rs. load st (r_session r) = Inr r"
    using l len rs by (auto simp: in_set_conv_nth)
qed

section \<open>Properties\<close>

text \<open>
  C21. A save that reports success is what the next load of that session returns, and no
  save, whatever fails in it, changes what any other session loads as.
\<close>

theorem save_load_roundtrip:
  assumes "save st r = (e, st')"
  shows "(e = None \<longrightarrow> load st' (r_session r) = Inr r) \<and>
    (\<forall>i. i \<noteq> r_session r \<longrightarrow> load st' i = load st i)"
  using session_store.save_ok session_store.save_frame assms by blast

definition demo_store :: store where
  "demo_store = \<lparr>st_root = ''/state'', st_entries = [], st_faults = []\<rparr>"

lemma demo_record_valid: "validate_record demo_record = None"
  by (simp add: validate_record_None demo_record_def container_name_def path_base_def
      id_head_def id_tail_def is_lower_def is_digit_def)

theorem save_load_roundtrip_witness:
  "\<exists>st'. save demo_store demo_record = (None, st') \<and> load st' ''demo'' = Inr demo_record"
proof -
  note v = demo_record_valid
  then have i: "valid_session_id (r_session demo_record)" by (simp add: validate_record_None)
  obtain st' where s: "save demo_store demo_record = (None, st')"
    using v i by (auto simp: save_def store_path_def check_session_id_def
        take_fault_def save_steps_def demo_store_def)
  show ?thesis
    using s save_load_roundtrip [OF s] by (auto simp: demo_record_def)
qed

text \<open>
  C4. A process that dies at any point of a save leaves a directory from which every
  session loads as it did before, except that the session being saved may already load
  as the new record; and a leftover temporary file is never taken for a record.
\<close>

theorem save_crash_atomic:
  assumes "is_temp_name tmp" and "validate_record r = None"
    and "st' = st\<lparr>st_entries := crash_entries k tmp r (st_entries st)\<rparr>"
  shows "(load st' i = load st i \<or> i = r_session r \<and> load st' i = Inr r) \<and>
    (\<forall>e \<in> set (st_entries st'). fst e = tmp \<longrightarrow> \<not> is_record_entry e)"
proof -
  have n: "tmp \<noteq> record_file j" for j
    using assms(1) temp_not_record_file by blast
  have "k \<le> 6 \<or> 7 \<le> k" by arith
  then have "map_of (st_entries st') (record_file i) = map_of (st_entries st) (record_file i) \<or>
      i = r_session r \<and> map_of (st_entries st') (record_file i) = Some (EDoc r)"
    unfolding assms(3) crash_entries_def save_steps_def
    by (auto simp: n numeral_eq_Suc take_Cons' le_Suc_eq)
  then have "load st' i = load st i \<or> i = r_session r \<and> load st' i = Inr r"
    using load_cong load_doc assms(2) by blast
  then show ?thesis
    using temp_not_json [OF assms(1)] by (auto simp: is_record_entry_def)
qed

theorem save_crash_atomic_witness:
  "is_temp_name temp_name \<and> validate_record demo_record = None \<and>
   (load (demo_store\<lparr>st_entries := crash_entries 3 temp_name demo_record []\<rparr>) ''demo''
      = load demo_store ''demo'' \<or>
    load (demo_store\<lparr>st_entries := crash_entries 3 temp_name demo_record []\<rparr>) ''demo''
      = Inr demo_record)"
proof -
  have v: "validate_record demo_record = None" by (rule demo_record_valid)
  have "st_entries demo_store = []" by (simp add: demo_store_def)
  then show ?thesis
    using save_crash_atomic [where tmp = temp_name and r = demo_record and k = 3
        and st = demo_store and i = "''demo''", OF temp_name_is_temp v refl]
    by (auto simp: v temp_name_is_temp)
qed

text \<open>
  Listing never omits a record. When it succeeds, the records are ordered by session
  and are exactly what the record files of the directory load as, each file once; when
  any of the files cannot be loaded the listing is an error, never a shorter list.
\<close>

lemma list_complete:
  "(list_records st = Inr rs \<longrightarrow> sorted (map r_session rs) \<and>
      mset rs = mset (map (\<lambda>i. projr (load st i)) (stored_ids st)) \<and>
      (\<forall>i \<in> set (stored_ids st). \<exists>r \<in> set rs. load st i = Inr r)) \<and>
   ((\<exists>i \<in> set (stored_ids st). \<exists>e. load st i = Inl e) \<longleftrightarrow> (\<exists>e. list_records st = Inl e))"
proof (cases "load_all st (stored_ids st)")
  case (Inl e)
  then show ?thesis using load_all_Inl [OF Inl] by (auto simp: list_records_def)
next
  case (Inr rs')
  note eq = load_all_eq [OF Inr]
  have ok: "\<exists>r. load st i = Inr r" if "i \<in> set (stored_ids st)" for i
    using Inr that by (auto simp: load_all_Inr in_set_conv_nth)
  then have "\<forall>i \<in> set (stored_ids st). load st i = Inr (projr (load st i))" by fastforce
  then show ?thesis using Inr ok by (auto simp: list_records_def eq)
qed

definition one_store :: store where
  "one_store = demo_store\<lparr>st_entries := [(record_file ''demo'', EDoc demo_record)]\<rparr>"

lemma one_store_facts:
  "stored_ids one_store = [''demo'']" "load one_store ''demo'' = Inr demo_record"
  using load_doc [OF demo_record_valid, of one_store]
  by (simp_all add: one_store_def stored_ids_def is_record_entry_def demo_record_def)

lemma list_complete_witness:
  "list_records one_store = Inr [demo_record] \<and> sorted (map r_session [demo_record]) \<and>
   load one_store ''demo'' = Inr demo_record"
proof -
  have l: "list_records one_store = Inr [demo_record]"
    by (simp add: list_records_def one_store_facts)
  then have "\<exists>r \<in> set [demo_record]. load one_store ''demo'' = Inr r"
    using list_complete [of one_store "[demo_record]"] by (simp add: one_store_facts(1))
  then show ?thesis using l by simp
qed

end
