(* ===== verification/Session_Service.thy ===== *)
theory Session_Service
  imports Session_Store
begin

text \<open>
  The session service (\<open>internal/session/service.go\<close>): every operation of a session over
  the record store and a container engine. The engine, the clocks and the waiting are
  functions of a world \<open>'w\<close> outside the program; \<open>cli_engine\<close> is the engine the
  adapters of \<open>Engine\<close> give. A Go pair of a value and an error is a pair here, because
  callers read the value also beside an error. Decoding JSON is \<open>encoding/json\<close>'s and
  is the parameter \<open>codec\<close>. The wait for readiness may not return: it is a partial
  function, and the operations that wait return \<open>None\<close> when it does not.
\<close>

section \<open>The service and what it uses\<close>

record 'w engine =
  en_capabilities :: "'w \<Rightarrow> (goerr + capabilities) \<times> 'w"
  en_create :: "create_spec \<Rightarrow> 'w \<Rightarrow> (goerr + string) \<times> 'w"
  en_start :: "string \<Rightarrow> 'w \<Rightarrow> goerr option \<times> 'w"
  en_exec :: "exec_spec \<Rightarrow> 'w \<Rightarrow> (exec_result \<times> goerr option) \<times> 'w"
  en_stream :: "exec_spec \<Rightarrow> 'w \<Rightarrow> (goerr option \<times> string \<times> string) \<times> 'w"
  en_state :: "string \<Rightarrow> 'w \<Rightarrow> (goerr + bool) \<times> 'w"
  en_logs :: "string \<Rightarrow> int \<Rightarrow> 'w \<Rightarrow> (goerr option \<times> string) \<times> 'w"
  en_stop :: "string \<Rightarrow> int \<Rightarrow> 'w \<Rightarrow> goerr option \<times> 'w"
  en_remove :: "string \<Rightarrow> 'w \<Rightarrow> goerr option \<times> 'w"

text \<open>The engine of an adapter, over the command runner.\<close>

definition cli_engine ::
  "(string \<Rightarrow> docker_info option) \<Rightarrow> (string \<Rightarrow> podman_info option) \<Rightarrow>
    (string \<Rightarrow> reported_state option) \<Rightarrow> (string \<Rightarrow> int option) \<Rightarrow> 'w runner \<Rightarrow> adapter \<Rightarrow> 'w engine" where
  "cli_engine dd dp ds pt run ad =
     \<lparr>en_capabilities = (case ad_kind ad of KindDocker \<Rightarrow> docker_capabilities dd run ad
                         | KindPodman \<Rightarrow> podman_capabilities dp run ad),
      en_create = op_create run ad, en_start = op_start run ad, en_exec = op_exec run ad,
      en_stream = op_stream run ad,
      en_state = (\<lambda>i w. case op_state ds pt run ad i w of
                   (Inl e, w') \<Rightarrow> (Inl e, w') | (Inr st, w') \<Rightarrow> (Inr (cst_running st), w')),
      en_logs = op_logs run ad, en_stop = op_stop run ad, en_remove = op_remove run ad\<rparr>"

record container_status =
  ct_ready :: bool
  ct_weston :: string
  ct_agent :: string
  ct_message :: string

record payload_result =
  pr_path :: string
  pr_digest :: string
  pr_bytes :: int
  pr_files :: int

record codec =
  cd_status :: "string \<Rightarrow> container_status option"
  cd_envelope :: "string \<Rightarrow> failure option option"
  cd_payload :: "string \<Rightarrow> payload_result option"

text \<open>
  The clocks: \<open>ev_now\<close> stamps records, \<open>ev_wall\<close> bounds waiting; \<open>ev_wait\<close> is one turn of
  the select between the caller's cancellation (True) and the poll interval.
\<close>

record 'w env =
  ev_now :: "'w \<Rightarrow> time"
  ev_wall :: "'w \<Rightarrow> time"
  ev_wait :: "'w \<Rightarrow> bool \<times> 'w"

record service =
  sv_image :: string
  sv_control_uid :: nat
  sv_application_uid :: nat
  sv_retention :: int
  sv_ready_timeout :: int
  sv_stop_timeout :: int
  sv_supervisor :: "string list"

definition second :: int where
  "second = 1000000000"

definition default_retention :: int where
  "default_retention = 24 * 3600 * second"

definition new_service :: "string \<Rightarrow> nat \<Rightarrow> nat \<Rightarrow> int \<Rightarrow> int \<Rightarrow> int \<Rightarrow> goerr + service" where
  "new_service img control application retention ready stop =
     (let c = (if control = 0 then 1000 else control);
          a = (if application = 0 then 1001 else application)
      in if c = a then
           Inl (PlainErr ''session: the control and application identities must differ'')
         else Inr
           \<lparr>sv_image = (if img = [] then ''wlvision-runtime:latest'' else img),
            sv_control_uid = c, sv_application_uid = a,
            sv_retention = (if retention = 0 then default_retention else retention),
            sv_ready_timeout = (if ready = 0 then 30 * second else ready),
            sv_stop_timeout = (if stop = 0 then 10 * second else stop),
            sv_supervisor = [''/usr/libexec/wlvision-supervisor'']\<rparr>)"

record 'w sys =
  sy_store :: store
  sy_world :: 'w

definition put_record :: "sess_record \<Rightarrow> 'w sys \<Rightarrow> goerr option \<times> 'w sys" where
  "put_record r s = (let (e, st) = save (sy_store s) r in (e, s\<lparr>sy_store := st\<rparr>))"

text \<open>One engine call: the world moves on, the store does not.\<close>

definition call_engine :: "('w \<Rightarrow> 'r \<times> 'w) \<Rightarrow> 'w sys \<Rightarrow> 'r \<times> 'w sys" where
  "call_engine f s = (let (r, w) = f (sy_world s) in (r, s\<lparr>sy_world := w\<rparr>))"

definition zero_record :: sess_record where
  "zero_record =
     \<lparr>r_schema = [], r_session = [], r_container_id = [], r_container_name = [],
      r_state = UnknownState [], r_revision = 0,
      r_engine = \<lparr>ei_kind = [], ei_context = [], ei_server_version = []\<rparr>,
      r_image = [], r_weston = [],
      r_limits = \<lparr>lim_memory_bytes = 0, lim_pids = 0, lim_file_size_bytes = 0, lim_open_files = 0\<rparr>,
      r_degradations = [], r_payloads = [], r_process = None,
      r_created_at = 0, r_updated_at = 0, r_retention_deadline = 0\<rparr>"

definition runtime_dir :: string where
  "runtime_dir = ''/run/wlvision''"

definition session_mounts :: "tmpfs list" where
  "session_mounts =
     [\<lparr>tm_path = runtime_dir, tm_size_bytes = 64 * 2 ^ 20, tm_mode = 1023, tm_exec = True\<rparr>,
      \<lparr>tm_path = ''/tmp'', tm_size_bytes = 32 * 2 ^ 20, tm_mode = 1023, tm_exec = False\<rparr>,
      \<lparr>tm_path = ''/home/agent'', tm_size_bytes = 32 * 2 ^ 20, tm_mode = 1023, tm_exec = False\<rparr>]"

definition application_env :: "string list" where
  "application_env =
     [''XDG_RUNTIME_DIR='' @ runtime_dir @ ''/wayland'', ''WAYLAND_DISPLAY=wlvision-1'',
      ''HOME=/home/agent'']"

definition merge_degradations :: "string list list \<Rightarrow> string list" where
  "merge_degradations groups =
     foldl (\<lambda>merged item. if item \<in> set merged then merged else merged @ [item]) [] (concat groups)"

definition is_transient :: "goerr \<Rightarrow> bool" where
  "is_transient e =
     (case e of
        Typed f \<Rightarrow> f_code f = SessionNotReady \<and> contains_sub (f_message f) ''no container'' \<or>
                   f_code f = EngineUnavailable
      | _ \<Rightarrow> False)"

definition as_failure :: "string \<Rightarrow> goerr \<Rightarrow> failure" where
  "as_failure op e = (case e of Typed f \<Rightarrow> f | _ \<Rightarrow> new_failure SessionNotReady op ''%v'')"

definition decode_failure :: "codec \<Rightarrow> string \<Rightarrow> failure option" where
  "decode_failure cd s =
     (if trim_space s = [] then None
      else (case cd_envelope cd (trim_space s) of None \<Rightarrow> None | Some fo \<Rightarrow> fo))"

text \<open>
  The error of a failed update after a failed operation: it wraps the second error, so
  what a caller can recognise in it is that one.
\<close>

definition wrap_update :: "goerr \<Rightarrow> goerr" where
  "wrap_update e =
     (case e of
        PlainErr _ \<Rightarrow> PlainErr ''session: %v (and the record could not be updated: %w)''
      | _ \<Rightarrow> e)"

section \<open>Create\<close>

definition session_spec :: "service \<Rightarrow> sess_record \<Rightarrow> limits \<Rightarrow> create_spec" where
  "session_spec sv r l =
     \<lparr>cs_image = sv_image sv, cs_name = r_container_name r, cs_session = r_session r,
      cs_control_uid = sv_control_uid sv, cs_control_gid = sv_control_uid sv,
      cs_application_uid = sv_application_uid sv, cs_application_gid = sv_application_uid sv,
      cs_command = sv_supervisor sv, cs_tmpfs = session_mounts, cs_limits = l\<rparr>"

definition kind_string :: "kind \<Rightarrow> string" where
  "kind_string k = (case k of KindDocker \<Rightarrow> ''docker'' | KindPodman \<Rightarrow> ''podman'')"

definition fresh_record ::
  "service \<Rightarrow> capabilities \<Rightarrow> string \<Rightarrow> limits \<Rightarrow> int \<Rightarrow> time \<Rightarrow> sess_record" where
  "fresh_record sv c i l retention now =
     \<lparr>r_schema = schema, r_session = i, r_container_id = [], r_container_name = container_name i,
      r_state = Creating, r_revision = 0,
      r_engine = \<lparr>ei_kind = kind_string (cap_kind c), ei_context = cap_context c,
                  ei_server_version = cap_server_version c\<rparr>,
      r_image = sv_image sv, r_weston = [], r_limits = l,
      r_degradations = merge_degradations [degradations c, missing_limits c l],
      r_payloads = [], r_process = None, r_created_at = now, r_updated_at = now,
      r_retention_deadline = now + (if retention = 0 then sv_retention sv else retention)\<rparr>"

text \<open>The three places of the source that give a session up after a failed engine call.\<close>

definition give_up ::
  "'w env \<Rightarrow> sess_record \<Rightarrow> goerr \<Rightarrow> (sess_record \<Rightarrow> sess_record) \<Rightarrow> 'w sys \<Rightarrow> (sess_record \<times> goerr option) \<times> 'w sys" where
  "give_up ev r e on_save s =
     (let r' = r\<lparr>r_state := Failed, r_updated_at := ev_now ev (sy_world s)\<rparr> in
      case put_record r' s of
        (Some se, s') \<Rightarrow> ((on_save r', Some (wrap_update se)), s')
      | (None, s') \<Rightarrow> ((r', Some e), s'))"

definition create_session ::
  "service \<Rightarrow> 'w engine \<Rightarrow> 'w env \<Rightarrow> string \<Rightarrow> limits \<Rightarrow> int \<Rightarrow> 'w sys \<Rightarrow>
    (sess_record \<times> goerr option) \<times> 'w sys" where
  "create_session sv en ev i l retention s =
     (if \<not> valid_session_id i then
        ((zero_record, Some (usage ''session.create'' ''invalid session identifier %q'')), s)
      else
        (case call_engine (en_capabilities en) s of
           (Inl e, s1) \<Rightarrow> ((zero_record, Some e), s1)
         | (Inr c, s1) \<Rightarrow>
             if (case load (sy_store s1) i of Inl _ \<Rightarrow> False | Inr ex \<Rightarrow> r_state ex \<noteq> Closed) then
               ((zero_record, Some (Typed (new_failure SessionNotReady ''session.create''
                  ''session %q already exists in state %s''))), s1)
             else
               let r = fresh_record sv c i l retention (ev_now ev (sy_world s1)) in
               (case put_record r s1 of
                  (Some e, s2) \<Rightarrow> ((zero_record, Some e), s2)
                | (None, s2) \<Rightarrow>
                    (case call_engine (en_create en (session_spec sv r l)) s2 of
                       (Inl e, s3) \<Rightarrow> give_up ev r e (\<lambda>_. zero_record) s3
                     | (Inr cid, s3) \<Rightarrow>
                         let r' = r\<lparr>r_container_id := cid, r_updated_at := ev_now ev (sy_world s3)\<rparr> in
                         (case put_record r' s3 of
                            (Some e, s4) \<Rightarrow> ((zero_record, Some e), s4)
                          | (None, s4) \<Rightarrow> ((r', None), s4))))))"

section \<open>Waiting for readiness\<close>

definition no_status :: container_status where
  "no_status = \<lparr>ct_ready = False, ct_weston = [], ct_agent = [], ct_message = []\<rparr>"

definition process_exited :: string where
  "process_exited = ''exited''"

definition get_status ::
  "codec \<Rightarrow> service \<Rightarrow> 'w engine \<Rightarrow> string \<Rightarrow> 'w \<Rightarrow> (container_status \<times> goerr option) \<times> 'w" where
  "get_status cd sv en cid w =
     (if cid = [] then
        ((no_status, Some (Typed (new_failure SessionNotReady ''session.ready''
           ''the session has no container yet''))), w)
      else
        (case en_exec en
                \<lparr>ex_container = cid, ex_user = sv_control_uid sv, ex_workdir = [], ex_env = [],
                 ex_argv = [''/usr/libexec/wlvision-supervisor'', ''status'']\<rparr> w of
           ((_, Some e), w') \<Rightarrow> ((no_status, Some e), w')
         | ((res, None), w') \<Rightarrow>
             (case cd_status cd (trim_space (xr_stdout res)) of
                None \<Rightarrow> ((no_status, Some (Typed (new_failure SessionNotReady ''session.ready''
                          ''the supervisor reported an unreadable status: %v''))), w')
              | Some st \<Rightarrow> ((st, None), w'))))"

text \<open>One turn of the loop: \<open>Inl\<close> is a return, \<open>Inr\<close> the last status for the next turn.\<close>

definition ready_turn ::
  "codec \<Rightarrow> service \<Rightarrow> 'w engine \<Rightarrow> 'w env \<Rightarrow> string \<Rightarrow> string \<Rightarrow> time \<Rightarrow> container_status \<Rightarrow> 'w \<Rightarrow>
    ((container_status \<times> goerr option) + container_status) \<times> 'w" where
  "ready_turn cd sv en ev i cid deadline lst w =
     (let ((st, err), w1) = get_status cd sv en cid w;
          exited = Some (Typed (new_failure SessionNotReady ''session.ready''
                      ''the session %s exited before the session became ready''));
          go_on = (\<lambda>l.
            if deadline < ev_wall ev w1 then
              (Inl (l, Some (Typed (with_details [(''session'', i), (''last_status'', ct_message l)]
                 (new_failure WaitTimeout ''session.ready''
                   ''session %q did not become ready within %s'')))), w1)
            else
              (case ev_wait ev w1 of
                 (True, w2) \<Rightarrow> (Inl (l, Some (Typed (new_failure WaitTimeout ''session.ready''
                                  ''waiting for session %q was cancelled''))), w2)
               | (False, w2) \<Rightarrow> (Inr l, w2)))
      in case err of
           None \<Rightarrow>
             if ct_ready st then (Inl (st, None), w1)
             else if ct_weston st = process_exited \<or> ct_agent st = process_exited then
               (Inl (st, exited), w1)
             else go_on st
         | Some e \<Rightarrow> if is_transient e then go_on lst else (Inl (st, Some e), w1))"

partial_function (option) ready_loop ::
  "codec \<Rightarrow> service \<Rightarrow> 'w engine \<Rightarrow> 'w env \<Rightarrow> string \<Rightarrow> string \<Rightarrow> time \<Rightarrow> container_status \<Rightarrow> 'w \<Rightarrow>
    ((container_status \<times> goerr option) \<times> 'w) option" where
  "ready_loop cd sv en ev i cid deadline lst w =
     (case ready_turn cd sv en ev i cid deadline lst w of
        (Inl res, w') \<Rightarrow> Some (res, w')
      | (Inr l, w') \<Rightarrow> ready_loop cd sv en ev i cid deadline l w')"

definition wait_ready ::
  "codec \<Rightarrow> service \<Rightarrow> 'w engine \<Rightarrow> 'w env \<Rightarrow> string \<Rightarrow> int \<Rightarrow> 'w sys \<Rightarrow>
    ((container_status \<times> goerr option) \<times> 'w sys) option" where
  "wait_ready cd sv en ev i timeout s =
     (case load (sy_store s) i of
        Inl e \<Rightarrow> Some ((no_status, Some e), s)
      | Inr r \<Rightarrow>
          map_option (\<lambda>(res, w). (res, s\<lparr>sy_world := w\<rparr>))
            (ready_loop cd sv en ev i (r_container_id r)
               (ev_wall ev (sy_world s) + (if timeout = 0 then sv_ready_timeout sv else timeout))
               no_status (sy_world s)))"

section \<open>Start\<close>

definition move_record ::
  "'w env \<Rightarrow> sess_state \<Rightarrow> sess_record \<Rightarrow> 'w sys \<Rightarrow> (sess_record \<times> goerr option) \<times> 'w sys" where
  "move_record ev n r s =
     (case transition n (ev_now ev (sy_world s)) r of
        Inl e \<Rightarrow> ((r, Some e), s)
      | Inr r' \<Rightarrow> (case put_record r' s of (e, s') \<Rightarrow> ((r', e), s')))"

definition start_session ::
  "codec \<Rightarrow> service \<Rightarrow> 'w engine \<Rightarrow> 'w env \<Rightarrow> string \<Rightarrow> 'w sys \<Rightarrow>
    ((sess_record \<times> goerr option) \<times> 'w sys) option" where
  "start_session cd sv en ev i s =
     (case load (sy_store s) i of
        Inl e \<Rightarrow> Some ((zero_record, Some e), s)
      | Inr r \<Rightarrow>
          if r_state r \<noteq> Creating then
            Some ((r, Some (Typed (new_failure SessionNotReady ''session.start''
              ''session %q is %s, not creating''))), s)
          else
            (case call_engine (en_start en (r_container_id r)) s of
               (Some e, s1) \<Rightarrow> Some (give_up ev r e id s1)
             | (None, s1) \<Rightarrow>
                 (case wait_ready cd sv en ev i (sv_ready_timeout sv) s1 of
                    None \<Rightarrow> None
                  | Some ((_, Some e), s2) \<Rightarrow> Some (give_up ev r e id s2)
                  | Some ((_, None), s2) \<Rightarrow> Some (move_record ev Ready r s2))))"

section \<open>Close and Purge\<close>

definition engine_failure :: "goerr option \<Rightarrow> failure option \<Rightarrow> failure option" where
  "engine_failure e prev =
     (case e of
        None \<Rightarrow> prev
      | Some (EngineNotFound _) \<Rightarrow> prev
      | Some err \<Rightarrow> Some (as_failure ''session.close'' err))"

definition take_down ::
  "'w engine \<Rightarrow> string \<Rightarrow> int \<Rightarrow> 'w sys \<Rightarrow> failure option \<times> 'w sys" where
  "take_down en cid timeout s =
     (if cid = [] then (None, s)
      else
        let (e1, s1) = call_engine (en_stop en cid timeout) s;
            (e2, s2) = call_engine (en_remove en cid) s1
        in (engine_failure e2 (engine_failure e1 None), s2))"

definition close_session ::
  "service \<Rightarrow> 'w engine \<Rightarrow> 'w env \<Rightarrow> string \<Rightarrow> int \<Rightarrow> 'w sys \<Rightarrow>
    (sess_record \<times> goerr option) \<times> 'w sys" where
  "close_session sv en ev i stop_timeout s =
     (case load (sy_store s) i of
        Inl e \<Rightarrow> ((zero_record, Some e), s)
      | Inr r \<Rightarrow>
          if r_state r = Closed then ((r, None), s)
          else
            (case (if r_state r = Closing then ((r, None), s) else move_record ev Closing r s) of
               ((r1, Some e), s1) \<Rightarrow> ((r1, Some e), s1)
             | ((r1, None), s1) \<Rightarrow>
                 (case take_down en (r_container_id r1)
                         (if stop_timeout = 0 then sv_stop_timeout sv else stop_timeout) s1 of
                    (Some f, s2) \<Rightarrow>
                      let r2 = r1\<lparr>r_state := Failed, r_updated_at := ev_now ev (sy_world s2)\<rparr> in
                      (case put_record r2 s2 of
                         (Some e, s3) \<Rightarrow> ((r2, Some e), s3)
                       | (None, s3) \<Rightarrow> ((r2, Some (Typed f)), s3))
                  | (None, s2) \<Rightarrow>
                      let r2 = r1\<lparr>r_state := Closed, r_updated_at := ev_now ev (sy_world s2)\<rparr> in
                      (case put_record r2 s2 of (e, s3) \<Rightarrow> ((r2, e), s3)))))"

fun purge_loop ::
  "service \<Rightarrow> 'w engine \<Rightarrow> 'w env \<Rightarrow> time \<Rightarrow> sess_record list \<Rightarrow> string list \<Rightarrow> 'w sys \<Rightarrow>
    (string list \<times> goerr option) \<times> 'w sys" where
  "purge_loop sv en ev now [] purged s = ((purged, None), s)"
| "purge_loop sv en ev now (r # rs) purged s =
     (if \<not> expired r now then purge_loop sv en ev now rs purged s
      else
        (case close_session sv en ev (r_session r) (sv_stop_timeout sv) s of
           ((_, Some e), s') \<Rightarrow> ((purged, Some e), s')
         | ((_, None), s') \<Rightarrow> purge_loop sv en ev now rs (purged @ [r_session r]) s'))"

definition purge ::
  "service \<Rightarrow> 'w engine \<Rightarrow> 'w env \<Rightarrow> 'w sys \<Rightarrow> (string list \<times> goerr option) \<times> 'w sys" where
  "purge sv en ev s =
     (case list_records (sy_store s) of
        Inl e \<Rightarrow> (([], Some e), s)
      | Inr rs \<Rightarrow> purge_loop sv en ev (ev_now ev (sy_world s)) rs [] s)"

section \<open>Run\<close>

record run_request =
  rq_session :: string
  rq_limits :: limits
  rq_argv :: "string list"
  rq_env :: "string list"
  rq_workdir :: string
  rq_ephemeral :: bool
  rq_retention :: int

text \<open>What an ephemeral session gets on every way out of a run that failed.\<close>

definition drop_ephemeral ::
  "service \<Rightarrow> 'w engine \<Rightarrow> 'w env \<Rightarrow> run_request \<Rightarrow> 'w sys \<Rightarrow> 'w sys" where
  "drop_ephemeral sv en ev rq s =
     (if rq_ephemeral rq
      then snd (close_session sv en ev (rq_session rq) (sv_stop_timeout sv) s) else s)"

text \<open>The record to run in: the stored one, or that of a session created for the run.\<close>

definition run_record ::
  "codec \<Rightarrow> service \<Rightarrow> 'w engine \<Rightarrow> 'w env \<Rightarrow> run_request \<Rightarrow> 'w sys \<Rightarrow>
    ((sess_record \<times> goerr option) \<times> 'w sys) option" where
  "run_record cd sv en ev rq s =
     (case load (sy_store s) (rq_session rq) of
        Inl _ \<Rightarrow>
          (case create_session sv en ev (rq_session rq) (rq_limits rq) (rq_retention rq) s of
             ((_, Some e), s1) \<Rightarrow> Some ((zero_record, Some e), s1)
           | ((_, None), s1) \<Rightarrow>
               (case start_session cd sv en ev (rq_session rq) s1 of
                  None \<Rightarrow> None
                | Some ((r, Some e), s2) \<Rightarrow> Some ((r, Some e), drop_ephemeral sv en ev rq s2)
                | Some ((r, None), s2) \<Rightarrow> Some ((r, None), s2)))
      | Inr r \<Rightarrow>
          if \<not> interactive (r_state r) then
            Some ((r, Some (Typed (new_failure SessionNotReady ''session.run''
              ''session %q is %s and cannot run an application''))), s)
          else Some ((r, None), s))"

definition run_begin ::
  "'w env \<Rightarrow> sess_record \<Rightarrow> 'w sys \<Rightarrow> (sess_record \<times> goerr option) \<times> 'w sys" where
  "run_begin ev r s =
     (if r_state r = Running then
        ((r, Some (Typed (new_failure SessionNotReady ''session.run''
           ''session %q is already running an application; wait for it to exit or close the session''))), s)
      else move_record ev Running r s)"

definition run_spec :: "service \<Rightarrow> run_request \<Rightarrow> sess_record \<Rightarrow> exec_spec" where
  "run_spec sv rq r =
     \<lparr>ex_container = r_container_id r, ex_user = sv_application_uid sv,
      ex_workdir = rq_workdir rq, ex_env = application_env @ rq_env rq, ex_argv = rq_argv rq\<rparr>"

definition run_end ::
  "service \<Rightarrow> 'w engine \<Rightarrow> 'w env \<Rightarrow> run_request \<Rightarrow> sess_record \<Rightarrow> exec_result \<times> goerr option \<Rightarrow>
    'w sys \<Rightarrow> (sess_record \<times> goerr option) \<times> 'w sys" where
  "run_end sv en ev rq r outcome s =
     (let (res, exec_err) = outcome;
          r1 = r\<lparr>r_process := Some \<lparr>px_code = int (xr_exit_code res),
                   px_at = ev_now ev (sy_world s), px_command = rq_argv rq\<rparr>\<rparr>
      in case move_record ev Ready r1 s of
           ((r2, Some e), s1) \<Rightarrow> ((r2, Some e), s1)
         | ((r2, None), s1) \<Rightarrow>
             (case exec_err of
                Some e \<Rightarrow> ((r2, Some e), drop_ephemeral sv en ev rq s1)
              | None \<Rightarrow>
                  if xr_exit_code res \<noteq> 0 then
                    ((r2, Some (Typed (with_details
                       [(''exit_code'', dec_nat (xr_exit_code res))]
                       (new_failure ProcessExited ''session.run''
                          ''the application exited with code %d'')))),
                     drop_ephemeral sv en ev rq s1)
                  else if rq_ephemeral rq then
                    close_session sv en ev (rq_session rq) (sv_stop_timeout sv) s1
                  else ((r2, None), s1)))"

definition run_session ::
  "codec \<Rightarrow> service \<Rightarrow> 'w engine \<Rightarrow> 'w env \<Rightarrow> run_request \<Rightarrow> 'w sys \<Rightarrow>
    ((sess_record \<times> goerr option) \<times> 'w sys) option" where
  "run_session cd sv en ev rq s =
     (if rq_argv rq = [] then
        Some ((zero_record, Some (usage ''session.run'' ''an application command is required'')), s)
      else
        (case run_record cd sv en ev rq s of
           None \<Rightarrow> None
         | Some ((r, Some e), s1) \<Rightarrow> Some ((r, Some e), s1)
         | Some ((r, None), s1) \<Rightarrow>
             (case run_begin ev r s1 of
                ((r1, Some e), s2) \<Rightarrow> Some ((r1, Some e), s2)
              | ((r1, None), s2) \<Rightarrow>
                  (case call_engine (en_exec en (run_spec sv rq r1)) s2 of
                     (outcome, s3) \<Rightarrow> Some (run_end sv en ev rq r1 outcome s3)))))"

section \<open>List, Inspect, Doctor, Logs\<close>

definition observe ::
  "'w engine \<Rightarrow> sess_record \<Rightarrow> 'w sys \<Rightarrow> (goerr + observed) \<times> 'w sys" where
  "observe en r s =
     (if r_container_id r = [] then (Inr \<lparr>ob_found = False, ob_running = False\<rparr>, s)
      else
        (case call_engine (en_state en (r_container_id r)) s of
           (Inl (EngineNotFound _), s') \<Rightarrow> (Inr \<lparr>ob_found = False, ob_running = False\<rparr>, s')
         | (Inl e, s') \<Rightarrow> (Inl e, s')
         | (Inr running, s') \<Rightarrow> (Inr \<lparr>ob_found = True, ob_running = running\<rparr>, s')))"

text \<open>One record, reconciled: written back only when reconciliation changed it.\<close>

definition refresh ::
  "'w engine \<Rightarrow> 'w env \<Rightarrow> sess_record \<Rightarrow> 'w sys \<Rightarrow> (goerr + sess_record \<times> anomaly list) \<times> 'w sys" where
  "refresh en ev r s =
     (case observe en r s of
        (Inl e, s1) \<Rightarrow> (Inl e, s1)
      | (Inr ob, s1) \<Rightarrow>
          let (r', found) = reconcile r ob (ev_now ev (sy_world s1)) in
          if r' \<noteq> r then
            (case put_record r' s1 of
               (Some e, s2) \<Rightarrow> (Inl e, s2)
             | (None, s2) \<Rightarrow> (Inr (r', found), s2))
          else (Inr (r, found), s1))"

fun refresh_all ::
  "'w engine \<Rightarrow> 'w env \<Rightarrow> sess_record list \<Rightarrow> 'w sys \<Rightarrow>
    (goerr + sess_record list \<times> (string \<times> anomaly) list) \<times> 'w sys" where
  "refresh_all en ev [] s = (Inr ([], []), s)"
| "refresh_all en ev (r # rs) s =
     (case refresh en ev r s of
        (Inl e, s1) \<Rightarrow> (Inl e, s1)
      | (Inr (r', found), s1) \<Rightarrow>
          (case refresh_all en ev rs s1 of
             (Inl e, s2) \<Rightarrow> (Inl e, s2)
           | (Inr (rs', as), s2) \<Rightarrow>
               (Inr (r' # rs', map (Pair (r_session r')) found @ as), s2)))"

definition list_sessions ::
  "'w engine \<Rightarrow> 'w env \<Rightarrow> 'w sys \<Rightarrow>
    (goerr + sess_record list \<times> (string \<times> anomaly) list) \<times> 'w sys" where
  "list_sessions en ev s =
     (case list_records (sy_store s) of
        Inl e \<Rightarrow> (Inl e, s)
      | Inr rs \<Rightarrow> refresh_all en ev rs s)"

definition inspect ::
  "'w engine \<Rightarrow> 'w env \<Rightarrow> string \<Rightarrow> 'w sys \<Rightarrow>
    (goerr + sess_record \<times> (string \<times> anomaly) list) \<times> 'w sys" where
  "inspect en ev i s =
     (case load (sy_store s) i of
        Inl e \<Rightarrow> (Inl e, s)
      | Inr r \<Rightarrow>
          (case refresh en ev r s of
             (Inl e, s1) \<Rightarrow> (Inl e, s1)
           | (Inr (r', found), s1) \<Rightarrow> (Inr (r', map (Pair i) found), s1)))"

record doctor_report =
  dr_state_root :: string
  dr_image :: string
  dr_control_uid :: nat
  dr_app_uid :: nat
  dr_keyboard :: "string \<times> string \<times> string"
  dr_capabilities :: capabilities
  dr_degradations :: "string list"
  dr_sessions :: "sess_record list"
  dr_anomalies :: "(string \<times> anomaly) list"

definition doctor ::
  "service \<Rightarrow> 'w engine \<Rightarrow> 'w env \<Rightarrow> 'w sys \<Rightarrow> (goerr + doctor_report) \<times> 'w sys" where
  "doctor sv en ev s =
     (case call_engine (en_capabilities en) s of
        (Inl e, s1) \<Rightarrow> (Inl e, s1)
      | (Inr c, s1) \<Rightarrow>
          (case list_sessions en ev s1 of
             (Inl e, s2) \<Rightarrow> (Inl e, s2)
           | (Inr (rs, as), s2) \<Rightarrow>
               (Inr \<lparr>dr_state_root = st_root (sy_store s2), dr_image = sv_image sv,
                     dr_control_uid = sv_control_uid sv, dr_app_uid = sv_application_uid sv,
                     dr_keyboard = (''evdev'', ''pc105'', ''us''), dr_capabilities = c,
                     dr_degradations = degradations c, dr_sessions = rs, dr_anomalies = as\<rparr>, s2)))"

definition session_logs ::
  "'w engine \<Rightarrow> string \<Rightarrow> int \<Rightarrow> 'w sys \<Rightarrow> (goerr option \<times> string) \<times> 'w sys" where
  "session_logs en i tail s =
     (case load (sy_store s) i of
        Inl e \<Rightarrow> ((Some e, []), s)
      | Inr r \<Rightarrow>
          if r_container_id r = [] then
            ((Some (Typed (new_failure SessionNotReady ''session.logs''
               ''session %q never reached a container'')), []), s)
          else call_engine (en_logs en (r_container_id r) (if tail \<le> 0 then 200 else tail)) s)"

section \<open>Inject\<close>

record inject_request =
  ij_session :: string
  ij_kind :: string
  ij_name :: string
  ij_mode :: nat
  ij_max_bytes :: int
  ij_max_files :: int
  ij_has_source :: bool

definition inject_argv :: "inject_request \<Rightarrow> string list" where
  "inject_argv q =
     [''/usr/libexec/wlvision-supervisor'', ''receive'',
      ''--kind'', ij_kind q, ''--name'', ij_name q, ''--dir'', runtime_dir @ ''/payload'',
      ''--max-bytes'', dec_int (if ij_max_bytes q \<le> 0 then 64 * 2 ^ 20 else ij_max_bytes q),
      ''--max-files'', dec_int (if ij_max_files q \<le> 0 then 1024 else ij_max_files q)] @
     opt_args (ij_mode q \<noteq> 0) [''--mode'', ''0'' @ octal (ij_mode q)]"

definition inject ::
  "codec \<Rightarrow> service \<Rightarrow> 'w engine \<Rightarrow> 'w env \<Rightarrow> inject_request \<Rightarrow> 'w sys \<Rightarrow> (goerr + payload) \<times> 'w sys" where
  "inject cd sv en ev q s =
     (case load (sy_store s) (ij_session q) of
        Inl e \<Rightarrow> (Inl e, s)
      | Inr r \<Rightarrow>
          if \<not> interactive (r_state r) then
            (Inl (Typed (new_failure SessionNotReady ''session.inject'' ''session %q is %s'')), s)
          else if \<not> ij_has_source q then
            (Inl (usage ''session.inject'' ''a payload stream is required''), s)
          else
            (case call_engine (en_stream en
                    \<lparr>ex_container = r_container_id r, ex_user = sv_control_uid sv, ex_workdir = [],
                     ex_env = [], ex_argv = inject_argv q\<rparr>) s of
               ((Some e, _, err), s1) \<Rightarrow>
                 (Inl (case decode_failure cd err of Some f \<Rightarrow> Typed f | None \<Rightarrow> e), s1)
             | ((None, out, _), s1) \<Rightarrow>
                 (case cd_payload cd (trim_space out) of
                    None \<Rightarrow> (Inl (Typed (new_failure PayloadRejected ''session.inject''
                              ''the receiver did not report what it stored: %v'')), s1)
                  | Some pr \<Rightarrow>
                      let now = ev_now ev (sy_world s1);
                          p = \<lparr>pl_digest = pr_digest pr, pl_path = pr_path pr,
                               pl_bytes = pr_bytes pr, pl_received_at = now\<rparr>;
                          r' = r\<lparr>r_payloads := r_payloads r @ [p], r_updated_at := now\<rparr>
                      in (case put_record r' s1 of
                            (Some e, s2) \<Rightarrow> (Inl e, s2)
                          | (None, s2) \<Rightarrow> (Inr p, s2)))))"

section \<open>What an operation does to the records\<close>

text \<open>
  The abstract life of one session: \<open>None\<close> is no usable record. A session is opened where
  there is none or a closed one, and then moves; the rest of this section shows which
  operations may open and that the others only move.
\<close>

inductive life_open :: "sess_record option \<Rightarrow> sess_record option \<Rightarrow> bool" where
  opened: "(case m of None \<Rightarrow> True | Some r \<Rightarrow> r_state r = Closed) \<Longrightarrow>
     r_state r' = Creating \<Longrightarrow> r_container_id r' = [] \<Longrightarrow>
     r_container_name r' = container_name (r_session r') \<Longrightarrow>
     r_payloads r' = [] \<Longrightarrow> r_process r' = None \<Longrightarrow> life_open m (Some r')"

inductive life_move :: "sess_record option \<Rightarrow> sess_record option \<Rightarrow> bool" where
  bound: "r_state r = Creating \<Longrightarrow> r_container_id r = [] \<Longrightarrow>
     life_move (Some r) (Some (r\<lparr>r_container_id := c, r_updated_at := t\<rparr>))"
| moved: "can_transition (r_state r) n \<Longrightarrow>
     life_move (Some r) (Some (r\<lparr>r_state := n, r_updated_at := t\<rparr>))"
| ran: "r_state r = Running \<Longrightarrow>
     life_move (Some r) (Some (r\<lparr>r_process := Some p, r_state := Ready, r_updated_at := t\<rparr>))"
| injected: "interactive (r_state r) \<Longrightarrow>
     life_move (Some r) (Some (r\<lparr>r_payloads := r_payloads r @ [p], r_updated_at := t\<rparr>))"

inductive_cases life_openE: "life_open m m'"
inductive_cases life_moveE: "life_move m m'"

definition life_step :: "sess_record option \<Rightarrow> sess_record option \<Rightarrow> bool" where
  "life_step m m' \<longleftrightarrow> life_open m m' \<or> life_move m m'"

lemma life_stepE:
  assumes "life_step m m'"
  obtains "life_open m m'" | "life_move m m'"
  using assms by (auto simp: life_step_def)

text \<open>A closed session never moves again, and no move invents or loses a record.\<close>

lemma closed_stays:
  assumes "life_move\<^sup>*\<^sup>* (Some r) m" and "r_state r = Closed"
  shows "m = Some r"
  using assms by (induction rule: rtranclp_induct) (auto elim!: life_moveE)

lemma none_stays: "life_move\<^sup>*\<^sup>* None m \<Longrightarrow> m = None"
  by (induction rule: rtranclp_induct) (auto elim!: life_moveE)

lemma moves_are_steps: "life_move\<^sup>*\<^sup>* m m' \<Longrightarrow> life_step\<^sup>*\<^sup>* m m'"
  by (erule rtranclp_mono [THEN predicate2D, rotated]) (auto simp: life_step_def)

text \<open>What an operation that may open a session does: at most one opening, then moves.\<close>

definition life_run :: "sess_record option \<Rightarrow> sess_record option \<Rightarrow> bool" where
  "life_run = life_open\<^sup>=\<^sup>= OO life_move\<^sup>*\<^sup>*"

lemma life_run_open: "life_open m m' \<Longrightarrow> life_run m m'"
  by (auto simp: life_run_def)

lemma life_run_moves: "life_move\<^sup>*\<^sup>* m m' \<Longrightarrow> life_run m m'"
  by (auto simp: life_run_def)

lemma life_run_refl [simp]: "life_run m m"
  by (rule life_run_moves) simp

lemma life_run_trans: "life_run m m' \<Longrightarrow> life_move\<^sup>*\<^sup>* m' m'' \<Longrightarrow> life_run m m''"
  unfolding life_run_def by (blast intro: rtranclp_trans)

lemma life_run_steps: "life_run m m' \<Longrightarrow> life_step\<^sup>*\<^sup>* m m'"
  unfolding life_run_def
  by (auto dest!: moves_are_steps intro: converse_rtranclp_into_rtranclp simp: life_step_def)

definition named_ok :: "sess_record option \<Rightarrow> bool" where
  "named_ok m = (case m of None \<Rightarrow> True | Some r \<Rightarrow> r_container_name r = container_name (r_session r))"

interpretation life_named: invariant_relation life_step named_ok
  by unfold_locales (auto simp: named_ok_def elim!: life_stepE life_openE life_moveE)

definition records :: "'w sys \<Rightarrow> string \<Rightarrow> sess_record option" where
  "records s = session_store.view (sy_store s)"

definition wf_sys :: "'w sys \<Rightarrow> bool" where
  "wf_sys s \<longleftrightarrow> wf_store (sy_store s)"

definition lives :: "'w sys \<Rightarrow> 'w sys \<Rightarrow> bool" where
  "lives s s' \<longleftrightarrow> (wf_sys s \<longrightarrow> wf_sys s' \<and> (\<forall>i. life_step\<^sup>*\<^sup>* (records s i) (records s' i)))"

text \<open>
  \<open>effect_by R i s s'\<close>: from \<open>s\<close> to \<open>s'\<close> only session \<open>i\<close> changed, and as \<open>R\<close> says. A \<open>quiet\<close>
  operation only moves its session; an \<open>effect\<close> may open it first.
\<close>

definition effect_by ::
  "(sess_record option \<Rightarrow> sess_record option \<Rightarrow> bool) \<Rightarrow> string \<Rightarrow> 'w sys \<Rightarrow> 'w sys \<Rightarrow> bool" where
  "effect_by R i s s' \<longleftrightarrow> (wf_sys s \<longrightarrow> wf_sys s' \<and> (\<forall>j. j \<noteq> i \<longrightarrow> records s' j = records s j) \<and>
     R (records s i) (records s' i))"

abbreviation quiet :: "string \<Rightarrow> 'w sys \<Rightarrow> 'w sys \<Rightarrow> bool" where
  "quiet \<equiv> effect_by life_move\<^sup>*\<^sup>*"

abbreviation effect :: "string \<Rightarrow> 'w sys \<Rightarrow> 'w sys \<Rightarrow> bool" where
  "effect \<equiv> effect_by life_run"

lemma effect_refl [simp, intro]: "effect i s s" "quiet i s s"
  by (simp_all add: effect_by_def)

lemma quiet_effect: "quiet i s t \<Longrightarrow> effect i s t"
  by (simp add: effect_by_def life_run_moves)

lemma effect_trans: "effect i s t \<Longrightarrow> quiet i t u \<Longrightarrow> effect i s u"
  by (auto simp: effect_by_def intro: life_run_trans)

lemma quiet_trans [trans]: "quiet i s t \<Longrightarrow> quiet i t u \<Longrightarrow> quiet i s u"
  by (auto simp: effect_by_def intro: rtranclp_trans)

lemma effect_wf: "effect_by R i s t \<Longrightarrow> wf_sys s \<Longrightarrow> wf_sys t"
  by (simp add: effect_by_def)

lemma lives_trans [trans]: "lives s t \<Longrightarrow> lives t u \<Longrightarrow> lives s u"
  by (auto simp: lives_def intro: rtranclp_trans)

lemma effect_lives: "effect i s t \<Longrightarrow> lives s t"
  unfolding effect_by_def lives_def by (metis life_run_steps rtranclp.rtrancl_refl)

lemma quiet_lives: "quiet i s t \<Longrightarrow> lives s t"
  by (rule effect_lives [OF quiet_effect])

lemma lives_refl [simp, intro]: "lives s s"
  by (simp add: lives_def)

lemma same_store:
  assumes "sy_store s' = sy_store s"
  shows "records s' = records s" "wf_sys s' = wf_sys s" "quiet i s s'"
  using assms by (auto simp: records_def wf_sys_def effect_by_def)

lemma call_engine_store: "call_engine f s = (x, s') \<Longrightarrow> sy_store s' = sy_store s"
  by (auto simp: call_engine_def split: prod.splits)

lemmas engine_effect = same_store [OF call_engine_store]

lemma load_records: "load (sy_store s) i = Inr r \<longleftrightarrow> records s i = Some r"
  by (simp add: records_def session_store.view_iff)

lemma records_session: "wf_sys s \<Longrightarrow> records s i = Some r \<Longrightarrow> r_session r = i"
  by (auto simp: records_def wf_sys_def intro: session_store.view_session)

lemma put_record_by:
  assumes p: "put_record r s = (e, s')" and i: "wf_sys s \<Longrightarrow> r_session r = i"
    and st: "wf_sys s \<Longrightarrow> R (records s i) (Some r)" and refl: "\<And>m. R m m"
  shows "effect_by R i s s'"
    "e = None \<Longrightarrow> records s' = (records s)(r_session r \<mapsto> r)"
    "sy_world s' = sy_world s"
proof -
  from p obtain st' where sv: "save (sy_store s) r = (e, st')" and s': "s' = s\<lparr>sy_store := st'\<rparr>"
    by (auto simp: put_record_def split: prod.splits)
  have v: "records s' = records s \<or> records s' = (records s)(r_session r \<mapsto> r)"
    using session_store.save_view [OF sv] by (simp add: records_def s')
  have w: "wf_sys s'" if "wf_sys s"
    using that session_store.good_save [OF _ sv] by (simp add: wf_sys_def s')
  show "effect_by R i s s'"
    unfolding effect_by_def using v w i st refl by auto
  show "e = None \<Longrightarrow> records s' = (records s)(r_session r \<mapsto> r)"
    using session_store.save_view_ok sv by (auto simp: records_def s')
  show "sy_world s' = sy_world s" by (simp add: s')
qed

lemma put_record_effect:
  assumes p: "put_record r s = (e, s')" and i: "wf_sys s \<Longrightarrow> r_session r = i"
    and st: "wf_sys s \<Longrightarrow> life_move (records s i) (Some r)"
  shows "quiet i s s'"
    "e = None \<Longrightarrow> records s' = (records s)(r_session r \<mapsto> r)"
    "sy_world s' = sy_world s"
  using put_record_by [OF p i, of "life_move\<^sup>*\<^sup>*"] st by auto

lemma move_record_effect:
  assumes m: "move_record ev n r s = ((r', e), s')"
    and v: "wf_sys s \<Longrightarrow> records s i = Some r"
  shows "quiet i s s'"
    "e = None \<Longrightarrow> records s' = (records s)(r_session r \<mapsto> r') \<and> can_transition (r_state r) n \<and>
       r' = r\<lparr>r_state := n, r_updated_at := ev_now ev (sy_world s)\<rparr>"
    "sy_world s' = sy_world s"
proof -
  have "quiet i s s' \<and> (e = None \<longrightarrow> records s' = (records s)(r_session r \<mapsto> r') \<and>
      can_transition (r_state r) n \<and> r' = r\<lparr>r_state := n, r_updated_at := ev_now ev (sy_world s)\<rparr>) \<and>
      sy_world s' = sy_world s"
  proof (cases "transition n (ev_now ev (sy_world s)) r")
    case (Inl x)
    then show ?thesis using m by (auto simp: move_record_def)
  next
    case (Inr q)
    then have q: "can_transition (r_state r) n" "q = r\<lparr>r_state := n, r_updated_at := ev_now ev (sy_world s)\<rparr>"
      by (auto simp: transition_Inr)
    from m Inr have p: "put_record q s = (e, s')" and r': "r' = q"
      by (auto simp: move_record_def split: prod.splits)
    have ses: "wf_sys s \<Longrightarrow> r_session q = i" using v records_session q(2) by auto
    have "wf_sys s \<Longrightarrow> life_move (records s i) (Some q)"
      using v q by (auto intro: life_move.moved)
    note eff = put_record_effect [OF p ses this]
    show ?thesis using eff q r' by auto
  qed
  then show "quiet i s s'"
    "e = None \<Longrightarrow> records s' = (records s)(r_session r \<mapsto> r') \<and> can_transition (r_state r) n \<and>
       r' = r\<lparr>r_state := n, r_updated_at := ev_now ev (sy_world s)\<rparr>"
    "sy_world s' = sy_world s" by auto
qed

lemma give_up_effect:
  assumes g: "give_up ev r e f s = ((r', e'), s')"
    and v: "wf_sys s \<Longrightarrow> records s i = Some r" and st: "can_transition (r_state r) Failed"
  shows "quiet i s s'" "e' \<noteq> None" "sy_world s' = sy_world s"
proof -
  let ?q = "r\<lparr>r_state := Failed, r_updated_at := ev_now ev (sy_world s)\<rparr>"
  obtain x where p: "put_record ?q s = (x, s')" and e': "e' \<noteq> None"
    using g by (auto simp: give_up_def Let_def split: prod.splits option.splits)
  have ses: "wf_sys s \<Longrightarrow> r_session ?q = i" using v records_session by auto
  have "wf_sys s \<Longrightarrow> life_move (records s i) (Some ?q)"
    using v st by (auto intro: life_move.moved)
  note eff = put_record_effect [OF p ses this]
  show "quiet i s s'" "e' \<noteq> None" "sy_world s' = sy_world s" using eff e' by auto
qed

section \<open>The operations take life-cycle steps on their own session only\<close>

lemma fresh_record_step:
  assumes "valid_session_id i" and "\<not> (case load (sy_store s) i of Inl _ \<Rightarrow> False | Inr ex \<Rightarrow> r_state ex \<noteq> Closed)"
  shows "life_open (records s i) (Some (fresh_record sv c i l retention t))"
  using assms
  by (intro life_open.opened)
    (auto simp: fresh_record_def records_def session_store.view_def split: sum.splits)

lemma fresh_record_sel [simp]:
  "r_session (fresh_record sv c i l q t) = i" "r_state (fresh_record sv c i l q t) = Creating"
  "r_container_id (fresh_record sv c i l q t) = []"
  "r_container_name (fresh_record sv c i l q t) = container_name i"
  by (simp_all add: fresh_record_def)

lemma create_effect:
  assumes c: "create_session sv en ev i l q s = ((r, e), s')"
  shows "effect i s s'"
    "e = None \<Longrightarrow> records s' i = Some r \<and> r_state r = Creating \<and> r_session r = i"
proof -
  let ?guard = "\<lambda>t. case load (sy_store t) i of Inl _ \<Rightarrow> False | Inr ex \<Rightarrow> r_state ex \<noteq> Closed"
  have "effect i s s' \<and> (e = None \<longrightarrow> records s' i = Some r \<and> r_state r = Creating \<and> r_session r = i)"
  proof (cases "valid_session_id i")
    case False
    then show ?thesis using c by (auto simp: create_session_def)
  next
    case valid: True
    obtain x s1 where cap: "call_engine (en_capabilities en) s = (x, s1)" by (cases "call_engine (en_capabilities en) s")
    note same = engine_effect [OF cap]
    have e1: "effect i s s1" using same(3) by (rule quiet_effect)
    show ?thesis
    proof (cases "\<exists>c. x = Inr c \<and> \<not> ?guard s1")
      case False
      then show ?thesis using c valid cap e1
        by (auto simp: create_session_def split: sum.splits if_splits)
    next
      case True
      then obtain cp where x: "x = Inr cp" and g: "\<not> ?guard s1" by blast
      let ?r = "fresh_record sv cp i l q (ev_now ev (sy_world s1))"
      obtain y s2 where put: "put_record ?r s1 = (y, s2)" by (cases "put_record ?r s1")
      have ses: "r_session ?r = i" by simp
      have p1: "effect i s1 s2" "y = None \<Longrightarrow> records s2 = (records s1)(i \<mapsto> ?r)"
        using put_record_by [OF put ses life_run_open [OF fresh_record_step [OF valid g]] life_run_refl] by simp_all
      have e2: "effect i s s2" using p1(1) same(1,2) by (simp add: effect_by_def)
      show ?thesis
      proof (cases y)
        case (Some z)
        then show ?thesis using c valid cap x g put e2
          by (auto simp: create_session_def Let_def split: if_splits)
      next
        case None
        then have r2: "records s2 i = Some ?r" using p1(2) by simp
        obtain o1 s3 where mk: "call_engine (en_create en (session_spec sv ?r l)) s2 = (o1, s3)"
          by (cases "call_engine (en_create en (session_spec sv ?r l)) s2")
        note k = engine_effect [OF mk]
        have e3: "effect i s s3" using e2 k(3) effect_trans by blast
        have r3: "records s3 i = Some ?r" using r2 k by simp
        show ?thesis
        proof (cases o1)
          case (Inl z)
          then have gu: "give_up ev ?r z (\<lambda>_. zero_record) s3 = ((r, e), s')"
            using c valid cap x g put None mk by (auto simp: create_session_def Let_def split: if_splits)
          then show ?thesis
            using give_up_effect [OF gu, of i] r3 e3 effect_trans by auto
        next
          case (Inr cid)
          let ?q = "?r\<lparr>r_container_id := cid, r_updated_at := ev_now ev (sy_world s3)\<rparr>"
          obtain f s4 where fin: "put_record ?q s3 = (f, s4)" by (cases "put_record ?q s3")
          have ls: "life_move (records s3 i) (Some ?q)" using r3 by (auto intro: life_move.bound)
          have ses: "r_session ?q = i" by simp
          have p2: "quiet i s3 s4" "f = None \<Longrightarrow> records s4 = (records s3)(i \<mapsto> ?q)"
            using put_record_effect [OF fin ses ls] by simp_all
          have "effect i s s4" using e3 p2(1) effect_trans by blast
          then show ?thesis using c valid cap x g put None mk Inr fin p2(2)
            by (auto simp: create_session_def Let_def split: if_splits option.splits)
        qed
      qed
    qed
  qed
  then show "effect i s s'"
    "e = None \<Longrightarrow> records s' i = Some r \<and> r_state r = Creating \<and> r_session r = i" by auto
qed

lemma wait_ready_effect:
  "wait_ready cd sv en ev i t s = Some (res, s') \<Longrightarrow> sy_store s' = sy_store s"
  by (auto simp: wait_ready_def split: sum.splits)

lemma start_effect:
  assumes c: "start_session cd sv en ev i s = Some ((r, e), s')"
  shows "quiet i s s'" "wf_sys s \<Longrightarrow> e = None \<Longrightarrow> records s' i = Some r \<and> r_state r = Ready"
proof -
  have "quiet i s s' \<and> (wf_sys s \<longrightarrow> e = None \<longrightarrow> records s' i = Some r \<and> r_state r = Ready)"
  proof (cases "load (sy_store s) i")
    case (Inl x)
    then show ?thesis using c by (auto simp: start_session_def)
  next
    case (Inr q)
    show ?thesis
    proof (cases "r_state q = Creating")
      case False
      then show ?thesis using c Inr by (auto simp: start_session_def)
    next
      case True
      then have st: "can_transition (r_state q) Failed" by simp
      from Inr have v: "records s i = Some q" by (simp add: load_records)
      obtain x s1 where es: "call_engine (en_start en (r_container_id q)) s = (x, s1)"
        by (cases "call_engine (en_start en (r_container_id q)) s")
      have v1: "records s1 i = Some q" and e1: "quiet i s s1" using engine_effect [OF es] v by auto
      show ?thesis
      proof (cases x)
        case (Some z)
        then have gu: "give_up ev q z id s1 = ((r, e), s')"
          using c Inr True es by (auto simp: start_session_def)
        then show ?thesis using give_up_effect [OF gu v1 st] quiet_trans [OF e1] by auto
      next
        case None
        then obtain st2 x2 s2 where wr: "wait_ready cd sv en ev i (sv_ready_timeout sv) s1 = Some ((st2, x2), s2)"
          using c Inr True es by (auto simp: start_session_def split: option.splits prod.splits)
        note k = same_store [OF wait_ready_effect [OF wr]]
        have v2: "records s2 i = Some q" and e2: "quiet i s s2"
          using k v1 quiet_trans [OF e1] by auto
        show ?thesis
        proof (cases x2)
          case (Some z)
          then have gu: "give_up ev q z id s2 = ((r, e), s')"
            using c Inr True es None wr by (auto simp: start_session_def)
          then show ?thesis using give_up_effect [OF gu v2 st] quiet_trans [OF e2] by auto
        next
          case None
          then have mv: "move_record ev Ready q s2 = ((r, e), s')"
            using c Inr True es \<open>x = None\<close> wr by (auto simp: start_session_def)
          have "wf_sys s \<Longrightarrow> r_session q = i" using v records_session by auto
          then show ?thesis using move_record_effect [OF mv v2] quiet_trans [OF e2] by auto
        qed
      qed
    qed
  qed
  then show "quiet i s s'" "wf_sys s \<Longrightarrow> e = None \<Longrightarrow> records s' i = Some r \<and> r_state r = Ready" by auto
qed

lemma take_down_store: "take_down en cid t s = (f, s') \<Longrightarrow> sy_store s' = sy_store s"
  by (auto simp: take_down_def Let_def call_engine_store split: prod.splits if_splits)

lemma close_finish_effect:
  assumes p: "put_record (r\<lparr>r_state := n, r_updated_at := t\<rparr>) s = (x, s')"
    and v: "records s i = Some r" and st: "r_state r = Closing" and n: "n = Closed \<or> n = Failed"
  shows "quiet i s s'"
    "wf_sys s \<Longrightarrow> x = None \<Longrightarrow> records s' i = Some (r\<lparr>r_state := n, r_updated_at := t\<rparr>)"
proof -
  let ?q = "r\<lparr>r_state := n, r_updated_at := t\<rparr>"
  have ses: "wf_sys s \<Longrightarrow> r_session ?q = i" using v records_session by auto
  have ls: "life_move (records s i) (Some ?q)" using v st n by (auto intro: life_move.moved)
  note eff = put_record_effect [OF p ses ls]
  show "quiet i s s'" "wf_sys s \<Longrightarrow> x = None \<Longrightarrow> records s' i = Some ?q" using eff(1,2) ses by auto
qed

lemma close_effect:
  assumes c: "close_session sv en ev i t s = ((r, e), s')"
  shows "quiet i s s'" "wf_sys s \<Longrightarrow> e = None \<Longrightarrow> records s' i = Some r \<and> r_state r = Closed"
proof -
  have "quiet i s s' \<and> (wf_sys s \<longrightarrow> e = None \<longrightarrow> records s' i = Some r \<and> r_state r = Closed)"
  proof (cases "load (sy_store s) i")
    case (Inl x)
    then show ?thesis using c by (auto simp: close_session_def)
  next
    case (Inr q)
    then have v: "records s i = Some q" by (simp add: load_records)
    show ?thesis
    proof (cases "r_state q = Closed")
      case True
      then show ?thesis using c Inr v by (auto simp: close_session_def)
    next
      case open_: False
      let ?to = "if t = 0 then sv_stop_timeout sv else t"
      obtain r1 e1 s1 where mv: "(if r_state q = Closing then ((q, None), s) else move_record ev Closing q s) = ((r1, e1), s1)"
        by (metis prod.collapse)
      have ses: "wf_sys s \<Longrightarrow> r_session q = i" using v records_session by auto
      have m: "quiet i s s1" "wf_sys s \<Longrightarrow> e1 = None \<Longrightarrow> records s1 i = Some r1 \<and> r_state r1 = Closing"
        using mv v ses move_record_effect [of ev Closing q s r1 e1 s1 i] by (auto split: if_splits)
      show ?thesis
      proof (cases e1)
        case (Some z)
        then show ?thesis using c Inr open_ mv m(1) by (auto simp: close_session_def)
      next
        case None
        obtain f s2 where td: "take_down en (r_container_id r1) ?to s1 = (f, s2)"
          by (cases "take_down en (r_container_id r1) ?to s1")
        note k = same_store [OF take_down_store [OF td]]
        have e2: "quiet i s s2" using m(1) k(3) quiet_trans by blast
        let ?n = "case f of None \<Rightarrow> Closed | Some _ \<Rightarrow> Failed"
        let ?q = "r1\<lparr>r_state := ?n, r_updated_at := ev_now ev (sy_world s2)\<rparr>"
        obtain x s3 where put: "put_record ?q s2 = (x, s3)" by (cases "put_record ?q s2")
        have res: "s' = s3" "e = None \<Longrightarrow> f = None \<and> x = None \<and> r = ?q"
          using c Inr open_ mv None td put by (auto simp: close_session_def Let_def split: option.splits)
        show ?thesis
        proof (cases "wf_sys s")
          case False
          then show ?thesis by (simp add: effect_by_def)
        next
          case True
          then have v2: "records s2 i = Some r1" "r_state r1 = Closing" using m(2) None k(1) by auto
          have n: "?n = Closed \<or> ?n = Failed" by (cases f) auto
          note fin = close_finish_effect [OF put v2 n]
          have "quiet i s s3" using quiet_trans [OF e2 fin(1)] .
          then show ?thesis
            using res fin(2) effect_wf [OF e2 True] by auto
        qed
      qed
    qed
  qed
  then show "quiet i s s'" "wf_sys s \<Longrightarrow> e = None \<Longrightarrow> records s' i = Some r \<and> r_state r = Closed"
    by auto
qed

lemma drop_ephemeral_effect: "quiet (rq_session rq) s (drop_ephemeral sv en ev rq s)"
  using close_effect(1) [of sv en ev "rq_session rq" "sv_stop_timeout sv" s]
  by (metis drop_ephemeral_def effect_refl prod.collapse)

lemma run_record_effect:
  assumes c: "run_record cd sv en ev rq s = Some ((r, e), s')"
  shows "effect (rq_session rq) s s'"
    "wf_sys s \<Longrightarrow> e = None \<Longrightarrow> records s' (rq_session rq) = Some r \<and> interactive (r_state r)"
proof -
  let ?i = "rq_session rq"
  have "effect ?i s s' \<and> (wf_sys s \<longrightarrow> e = None \<longrightarrow> records s' ?i = Some r \<and> interactive (r_state r))"
  proof (cases "load (sy_store s) ?i")
    case (Inr q)
    then have "records s ?i = Some q" by (simp add: load_records)
    then show ?thesis using c Inr by (auto simp: run_record_def split: if_splits)
  next
    case (Inl z)
    obtain r1 e1 s1 where cr: "create_session sv en ev ?i (rq_limits rq) (rq_retention rq) s = ((r1, e1), s1)"
      by (metis prod.collapse)
    note c1 = create_effect [OF cr]
    show ?thesis
    proof (cases e1)
      case (Some y)
      then show ?thesis using c Inl cr c1(1) by (auto simp: run_record_def)
    next
      case None
      then obtain r2 e2 s2 where st: "start_session cd sv en ev ?i s1 = Some ((r2, e2), s2)"
        using c Inl cr by (auto simp: run_record_def split: option.splits)
      note c2 = start_effect [OF st]
      have e12: "effect ?i s s2" using c1(1) c2(1) effect_trans by blast
      show ?thesis
      proof (cases e2)
        case (Some y)
        then show ?thesis using c Inl cr None st e12 drop_ephemeral_effect [of rq s2 sv en ev] effect_trans
          by (auto simp: run_record_def)
      next
        case None2: None
        then show ?thesis using c Inl cr None st e12 c2(2) effect_wf [OF c1(1)]
          by (auto simp: run_record_def)
      qed
    qed
  qed
  then show "effect ?i s s'"
    "wf_sys s \<Longrightarrow> e = None \<Longrightarrow> records s' ?i = Some r \<and> interactive (r_state r)" by auto
qed

lemma run_begin_effect:
  assumes b: "run_begin ev r s = ((r', e), s')" and v: "wf_sys s \<Longrightarrow> records s i = Some r"
  shows "quiet i s s'" "wf_sys s \<Longrightarrow> e = None \<Longrightarrow> records s' i = Some r' \<and> r_state r' = Running"
proof -
  have "quiet i s s' \<and> (wf_sys s \<longrightarrow> e = None \<longrightarrow> records s' i = Some r' \<and> r_state r' = Running)"
  proof (cases "r_state r = Running")
    case True
    then show ?thesis using b by (auto simp: run_begin_def)
  next
    case False
    then have mv: "move_record ev Running r s = ((r', e), s')" using b by (simp add: run_begin_def)
    have "wf_sys s \<Longrightarrow> r_session r = i" using v records_session by auto
    then show ?thesis using move_record_effect [OF mv v] by auto
  qed
  then show "quiet i s s'" "wf_sys s \<Longrightarrow> e = None \<Longrightarrow> records s' i = Some r' \<and> r_state r' = Running" by auto
qed

lemma run_finish_effect:
  assumes m: "move_record ev Ready (r\<lparr>r_process := Some p\<rparr>) s = ((r', e), s')"
    and v: "wf_sys s \<Longrightarrow> records s i = Some r" and st: "wf_sys s \<Longrightarrow> r_state r = Running"
  shows "quiet i s s'"
    "wf_sys s \<Longrightarrow> e = None \<Longrightarrow> records s' i = Some r' \<and> r_state r' = Ready \<and> r_process r' = Some p"
proof -
  let ?q = "r\<lparr>r_process := Some p, r_state := Ready, r_updated_at := ev_now ev (sy_world s)\<rparr>"
  have "quiet i s s' \<and> (e = None \<longrightarrow> records s' i = Some r' \<and> r' = ?q)" if w: "wf_sys s"
  proof -
    have tr: "transition Ready (ev_now ev (sy_world s)) (r\<lparr>r_process := Some p\<rparr>) = Inr ?q"
      using st [OF w] by (simp add: transition_Inr)
    have put: "put_record ?q s = (e, s')" and r': "r' = ?q"
      using m tr by (auto simp: move_record_def split: prod.splits)
    have ses: "r_session ?q = i" using v [OF w] records_session [OF w] by auto
    have ls: "life_move (records s i) (Some ?q)"
      using v [OF w] st [OF w] by (auto intro: life_move.ran)
    show ?thesis using put_record_effect [OF put ses ls] r' ses by auto
  qed
  then show "quiet i s s'"
    "wf_sys s \<Longrightarrow> e = None \<Longrightarrow> records s' i = Some r' \<and> r_state r' = Ready \<and> r_process r' = Some p"
    by (auto simp: effect_by_def)
qed

lemma run_end_effect:
  assumes c: "run_end sv en ev rq r out s = ((r', e), s')"
    and v: "wf_sys s \<Longrightarrow> records s (rq_session rq) = Some r \<and> r_state r = Running"
  shows "quiet (rq_session rq) s s'"
    "wf_sys s \<Longrightarrow> e = None \<Longrightarrow> records s' (rq_session rq) = Some r' \<and>
       r_state r' = (if rq_ephemeral rq then Closed else Ready) \<and> snd out = None \<and> xr_exit_code (fst out) = 0"
proof -
  let ?i = "rq_session rq"
  obtain res xe where out: "out = (res, xe)" by (cases out)
  let ?p = "\<lparr>px_code = int (xr_exit_code res), px_at = ev_now ev (sy_world s), px_command = rq_argv rq\<rparr>"
  obtain r2 e2 s1 where mv: "move_record ev Ready (r\<lparr>r_process := Some ?p\<rparr>) s = ((r2, e2), s1)"
    by (metis prod.collapse)
  have v': "wf_sys s \<Longrightarrow> records s ?i = Some r" "wf_sys s \<Longrightarrow> r_state r = Running" using v by auto
  note m = run_finish_effect [OF mv v']
  obtain r3 e3 s3 where cl: "close_session sv en ev ?i (sv_stop_timeout sv) s1 = ((r3, e3), s3)"
    by (metis prod.collapse)
  note k = close_effect [OF cl]
  have "s' = s1 \<or> s' = s3" and
    "e = None \<Longrightarrow> snd out = None \<and> xr_exit_code (fst out) = 0 \<and> e2 = None \<and>
       (if rq_ephemeral rq then r' = r3 \<and> e3 = None \<and> s' = s3 else r' = r2 \<and> s' = s1)"
    using c mv cl by (auto simp: run_end_def out drop_ephemeral_def split: option.splits if_splits)
  moreover have "quiet ?i s s3" using m(1) k(1) quiet_trans by blast
  ultimately show "quiet ?i s s'"
    "wf_sys s \<Longrightarrow> e = None \<Longrightarrow> records s' ?i = Some r' \<and>
       r_state r' = (if rq_ephemeral rq then Closed else Ready) \<and> snd out = None \<and> xr_exit_code (fst out) = 0"
    using m(1) m(2) k(2) effect_wf [OF m(1)] by (auto split: if_splits)
qed

lemma run_effect:
  assumes c: "run_session cd sv en ev rq s = Some ((r, e), s')"
  shows "effect (rq_session rq) s s'"
    "wf_sys s \<Longrightarrow> e = None \<Longrightarrow> records s' (rq_session rq) = Some r \<and>
       r_state r = (if rq_ephemeral rq then Closed else Ready)"
proof -
  let ?i = "rq_session rq"
  have "effect ?i s s' \<and> (wf_sys s \<longrightarrow> e = None \<longrightarrow> records s' ?i = Some r \<and>
       r_state r = (if rq_ephemeral rq then Closed else Ready))"
  proof (cases "rq_argv rq = []")
    case True
    then show ?thesis using c by (auto simp: run_session_def)
  next
    case argv: False
    then obtain r0 e0 s1 where rr: "run_record cd sv en ev rq s = Some ((r0, e0), s1)"
      using c by (auto simp: run_session_def split: option.splits)
    note a = run_record_effect [OF rr]
    show ?thesis
    proof (cases e0)
      case (Some z)
      then show ?thesis using c argv rr a(1) by (auto simp: run_session_def)
    next
      case None
      have v1: "wf_sys s \<Longrightarrow> records s1 ?i = Some r0" using a(2) None by simp
      obtain r1 e1 s2 where rb: "run_begin ev r0 s1 = ((r1, e1), s2)" by (metis prod.collapse)
      show ?thesis
      proof (cases "wf_sys s")
        case False
        then show ?thesis by (simp add: effect_by_def)
      next
        case w: True
        note b = run_begin_effect [OF rb v1 [OF w]]
        have e12: "effect ?i s s2" using a(1) b(1) effect_trans by blast
        show ?thesis
        proof (cases e1)
          case (Some z)
          then show ?thesis using c argv rr None rb e12 by (auto simp: run_session_def)
        next
          case N1: None
          obtain out s3 where ex: "call_engine (en_exec en (run_spec sv rq r1)) s2 = (out, s3)"
            by (cases "call_engine (en_exec en (run_spec sv rq r1)) s2")
          note k = engine_effect [OF ex]
          have fin: "run_end sv en ev rq r1 out s3 = ((r, e), s')"
            using c argv rr None rb N1 ex by (auto simp: run_session_def)
          have "records s3 ?i = Some r1 \<and> r_state r1 = Running"
            using b(2) N1 k(1) effect_wf [OF a(1) w] by simp
          note d = run_end_effect [OF fin this]
          have "effect ?i s s'" using effect_trans [OF effect_trans [OF e12 k(3)] d(1)] .
          then show ?thesis using d(2) effect_wf [OF effect_trans [OF e12 k(3)] w] by auto
        qed
      qed
    qed
  qed
  then show "effect ?i s s'"
    "wf_sys s \<Longrightarrow> e = None \<Longrightarrow> records s' ?i = Some r \<and>
       r_state r = (if rq_ephemeral rq then Closed else Ready)" by auto
qed

lemma inject_effect:
  assumes c: "inject cd sv en ev q s = (res, s')"
  shows "quiet (ij_session q) s s'"
proof (cases "load (sy_store s) (ij_session q)")
  case (Inl x)
  then show ?thesis using c by (auto simp: inject_def)
next
  case (Inr r)
  then have v: "records s (ij_session q) = Some r" by (simp add: load_records)
  show ?thesis
  proof (cases "interactive (r_state r) \<and> ij_has_source q")
    case False
    then show ?thesis using c
      by (cases "interactive (r_state r)") (auto simp: inject_def Inr)
  next
    case True
    let ?x = "\<lparr>ex_container = r_container_id r, ex_user = sv_control_uid sv, ex_workdir = [],
                     ex_env = [], ex_argv = inject_argv q\<rparr>"
    obtain e out err s1 where st: "call_engine (en_stream en ?x) s = ((e, out, err), s1)"
      by (metis prod.collapse)
    note k = engine_effect [OF st]
    show ?thesis
    proof (cases "e = None \<and> cd_payload cd (trim_space out) \<noteq> None")
      case False
      then show ?thesis using c Inr True st k(3)
        by (auto simp: inject_def split: option.splits)
    next
      case ok: True
      then obtain pr where pr: "cd_payload cd (trim_space out) = Some pr" by auto
      let ?now = "ev_now ev (sy_world s1)"
      let ?r = "r\<lparr>r_payloads := r_payloads r @ [\<lparr>pl_digest = pr_digest pr, pl_path = pr_path pr,
                               pl_bytes = pr_bytes pr, pl_received_at = ?now\<rparr>], r_updated_at := ?now\<rparr>"
      obtain x s2 where put: "put_record ?r s1 = (x, s2)" by (cases "put_record ?r s1")
      have s': "s' = s2" using c Inr True st ok pr put
        by (auto simp: inject_def Let_def split: option.splits)
      have ses: "wf_sys s1 \<Longrightarrow> r_session ?r = ij_session q"
        using v k records_session by auto
      have ls: "life_move (records s1 (ij_session q)) (Some ?r)"
        using v k True by (auto intro: life_move.injected)
      show ?thesis using put_record_effect(1) [OF put ses ls] k(3) s' quiet_trans by blast
    qed
  qed
qed

lemma refresh_effect:
  assumes c: "refresh en ev r s = (res, s')" and v: "wf_sys s \<Longrightarrow> records s i = Some r"
  shows "quiet i s s'" "wf_sys s \<Longrightarrow> res = Inr (r', as) \<Longrightarrow> records s' i = Some r'"
proof -
  have "quiet i s s' \<and> (\<forall>r' as. wf_sys s \<longrightarrow> res = Inr (r', as) \<longrightarrow> records s' i = Some r')"
  proof -
    obtain o1 s1 where ob: "observe en r s = (o1, s1)" by (cases "observe en r s")
    have "sy_store s1 = sy_store s"
      using ob by (auto simp: observe_def call_engine_store split: if_splits prod.splits sum.splits goerr.splits)
    note k = same_store [OF this]
    show ?thesis
    proof (cases o1)
      case (Inl z)
      then show ?thesis using c ob k by (auto simp: refresh_def)
    next
      case (Inr obs)
      obtain q found where rc: "reconcile r obs (ev_now ev (sy_world s1)) = (q, found)"
        by (cases "reconcile r obs (ev_now ev (sy_world s1))")
      show ?thesis
      proof (cases "q = r")
        case True
        then show ?thesis using c ob k v Inr rc by (auto simp: refresh_def)
      next
        case ne: False
        then have q: "q = r\<lparr>r_state := Failed, r_updated_at := ev_now ev (sy_world s1)\<rparr>"
          and st: "r_state r \<notin> {Closed, Closing, Failed}"
          using rc by (auto simp: reconcile_def fail_record_def terminal_def split: if_splits)
        obtain x s2 where put: "put_record q s1 = (x, s2)" by (cases "put_record q s1")
        have w: "wf_sys s1 \<Longrightarrow> records s1 i = Some r" using k v by simp
        have vs: "valid_state (r_state r)" if "wf_sys s1"
          using w [OF that] session_store.load_valid [of "sy_store s1" i r] that
          by (auto simp: load_records [symmetric] wf_sys_def validate_record_None)
        have ses: "wf_sys s1 \<Longrightarrow> r_session q = i" using w records_session q by auto
        have tr: "can_transition (r_state r) Failed" if "wf_sys s1"
          using vs [OF that] st by (cases "r_state r") auto
        have ls: "wf_sys s1 \<Longrightarrow> life_move (records s1 i) (Some q)"
          using w tr q by (auto intro: life_move.moved)
        note p = put_record_effect [OF put ses ls]
        have fin: "s' = s2" "\<And>r' as. res = Inr (r', as) \<Longrightarrow> x = None \<and> r' = q"
          using c ob Inr rc ne put by (auto simp: refresh_def split: option.splits)
        have "quiet i s s2" using quiet_trans [OF k(3) p(1)] .
        then show ?thesis using fin p(2) ses k(2) by auto
      qed
    qed
  qed
  then show "quiet i s s'" "wf_sys s \<Longrightarrow> res = Inr (r', as) \<Longrightarrow> records s' i = Some r'" by auto
qed

lemma refresh_all_lives:
  assumes "refresh_all en ev rs s = (res, s')" and "distinct (map r_session rs)"
    and "wf_sys s \<Longrightarrow> \<forall>r \<in> set rs. records s (r_session r) = Some r"
  shows "lives s s'"
  using assms
proof (induction rs arbitrary: s res s')
  case (Cons r rs)
  obtain x s1 where rf: "refresh en ev r s = (x, s1)" by (cases "refresh en ev r s")
  have v: "wf_sys s \<Longrightarrow> records s (r_session r) = Some r" using Cons.prems(3) by simp
  note e1 = refresh_effect(1) [OF rf v]
  show ?case
  proof (cases x)
    case (Inl z)
    then show ?thesis using Cons.prems(1) rf e1 quiet_lives by auto
  next
    case (Inr y)
    obtain o2 s2 where ra: "refresh_all en ev rs s1 = (o2, s2)" by (cases "refresh_all en ev rs s1")
    have s2: "s' = s2" using Cons.prems(1) rf Inr ra by (auto split: sum.splits prod.splits)
    have "records s1 (r_session q) = Some q" if "wf_sys s" "q \<in> set rs" for q
    proof -
      have "r_session r \<notin> r_session ` set rs" using Cons.prems(2) by simp
      then have "r_session q \<noteq> r_session r" using that(2) by (metis imageI)
      then show ?thesis using Cons.prems(3) [OF that(1)] e1 that by (simp add: effect_by_def)
    qed
    then have "lives s1 s2" if "wf_sys s"
      using Cons.IH [OF ra] Cons.prems(2) that by simp
    then show ?thesis using quiet_lives [OF e1] lives_trans s2
      by (metis lives_def)
  qed
qed simp

lemma list_lives: "list_sessions en ev s = (res, s') \<Longrightarrow> lives s s'"
proof (cases "list_records (sy_store s)")
  case (Inr rs)
  assume l: "list_sessions en ev s = (res, s')"
  then have ra: "refresh_all en ev rs s = (res, s')" by (simp add: list_sessions_def Inr)
  show ?thesis
  proof (cases "wf_sys s")
    case True
    then have w: "wf_store (sy_store s)" by (simp add: wf_sys_def)
    note f = list_records_Inr [OF w Inr]
    show ?thesis
      by (rule refresh_all_lives [OF ra f(1)]) (use f(2) in \<open>simp add: load_records [symmetric]\<close>)
  qed (simp add: lives_def)
qed (auto simp: list_sessions_def)

lemma purge_loop_lives: "purge_loop sv en ev now rs acc s = (res, s') \<Longrightarrow> lives s s'"
proof (induction rs arbitrary: acc s)
  case (Cons r rs)
  obtain q e s1 where c: "close_session sv en ev (r_session r) (sv_stop_timeout sv) s = ((q, e), s1)"
    by (metis prod.collapse)
  have "lives s s1" by (rule quiet_lives [OF close_effect(1) [OF c]])
  then show ?case
    using Cons.prems Cons.IH [of "acc @ [r_session r]" s1] Cons.IH [of acc s] c lives_trans
    by (auto split: if_splits option.splits)
qed auto

lemma purge_loop_expired:
  "purge_loop sv en ev now rs acc s = ((ids, e), s') \<Longrightarrow>
    \<exists>k \<le> length rs. ids = acc @ map r_session (filter (\<lambda>r. expired r now) (take k rs)) \<and>
      (e = None \<longrightarrow> k = length rs)"
proof (induction rs arbitrary: acc s)
  case (Cons r rs)
  obtain q e1 s1 where c: "close_session sv en ev (r_session r) (sv_stop_timeout sv) s = ((q, e1), s1)"
    by (metis prod.collapse)
  show ?case
  proof (cases "expired r now \<and> e1 \<noteq> None")
    case True
    then show ?thesis using Cons.prems c by (intro exI [of _ 0]) auto
  next
    case False
    then obtain acc' t where go: "purge_loop sv en ev now rs acc' t = ((ids, e), s')"
      and acc': "acc' = acc @ map r_session (filter (\<lambda>r. expired r now) [r])"
      using Cons.prems c by (cases "expired r now") (auto split: option.splits)
    from Cons.IH [OF go] obtain k where "k \<le> length rs"
      "ids = acc' @ map r_session (filter (\<lambda>r. expired r now) (take k rs))"
      "e = None \<longrightarrow> k = length rs" by blast
    then show ?thesis using acc' by (intro exI [of _ "Suc k"]) auto
  qed
qed auto

section \<open>Readiness\<close>

lemma get_status_world: "get_status cd sv en cid w = (r, w') \<Longrightarrow>
    w' = w \<or> (\<exists>x. w' = snd (en_exec en x w))"
proof -
  let ?x = "\<lparr>ex_container = cid, ex_user = sv_control_uid sv, ex_workdir = [], ex_env = [],
                 ex_argv = [''/usr/libexec/wlvision-supervisor'', ''status'']\<rparr>"
  assume "get_status cd sv en cid w = (r, w')"
  then have "w' = w \<or> w' = snd (en_exec en ?x w)"
    by (auto simp: get_status_def split: if_splits prod.splits option.splits)
  then show ?thesis by blast
qed

lemma ready_turn_progress:
  assumes exec: "\<And>x w. ev_wall ev w \<le> ev_wall ev (snd (en_exec en x w))"
    and wait: "\<And>w. ev_wall ev w < ev_wall ev (snd (ev_wait ev w))"
    and turn: "ready_turn cd sv en ev i cid deadline lst w = (Inr l, w')"
  shows "ev_wall ev w < ev_wall ev w'" "ev_wall ev w \<le> deadline"
proof -
  obtain r w1 where g: "get_status cd sv en cid w = (r, w1)" by (cases "get_status cd sv en cid w")
  have "ev_wall ev w \<le> ev_wall ev w1" using get_status_world [OF g] exec by auto
  moreover have "ev_wall ev w1 \<le> deadline \<and> w' = snd (ev_wait ev w1)"
    using turn g by (auto simp: ready_turn_def Let_def split: prod.splits option.splits if_splits bool.splits)
  ultimately show "ev_wall ev w < ev_wall ev w'" "ev_wall ev w \<le> deadline"
    using wait [of w1] by auto
qed

lemma ready_loop_returns:
  assumes exec: "\<And>x w. ev_wall ev w \<le> ev_wall ev (snd (en_exec en x w))"
    and wait: "\<And>w. ev_wall ev w < ev_wall ev (snd (ev_wait ev w))"
  shows "\<exists>res w'. ready_loop cd sv en ev i cid deadline lst w = Some (res, w')"
proof (induction "nat (deadline + 1 - ev_wall ev w)" arbitrary: lst w rule: less_induct)
  case less
  show ?case
  proof (cases "ready_turn cd sv en ev i cid deadline lst w")
    case (Pair t w')
    show ?thesis
    proof (cases t)
      case (Inl res)
      then show ?thesis using Pair by (simp add: ready_loop.simps)
    next
      case (Inr l)
      note p = ready_turn_progress [OF exec wait Pair [unfolded Inr]]
      then have "nat (deadline + 1 - ev_wall ev w') < nat (deadline + 1 - ev_wall ev w)" by linarith
      from less [OF this, of l] show ?thesis using Pair Inr by (simp add: ready_loop.simps)
    qed
  qed
qed

lemma ready_turn_ready:
  "ready_turn cd sv en ev i cid deadline lst w = (Inl (st, None), w') \<Longrightarrow>
    ct_ready st \<and> get_status cd sv en cid w = ((st, None), w')"
  by (auto simp: ready_turn_def Let_def split: prod.splits option.splits if_splits bool.splits)

lemma ready_loop_ready:
  assumes r: "ready_loop cd sv en ev i cid deadline lst w = Some y"
  shows "snd (fst y) = None \<longrightarrow> ct_ready (fst (fst y)) \<and> (\<exists>w0. get_status cd sv en cid w0 = y)"
proof (rule ready_loop.raw_induct [OF _ r, where P = "\<lambda>cd sv en ev i cid deadline lst w y.
    snd (fst y) = None \<longrightarrow> ct_ready (fst (fst y)) \<and> (\<exists>w0. get_status cd sv en cid w0 = y)"])
  fix loop cd sv en ev i cid deadline lst w y
  assume "\<And>cd sv en ev i cid deadline lst w y. loop cd sv en ev i cid deadline lst w = Some y \<Longrightarrow>
      snd (fst y) = None \<longrightarrow> ct_ready (fst (fst y)) \<and> (\<exists>w0. get_status cd sv en cid w0 = y)"
    and "(case ready_turn cd sv en ev i cid deadline lst w of
        (Inl res, w') \<Rightarrow> Some (res, w')
      | (Inr l, w') \<Rightarrow> loop cd sv en ev i cid deadline l w') = Some y"
  then show "snd (fst y) = None \<longrightarrow> ct_ready (fst (fst y)) \<and> (\<exists>w0. get_status cd sv en cid w0 = y)"
    by (auto split: prod.splits sum.splits dest!: ready_turn_ready)
qed

section \<open>Sequences of operations\<close>

inductive cli_step :: "codec \<Rightarrow> service \<Rightarrow> 'w engine \<Rightarrow> 'w env \<Rightarrow> 'w sys \<Rightarrow> 'w sys \<Rightarrow> bool"
  for cd sv en ev where
  do_create: "create_session sv en ev i l q s = (x, s') \<Longrightarrow> cli_step cd sv en ev s s'"
| do_start: "start_session cd sv en ev i s = Some (x, s') \<Longrightarrow> cli_step cd sv en ev s s'"
| do_run: "run_session cd sv en ev rq s = Some (x, s') \<Longrightarrow> cli_step cd sv en ev s s'"
| do_inject: "inject cd sv en ev q s = (y, s') \<Longrightarrow> cli_step cd sv en ev s s'"
| do_close: "close_session sv en ev i t s = (x, s') \<Longrightarrow> cli_step cd sv en ev s s'"
| do_inspect: "inspect en ev i s = (z, s') \<Longrightarrow> cli_step cd sv en ev s s'"
| do_list: "list_sessions en ev s = (u, s') \<Longrightarrow> cli_step cd sv en ev s s'"
| do_purge: "purge sv en ev s = (v, s') \<Longrightarrow> cli_step cd sv en ev s s'"

inductive_cases cli_stepE: "cli_step cd sv en ev s s'"

lemma inspect_effect:
  assumes c: "inspect en ev i s = (res, s')"
  shows "quiet i s s'" "wf_sys s \<Longrightarrow> res = Inr (r', as) \<Longrightarrow> records s' i = Some r'"
proof -
  have "quiet i s s' \<and> (wf_sys s \<longrightarrow> res = Inr (r', as) \<longrightarrow> records s' i = Some r')"
  proof (cases "load (sy_store s) i")
    case (Inr r)
    then have v: "wf_sys s \<Longrightarrow> records s i = Some r" by (simp add: load_records)
    obtain x s1 where rf: "refresh en ev r s = (x, s1)" by (cases "refresh en ev r s")
    show ?thesis
      using c Inr rf refresh_effect [OF rf v] by (auto simp: inspect_def split: sum.splits)
  qed (use c in \<open>auto simp: inspect_def\<close>)
  then show "quiet i s s'" "wf_sys s \<Longrightarrow> res = Inr (r', as) \<Longrightarrow> records s' i = Some r'" by auto
qed

lemma purge_lives: "purge sv en ev s = (res, s') \<Longrightarrow> lives s s'"
  by (auto simp: purge_def intro: purge_loop_lives split: sum.splits)

lemma cli_step_lives: "cli_step cd sv en ev s s' \<Longrightarrow> lives s s'"
  by (elim cli_stepE; (simp only: list_lives purge_lives)?)
    (metis create_effect(1) start_effect(1) run_effect(1) inject_effect close_effect(1)
      inspect_effect(1) effect_lives quiet_lives prod.collapse)+

lemma life_step_keeps: "life_step\<^sup>*\<^sup>* m m' \<Longrightarrow> m \<noteq> None \<Longrightarrow> m' \<noteq> None"
  by (induction rule: rtranclp_induct) (auto elim!: life_stepE life_openE life_moveE)

interpretation cli_inv: invariant_relation "cli_step cd sv en ev"
  "\<lambda>s. wf_sys s \<and> (\<forall>i. named_ok (records s i))" for cd sv en ev
proof unfold_locales
  fix s t
  assume st: "cli_step cd sv en ev s t" and "wf_sys s \<and> (\<forall>i. named_ok (records s i))"
  then show "wf_sys t \<and> (\<forall>i. named_ok (records t i))"
    using cli_step_lives [OF st] life_named.inv_reach by (auto simp: lives_def)
qed

lemma cli_reach_lives: "(cli_step cd sv en ev)\<^sup>*\<^sup>* s s' \<Longrightarrow> lives s s'"
  by (induction rule: rtranclp_induct) (auto intro: lives_trans cli_step_lives)

section \<open>A concrete engine\<close>

text \<open>A world that only counts time, an engine that obeys, for the witnesses.\<close>

definition demo_result :: "string \<Rightarrow> exec_result" where
  "demo_result out = \<lparr>xr_exit_code = 0, xr_stdout = out, xr_stderr = []\<rparr>"

definition demo_engine :: "nat engine" where
  "demo_engine =
     \<lparr>en_capabilities = (\<lambda>w. (Inr demo_caps, w + 1)), en_create = (\<lambda>_ w. (Inr ''c1'', w + 1)),
      en_start = (\<lambda>_ w. (None, w + 1)), en_exec = (\<lambda>_ w. ((demo_result ''ok'', None), w + 1)),
      en_stream = (\<lambda>_ w. ((None, ''ok'', []), w + 1)), en_state = (\<lambda>_ w. (Inr True, w + 1)),
      en_logs = (\<lambda>_ _ w. ((None, []), w + 1)), en_stop = (\<lambda>_ _ w. (None, w + 1)),
      en_remove = (\<lambda>_ w. (None, w + 1))\<rparr>"

definition demo_env :: "nat env" where
  "demo_env = \<lparr>ev_now = (\<lambda>w. int w + 100), ev_wall = int, ev_wait = (\<lambda>w. (False, w + 1))\<rparr>"

definition demo_codec :: codec where
  "demo_codec =
     \<lparr>cd_status = (\<lambda>_. Some \<lparr>ct_ready = True, ct_weston = ''running'', ct_agent = ''running'',
                             ct_message = []\<rparr>),
      cd_envelope = (\<lambda>_. None), cd_payload = (\<lambda>_. None)\<rparr>"

definition demo_service :: service where
  "demo_service =
     \<lparr>sv_image = ''img'', sv_control_uid = 1000, sv_application_uid = 1001, sv_retention = 1000,
      sv_ready_timeout = 30, sv_stop_timeout = 10, sv_supervisor = [''sup'']\<rparr>"

definition demo_sys :: "nat sys" where
  "demo_sys = \<lparr>sy_store = one_store, sy_world = 0\<rparr>"

lemma demo_sys_wf: "wf_sys demo_sys"
  by (auto simp: wf_sys_def wf_store_def demo_sys_def one_store_def demo_store_def demo_record_def
      split: if_splits)

lemma demo_sys_record: "records demo_sys ''demo'' = Some demo_record"
  using one_store_facts(2) by (simp add: load_records [symmetric] demo_sys_def)

section \<open>Properties\<close>

text \<open>
  C1. Operations of different sessions do not interfere, and each one refines the life
  cycle, whatever the engine and the disk do: from a well-formed store, every operation
  leaves every record of another session as it was. Start, inject, close and inspect only
  move their own record along the life cycle (\<open>quiet\<close>), so they neither invent a session
  nor touch a closed one; create and run open it at most once, where there was none or a
  closed one, and then only move it (\<open>effect\<close>).
\<close>

theorem operations_refine_life_cycle:
  "(create_session sv en ev i l q s = (x, s') \<longrightarrow> effect i s s') \<and>
   (start_session cd sv en ev i s = Some (x, s') \<longrightarrow> quiet i s s') \<and>
   (run_session cd sv en ev rq s = Some (x, s') \<longrightarrow> effect (rq_session rq) s s') \<and>
   (inject cd sv en ev ij s = (y, s') \<longrightarrow> quiet (ij_session ij) s s') \<and>
   (close_session sv en ev i t s = (x, s') \<longrightarrow> quiet i s s') \<and>
   (inspect en ev i s = (z, s') \<longrightarrow> quiet i s s')"
proof (intro conjI impI)
  show "effect i s s'" if "create_session sv en ev i l q s = (x, s')"
    using that create_effect(1) by (cases x) blast
  show "quiet i s s'" if "start_session cd sv en ev i s = Some (x, s')"
    using that start_effect(1) by (cases x) blast
  show "effect (rq_session rq) s s'" if "run_session cd sv en ev rq s = Some (x, s')"
    using that run_effect(1) by (cases x) blast
  show "quiet (ij_session ij) s s'" if "inject cd sv en ev ij s = (y, s')"
    using that by (rule inject_effect)
  show "quiet i s s'" if "close_session sv en ev i t s = (x, s')"
    using that close_effect(1) by (cases x) blast
  show "quiet i s s'" if "inspect en ev i s = (z, s')"
    using that inspect_effect(1) by blast
qed

theorem operations_refine_life_cycle_witness:
  "\<exists>x s'. close_session demo_service demo_engine demo_env ''demo'' 0 demo_sys = (x, s') \<and>
     wf_sys s' \<and> life_move\<^sup>*\<^sup>* (Some demo_record) (records s' ''demo'')"
proof -
  obtain x s' where c: "close_session demo_service demo_engine demo_env ''demo'' 0 demo_sys = (x, s')"
    by (cases "close_session demo_service demo_engine demo_env ''demo'' 0 demo_sys")
  have "quiet ''demo'' demo_sys s'"
    using operations_refine_life_cycle [of demo_service demo_engine demo_env "''demo''" _ _ demo_sys x s' _ _ _ _ 0] c
    by blast
  then show ?thesis using c demo_sys_wf demo_sys_record by (auto simp: effect_by_def)
qed

text \<open>
  C2. Over any sequence of operations a well-formed store stays well formed, every
  record moves by life-cycle steps, no readable record is ever lost, and every record
  keeps naming the container derived from its own session.
\<close>

theorem sessions_reachable:
  assumes "(cli_step cd sv en ev)\<^sup>*\<^sup>* s s'" and "wf_sys s"
  shows "wf_sys s' \<and> (\<forall>i. life_step\<^sup>*\<^sup>* (records s i) (records s' i) \<and>
      (records s i \<noteq> None \<longrightarrow> records s' i \<noteq> None)) \<and>
    ((\<forall>i. named_ok (records s i)) \<longrightarrow> (\<forall>i. named_ok (records s' i)))"
proof -
  have l: "wf_sys s'" "\<And>i. life_step\<^sup>*\<^sup>* (records s i) (records s' i)"
    using cli_reach_lives [OF assms(1)] assms(2) by (auto simp: lives_def)
  show ?thesis
    using l life_step_keeps [OF l(2)] assms(2) cli_inv.inv_reach [OF assms(1)] by blast
qed

theorem sessions_reachable_witness:
  "\<exists>s'. (cli_step demo_codec demo_service demo_engine demo_env)\<^sup>*\<^sup>* demo_sys s' \<and>
     s' \<noteq> demo_sys \<and> wf_sys s' \<and> records s' ''demo'' \<noteq> None"
proof -
  obtain x s' where c: "inspect demo_engine demo_env ''demo'' demo_sys = (x, s')"
    by (cases "inspect demo_engine demo_env ''demo'' demo_sys")
  have st: "(cli_step demo_codec demo_service demo_engine demo_env)\<^sup>*\<^sup>* demo_sys s'"
    using do_inspect [OF c] by blast
  have ld: "load (sy_store demo_sys) ''demo'' = Inr demo_record"
    by (simp add: load_records demo_sys_record)
  have "sy_world s' = 1"
    using c ld
    by (auto simp: inspect_def refresh_def observe_def call_engine_def demo_engine_def demo_record_def
        reconcile_def demo_sys_def)
  then have "s' \<noteq> demo_sys" by (auto simp: demo_sys_def)
  then show ?thesis
    using sessions_reachable [OF st demo_sys_wf] st demo_sys_record by fastforce
qed

lemma put_record_either: "put_record r s = (e, s') \<Longrightarrow>
    (records s' = records s \<or> records s' = (records s)(r_session r \<mapsto> r)) \<and> sy_world s' = sy_world s \<and>
    (e = None \<longrightarrow> records s' = (records s)(r_session r \<mapsto> r))"
  using session_store.save_view session_store.save_view_ok
  by (fastforce simp: put_record_def records_def split: prod.splits)

definition tracked :: "string \<Rightarrow> 'w sys \<Rightarrow> bool" where
  "tracked i s \<longleftrightarrow> (\<exists>r. records s i = Some r \<and> r_session r = i \<and>
     r_container_name r = container_name i \<and> r_state r \<in> {Creating, Failed})"

lemma tracked_put:
  "tracked i s \<Longrightarrow> put_record r s = (e, s') \<Longrightarrow> r_container_name r = container_name i \<Longrightarrow>
    r_state r \<in> {Creating, Failed} \<Longrightarrow> r_session r = i \<Longrightarrow> tracked i s'"
  using put_record_either [of r s e s'] by (auto simp: tracked_def)

lemma create_tracked:
  assumes c: "create_session sv en ev i l q s = ((r, e), s')"
  shows "tracked i s' \<or> sy_world s' \<in> {sy_world s, snd (en_capabilities en (sy_world s))}"
proof (cases "valid_session_id i")
  case False
  then show ?thesis using c by (simp add: create_session_def)
next
  case valid: True
  let ?guard = "\<lambda>t. case load (sy_store t) i of Inl _ \<Rightarrow> False | Inr ex \<Rightarrow> r_state ex \<noteq> Closed"
  obtain x s1 where cap: "call_engine (en_capabilities en) s = (x, s1)" by (cases "call_engine (en_capabilities en) s")
  have w: "sy_world s1 = snd (en_capabilities en (sy_world s))"
    using cap by (auto simp: call_engine_def split: prod.splits)
  show ?thesis
  proof (cases "\<exists>c. x = Inr c \<and> \<not> ?guard s1")
    case False
    then show ?thesis using c valid cap w by (auto simp: create_session_def split: sum.splits if_splits)
  next
    case True
    then obtain cp where x: "x = Inr cp" and g: "\<not> ?guard s1" by blast
    let ?r = "fresh_record sv cp i l q (ev_now ev (sy_world s1))"
    obtain y s2 where put: "put_record ?r s1 = (y, s2)" by (cases "put_record ?r s1")
    show ?thesis
    proof (cases y)
      case (Some z)
      then show ?thesis using c valid cap x g put w put_record_either [OF put]
        by (auto simp: create_session_def Let_def split: if_splits)
    next
      case None
      then have t2: "tracked i s2" using put_record_either [OF put] by (simp add: tracked_def)
      obtain o1 s3 where mk: "call_engine (en_create en (session_spec sv ?r l)) s2 = (o1, s3)"
        by (cases "call_engine (en_create en (session_spec sv ?r l)) s2")
      have t3: "tracked i s3" using t2 engine_effect(1) [OF mk] by (simp add: tracked_def)
      obtain rr ee where "put_record rr s3 = (ee, s')" "r_container_name rr = container_name i"
        "r_state rr \<in> {Creating, Failed}" "r_session rr = i"
        using c valid cap x g put None mk
        by (fastforce simp: create_session_def give_up_def Let_def split: sum.splits prod.splits option.splits)
      then show ?thesis using tracked_put [OF t3] by blast
    qed
  qed
qed

lemma session_spec_valid:
  assumes "new_service img cu au ret rd st = Inr sv" and "valid_session_id (r_session r)"
    and "r_container_name r = container_name (r_session r)"
  shows "validate_create (session_spec sv r l) = None"
proof -
  have "r_session r \<noteq> []" using assms(2) by auto
  then show ?thesis
    using assms by (auto simp: new_service_def session_spec_def validate_create_def
        session_mounts_def bad_mount_def runtime_dir_def has_prefix_def container_name_def Let_def
        split: if_splits)
qed

text \<open>
  C16. The record is written before the container: whenever creating a session got as far
  as asking the engine for a container (the engine saw more than the capability check),
  a record of the session is stored that names the container and is in state creating or
  failed (\<open>tracked\<close>), whatever failed afterwards; and what a service asks the engine for
  always passes the engine's own validation.
\<close>

theorem create_record_first:
  "(create_session sv en ev i l q s = ((r, e), s') \<longrightarrow>
     tracked i s' \<or> sy_world s' \<in> {sy_world s, snd (en_capabilities en (sy_world s))}) \<and>
   (new_service img cu au ret rd st = Inr sv \<and> valid_session_id (r_session q') \<and>
      r_container_name q' = container_name (r_session q') \<longrightarrow>
     validate_create (session_spec sv q' l) = None)"
  using create_tracked session_spec_valid by blast

definition empty_sys :: "nat sys" where
  "empty_sys = \<lparr>sy_store = demo_store, sy_world = 0\<rparr>"

lemma demo_id_valid: "valid_session_id ''demo''"
  using demo_record_valid by (simp add: validate_record_None demo_record_def)

theorem create_record_first_witness:
  "\<exists>r e s'. create_session demo_service demo_engine demo_env ''demo'' (r_limits demo_record) 0 empty_sys
      = ((r, e), s') \<and> sy_world s' \<noteq> sy_world empty_sys \<and> sy_world s' \<noteq> 1 \<and> tracked ''demo'' s'"
proof -
  let ?call = "create_session demo_service demo_engine demo_env ''demo'' (r_limits demo_record) 0 empty_sys"
  obtain r e s' where c: "?call = ((r, e), s')" by (metis prod.collapse)
  have ld: "load demo_store ''demo'' = Inl (Typed (with_details [(''session'', ''demo'')]
                      (new_failure SessionNotReady ''session.load'' ''unknown session %q'')))"
    by (simp add: load_def2 demo_id_valid demo_store_def del: valid_session_id.simps)
  have v: "validate_record (fresh_record sv cp ''demo'' l q t) = None" for sv cp l q t
    using container_name_base [OF demo_id_valid]
    by (simp add: validate_record_None demo_id_valid del: valid_session_id.simps)
      (simp add: fresh_record_def container_name_def)
  have p: "put_record (fresh_record sv cp ''demo'' l q t) \<lparr>sy_store = demo_store, sy_world = w\<rparr> =
      (None, \<lparr>sy_store = snd (save demo_store (fresh_record sv cp ''demo'' l q t)), sy_world = w\<rparr>)"
    for sv cp l q t and w :: nat
    by (simp add: put_record_def save_def v store_path_def check_session_id_def demo_id_valid
        take_fault_def demo_store_def save_steps_def del: valid_session_id.simps)
  have "sy_world s' = 2"
    using c ld by (auto simp: create_session_def demo_id_valid call_engine_def demo_engine_def
        empty_sys_def p Let_def
        simp del: valid_session_id.simps dest: put_record_either split: prod.splits option.splits)
  then have w: "sy_world s' \<noteq> sy_world empty_sys \<and> sy_world s' \<noteq> 1" by (simp add: empty_sys_def)
  have "snd (en_capabilities demo_engine (sy_world empty_sys)) = 1"
    by (simp add: demo_engine_def empty_sys_def)
  then show ?thesis
    using create_record_first [THEN conjunct1, THEN mp, OF c] c w by auto
qed

text \<open>
  C17. Starting returns, and a session is ready only after its supervisor said so: with a
  wall clock that engine calls do not turn back and waiting advances, start returns a
  result; when that is no error, the stored record is the returned one, in state ready,
  and the last thing the engine was asked was the status of that container, which
  reported ready.
\<close>

theorem start_returns_ready:
  assumes "\<And>x w. ev_wall ev w \<le> ev_wall ev (snd (en_exec en x w))"
    and "\<And>w. ev_wall ev w < ev_wall ev (snd (ev_wait ev w))"
    and "wf_sys s"
  shows "\<exists>r e s'. start_session cd sv en ev i s = Some ((r, e), s') \<and>
    (e = None \<longrightarrow> records s' i = Some r \<and> r_state r = Ready \<and>
       (\<exists>st w0. ct_ready st \<and>
          get_status cd sv en (r_container_id r) w0 = ((st, None), sy_world s')))"
proof (cases "load (sy_store s) i")
  case (Inl z)
  then show ?thesis by (simp add: start_session_def)
next
  case (Inr q)
  show ?thesis
  proof (cases "r_state q = Creating")
    case False
    then show ?thesis using Inr by (simp add: start_session_def)
  next
    case cr: True
    obtain x s1 where es: "call_engine (en_start en (r_container_id q)) s = (x, s1)"
      by (cases "call_engine (en_start en (r_container_id q)) s")
    have ld: "load (sy_store s1) i = Inr q" using Inr call_engine_store [OF es] by simp
    let ?dl = "ev_wall ev (sy_world s1) + (if sv_ready_timeout sv = 0 then sv_ready_timeout sv else sv_ready_timeout sv)"
    obtain st e2 w2 where rl: "ready_loop cd sv en ev i (r_container_id q) ?dl no_status (sy_world s1) = Some ((st, e2), w2)"
      using ready_loop_returns [OF assms(1,2)] by (metis prod.collapse)
    have wr: "wait_ready cd sv en ev i (sv_ready_timeout sv) s1 = Some ((st, e2), s1\<lparr>sy_world := w2\<rparr>)"
      using ld rl by (simp add: wait_ready_def)
    have ret: "start_session cd sv en ev i s = Some
        (case x of Some z \<Rightarrow> give_up ev q z id s1
         | None \<Rightarrow> (case e2 of Some z \<Rightarrow> give_up ev q z id (s1\<lparr>sy_world := w2\<rparr>)
             | None \<Rightarrow> move_record ev Ready q (s1\<lparr>sy_world := w2\<rparr>)))"
      using Inr cr es wr by (simp add: start_session_def split: option.splits)
    then obtain r e s' where go: "start_session cd sv en ev i s = Some ((r, e), s')"
      by (metis prod.collapse)
    have "\<exists>st w0. ct_ready st \<and> get_status cd sv en (r_container_id r) w0 = ((st, None), sy_world s')"
      if "e = None"
    proof -
      have n: "x = None" "e2 = None" and mv: "move_record ev Ready q (s1\<lparr>sy_world := w2\<rparr>) = ((r, e), s')"
        using ret go that
        by (auto simp: give_up_def Let_def split: option.splits prod.splits)
      have v: "records (s1\<lparr>sy_world := w2\<rparr>) i = Some q" using ld by (simp add: load_records records_def)
      note m = move_record_effect [OF mv v]
      have "r_container_id r = r_container_id q" "sy_world s' = w2" using m(2,3) that by auto
      then show ?thesis using ready_loop_ready [OF rl] n by auto
    qed
    then show ?thesis using go start_effect(2) [OF go assms(3)] by blast
  qed
qed

definition creating_sys :: "nat sys" where
  "creating_sys = \<lparr>sy_store = demo_store\<lparr>st_entries :=
      [(record_file ''demo'', EDoc (demo_record\<lparr>r_state := Creating\<rparr>))]\<rparr>, sy_world = 0\<rparr>"

theorem start_returns_ready_witness:
  "\<exists>r e s'. start_session demo_codec demo_service demo_engine demo_env ''demo'' creating_sys = Some ((r, e), s')"
proof -
  have w: "wf_sys creating_sys"
    by (auto simp: wf_sys_def wf_store_def creating_sys_def demo_store_def demo_record_def split: if_splits)
  have c: "\<And>x w. ev_wall demo_env w \<le> ev_wall demo_env (snd (en_exec demo_engine x w))"
    "\<And>w. ev_wall demo_env w < ev_wall demo_env (snd (ev_wait demo_env w))"
    by (simp_all add: demo_env_def demo_engine_def)
  show ?thesis
    using start_returns_ready [of demo_env demo_engine creating_sys demo_codec demo_service "''demo''", OF c w]
    by blast
qed

lemma close_closed:
  "records s i = Some r \<Longrightarrow> r_state r = Closed \<Longrightarrow> close_session sv en ev i t s = ((r, None), s)"
  by (simp add: close_session_def load_records [symmetric])

text \<open>
  C18. Closing: without an error the stored record is the returned one and is closed, and
  closing again returns the same record and touches neither the store nor the engine;
  a session that is closed to begin with is left alone the same way.
\<close>

theorem close_idempotent:
  assumes "wf_sys s" and "close_session sv en ev i t s = ((r, None), s')"
  shows "records s' i = Some r \<and> r_state r = Closed \<and> r_session r = i \<and>
    close_session sv en2 ev2 i t2 s' = ((r, None), s')"
proof -
  have a: "records s' i = Some r \<and> r_state r = Closed"
    using close_effect(2) [OF assms(2) assms(1)] by simp
  moreover have "wf_sys s'" using effect_wf [OF close_effect(1) [OF assms(2)] assms(1)] .
  ultimately show ?thesis using close_closed records_session by blast
qed

definition closed_sys :: "nat sys" where
  "closed_sys = \<lparr>sy_store = demo_store\<lparr>st_entries :=
      [(record_file ''demo'', EDoc (demo_record\<lparr>r_state := Closed\<rparr>))]\<rparr>, sy_world = 0\<rparr>"

lemma closed_sys_facts:
  "wf_sys closed_sys" "records closed_sys ''demo'' = Some (demo_record\<lparr>r_state := Closed\<rparr>)"
proof -
  show "wf_sys closed_sys"
    by (auto simp: wf_sys_def wf_store_def closed_sys_def demo_store_def demo_record_def split: if_splits)
  have "validate_record (demo_record\<lparr>r_state := Closed\<rparr>) = None"
    using demo_record_valid by (simp add: validate_record_None)
  moreover have "r_session (demo_record\<lparr>r_state := Closed\<rparr>) = ''demo''" by (simp add: demo_record_def)
  ultimately show "records closed_sys ''demo'' = Some (demo_record\<lparr>r_state := Closed\<rparr>)"
    using load_doc [of "demo_record\<lparr>r_state := Closed\<rparr>" "sy_store closed_sys"]
    by (simp add: records_def session_store.view_iff closed_sys_def)
qed

theorem close_idempotent_witness:
  "close_session demo_service demo_engine demo_env ''demo'' 5 closed_sys =
     ((demo_record\<lparr>r_state := Closed\<rparr>, None), closed_sys)"
proof -
  have c: "close_session demo_service demo_engine demo_env ''demo'' 1 closed_sys =
     ((demo_record\<lparr>r_state := Closed\<rparr>, None), closed_sys)"
    using closed_sys_facts(2) by (simp add: close_closed)
  show ?thesis using close_idempotent [OF closed_sys_facts(1) c, of demo_engine demo_env 5] by blast
qed

text \<open>
  C20. A run that reports no error ran an application that exited with status 0; the
  stored record is the returned one, ready again, or closed when the session was
  ephemeral. A run on a session that is already running is refused and changes nothing.
\<close>

theorem run_contract:
  assumes "wf_sys s"
  shows "(run_session cd sv en ev rq s = Some ((r, None), s') \<longrightarrow>
      records s' (rq_session rq) = Some r \<and>
      r_state r = (if rq_ephemeral rq then Closed else Ready)) \<and>
    (records s (rq_session rq) = Some q \<and> r_state q = Running \<longrightarrow>
      (\<exists>f. run_session cd sv en ev rq s =
         Some ((if rq_argv rq = [] then zero_record else q, Some (Typed f)), s)))"
proof (intro conjI impI)
  assume "run_session cd sv en ev rq s = Some ((r, None), s')"
  from run_effect(2) [OF this assms]
  show "records s' (rq_session rq) = Some r" "r_state r = (if rq_ephemeral rq then Closed else Ready)"
    by auto
next
  assume "records s (rq_session rq) = Some q \<and> r_state q = Running"
  then show "\<exists>f. run_session cd sv en ev rq s =
         Some ((if rq_argv rq = [] then zero_record else q, Some (Typed f)), s)"
    by (auto simp: load_records [symmetric] run_session_def run_record_def run_begin_def)
qed

definition demo_request :: run_request where
  "demo_request =
     \<lparr>rq_session = ''demo'', rq_limits = r_limits demo_record, rq_argv = [''true''], rq_env = [],
      rq_workdir = [], rq_ephemeral = False, rq_retention = 0\<rparr>"

theorem run_contract_witness:
  "\<exists>f. run_session demo_codec demo_service demo_engine demo_env demo_request demo_sys =
     Some ((demo_record, Some (Typed f)), demo_sys)"
  using run_contract [OF demo_sys_wf, THEN conjunct2, of demo_request demo_record
      demo_codec demo_service demo_engine demo_env] demo_sys_record
  by (simp add: demo_request_def demo_record_def)

text \<open>
  Purging closes exactly the expired sessions, in the order of the listing: what it
  reports is the expired sessions among the listed records up to the first one it could
  not close, and all of them when there is no error; every record moves by life-cycle
  steps only.
\<close>

lemma purge_exact:
  assumes "list_records (sy_store s) = Inr rs" and "purge sv en ev s = ((ids, e), s')"
  shows "(\<exists>k \<le> length rs.
      ids = map r_session (filter (\<lambda>r. expired r (ev_now ev (sy_world s))) (take k rs)) \<and>
      (e = None \<longrightarrow> k = length rs)) \<and> lives s s'"
proof -
  have l: "purge_loop sv en ev (ev_now ev (sy_world s)) rs [] s = ((ids, e), s')"
    using assms by (simp add: purge_def)
  show ?thesis using purge_loop_expired [OF l] purge_loop_lives [OF l] by simp
qed

lemma purge_exact_witness:
  "\<exists>ids e s'. purge demo_service demo_engine demo_env demo_sys = ((ids, e), s') \<and> set ids \<subseteq> {''demo''}"
proof -
  have l: "list_records (sy_store demo_sys) = Inr [demo_record]"
    by (simp add: list_records_def one_store_facts demo_sys_def)
  obtain ids e s' where p: "purge demo_service demo_engine demo_env demo_sys = ((ids, e), s')"
    by (metis prod.collapse)
  obtain k where "k \<le> length [demo_record]"
    "ids = map r_session (filter (\<lambda>r. expired r (ev_now demo_env (sy_world demo_sys))) (take k [demo_record]))"
    using purge_exact [OF l p] by blast
  then have "set ids \<subseteq> {r_session demo_record}" by (cases k) auto
  then show ?thesis using p by (simp add: demo_record_def)
qed

lemma refresh_again:
  assumes rf: "refresh en ev r s = (Inr (r', as), s')"
    and stable: "\<And>w w'. fst (en_state en (r_container_id r) w) = fst (en_state en (r_container_id r) w')"
  shows "\<exists>as' s2. refresh en ev r' s' = (Inr (r', as'), s2) \<and> sy_store s2 = sy_store s'"
proof -
  obtain ob s1 where ob: "observe en r s = (Inr ob, s1)"
    using rf by (cases "observe en r s"; cases "fst (observe en r s)") (auto simp: refresh_def)
  have r': "r' = fst (reconcile r ob (ev_now ev (sy_world s1)))"
    using rf ob by (auto simp: refresh_def split: prod.splits if_splits option.splits)
  have same: "fst (observe en r t) = Inr ob" "sy_store (snd (observe en r t)) = sy_store t" for t
    using ob stable [of "sy_world s" "sy_world t"]
    by (auto simp: observe_def call_engine_def split: if_splits prod.splits sum.splits goerr.splits)
  have "observe en r' s' = observe en r s'"
    by (simp add: r' observe_def reconcile_sel)
  then obtain s2 where o2: "observe en r' s' = (Inr ob, s2)" and st: "sy_store s2 = sy_store s'"
    using same [of s'] by (cases "observe en r s'") auto
  have "fst (reconcile r' ob t) = r'" for t
    unfolding r' by (auto simp: reconcile_def fail_record_def terminal_def)
  then obtain fs where "reconcile r' ob (ev_now ev (sy_world s2)) = (r', fs)"
    by (metis prod.collapse)
  then have "\<exists>as'. refresh en ev r' s' = (Inr (r', as'), s2)"
    using o2 by (simp add: refresh_def)
  then show ?thesis using st by blast
qed

text \<open>
  Inspecting twice is a no-op: when the engine answers the same, a second inspection
  of the session returns the same record and writes nothing.
\<close>

lemma inspect_twice:
  assumes "wf_sys s" and "inspect en ev i s = (Inr (r, as), s')"
    and "\<And>c w w'. fst (en_state en c w) = fst (en_state en c w')"
  shows "\<exists>as' s2. inspect en ev i s' = (Inr (r, as'), s2) \<and> sy_store s2 = sy_store s'"
proof -
  obtain q where q: "load (sy_store s) i = Inr q"
    using assms(2) by (auto simp: inspect_def split: sum.splits)
  then have v: "records s i = Some q" by (simp add: load_records)
  obtain found where rf: "refresh en ev q s = (Inr (r, found), s')"
    using assms(2) q by (auto simp: inspect_def split: sum.splits prod.splits)
  obtain as' s2 where again: "refresh en ev r s' = (Inr (r, as'), s2)" "sy_store s2 = sy_store s'"
    using refresh_again [OF rf assms(3)] by blast
  have "records s' i = Some r" using refresh_effect(2) [OF rf v assms(1) refl] .
  then show ?thesis using again by (simp add: inspect_def load_records [symmetric])
qed

lemma inspect_twice_witness:
  "\<exists>r as s' as' s2. inspect demo_engine demo_env ''demo'' demo_sys = (Inr (r, as), s') \<and>
     inspect demo_engine demo_env ''demo'' s' = (Inr (r, as'), s2)"
proof -
  have ld: "load (sy_store demo_sys) ''demo'' = Inr demo_record"
    by (simp add: load_records demo_sys_record)
  have f: "r_container_id demo_record = ''c1''" "r_state demo_record = Running"
    "en_state demo_engine c w = (Inr True, w + 1)" "sy_world demo_sys = 0" for c w
    by (simp_all add: demo_record_def demo_engine_def demo_sys_def)
  have i: "inspect demo_engine demo_env ''demo'' demo_sys = (Inr (demo_record, []), demo_sys\<lparr>sy_world := 1\<rparr>)"
    by (simp add: inspect_def ld refresh_def observe_def call_engine_def reconcile_def f)
  have st: "\<And>c w w'. fst (en_state demo_engine c w) = fst (en_state demo_engine c w')"
    by (simp add: demo_engine_def)
  show ?thesis using inspect_twice [OF demo_sys_wf i st] i by blast
qed

section \<open>What the model shows of the code\<close>

text \<open>
  A run writes back the record it read before the application started. Whatever another
  process did meanwhile is overwritten: a session that was closed during the run, its
  container removed, is stored as ready again, and payloads injected meanwhile are lost.
\<close>

lemma run_overwrites:
  assumes "r_state r = Running" and "rq_ephemeral rq = False" and "records s (r_session r) = Some q"
    and "run_end sv en ev rq r (res, None) s = ((r', e), s')" and "records s' \<noteq> records s"
  shows "\<exists>r'. records s' (r_session r) = Some r' \<and> r_state r' = Ready \<and> r_payloads r' = r_payloads r"
proof -
  let ?p = "\<lparr>px_code = int (xr_exit_code res), px_at = ev_now ev (sy_world s), px_command = rq_argv rq\<rparr>"
  let ?q = "r\<lparr>r_process := Some ?p, r_state := Ready, r_updated_at := ev_now ev (sy_world s)\<rparr>"
  have tr: "transition Ready (ev_now ev (sy_world s)) (r\<lparr>r_process := Some ?p\<rparr>) = Inr ?q"
    using assms(1) by (simp add: transition_Inr)
  obtain x s1 where put: "put_record ?q s = (x, s1)" by (cases "put_record ?q s")
  have "s' = s1"
    using assms(2,4) tr put
    by (auto simp: run_end_def move_record_def drop_ephemeral_def Let_def split: option.splits if_splits)
  then have "records s' = (records s)(r_session r \<mapsto> ?q)"
    using put_record_either [OF put] assms(5) by auto
  then show ?thesis by simp
qed

text \<open>
  Creating a session over a record that cannot be read goes ahead and replaces it: the
  guard looks at records that load only.
\<close>

lemma create_replaces_unreadable:
  assumes "load (sy_store s1) i = Inl e" and "valid_session_id i"
    and "call_engine (en_capabilities en) s = (Inr c, s1)"
    and "put_record (fresh_record sv c i l q (ev_now ev (sy_world s1))) s1 = (None, s2)"
    and "create_session sv en ev i l q s = ((r, None), s')"
  shows "records s' i = Some r \<and> r_state r = Creating"
  using create_effect(2) [OF assms(5)] by simp

end
