(* ===== verification/Podman.thy ===== *)
theory Podman
  imports Complex_Main Session_Service
begin

text \<open>
  The Podman adapter as it is written (\<open>internal/engine/podman.go\<close>). The session service is
  stated over the shared operations of \<open>Engine\<close>; here the adapter's own functions are
  translated and shown to be those operations at kind Podman, and to differ from the
  Docker adapter in the flag of the endpoint, the network name of a build and one answer to
  a start only.
\<close>

section \<open>The adapter\<close>

record podman =
  pq_connection :: string

definition new_podman :: "bool \<Rightarrow> string \<Rightarrow> goerr + podman" where
  "new_podman has_runner context_name =
     (if \<not> has_runner then Inl (PlainErr ''engine: a command runner is required'')
      else if context_name \<noteq> [] \<and> is_flag_like context_name
      then Inl (PlainErr ''engine: invalid connection name %q'')
      else Inr \<lparr>pq_connection = context_name\<rparr>)"

definition podman_local_name :: string where
  "podman_local_name = ''local''"

definition podman_build_network :: string where
  "podman_build_network = ''private''"

definition pq_args :: "podman \<Rightarrow> string list \<Rightarrow> string list" where
  "pq_args p args = (if pq_connection p = [] then args else [''--connection'', pq_connection p] @ args)"

definition pq_context_name :: "podman \<Rightarrow> string" where
  "pq_context_name p = (if pq_connection p \<noteq> [] then pq_connection p else podman_local_name)"

text \<open>\<open>run\<close> of a subcommand: the failure, what it printed, and the bounded copy of its diagnostics.\<close>

definition pq_run :: "'w runner \<Rightarrow> podman \<Rightarrow> string \<Rightarrow> string list \<Rightarrow> 'w \<Rightarrow> (goerr option \<times> string \<times> string) \<times> 'w" where
  "pq_run run p operation args w =
     (case run (pq_args p args) w of
        (out, w1) \<Rightarrow>
          let stderr = stderr_copy (co_stderr out)
          in ((case co_err out of
                 Some e \<Rightarrow> Some (Typed (command_failure operation stderr e))
               | None \<Rightarrow> None, co_stdout out, stderr), w1))"

definition pq_output :: "'w runner \<Rightarrow> podman \<Rightarrow> string \<Rightarrow> string list \<Rightarrow> 'w \<Rightarrow> (goerr + string) \<times> 'w" where
  "pq_output run p operation args w =
     (case pq_run run p operation args w of
        ((Some e, _, _), w1) \<Rightarrow> (Inl e, w1)
      | ((None, out, _), w1) \<Rightarrow> (Inr out, w1))"

section \<open>The operations\<close>

definition pq_capabilities ::
  "(string \<Rightarrow> podman_info option) \<Rightarrow> 'w runner \<Rightarrow> podman \<Rightarrow> 'w \<Rightarrow> (goerr + capabilities) \<times> 'w" where
  "pq_capabilities decode run p w =
     (case pq_output run p ''engine.capabilities'' [''info'', ''--format'', ''json''] w of
        (Inl e, w1) \<Rightarrow> (Inl e, w1)
      | (Inr out, w1) \<Rightarrow>
          (case decode out of
             None \<Rightarrow> (Inl unreadable_report, w1)
           | Some info \<Rightarrow> (checked (podman_report (pq_context_name p) info), w1)))"

definition pq_build :: "'w runner \<Rightarrow> podman \<Rightarrow> build_spec \<Rightarrow> 'w \<Rightarrow> (goerr + string) \<times> 'w" where
  "pq_build run p spec w =
     (case validate_build_spec spec of
        Some e \<Rightarrow> (Inl e, w)
      | None \<Rightarrow>
          let network = (if bs_network spec then podman_build_network else ''none'');
              containerfile = path_join (bs_context spec) (bs_containerfile spec)
          in (case run (pq_args p [''build'', ''--network='' @ network, ''--file'', containerfile,
                      ''--tag'', bs_tag spec, bs_context spec]) w of
                (out, w1) \<Rightarrow>
                  (case co_err out of
                     Some _ \<Rightarrow>
                       let transcript = trim_space (stderr_copy (co_stderr out));
                           f = new_failure ImageUnavailable ''engine.build'' ''the engine could not build %s: %v''
                       in (Inl (Typed (if transcript \<noteq> [] then with_details [(''build_output'', transcript)] f else f)), w1)
                   | None \<Rightarrow>
                       (case pq_output run p ''engine.build'' [''image'', ''inspect'', ''--format'', ''{{.Id}}'', bs_tag spec] w1 of
                          (Inl e, w2) \<Rightarrow> (Inl e, w2)
                        | (Inr i, w2) \<Rightarrow>
                            if canonical_image_id i = [] then
                              (Inl (Typed (new_failure ImageUnavailable ''engine.build''
                                 ''the engine built %s but reported no image identifier'')), w2)
                            else (Inr (canonical_image_id i), w2)))))"

definition pq_image_id :: "'w runner \<Rightarrow> podman \<Rightarrow> string \<Rightarrow> 'w \<Rightarrow> (goerr + string) \<times> 'w" where
  "pq_image_id run p reference w =
     (if reference = [] \<or> has_prefix reference ''-'' then
        (Inl (usage ''engine.image_id'' ''an image reference is required''), w)
      else
        (case pq_output run p ''engine.image_id'' [''image'', ''inspect'', ''--format'', ''{{.Id}}'', reference] w of
           (Inl e, w1) \<Rightarrow> (Inl (missing_container e reference), w1)
         | (Inr out, w1) \<Rightarrow>
             if canonical_image_id out = [] then
               (Inl (Typed (new_failure ImageUnavailable ''engine.image_id''
                  ''the engine holds %q but reported no image identifier'')), w1)
             else (Inr (canonical_image_id out), w1)))"

definition pq_create :: "'w runner \<Rightarrow> podman \<Rightarrow> create_spec \<Rightarrow> 'w \<Rightarrow> (goerr + string) \<times> 'w" where
  "pq_create run p spec w =
     (case validate_create spec of
        Some e \<Rightarrow> (Inl e, w)
      | None \<Rightarrow>
          (case pq_output run p ''engine.create'' (create_args spec) w of
             (Inl e, w1) \<Rightarrow> (Inl e, w1)
           | (Inr out, w1) \<Rightarrow>
               let i = trim_space out
               in if i = [] then
                    (Inl (Typed (new_failure EngineUnavailable ''engine.create''
                       ''the engine created a container but reported no identifier'')), w1)
                  else (Inr i, w1)))"

definition pq_start :: "'w runner \<Rightarrow> podman \<Rightarrow> string \<Rightarrow> 'w \<Rightarrow> goerr option \<times> 'w" where
  "pq_start run p i w =
     (if i = [] then (Some (usage ''engine.start'' ''a container identifier is required''), w)
      else (case pq_run run p ''engine.start'' [''start'', i] w of ((err, _, _), w1) \<Rightarrow> (err, w1)))"

definition pq_exec :: "'w runner \<Rightarrow> podman \<Rightarrow> exec_spec \<Rightarrow> 'w \<Rightarrow> (exec_result \<times> goerr option) \<times> 'w" where
  "pq_exec run p spec w =
     (let result = (\<lambda>c out err. \<lparr>xr_exit_code = c, xr_stdout = out, xr_stderr = err\<rparr>)
      in if ex_container spec = [] \<or> ex_argv spec = [] then
           ((result 0 [] [], Some (usage ''engine.exec'' ''a container identifier and a command are required'')), w)
         else
           let args = [''exec'', ''-i'', ''--user'', dec_nat (ex_user spec)] @
                 (if ex_workdir spec \<noteq> [] then [''--workdir'', ex_workdir spec] else []) @
                 concat (map (\<lambda>e. [''-e'', e]) (ex_env spec)) @ [ex_container spec] @ ex_argv spec
           in (case run (pq_args p args) w of
                 (out, w1) \<Rightarrow>
                   let printed = concat (co_stderr out)
                   in (case co_err out of
                         None \<Rightarrow> ((result 0 (co_stdout out) printed, None), w1)
                       | Some (CmdExit c) \<Rightarrow> ((result c (co_stdout out) printed, None), w1)
                       | Some e \<Rightarrow>
                           ((result 0 (co_stdout out) printed,
                             Some (Typed (command_failure ''engine.exec'' (stderr_copy (co_stderr out)) e))), w1))))"

definition pq_stream :: "'w runner \<Rightarrow> podman \<Rightarrow> exec_spec \<Rightarrow> 'w \<Rightarrow> (goerr option \<times> string \<times> string) \<times> 'w" where
  "pq_stream run p spec w =
     (if ex_container spec = [] \<or> ex_argv spec = [] then
        ((Some (usage ''engine.stream'' ''a container identifier and a command are required''), [], []), w)
      else pq_run run p ''engine.stream''
             ([''exec'', ''-i'', ''--user'', dec_nat (ex_user spec), ex_container spec] @ ex_argv spec) w)"

definition pq_state ::
  "(string \<Rightarrow> reported_state option) \<Rightarrow> (string \<Rightarrow> int option) \<Rightarrow> 'w runner \<Rightarrow> podman \<Rightarrow> string \<Rightarrow> 'w \<Rightarrow>
    (goerr + container_state) \<times> 'w" where
  "pq_state decode parse run p i w =
     (if i = [] then (Inl (usage ''engine.state'' ''a container identifier is required''), w)
      else
        (case pq_output run p ''engine.state'' [''inspect'', ''--format'', ''{{json .State}}'', i] w of
           (Inl e, w1) \<Rightarrow> (Inl (missing_container e i), w1)
         | (Inr out, w1) \<Rightarrow>
             (let unreadable = (\<lambda>m. Inl (Typed (new_failure EngineUnavailable ''engine.state'' m)))
              in case decode (trim_space out) of
                   None \<Rightarrow> (unreadable ''cannot read the container state: %v'', w1)
                 | Some reported \<Rightarrow>
                     (case parse_engine_time parse (rs_started_at reported) of
                        None \<Rightarrow> (unreadable ''the container start time is not a timestamp: %v'', w1)
                      | Some started \<Rightarrow>
                          (case parse_engine_time parse (rs_finished_at reported) of
                             None \<Rightarrow> (unreadable ''the container finish time is not a timestamp: %v'', w1)
                           | Some finished \<Rightarrow>
                               (Inr \<lparr>cst_running = rs_running reported, cst_exit_code = rs_exit_code reported,
                                     cst_started = started, cst_finished = finished\<rparr>, w1))))))"

definition pq_logs :: "'w runner \<Rightarrow> podman \<Rightarrow> string \<Rightarrow> int \<Rightarrow> 'w \<Rightarrow> (goerr option \<times> string) \<times> 'w" where
  "pq_logs run p i tail w =
     (if i = [] then ((Some (usage ''engine.logs'' ''a container identifier and a writer are required''), []), w)
      else if tail \<le> 0 then ((Some (usage ''engine.logs'' ''a positive tail is required''), []), w)
      else (case pq_run run p ''engine.logs'' [''logs'', ''--tail'', dec_int tail, i] w of
              ((err, out, _), w1) \<Rightarrow> ((err, out), w1)))"

definition pq_stop :: "'w runner \<Rightarrow> podman \<Rightarrow> string \<Rightarrow> int \<Rightarrow> 'w \<Rightarrow> goerr option \<times> 'w" where
  "pq_stop run p i grace w =
     (if i = [] then (Some (usage ''engine.stop'' ''a container identifier is required''), w)
      else
        let ceiling = - ((- grace) div 1000000000); seconds = (if ceiling < 1 then 1 else ceiling)
        in (case pq_run run p ''engine.stop'' [''stop'', ''--time'', dec_int seconds, i] w of
              ((Some e, _, _), w1) \<Rightarrow> (Some (missing_container e i), w1)
            | ((None, _, _), w1) \<Rightarrow> (None, w1)))"

definition pq_remove :: "'w runner \<Rightarrow> podman \<Rightarrow> string \<Rightarrow> 'w \<Rightarrow> goerr option \<times> 'w" where
  "pq_remove run p i w =
     (if i = [] then (Some (usage ''engine.remove'' ''a container identifier is required''), w)
      else
        (case pq_run run p ''engine.remove'' [''rm'', ''--force'', i] w of
           ((Some e, _, _), w1) \<Rightarrow> (Some (missing_container e i), w1)
         | ((None, _, _), w1) \<Rightarrow> (None, w1)))"

section \<open>It is the shared adapter\<close>

definition podman_adapter :: "podman \<Rightarrow> adapter" where
  "podman_adapter p = \<lparr>ad_kind = KindPodman, ad_endpoint = pq_connection p\<rparr>"

lemma new_podman_shared:
  "new_podman True c = map_sum id (\<lambda>ad. \<lparr>pq_connection = ad_endpoint ad\<rparr>) (new_adapter KindPodman c)"
  by (simp add: new_podman_def new_adapter_def)

lemma pq_args_shared [simp]: "pq_args p args = engine_args (podman_adapter p) args"
  by (simp add: pq_args_def engine_args_def podman_args_def podman_adapter_def)

lemma pq_run_shared [simp]: "pq_run run p operation args w = run_cmd run (podman_adapter p) operation args w"
  by (simp add: pq_run_def run_cmd_def Let_def map_option_case split: prod.split option.split)

lemma podman_kind [simp]: "ad_kind (podman_adapter p) = KindPodman"
  by (simp add: podman_adapter_def)

lemma pq_name_shared [simp]: "pq_context_name p = podman_context_name (podman_adapter p)"
  by (simp add: pq_context_name_def podman_context_name_def podman_adapter_def podman_local_name_def)

lemma pq_capabilities_shared: "pq_capabilities dp run p = podman_capabilities dp run (podman_adapter p)"
  by (rule ext) (simp add: pq_capabilities_def podman_capabilities_def pq_output_def split: prod.split option.split)

lemma pq_create_shared: "pq_create run p = op_create run (podman_adapter p)"
  by (intro ext) (simp add: pq_create_def op_create_def pq_output_def Let_def split: prod.split option.split)

lemma pq_start_shared: "pq_start run p = op_start run (podman_adapter p)"
  by (intro ext) (simp add: pq_start_def op_start_def split: prod.split)

lemma pq_exec_shared: "pq_exec run p = op_exec run (podman_adapter p)"
  by (intro ext) (simp add: pq_exec_def op_exec_def exec_args_def opt_args_def Let_def
      split: prod.split option.split cmd_err.split)

lemma pq_stream_shared: "pq_stream run p = op_stream run (podman_adapter p)"
  by (intro ext) (simp add: pq_stream_def op_stream_def)

lemma pq_state_shared: "pq_state ds pt run p = op_state ds pt run (podman_adapter p)"
  by (intro ext) (simp add: pq_state_def op_state_def pq_output_def Let_def split: prod.split option.split)

lemma pq_logs_shared: "pq_logs run p = op_logs run (podman_adapter p)"
  by (intro ext) (simp add: pq_logs_def op_logs_def split: prod.split)

lemma pq_stop_shared: "pq_stop run p = op_stop run (podman_adapter p)"
  by (intro ext) (simp add: pq_stop_def op_stop_def stop_seconds_def Let_def max_def split: prod.split option.split)

lemma pq_remove_shared: "pq_remove run p = op_remove run (podman_adapter p)"
  by (intro ext) (simp add: pq_remove_def op_remove_def split: prod.split option.split)

lemma pq_image_id_shared: "pq_image_id run p = op_image_id run (podman_adapter p)"
  by (intro ext) (simp add: pq_image_id_def op_image_id_def pq_output_def split: prod.split option.split)

lemma pq_build_shared: "pq_build run p = op_build run (podman_adapter p)"
proof (intro ext)
  fix spec w
  have a: "[''build'', ''--network='' @ (if bs_network spec then podman_build_network else ''none''), ''--file'',
      path_join (bs_context spec) (bs_containerfile spec), ''--tag'', bs_tag spec, bs_context spec] =
      build_args KindPodman spec"
    by (simp add: build_args_def build_network_def podman_build_network_def)
  have f: "(if t \<noteq> [] then with_details [(''build_output'', t)] g else g) =
      with_details (if t \<noteq> [] then [(''build_output'', t)] else []) g" if "f_details g = []" for t g
    using that by (simp add: with_details_def)
  obtain out w1 where r: "run (engine_args (podman_adapter p) (build_args KindPodman spec)) w = (out, w1)"
    by fastforce
  show "pq_build run p spec w = op_build run (podman_adapter p) spec w"
  proof (cases "validate_build_spec spec")
    case None
    then show ?thesis
      unfolding pq_build_def op_build_def Let_def a pq_args_shared podman_kind r
      by (cases "co_err out") (simp_all add: pq_output_def f split: prod.split option.split)
  qed (simp add: pq_build_def op_build_def)
qed

lemmas podman_shared = pq_capabilities_shared pq_create_shared pq_start_shared pq_exec_shared
  pq_stream_shared pq_state_shared pq_logs_shared pq_stop_shared pq_remove_shared

definition podman_engine ::
  "(string \<Rightarrow> podman_info option) \<Rightarrow> (string \<Rightarrow> reported_state option) \<Rightarrow> (string \<Rightarrow> int option) \<Rightarrow>
    'w runner \<Rightarrow> podman \<Rightarrow> 'w engine" where
  "podman_engine dp ds pt run p =
     \<lparr>en_capabilities = pq_capabilities dp run p, en_create = pq_create run p, en_start = pq_start run p,
      en_exec = pq_exec run p, en_stream = pq_stream run p,
      en_state = (\<lambda>i w. case pq_state ds pt run p i w of
                   (Inl e, w1) \<Rightarrow> (Inl e, w1) | (Inr st, w1) \<Rightarrow> (Inr (cst_running st), w1)),
      en_logs = pq_logs run p, en_stop = pq_stop run p, en_remove = pq_remove run p\<rparr>"

lemma same_endpoint:
  "engine_args \<lparr>ad_kind = KindDocker, ad_endpoint = []\<rparr> = engine_args \<lparr>ad_kind = KindPodman, ad_endpoint = []\<rparr>"
  by (rule ext) (simp add: engine_args_def docker_args_def podman_args_def)

lemma same_commands:
  "run_cmd run \<lparr>ad_kind = KindDocker, ad_endpoint = []\<rparr> = run_cmd run \<lparr>ad_kind = KindPodman, ad_endpoint = []\<rparr>"
  by (intro ext) (simp add: run_cmd_def same_endpoint)

lemma same_operations:
  "op_create run \<lparr>ad_kind = KindDocker, ad_endpoint = []\<rparr> = op_create run \<lparr>ad_kind = KindPodman, ad_endpoint = []\<rparr>"
  "op_exec run \<lparr>ad_kind = KindDocker, ad_endpoint = []\<rparr> = op_exec run \<lparr>ad_kind = KindPodman, ad_endpoint = []\<rparr>"
  "op_stream run \<lparr>ad_kind = KindDocker, ad_endpoint = []\<rparr> = op_stream run \<lparr>ad_kind = KindPodman, ad_endpoint = []\<rparr>"
  "op_state ds pt run \<lparr>ad_kind = KindDocker, ad_endpoint = []\<rparr> = op_state ds pt run \<lparr>ad_kind = KindPodman, ad_endpoint = []\<rparr>"
  "op_logs run \<lparr>ad_kind = KindDocker, ad_endpoint = []\<rparr> = op_logs run \<lparr>ad_kind = KindPodman, ad_endpoint = []\<rparr>"
  "op_stop run \<lparr>ad_kind = KindDocker, ad_endpoint = []\<rparr> = op_stop run \<lparr>ad_kind = KindPodman, ad_endpoint = []\<rparr>"
  "op_remove run \<lparr>ad_kind = KindDocker, ad_endpoint = []\<rparr> = op_remove run \<lparr>ad_kind = KindPodman, ad_endpoint = []\<rparr>"
  "op_image_id run \<lparr>ad_kind = KindDocker, ad_endpoint = []\<rparr> = op_image_id run \<lparr>ad_kind = KindPodman, ad_endpoint = []\<rparr>"
  by (intro ext, simp only: op_create_def op_exec_def op_stream_def op_state_def op_logs_def op_stop_def
      op_remove_def op_image_id_def same_commands same_endpoint)+

lemma start_apart:
  assumes "fst (op_start run \<lparr>ad_kind = KindDocker, ad_endpoint = []\<rparr> i w) \<noteq>
    fst (op_start run \<lparr>ad_kind = KindPodman, ad_endpoint = []\<rparr> i w)"
  shows "fst (op_start run \<lparr>ad_kind = KindDocker, ad_endpoint = []\<rparr> i w) = None"
    "contains_sub (snd (snd (fst (run_cmd run \<lparr>ad_kind = KindDocker, ad_endpoint = []\<rparr> ''engine.start'' [''start'', i] w))))
      ''is already running''"
proof -
  obtain err out stderr w1 where
    r: "run_cmd run \<lparr>ad_kind = KindPodman, ad_endpoint = []\<rparr> ''engine.start'' [''start'', i] w = ((err, out, stderr), w1)"
    by (metis prod.collapse)
  then have c: "contains_sub stderr ''is already running'' \<and> i \<noteq> []"
    using assms by (auto simp: op_start_def same_commands split: if_splits)
  show "fst (op_start run \<lparr>ad_kind = KindDocker, ad_endpoint = []\<rparr> i w) = None"
    using c r by (simp add: op_start_def same_commands)
  show "contains_sub (snd (snd (fst (run_cmd run \<lparr>ad_kind = KindDocker, ad_endpoint = []\<rparr> ''engine.start'' [''start'', i] w))))
      ''is already running''"
    using c r by (simp add: same_commands)
qed

text \<open>
  C27. The two adapters cannot drift. Every function of the Podman adapter is the shared
  operation at kind Podman, building and naming images included, so what the session
  service does over the shared operations it does over Podman; and against the user's own
  endpoint the Docker adapter gives the same answers through the same commands for
  everything but the capability report, the network name of a build, and a start that
  Docker refuses because the container is already running.
\<close>

theorem adapters_agree:
  "podman_engine dp ds pt run p = cli_engine dd dp ds pt run (podman_adapter p) \<and>
   pq_build run p = op_build run (podman_adapter p) \<and>
   pq_image_id run p = op_image_id run (podman_adapter p) \<and>
   (let docker = \<lparr>ad_kind = KindDocker, ad_endpoint = []\<rparr>; local_podman = \<lparr>pq_connection = []\<rparr>
    in op_create run docker = pq_create run local_podman \<and> op_exec run docker = pq_exec run local_podman \<and>
       op_stream run docker = pq_stream run local_podman \<and> op_state ds pt run docker = pq_state ds pt run local_podman \<and>
       op_logs run docker = pq_logs run local_podman \<and> op_stop run docker = pq_stop run local_podman \<and>
       op_remove run docker = pq_remove run local_podman \<and> op_image_id run docker = pq_image_id run local_podman \<and>
       (\<forall>spec. \<not> bs_network spec \<longrightarrow> build_args KindDocker spec = build_args KindPodman spec) \<and>
       (\<forall>i w. fst (op_start run docker i w) \<noteq> fst (pq_start run local_podman i w) \<longrightarrow>
          fst (op_start run docker i w) = None \<and>
          contains_sub (snd (snd (fst (run_cmd run docker ''engine.start'' [''start'', i] w)))) ''is already running''))"
proof -
  have "podman_engine dp ds pt run p = cli_engine dd dp ds pt run (podman_adapter p)"
    by (simp add: podman_engine_def cli_engine_def podman_shared)
  note whole = this
  have plain: "build_args KindDocker spec = build_args KindPodman spec" if "\<not> bs_network spec" for spec
    using that by (simp add: build_args_def build_network_def)
  show ?thesis
    unfolding Let_def podman_shared pq_build_shared pq_image_id_shared podman_adapter_def podman.simps same_operations
    by (intro conjI allI impI refl whole [unfolded podman_adapter_def] plain start_apart)
qed

text \<open>A start that Docker refuses as already running is where they part.\<close>

definition running_already :: "unit runner" where
  "running_already args w =
     (\<lparr>co_err = Some (CmdExit 1), co_stdout = [], co_stderr = [''container c1 is already running'']\<rparr>, w)"

theorem adapters_agree_witness:
  "fst (op_start running_already \<lparr>ad_kind = KindDocker, ad_endpoint = []\<rparr> ''c1'' ()) = None \<and>
   fst (pq_start running_already \<lparr>pq_connection = []\<rparr> ''c1'' ()) \<noteq> None \<and>
   build_args KindDocker \<lparr>bs_context = ''/c'', bs_containerfile = ''f'', bs_tag = ''t'', bs_network = False\<rparr> =
     build_args KindPodman \<lparr>bs_context = ''/c'', bs_containerfile = ''f'', bs_tag = ''t'', bs_network = False\<rparr>"
proof -
  have d: "fst (pq_start running_already \<lparr>pq_connection = []\<rparr> ''c1'' ()) \<noteq> None"
    by code_simp
  have o: "fst (op_start running_already \<lparr>ad_kind = KindDocker, ad_endpoint = []\<rparr> ''c1'' ()) = None"
    by code_simp
  have "\<forall>spec. \<not> bs_network spec \<longrightarrow> build_args KindDocker spec = build_args KindPodman spec"
    using adapters_agree [where run = running_already] unfolding Let_def by blast
  then show ?thesis using d o by simp
qed

end
