(* ===== verification/Session_Agent.thy ===== *)
theory Session_Agent
  imports Session_Service
begin

text \<open>
  The bridge from the outer command to a session's resident controller
  (\<open>internal/session/agent.go\<close>): one call exchanged through the container engine, one
  capture fetched out of the session under a byte bound, and the validation of the name
  of a capture. Encoding the parameters and decoding the reply are \<open>encoding/json\<close>'s
  (parameters here); \<open>cancelled\<close> reports whether the caller's context is done.
\<close>

section \<open>Failures that travelled\<close>

definition bind_failure :: "failure \<Rightarrow> string \<Rightarrow> string \<Rightarrow> failure" where
  "bind_failure f op i =
     (let f1 = (if f_operation f = [] then f\<lparr>f_operation := op\<rparr> else f)
      in if f_session f1 = [] then f1\<lparr>f_session := i\<rparr> else f1)"

definition first_line :: "string \<Rightarrow> string" where
  "first_line text0 =
     (let t = takeWhile (\<lambda>c. c \<noteq> char_of (10::nat)) (trim_space text0)
      in if t = [] then ''no diagnostics'' else t)"

section \<open>Call\<close>

definition call_controller ::
  "codec \<Rightarrow> (string \<Rightarrow> 'rep option) \<Rightarrow> ('w \<Rightarrow> bool) \<Rightarrow> service \<Rightarrow> 'w engine \<Rightarrow>
    string \<Rightarrow> string \<Rightarrow> string option \<Rightarrow> 'w sys \<Rightarrow> (goerr + 'rep) \<times> 'w sys" where
  "call_controller cd decode cancelled sv en i operation encoded s =
     (let op = trim_space operation in
      if op = [] then (Inl (usage ''session.call'' ''an operation is required''), s)
      else
        (case load (sy_store s) i of
           Inl e \<Rightarrow> (Inl e, s)
         | Inr r \<Rightarrow>
             if \<not> interactive (r_state r) then
               (Inl (Typed (new_failure SessionNotReady op
                  ''session %q is %s and cannot accept %s'')), s)
             else
               (case encoded of
                  None \<Rightarrow> (Inl (usage op ''cannot encode the arguments: %v''), s)
                | Some params \<Rightarrow>
                    (case call_engine (en_exec en
                            \<lparr>ex_container = r_container_id r, ex_user = sv_control_uid sv,
                             ex_workdir = [], ex_env = [],
                             ex_argv = [''/usr/libexec/wlvision-call'', ''--socket'',
                               runtime_dir @ ''/control/agent.sock'', ''--params'', params, op]\<rparr>) s of
                       ((_, Some e), s1) \<Rightarrow>
                         (Inl (if cancelled (sy_world s1) then
                                 Typed (new_failure WaitTimeout op
                                   ''the session did not answer %s before the deadline: %v'')
                               else e), s1)
                     | ((res, None), s1) \<Rightarrow>
                         if xr_exit_code res \<noteq> 0 then
                           (Inl (Typed (case decode_failure cd (xr_stderr res) of
                               Some f \<Rightarrow> bind_failure f op i
                             | None \<Rightarrow> new_failure SessionNotReady op
                                 ''the session's controller exited %d: %s'')), s1)
                         else
                           (case decode (trim_space (xr_stdout res)) of
                              None \<Rightarrow> (Inl (Typed (new_failure SessionNotReady op
                                 ''the session's controller answered with an unreadable reply: %v'')), s1)
                            | Some rep \<Rightarrow> (Inr rep, s1))))))"

section \<open>Fetch\<close>

definition max_export_name_length :: nat where
  "max_export_name_length = 200"

definition export_name :: "string \<Rightarrow> goerr + string" where
  "export_name requested =
     (let name = trim_space requested; cleaned = path_clean name;
          refuse = (\<lambda>m. Inl (usage ''capture.fetch'' m)) in
      if name = [] then refuse ''a capture name is required''
      else if CHR 0x00 \<in> set name then refuse ''the capture name contains a NUL byte''
      else if is_abs name then
        refuse ''the capture name %q must be relative to the session export directory''
      else if has_prefix name ''-'' then
        refuse ''the capture name %q must not begin with a dash''
      else if cleaned = ''.'' \<or> cleaned = ''..'' \<or> has_prefix cleaned ''../'' then
        refuse ''the capture name %q leaves the session export directory''
      else if max_export_name_length < length cleaned then
        refuse ''the capture name is longer than %d bytes''
      else Inr cleaned)"

definition max_fetch_bytes :: nat where
  "max_fetch_bytes = 64 * 2 ^ 20"

text \<open>
  The writer a fetch copies through: it takes whole chunks while they fit and refuses the
  first that does not, which ends the copy. The result is what was written and whether
  the bound was exceeded.
\<close>

fun bounded_copy :: "nat \<Rightarrow> string list \<Rightarrow> string \<times> bool" where
  "bounded_copy remaining [] = ([], False)"
| "bounded_copy remaining (c # cs) =
     (if remaining < length c then ([], True)
      else let (rest, exceeded) = bounded_copy (remaining - length c) cs in (c @ rest, exceeded))"

text \<open>\<open>chunks\<close> cuts the output of the engine command into the pieces it is copied in.\<close>

definition fetch ::
  "codec \<Rightarrow> (string \<Rightarrow> string list) \<Rightarrow> service \<Rightarrow> 'w engine \<Rightarrow> string \<Rightarrow> string \<Rightarrow> 'w sys \<Rightarrow>
    (goerr option \<times> string) \<times> 'w sys" where
  "fetch cd chunks sv en i requested s =
     (case load (sy_store s) i of
        Inl e \<Rightarrow> ((Some e, []), s)
      | Inr r \<Rightarrow>
          if \<not> interactive (r_state r) then
            ((Some (Typed (new_failure SessionNotReady ''capture.fetch''
               ''session %q is %s and holds no readable capture'')), []), s)
          else
            (case export_name requested of
               Inl e \<Rightarrow> ((Some e, []), s)
             | Inr name \<Rightarrow>
                 (case call_engine (en_exec en
                         \<lparr>ex_container = r_container_id r, ex_user = sv_control_uid sv,
                          ex_workdir = [], ex_env = [],
                          ex_argv = [''cat'', path_join (runtime_dir @ ''/export'') name]\<rparr>) s of
                    ((res, err), s1) \<Rightarrow>
                      let (written, exceeded) = bounded_copy max_fetch_bytes (chunks (xr_stdout res)) in
                      (case err of
                         Some e \<Rightarrow>
                           ((Some (if exceeded then Typed (new_failure CaptureFailed ''capture.fetch''
                                 ''the stored capture exceeds the %d byte limit'') else e), written), s1)
                       | None \<Rightarrow>
                           if xr_exit_code res \<noteq> 0 then
                             ((Some (Typed (case decode_failure cd (xr_stderr res) of
                                 Some f \<Rightarrow> bind_failure f ''capture.fetch'' i
                               | None \<Rightarrow> new_failure CaptureFailed ''capture.fetch''
                                   ''the session holds no capture named %q: %s'')), written), s1)
                           else ((None, written), s1)))))"

section \<open>Facts\<close>

lemma export_name_Inr:
  "export_name s = Inr t \<Longrightarrow> t = path_clean (trim_space s) \<and> confined t \<and>
     length t \<le> max_export_name_length"
  by (auto simp: export_name_def Let_def path_clean_confined split: if_splits)

interpretation capture_name: name_validator export_name
  by unfold_locales (use export_name_Inr in blast)

lemma bounded_copy_props:
  "length (fst (bounded_copy n cs)) \<le> n" "\<exists>r. concat cs = fst (bounded_copy n cs) @ r"
  "\<not> snd (bounded_copy n cs) \<Longrightarrow> fst (bounded_copy n cs) = concat cs"
proof (induction cs arbitrary: n)
  case (Cons c cs)
  case 1
  then show ?case using Cons(1) [of "n - length c"] by (auto split: prod.splits)
  case 2
  then show ?case using Cons(2) [of "n - length c"] by (auto split: prod.splits)
  case 3
  then show ?case using Cons(3) [of "n - length c"] by (auto split: prod.splits if_splits)
qed auto

lemma bind_failure_sel:
  "f_code (bind_failure f op i) = f_code f" "f_details (bind_failure f op i) = f_details f"
  "f_message (bind_failure f op i) = f_message f"
  "f_operation (bind_failure f op i) = (if f_operation f = [] then op else f_operation f)"
  "f_session (bind_failure f op i) = (if f_session f = [] then i else f_session f)"
  by (auto simp: bind_failure_def Let_def)

lemma export_root: "is_abs (runtime_dir @ ''/export'')" "path_elems (runtime_dir @ ''/export'') \<noteq> []"
  "path_clean (runtime_dir @ ''/export'') = ''/run/wlvision/export''"
  by (simp_all add: is_abs_def has_prefix_def runtime_dir_def path_elems_def path_clean_def)

section \<open>Properties\<close>



lemma call_open:
  assumes "load (sy_store s) i = Inr r" and "interactive (r_state r)" and "trim_space op \<noteq> []"
    and "\<And>x. fst (en_exec en x (sy_world s)) = (res0, None)" and "xr_exit_code res0 \<noteq> 0"
    and "decode_failure cd (xr_stderr res0) = Some f"
  shows "fst (call_controller cd decode cancelled sv en i op (Some ps) s) =
    Inl (Typed (bind_failure f (trim_space op) i))"
proof -
  have "\<exists>w'. en_exec en x (sy_world s) = ((res0, None), w')" for x
    using assms(4) [of x] by (metis prod.collapse)
  then obtain g where g: "\<And>x. en_exec en x (sy_world s) = ((res0, None), g x)" by metis
  show ?thesis
    using assms(1-3,5,6) g by (simp add: call_controller_def Let_def call_engine_def)
qed

text \<open>
  A call reaches the controller of an open session only, and reports faithfully: on
  any session that is not ready or running, or with an empty operation, the engine is not
  touched; the store never changes; and when the controller refuses, the caller gets a
  failure with the code, the message and the details the controller reported, which
  names the operation and the session wherever the controller named none.
\<close>

lemma call_faithful:
  assumes "call_controller cd decode cancelled sv en i op (Some ps) s = (res, s')"
  shows "sy_store s' = sy_store s \<and>
    ((trim_space op = [] \<or> (\<forall>r. load (sy_store s) i = Inr r \<longrightarrow> \<not> interactive (r_state r))) \<longrightarrow>
      s' = s \<and> (\<exists>e. res = Inl e)) \<and>
    (load (sy_store s) i = Inr r \<and> interactive (r_state r) \<and> trim_space op \<noteq> [] \<and>
      (\<forall>x. fst (en_exec en x (sy_world s)) = (res0, None)) \<and> xr_exit_code res0 \<noteq> 0 \<and>
      decode_failure cd (xr_stderr res0) = Some f \<longrightarrow>
      (\<exists>g. res = Inl (Typed g) \<and> f_code g = f_code f \<and> f_message g = f_message f \<and>
         f_details g = f_details f \<and>
         f_operation g = (if f_operation f = [] then trim_space op else f_operation f) \<and>
         f_session g = (if f_session f = [] then i else f_session f)))"
proof (intro conjI impI)
  show "sy_store s' = sy_store s"
    using assms by (auto simp: call_controller_def Let_def call_engine_store
        split: sum.splits if_splits prod.splits option.splits)
next
  assume h: "trim_space op = [] \<or> (\<forall>r. load (sy_store s) i = Inr r \<longrightarrow> \<not> interactive (r_state r))"
  show "s' = s" "\<exists>e. res = Inl e"
    using assms h by (auto simp: call_controller_def Let_def split: sum.splits if_splits)
next
  assume h: "load (sy_store s) i = Inr r \<and> interactive (r_state r) \<and> trim_space op \<noteq> [] \<and>
      (\<forall>x. fst (en_exec en x (sy_world s)) = (res0, None)) \<and> xr_exit_code res0 \<noteq> 0 \<and>
      decode_failure cd (xr_stderr res0) = Some f"
  then have "res = Inl (Typed (bind_failure f (trim_space op) i))"
    using call_open [of s i r op en res0 cd f decode cancelled sv ps] assms by simp
  then show "\<exists>g. res = Inl (Typed g) \<and> f_code g = f_code f \<and> f_message g = f_message f \<and>
         f_details g = f_details f \<and>
         f_operation g = (if f_operation f = [] then trim_space op else f_operation f) \<and>
         f_session g = (if f_session f = [] then i else f_session f)"
    by (auto simp: bind_failure_sel)
qed

lemma call_faithful_witness:
  "fst (call_controller demo_codec (\<lambda>_. Some ()) (\<lambda>_. False) demo_service demo_engine ''demo'' '' ''
      (Some []) demo_sys) = Inl (usage ''session.call'' ''an operation is required'') \<and>
   snd (call_controller demo_codec (\<lambda>_. Some ()) (\<lambda>_. False) demo_service demo_engine ''demo'' '' ''
      (Some []) demo_sys) = demo_sys"
proof -
  have t: "trim_space '' '' = []" by (simp add: trim_space_def is_space_def)
  let ?c = "call_controller demo_codec (\<lambda>_. Some ()) (\<lambda>_. False) demo_service demo_engine ''demo'' '' ''
      (Some []) demo_sys"
  have "fst ?c = Inl (usage ''session.call'' ''an operation is required'')"
    by (simp add: call_controller_def t)
  moreover have "?c = (fst ?c, snd ?c)" by simp
  from call_faithful [OF this] t have "snd ?c = demo_sys" by blast
  ultimately show ?thesis by blast
qed

end
