(* ===== verification/Wire.thy ===== *)
theory Wire
  imports Complex_Main Results
begin

text \<open>
  The wire contract between the outer command and the resident controller
  (\<open>internal/agentapi/wire.go\<close>): operations, parameters and replies, and the caller the
  interaction services are written against. A \<open>float64\<close> is an exact rational or one of
  the three values that cannot cross the wire; where the code adds two of them the
  rounding of the result is a parameter. A caller also says on which context a call is
  made: the caller's own, or the independent one of a clean-up.
\<close>

section \<open>Numbers\<close>

datatype f64 = Fin rat | NaN | PosInf | NegInf

definition finite_f64 :: "f64 \<Rightarrow> bool" where
  "finite_f64 v = (case v of Fin _ \<Rightarrow> True | _ \<Rightarrow> False)"

definition zero_f64 :: f64 where
  "zero_f64 = Fin 0"

section \<open>Operations\<close>

definition op_snapshot :: string where "op_snapshot = ''snapshot''"
definition op_activate :: string where "op_activate = ''activate''"
definition op_move :: string where "op_move = ''move''"
definition op_resize :: string where "op_resize = ''resize''"
definition op_close_window :: string where "op_close_window = ''close_window''"
definition op_pointer :: string where "op_pointer = ''pointer''"
definition op_key :: string where "op_key = ''key''"
definition op_authorize_capture :: string where "op_authorize_capture = ''authorize_capture''"
definition op_capture :: string where "op_capture = ''capture''"

definition pointer_motion :: string where "pointer_motion = ''motion''"
definition pointer_button :: string where "pointer_button = ''button''"
definition pointer_axis :: string where "pointer_axis = ''axis''"

definition state_pressed :: string where "state_pressed = ''pressed''"
definition state_released :: string where "state_released = ''released''"

lemmas wire_names [go_defs] =
  op_snapshot_def op_activate_def op_move_def op_resize_def op_close_window_def op_pointer_def
  op_key_def op_authorize_capture_def op_capture_def pointer_motion_def pointer_button_def
  pointer_axis_def state_pressed_def state_released_def

record params =
  p_handle :: string
  p_revision :: u64
  p_x :: f64
  p_y :: f64
  p_width :: u32
  p_height :: u32
  p_kind :: string
  p_button :: u32
  p_state :: string
  p_axis :: u32
  p_value :: f64
  p_key :: u32
  p_timeout_ms :: u32
  p_path :: string

definition no_params :: params where
  "no_params =
     \<lparr>p_handle = [], p_revision = 0, p_x = zero_f64, p_y = zero_f64, p_width = 0, p_height = 0,
      p_kind = [], p_button = 0, p_state = [], p_axis = 0, p_value = zero_f64, p_key = 0,
      p_timeout_ms = 0, p_path = []\<rparr>"

record toplevel =
  tl_handle :: string
  tl_title :: string
  tl_app_id :: string
  tl_x :: int
  tl_y :: int
  tl_width :: u32
  tl_height :: u32
  tl_state :: u32
  tl_revision :: u64

record wstate =
  ws_revision :: u64
  ws_toplevels :: "toplevel list"

record resize_result =
  rr_handle :: string
  rr_requested_width :: u32
  rr_requested_height :: u32
  rr_configured_width :: u32
  rr_configured_height :: u32
  rr_committed_width :: u32
  rr_committed_height :: u32
  rr_visible_width :: u32
  rr_visible_height :: u32
  rr_revision :: u64

record frame_result =
  fr_path :: string
  fr_digest :: string
  fr_width :: int
  fr_height :: int
  fr_format :: string
  fr_sequence :: u64
  fr_capture_request_id :: u64

record reply =
  rp_revision :: u64
  rp_state :: "wstate option"
  rp_resize :: "resize_result option"
  rp_frame :: "frame_result option"
  rp_capture_request_id :: u64

section \<open>The caller\<close>

datatype ctx = CallerCtx | ReleaseCtx

type_synonym call = "ctx \<times> string \<times> params"

type_synonym 'w caller = "ctx \<Rightarrow> string \<Rightarrow> params \<Rightarrow> 'w \<Rightarrow> (goerr + reply) \<times> 'w"

text \<open>The world behind a caller, together with the calls made so far.\<close>

record 'w chan =
  ch_world :: 'w
  ch_sent :: "call list"

definition send :: "'w caller \<Rightarrow> ctx \<Rightarrow> string \<Rightarrow> params \<Rightarrow> 'w chan \<Rightarrow> (goerr + reply) \<times> 'w chan" where
  "send c cx op ps ch =
     (let (r, w) = c cx op ps (ch_world ch)
      in (r, \<lparr>ch_world = w, ch_sent = ch_sent ch @ [(cx, op, ps)]\<rparr>))"

lemma send_sent: "send c cx op ps ch = (r, ch') \<Longrightarrow> ch_sent ch' = ch_sent ch @ [(cx, op, ps)]"
  by (auto simp: send_def split: prod.splits)

end
