(* ===== verification/Input_Keymap.thy ===== *)
theory Input_Keymap
  imports Wire
begin

text \<open>
  The embedded keyboard artifact (\<open>internal/input/keymap.go\<close>): its validation, and the
  resolution of a text and of a key name into key strokes. The document is JSON, decoded
  by the parameter \<open>unmarshal\<close>; a decoded table is a list of entries, the first entry of
  a key counting. A text is iterated by UTF-8 runes as Go does: an ill-formed sequence
  is the replacement character of width one. The detail that names an untypable
  character holds the rune itself, without the quoting of \<open>strconv.QuoteRune\<close>.
\<close>

section \<open>Runes of a Go string\<close>

definition byte_at :: "string \<Rightarrow> nat \<Rightarrow> nat" where
  "byte_at s i = (if i < length s then of_char (s ! i) else 0)"

definition cont :: "string \<Rightarrow> nat \<Rightarrow> nat \<Rightarrow> nat \<Rightarrow> bool" where
  "cont s i lo hi \<longleftrightarrow> i < length s \<and> lo \<le> byte_at s i \<and> byte_at s i \<le> hi"

definition decode_rune :: "string \<Rightarrow> nat \<times> nat" where
  "decode_rune s =
     (let b0 = byte_at s 0; c = (\<lambda>i. byte_at s i mod 64) in
      if b0 < 128 then (b0, 1)
      else if 194 \<le> b0 \<and> b0 \<le> 223 \<and> cont s 1 128 191 then (b0 mod 32 * 64 + c 1, 2)
      else if 224 \<le> b0 \<and> b0 \<le> 239 \<and>
          cont s 1 (if b0 = 224 then 160 else 128) (if b0 = 237 then 159 else 191) \<and> cont s 2 128 191 then
        (b0 mod 16 * 4096 + c 1 * 64 + c 2, 3)
      else if 240 \<le> b0 \<and> b0 \<le> 244 \<and>
          cont s 1 (if b0 = 240 then 144 else 128) (if b0 = 244 then 143 else 191) \<and>
          cont s 2 128 191 \<and> cont s 3 128 191 then
        (b0 mod 8 * 262144 + c 1 * 4096 + c 2 * 64 + c 3, 4)
      else (65533, 1))"

definition encode_rune :: "nat \<Rightarrow> string" where
  "encode_rune r = map char_of
     (if r < 128 then [r]
      else if r < 2048 then [192 + r div 64, 128 + r mod 64]
      else if r < 65536 then [224 + r div 4096, 128 + r div 64 mod 64, 128 + r mod 64]
      else [240 + r div 262144, 128 + r div 4096 mod 64, 128 + r div 64 mod 64, 128 + r mod 64])"

lemma decode_rune_width: "1 \<le> snd (decode_rune s)"
  by (auto simp: decode_rune_def Let_def)

function runes_from :: "nat \<Rightarrow> string \<Rightarrow> (nat \<times> nat) list" where
  "runes_from off s =
     (if s = [] then []
      else let (r, n) = decode_rune s in (off, r) # runes_from (off + n) (drop n s))"
  by auto
termination
proof (relation "measure (length \<circ> snd)")
  fix off :: nat and s :: string and x r n
  assume "s \<noteq> []" and "x = decode_rune s" and "(r, n) = x"
  then have "1 \<le> n" using decode_rune_width [of s] by (metis snd_conv)
  then show "((off + n, drop n s), (off, s)) \<in> measure (length \<circ> snd)"
    using \<open>s \<noteq> []\<close> by auto
qed simp

declare runes_from.simps [simp del]

definition range_runes :: "string \<Rightarrow> (nat \<times> nat) list" where
  "range_runes s = runes_from 0 s"

section \<open>The artifact\<close>

record kstroke =
  ks_keycode :: u32
  ks_level :: u32
  ks_shift :: bool

record artifact =
  ka_schema :: string
  ka_rules :: string
  ka_model :: string
  ka_layout :: string
  ka_variant :: string
  ka_options :: string
  ka_runes :: "(string \<times> kstroke) list"
  ka_named :: "(string \<times> kstroke) list"

definition keycode_min :: u32 where "keycode_min = 1"
definition keycode_max :: u32 where "keycode_max = 255"

definition validate_stroke :: "kstroke \<Rightarrow> goerr option" where
  "validate_stroke e =
     (if ks_keycode e < keycode_min \<or> ks_keycode e > keycode_max then
        Some (PlainErr ''keycode %d is outside the evdev range %d..%d'')
      else if 1 < ks_level e then Some (PlainErr ''level %d is neither 0 nor 1'')
      else if ks_shift e \<noteq> (ks_level e = 1) then
        Some (PlainErr ''shift %t does not match level %d'')
      else None)"

text \<open>The keys of a table in sorted order; the first bad one decides the error.\<close>

definition check_table :: "(string \<times> kstroke) list \<Rightarrow> goerr option" where
  "check_table t =
     fold (\<lambda>k err. case err of
             Some e \<Rightarrow> Some e
           | None \<Rightarrow> (case map_of t k of
                None \<Rightarrow> None
              | Some st \<Rightarrow> (case validate_stroke st of
                    None \<Rightarrow> None
                  | Some _ \<Rightarrow> Some (PlainErr ''input: embedded keyboard artifact %s[%q]: %w''))))
       (sort (remdups (map fst t))) None"

definition keymap_schema :: string where
  "keymap_schema = ''wlvision-keymap/v1''"

definition decode_artifact :: "(string \<Rightarrow> artifact option) \<Rightarrow> string \<Rightarrow> goerr + artifact" where
  "decode_artifact unmarshal data =
     (case unmarshal data of
        None \<Rightarrow> Inl (PlainErr ''input: decoding the embedded keyboard artifact: %w'')
      | Some a \<Rightarrow>
          if ka_schema a \<noteq> keymap_schema then
            Inl (PlainErr ''input: embedded keyboard artifact has schema %q, want %q'')
          else if ka_rules a \<noteq> ''evdev'' \<or> ka_model a \<noteq> ''pc105'' \<or> ka_layout a \<noteq> ''us'' \<or>
              ka_variant a \<noteq> [] \<or> ka_options a \<noteq> [] then
            Inl (PlainErr ''input: embedded keyboard artifact RMLVO'')
          else if ka_runes a = [] then
            Inl (PlainErr ''input: embedded keyboard artifact for layout %q has no runes'')
          else if ka_named a = [] then
            Inl (PlainErr ''input: embedded keyboard artifact for layout %q has no named keys'')
          else (case check_table (ka_runes a) of
                  Some e \<Rightarrow> Inl e
                | None \<Rightarrow> (case check_table (ka_named a) of
                    Some e \<Rightarrow> Inl e | None \<Rightarrow> Inr a)))"

section \<open>Strokes\<close>

record stroke =
  st_keycode :: u32
  st_shift :: bool
  st_rune :: nat
  st_name :: string

fun strokes_of :: "artifact \<Rightarrow> (nat \<times> nat) list \<Rightarrow> goerr + stroke list" where
  "strokes_of a [] = Inr []"
| "strokes_of a ((off, r) # rs) =
     (case map_of (ka_runes a) (encode_rune r) of
        None \<Rightarrow> Inl (Typed (with_details [(''character'', encode_rune r), (''offset'', dec_nat off)]
                   (new_failure UsageError op_key
                      ''the %s keymap cannot type the character at byte %d'')))
      | Some e \<Rightarrow>
          (case strokes_of a rs of
             Inl err \<Rightarrow> Inl err
           | Inr sts \<Rightarrow> Inr (\<lparr>st_keycode = ks_keycode e, st_shift = ks_shift e, st_rune = r,
                               st_name = []\<rparr> # sts)))"

definition key_sequence :: "goerr + artifact \<Rightarrow> string \<Rightarrow> goerr + stroke list" where
  "key_sequence keymap txt =
     (case keymap of Inl e \<Rightarrow> Inl e | Inr a \<Rightarrow> strokes_of a (range_runes txt))"

definition key_named :: "goerr + artifact \<Rightarrow> string \<Rightarrow> goerr + stroke" where
  "key_named keymap name =
     (case keymap of
        Inl e \<Rightarrow> Inl e
      | Inr a \<Rightarrow>
          (case map_of (ka_named a) name of
             None \<Rightarrow> Inl (Typed (with_details [(''name'', name)]
                   (new_failure UsageError op_key ''the %s keymap has no key named %q'')))
           | Some e \<Rightarrow> Inr \<lparr>st_keycode = ks_keycode e, st_shift = ks_shift e, st_rune = 0,
                              st_name = name\<rparr>))"

section \<open>Facts\<close>

definition good_stroke :: "kstroke \<Rightarrow> bool" where
  "good_stroke e \<longleftrightarrow> 1 \<le> ks_keycode e \<and> ks_keycode e \<le> 255 \<and> ks_level e \<le> 1 \<and>
     ks_shift e = (ks_level e = 1)"

lemma validate_stroke_None: "validate_stroke e = None \<longleftrightarrow> good_stroke e"
proof -
  have "ks_keycode e < keycode_min \<longleftrightarrow> \<not> 1 \<le> ks_keycode e" by (simp add: keycode_min_def not_le)
  then show ?thesis
    by (auto simp only: validate_stroke_def good_stroke_def keycode_max_def not_le not_less split: if_splits)
qed

lemma check_table_fold:
  "fold (\<lambda>k err. case err of Some e \<Rightarrow> Some e | None \<Rightarrow> f k) ks err =
     (case err of Some e \<Rightarrow> Some e | None \<Rightarrow> fold (\<lambda>k err. case err of Some e \<Rightarrow> Some e | None \<Rightarrow> f k) ks None)"
  by (induction ks arbitrary: err) (auto split: option.splits)

lemma check_table_fold_None:
  "fold (\<lambda>k err. case err of Some e \<Rightarrow> Some e | None \<Rightarrow> f k) ks None = None \<longleftrightarrow> (\<forall>k \<in> set ks. f k = None)"
proof (induction ks)
  case (Cons k ks)
  then show ?case by (cases "f k") (simp_all add: check_table_fold [of f ks "Some x" for x])
qed simp

lemma check_table_None:
  "check_table t = None \<longleftrightarrow> (\<forall>k e. map_of t k = Some e \<longrightarrow> good_stroke e)"
proof -
  have each: "(case map_of t k of None \<Rightarrow> None | Some st \<Rightarrow> (case validate_stroke st of None \<Rightarrow> None
      | Some _ \<Rightarrow> Some (PlainErr ''input: embedded keyboard artifact %s[%q]: %w''))) = None \<longleftrightarrow>
      (\<forall>e. map_of t k = Some e \<longrightarrow> good_stroke e)" for k
    by (cases "map_of t k"; cases "validate_stroke (the (map_of t k))")
      (simp_all add: validate_stroke_None [symmetric])
  have "check_table t = None \<longleftrightarrow> (\<forall>k \<in> fst ` set t. \<forall>e. map_of t k = Some e \<longrightarrow> good_stroke e)"
    by (simp add: check_table_def check_table_fold_None each)
  then show ?thesis by (metis domI dom_map_of_conv_image_fst)
qed

lemma decode_artifact_Inr:
  "decode_artifact um d = Inr a \<longleftrightarrow>
     um d = Some a \<and> ka_schema a = keymap_schema \<and> ka_rules a = ''evdev'' \<and> ka_model a = ''pc105'' \<and>
     ka_layout a = ''us'' \<and> ka_variant a = [] \<and> ka_options a = [] \<and> ka_runes a \<noteq> [] \<and>
     ka_named a \<noteq> [] \<and> (\<forall>k e. map_of (ka_runes a) k = Some e \<longrightarrow> good_stroke e) \<and>
     (\<forall>k e. map_of (ka_named a) k = Some e \<longrightarrow> good_stroke e)"
  by (auto simp: decode_artifact_def check_table_None [symmetric] split: option.splits if_splits)

lemma strokes_of_Inr:
  "strokes_of a rs = Inr sts \<Longrightarrow>
     map st_rune sts = map snd rs \<and>
     (\<forall>st \<in> set sts. \<exists>e. map_of (ka_runes a) (encode_rune (st_rune st)) = Some e \<and>
        st_keycode st = ks_keycode e \<and> st_shift st = ks_shift e)"
  by (induction rs arbitrary: sts) (auto split: option.splits sum.splits)

definition cannot_type :: "nat \<times> nat \<Rightarrow> goerr" where
  "cannot_type x =
     Typed (with_details [(''character'', encode_rune (snd x)), (''offset'', dec_nat (fst x))]
       (new_failure UsageError op_key ''the %s keymap cannot type the character at byte %d''))"

abbreviation typable :: "artifact \<Rightarrow> nat \<times> nat \<Rightarrow> bool" where
  "typable a x \<equiv> map_of (ka_runes a) (encode_rune (snd x)) \<noteq> None"

lemma strokes_of_Inl:
  "strokes_of a rs = Inl err \<longleftrightarrow>
     (\<exists>n < length rs. (\<forall>m < n. typable a (rs ! m)) \<and> \<not> typable a (rs ! n) \<and> err = cannot_type (rs ! n))"
proof (induction rs)
  case (Cons x rs)
  show ?case
  proof (cases "typable a x")
    case False
    then have "strokes_of a (x # rs) = Inl (cannot_type x)"
      by (cases x) (simp add: cannot_type_def)
    moreover have "(\<forall>m < n. typable a ((x # rs) ! m)) \<longleftrightarrow> n = 0" for n
      using False by (cases n) (auto intro: exI [of _ 0])
    ultimately show ?thesis using False by auto
  next
    case True
    then have "strokes_of a (x # rs) = Inl err \<longleftrightarrow> strokes_of a rs = Inl err"
      by (cases x) (auto split: sum.splits)
    then show ?thesis unfolding Cons.IH
      using True by (simp add: Ex_less_Suc2 All_less_Suc2 conj_disj_distribL del: not_None_eq)
  qed
qed simp

section \<open>Properties\<close>

text \<open>
  An artifact the program uses describes the pinned keyboard, has runes and named
  keys, and every entry of both tables is a keycode in 1..255 (so it survives the wire's
  \<open>omitempty\<close>) on level 0 or 1 whose shift agrees with the level; and every such document
  is accepted.
\<close>

lemma artifact_valid:
  "decode_artifact um d = Inr a \<longleftrightarrow>
     um d = Some a \<and> ka_schema a = keymap_schema \<and>
     (ka_rules a, ka_model a, ka_layout a, ka_variant a, ka_options a) = (''evdev'', ''pc105'', ''us'', [], []) \<and>
     ka_runes a \<noteq> [] \<and> ka_named a \<noteq> [] \<and>
     (\<forall>k e. map_of (ka_runes a) k = Some e \<or> map_of (ka_named a) k = Some e \<longrightarrow>
        1 \<le> ks_keycode e \<and> ks_keycode e \<le> 255 \<and> ks_level e \<le> 1 \<and> ks_shift e = (ks_level e = 1))"
  unfolding decode_artifact_Inr good_stroke_def prod.inject by blast

definition demo_artifact :: artifact where
  "demo_artifact =
     \<lparr>ka_schema = keymap_schema, ka_rules = ''evdev'', ka_model = ''pc105'', ka_layout = ''us'',
      ka_variant = [], ka_options = [],
      ka_runes = [(''a'', \<lparr>ks_keycode = 30, ks_level = 0, ks_shift = False\<rparr>),
                  (''A'', \<lparr>ks_keycode = 30, ks_level = 1, ks_shift = True\<rparr>)],
      ka_named = [(''Shift_L'', \<lparr>ks_keycode = 42, ks_level = 0, ks_shift = False\<rparr>)]\<rparr>"

lemma demo_artifact_ok: "decode_artifact (\<lambda>_. Some demo_artifact) [] = Inr demo_artifact"
  by (simp add: decode_artifact_Inr demo_artifact_def good_stroke_def)

lemma artifact_valid_witness:
  "decode_artifact (\<lambda>_. Some demo_artifact) [] = Inr demo_artifact \<and> ka_layout demo_artifact = ''us'' \<and>
   1 \<le> ks_keycode (the (map_of (ka_runes demo_artifact) ''a''))"
proof -
  have "\<forall>k e. map_of (ka_runes demo_artifact) k = Some e \<longrightarrow> 1 \<le> ks_keycode e"
    using artifact_valid [of "\<lambda>_. Some demo_artifact" "[]" demo_artifact] demo_artifact_ok by blast
  moreover have "map_of (ka_runes demo_artifact) ''a'' = Some \<lparr>ks_keycode = 30, ks_level = 0, ks_shift = False\<rparr>"
    by (simp add: demo_artifact_def)
  ultimately have "1 \<le> ks_keycode (the (map_of (ka_runes demo_artifact) ''a''))"
    by simp
  then show ?thesis using demo_artifact_ok by (simp add: demo_artifact_def)
qed

text \<open>
  A text is resolved whole or not at all. On success there is one stroke per rune,
  in order, each the artifact's entry for that rune; otherwise the error is a usage
  error that names the first rune the layout cannot type and its byte offset.
\<close>

lemma sequence_complete:
  "(key_sequence (Inr a) txt = Inr sts \<longrightarrow> map st_rune sts = map snd (range_runes txt) \<and>
      (\<forall>st \<in> set sts. \<exists>e. map_of (ka_runes a) (encode_rune (st_rune st)) = Some e \<and>
         st_keycode st = ks_keycode e \<and> st_shift st = ks_shift e)) \<and>
   (key_sequence (Inr a) txt = Inl err \<longleftrightarrow>
      (\<exists>n < length (range_runes txt). (\<forall>m < n. typable a (range_runes txt ! m)) \<and>
         \<not> typable a (range_runes txt ! n) \<and> err = cannot_type (range_runes txt ! n)))"
  using strokes_of_Inr strokes_of_Inl by (simp add: key_sequence_def)

lemma sequence_complete_witness:
  "\<exists>sts. key_sequence (Inr demo_artifact) ''aA'' = Inr sts \<and> map st_rune sts = [97, 65]"
proof -
  have r: "range_runes ''aA'' = [(0, 97), (1, 65)]"
    by (simp add: range_runes_def runes_from.simps decode_rune_def byte_at_def Let_def)
  have e: "encode_rune 97 = ''a''" "encode_rune 65 = ''A''"
    by code_simp+
  obtain sts where "key_sequence (Inr demo_artifact) ''aA'' = Inr sts"
    by (simp add: key_sequence_def r e demo_artifact_def)
  then show ?thesis using sequence_complete [of demo_artifact "''aA''" sts] r by auto
qed

end
