(* ===== verification/Input_Service.thy ===== *)
theory Input_Service
  imports Input_Keymap
begin

text \<open>
  Window and input operations on a running session (\<open>internal/input/service.go\<close>). An
  operation runs over a channel: the world behind the caller together with the calls made
  so far, so what an operation sent is the difference of the two channels. The calls of
  a clean-up are made on \<open>ReleaseCtx\<close>, the independent context of the source; whether a
  call succeeds, with which reply, is the caller's. \<open>keymap\<close> is the decoded artifact or
  its error.
\<close>

section \<open>Requests\<close>

record target =
  tg_handle :: string
  tg_revision :: u64

record move_request =
  mv_target :: target
  mv_x :: f64
  mv_y :: f64

record resize_request =
  rz_target :: target
  rz_width :: u32
  rz_height :: u32
  rz_timeout_ms :: u32

record click_request =
  ck_target :: target
  ck_x :: f64
  ck_y :: f64
  ck_button :: u32

record pointer_request =
  pt_kind :: string
  pt_x :: f64
  pt_y :: f64
  pt_button :: u32
  pt_state :: string
  pt_axis :: u32
  pt_value :: f64

record key_request =
  kr_keycode :: u32
  kr_name :: string
  kr_state :: string

record click_result =
  cr_handle :: string
  cr_button :: u32
  cr_output_x :: f64
  cr_output_y :: f64
  cr_revision :: u64
  cr_state :: wstate

section \<open>Checks\<close>

definition finite_coordinate :: "string \<Rightarrow> string \<Rightarrow> f64 \<Rightarrow> goerr option" where
  "finite_coordinate op axis v =
     (if finite_f64 v then None
      else Some (Typed (with_details [(''axis'', axis)]
             (new_failure UsageError op ''%s is not a finite number''))))"

definition valid_key_state :: "string \<Rightarrow> string \<Rightarrow> goerr option" where
  "valid_key_state op st =
     (if st = state_pressed \<or> st = state_released then None
      else Some (Typed (with_details [(''state'', st)]
             (new_failure UsageError op ''state %q is not %q or %q''))))"

definition content_axis :: "toplevel \<Rightarrow> string \<Rightarrow> f64 \<Rightarrow> goerr option" where
  "content_axis win axis v =
     (let size = (if axis = ''y'' then tl_height win else tl_width win) in
      if (case v of Fin q \<Rightarrow> 0 \<le> q \<and> q < of_nat (unat size) | _ \<Rightarrow> False) then None
      else Some (Typed (with_details [(''axis'', axis)]
             (new_failure UsageError op_pointer
                ''the %s coordinate %s is outside the %dx%d window %q''))))"

text \<open>The sum of a window's position and a position inside it, rounded by \<open>rnd\<close>.\<close>

definition add_f64 :: "(rat \<Rightarrow> rat) \<Rightarrow> int \<Rightarrow> f64 \<Rightarrow> f64" where
  "add_f64 rnd base v = (case v of Fin q \<Rightarrow> Fin (rnd (of_int base + q)) | _ \<Rightarrow> v)"

definition content_point ::
  "(rat \<Rightarrow> rat) \<Rightarrow> toplevel \<Rightarrow> f64 \<Rightarrow> f64 \<Rightarrow> goerr + f64 \<times> f64" where
  "content_point rnd win x y =
     (case content_axis win ''x'' x of
        Some e \<Rightarrow> Inl e
      | None \<Rightarrow> (case content_axis win ''y'' y of
           Some e \<Rightarrow> Inl e
         | None \<Rightarrow> Inr (add_f64 rnd (tl_x win) x, add_f64 rnd (tl_y win) y)))"

definition key_identity :: "goerr + artifact \<Rightarrow> key_request \<Rightarrow> goerr + u32" where
  "key_identity keymap rq =
     (let has_keycode = (kr_keycode rq \<noteq> 0); has_name = (kr_name rq \<noteq> []) in
      if has_keycode \<and> has_name then
        Inl (usage op_key ''a key names either a keycode or a name, not both'')
      else if \<not> has_keycode \<and> \<not> has_name then
        Inl (usage op_key ''a key needs a keycode or a name'')
      else if kr_keycode rq > keycode_max then
        Inl (Typed (with_details [(''keycode'', dec_nat (unat (kr_keycode rq)))]
          (new_failure UsageError op_key ''keycode %d is outside the evdev range %d..%d'')))
      else if has_name then
        (case key_named keymap (kr_name rq) of Inl e \<Rightarrow> Inl e | Inr st \<Rightarrow> Inr (st_keycode st))
      else Inr (kr_keycode rq))"

definition key_transition :: "goerr + artifact \<Rightarrow> key_request \<Rightarrow> goerr + u32" where
  "key_transition keymap rq =
     (case key_identity keymap rq of
        Inl e \<Rightarrow> Inl e
      | Inr k \<Rightarrow> (case valid_key_state op_key (kr_state rq) of Some e \<Rightarrow> Inl e | None \<Rightarrow> Inr k))"

definition pointer_params :: "pointer_request \<Rightarrow> goerr + params" where
  "pointer_params rq =
     (let zero = (\<lambda>v. v = zero_f64) in
      if pt_kind rq = pointer_motion then
        (if pt_button rq \<noteq> 0 \<or> pt_state rq \<noteq> [] \<or> pt_axis rq \<noteq> 0 \<or> \<not> zero (pt_value rq) then
           Inl (usage op_pointer ''a motion pointer carries only a position'')
         else (case finite_coordinate op_pointer ''x'' (pt_x rq) of
             Some e \<Rightarrow> Inl e
           | None \<Rightarrow> (case finite_coordinate op_pointer ''y'' (pt_y rq) of
               Some e \<Rightarrow> Inl e
             | None \<Rightarrow> Inr (no_params\<lparr>p_kind := pointer_motion, p_x := pt_x rq, p_y := pt_y rq\<rparr>))))
      else if pt_kind rq = pointer_button then
        (if \<not> zero (pt_x rq) \<or> \<not> zero (pt_y rq) \<or> pt_axis rq \<noteq> 0 \<or> \<not> zero (pt_value rq) then
           Inl (usage op_pointer ''a button pointer carries only a button and a state'')
         else if pt_button rq = 0 then
           Inl (usage op_pointer ''a button pointer needs a button'')
         else (case valid_key_state op_pointer (pt_state rq) of
             Some e \<Rightarrow> Inl e
           | None \<Rightarrow> Inr (no_params\<lparr>p_kind := pointer_button, p_button := pt_button rq,
                       p_state := pt_state rq\<rparr>)))
      else if pt_kind rq = pointer_axis then
        (if \<not> zero (pt_x rq) \<or> \<not> zero (pt_y rq) \<or> pt_button rq \<noteq> 0 \<or> pt_state rq \<noteq> [] then
           Inl (usage op_pointer ''an axis pointer carries only an axis and a value'')
         else if pt_axis rq \<noteq> 0 \<and> pt_axis rq \<noteq> 1 then
           Inl (Typed (with_details [(''axis'', dec_nat (unat (pt_axis rq)))]
             (new_failure UsageError op_pointer
                ''scroll axis %d is neither vertical (0) nor horizontal (1)'')))
         else (case finite_coordinate op_pointer ''value'' (pt_value rq) of
             Some e \<Rightarrow> Inl e
           | None \<Rightarrow> Inr (no_params\<lparr>p_kind := pointer_axis, p_axis := pt_axis rq,
                       p_value := pt_value rq\<rparr>)))
      else Inl (usage op_pointer ''pointer kind %q is not %q, %q or %q''))"

section \<open>Window operations\<close>

definition snapshot :: "'w caller \<Rightarrow> 'w chan \<Rightarrow> (goerr + wstate) \<times> 'w chan" where
  "snapshot c ch =
     (case send c CallerCtx op_snapshot no_params ch of
        (Inl e, ch1) \<Rightarrow> (Inl e, ch1)
      | (Inr rp, ch1) \<Rightarrow>
          (case rp_state rp of
             None \<Rightarrow> (Inl (Typed (new_failure SessionNotReady op_snapshot
                       ''the controller answered a snapshot without state'')), ch1)
           | Some st \<Rightarrow> (Inr st, ch1)))"

definition find_toplevel :: "wstate \<Rightarrow> string \<Rightarrow> toplevel option" where
  "find_toplevel st h = List.find (\<lambda>win. tl_handle win = h) (ws_toplevels st)"

definition resolve ::
  "'w caller \<Rightarrow> string \<Rightarrow> target \<Rightarrow> 'w chan \<Rightarrow> (goerr + toplevel \<times> wstate) \<times> 'w chan" where
  "resolve c op tg ch =
     (if tg_handle tg = [] then (Inl (usage op ''a window handle is required''), ch)
      else
        (case snapshot c ch of
           (Inl e, ch1) \<Rightarrow> (Inl e, ch1)
         | (Inr st, ch1) \<Rightarrow>
             (case find_toplevel st (tg_handle tg) of
                None \<Rightarrow> (Inl (Typed (with_details [(''handle'', tg_handle tg)]
                          (new_failure WindowNotFound op ''no window %q at revision %d''))), ch1)
              | Some win \<Rightarrow>
                  if tg_revision tg \<noteq> 0 \<and> tg_revision tg \<noteq> ws_revision st then
                    (Inl (Typed (with_details
                       [(''requested'', dec_nat (unat (tg_revision tg))),
                        (''current'', dec_nat (unat (ws_revision st)))]
                       (new_failure StaleRevision op ''window %q is at revision %d, not %d''))), ch1)
                  else (Inr (win, st), ch1))))"

definition mutate ::
  "'w caller \<Rightarrow> string \<Rightarrow> params \<Rightarrow> 'w chan \<Rightarrow> (goerr + wstate) \<times> 'w chan" where
  "mutate c op ps ch =
     (case send c CallerCtx op ps ch of
        (Inl e, ch1) \<Rightarrow> (Inl e, ch1)
      | (Inr rp, ch1) \<Rightarrow>
          (case rp_state rp of
             None \<Rightarrow> (Inl (Typed (new_failure SessionNotReady op
                       ''the controller answered %s without state'')), ch1)
           | Some st \<Rightarrow> (Inr st, ch1)))"

definition windows :: "'w caller \<Rightarrow> 'w chan \<Rightarrow> (goerr + wstate) \<times> 'w chan" where
  "windows c ch = snapshot c ch"

definition activate :: "'w caller \<Rightarrow> target \<Rightarrow> 'w chan \<Rightarrow> (goerr + wstate) \<times> 'w chan" where
  "activate c tg ch =
     (case resolve c op_activate tg ch of
        (Inl e, ch1) \<Rightarrow> (Inl e, ch1)
      | (Inr (win, st), ch1) \<Rightarrow>
          mutate c op_activate
            (no_params\<lparr>p_handle := tl_handle win, p_revision := ws_revision st\<rparr>) ch1)"

definition move_window :: "'w caller \<Rightarrow> move_request \<Rightarrow> 'w chan \<Rightarrow> (goerr + wstate) \<times> 'w chan" where
  "move_window c rq ch =
     (case resolve c op_move (mv_target rq) ch of
        (Inl e, ch1) \<Rightarrow> (Inl e, ch1)
      | (Inr (win, st), ch1) \<Rightarrow>
          (case finite_coordinate op_move ''x'' (mv_x rq) of
             Some e \<Rightarrow> (Inl e, ch1)
           | None \<Rightarrow> (case finite_coordinate op_move ''y'' (mv_y rq) of
               Some e \<Rightarrow> (Inl e, ch1)
             | None \<Rightarrow>
                 mutate c op_move (no_params\<lparr>p_handle := tl_handle win, p_revision := ws_revision st,
                   p_x := mv_x rq, p_y := mv_y rq\<rparr>) ch1)))"

definition resize_window ::
  "'w caller \<Rightarrow> resize_request \<Rightarrow> 'w chan \<Rightarrow> (goerr + resize_result) \<times> 'w chan" where
  "resize_window c rq ch =
     (if rz_width rq = 0 \<or> rz_height rq = 0 then
        (Inl (Typed (with_details
           [(''width'', dec_nat (unat (rz_width rq))), (''height'', dec_nat (unat (rz_height rq)))]
           (new_failure UsageError op_resize ''a resize needs a nonzero width and height''))), ch)
      else
        (case resolve c op_resize (rz_target rq) ch of
           (Inl e, ch1) \<Rightarrow> (Inl e, ch1)
         | (Inr (win, st), ch1) \<Rightarrow>
             (case send c CallerCtx op_resize
                     (no_params\<lparr>p_handle := tl_handle win, p_revision := ws_revision st,
                       p_width := rz_width rq, p_height := rz_height rq,
                       p_timeout_ms := rz_timeout_ms rq\<rparr>) ch1 of
                (Inl e, ch2) \<Rightarrow> (Inl e, ch2)
              | (Inr rp, ch2) \<Rightarrow>
                  (case rp_resize rp of
                     None \<Rightarrow> (Inl (Typed (new_failure SessionNotReady op_resize
                               ''the controller answered resize without a result'')), ch2)
                   | Some rr \<Rightarrow> (Inr rr, ch2)))))"

definition close_window :: "'w caller \<Rightarrow> target \<Rightarrow> 'w chan \<Rightarrow> (goerr + wstate) \<times> 'w chan" where
  "close_window c tg ch =
     (case resolve c op_close_window tg ch of
        (Inl e, ch1) \<Rightarrow> (Inl e, ch1)
      | (Inr (win, st), ch1) \<Rightarrow>
          mutate c op_close_window
            (no_params\<lparr>p_handle := tl_handle win, p_revision := ws_revision st\<rparr>) ch1)"

section \<open>Pointer and keys\<close>

definition call_error :: "(goerr + 'a) \<times> 'w chan \<Rightarrow> goerr option \<times> 'w chan" where
  "call_error x = ((case fst x of Inl e \<Rightarrow> Some e | Inr _ \<Rightarrow> None), snd x)"

definition button_params :: "u32 \<Rightarrow> string \<Rightarrow> params" where
  "button_params b st = no_params\<lparr>p_kind := pointer_button, p_button := b, p_state := st\<rparr>"

definition key_params :: "u32 \<Rightarrow> string \<Rightarrow> params" where
  "key_params k st = no_params\<lparr>p_key := k, p_state := st\<rparr>"

definition release_button :: "'w caller \<Rightarrow> u32 \<Rightarrow> 'w chan \<Rightarrow> goerr option \<times> 'w chan" where
  "release_button c b ch =
     call_error (send c ReleaseCtx op_pointer (button_params b state_released) ch)"

definition release_key :: "'w caller \<Rightarrow> u32 \<Rightarrow> 'w chan \<Rightarrow> goerr option \<times> 'w chan" where
  "release_key c k ch = call_error (send c ReleaseCtx op_key (key_params k state_released) ch)"

definition send_key :: "'w caller \<Rightarrow> u32 \<Rightarrow> string \<Rightarrow> 'w chan \<Rightarrow> goerr option \<times> 'w chan" where
  "send_key c k st ch = call_error (send c CallerCtx op_key (key_params k st) ch)"

definition click ::
  "(rat \<Rightarrow> rat) \<Rightarrow> 'w caller \<Rightarrow> click_request \<Rightarrow> 'w chan \<Rightarrow> (goerr + click_result) \<times> 'w chan" where
  "click rnd c rq ch =
     (case resolve c op_pointer (ck_target rq) ch of
        (Inl e, ch1) \<Rightarrow> (Inl e, ch1)
      | (Inr (win, st), ch1) \<Rightarrow>
          let button = (if ck_button rq = 0 then 1 else ck_button rq) in
          (case content_point rnd win (ck_x rq) (ck_y rq) of
             Inl e \<Rightarrow> (Inl e, ch1)
           | Inr (ox, oy) \<Rightarrow>
               (case send c CallerCtx op_pointer
                       (no_params\<lparr>p_kind := pointer_motion, p_x := ox, p_y := oy\<rparr>) ch1 of
                  (Inl e, ch2) \<Rightarrow> (Inl e, ch2)
                | (Inr _, ch2) \<Rightarrow>
                    let (press_err, ch3) =
                          call_error (send c CallerCtx op_pointer (button_params button state_pressed) ch2);
                        (release_err, ch4) = release_button c button ch3
                    in (case press_err of
                          Some e \<Rightarrow> (Inl e, ch4)
                        | None \<Rightarrow> (case release_err of
                            Some e \<Rightarrow> (Inl e, ch4)
                          | None \<Rightarrow>
                              (Inr \<lparr>cr_handle = tl_handle win, cr_button = button, cr_output_x = ox,
                                    cr_output_y = oy, cr_revision = ws_revision st, cr_state = st\<rparr>,
                               ch4))))))"

definition pointer_op :: "'w caller \<Rightarrow> pointer_request \<Rightarrow> 'w chan \<Rightarrow> goerr option \<times> 'w chan" where
  "pointer_op c rq ch =
     (case pointer_params rq of
        Inl e \<Rightarrow> (Some e, ch)
      | Inr ps \<Rightarrow> call_error (send c CallerCtx op_pointer ps ch))"

definition scroll :: "'w caller \<Rightarrow> u32 \<Rightarrow> f64 \<Rightarrow> 'w chan \<Rightarrow> goerr option \<times> 'w chan" where
  "scroll c axis v ch =
     (if axis \<noteq> 0 \<and> axis \<noteq> 1 then
        (Some (Typed (with_details [(''axis'', dec_nat (unat axis))]
           (new_failure UsageError op_pointer
              ''scroll axis %d is neither vertical (0) nor horizontal (1)''))), ch)
      else (case finite_coordinate op_pointer ''value'' v of
          Some e \<Rightarrow> (Some e, ch)
        | None \<Rightarrow> call_error (send c CallerCtx op_pointer
              (no_params\<lparr>p_kind := pointer_axis, p_axis := axis, p_value := v\<rparr>) ch)))"

definition press_key ::
  "goerr + artifact \<Rightarrow> 'w caller \<Rightarrow> key_request \<Rightarrow> 'w chan \<Rightarrow> goerr option \<times> 'w chan" where
  "press_key keymap c rq ch =
     (case key_transition keymap rq of
        Inl e \<Rightarrow> (Some e, ch)
      | Inr k \<Rightarrow> call_error (send c CallerCtx op_key (key_params k (kr_state rq)) ch))"

definition tap_key ::
  "goerr + artifact \<Rightarrow> 'w caller \<Rightarrow> key_request \<Rightarrow> 'w chan \<Rightarrow> goerr option \<times> 'w chan" where
  "tap_key keymap c rq ch =
     (case key_identity keymap rq of
        Inl e \<Rightarrow> (Some e, ch)
      | Inr k \<Rightarrow>
          let (press_err, ch1) = send_key c k state_pressed ch;
              (release_err, ch2) = release_key c k ch1
          in ((case press_err of Some e \<Rightarrow> Some e | None \<Rightarrow> release_err), ch2))"

section \<open>Typing\<close>

fun release_list :: "'w caller \<Rightarrow> u32 list \<Rightarrow> 'w chan \<Rightarrow> 'w chan" where
  "release_list c [] ch = ch"
| "release_list c (k # ks) ch =
     release_list c ks (snd (send c ReleaseCtx op_key (key_params k state_released) ch))"

definition shift_name :: string where
  "shift_name = ''Shift_L''"

definition release_keys ::
  "goerr + artifact \<Rightarrow> 'w caller \<Rightarrow> bool \<Rightarrow> u32 list \<Rightarrow> 'w chan \<Rightarrow> 'w chan" where
  "release_keys keymap c shift_down pressed ch =
     (let ch1 = (if shift_down
                 then (case key_named keymap shift_name of
                         Inl _ \<Rightarrow> ch
                       | Inr sh \<Rightarrow> snd (send c ReleaseCtx op_key
                                   (key_params (st_keycode sh) state_released) ch))
                 else ch)
      in release_list c (rev pressed) ch1)"

text \<open>
  The loop over the strokes: \<open>shift_down\<close> and \<open>pressed\<close> are the source's variables. A
  press is recorded before it is sent.
\<close>

fun type_loop ::
  "goerr + artifact \<Rightarrow> 'w caller \<Rightarrow> u32 \<Rightarrow> stroke list \<Rightarrow> bool \<Rightarrow> u32 list \<Rightarrow> 'w chan \<Rightarrow>
    goerr option \<times> 'w chan" where
  "type_loop keymap c sh [] shift_down pressed ch = (None, ch)"
| "type_loop keymap c sh (st # sts) shift_down pressed ch =
     (let (e1, down, ch1) =
            (if st_shift st \<and> \<not> shift_down
             then let (e, ch') = send_key c sh state_pressed ch in (e, True, ch')
             else (None, shift_down, ch))
      in case e1 of
           Some e \<Rightarrow> (Some e, release_keys keymap c down pressed ch1)
         | None \<Rightarrow>
             (case send_key c (st_keycode st) state_pressed ch1 of
                (Some e, ch2) \<Rightarrow> (Some e, release_keys keymap c down (pressed @ [st_keycode st]) ch2)
              | (None, ch2) \<Rightarrow>
                  (case send_key c (st_keycode st) state_released ch2 of
                     (Some e, ch3) \<Rightarrow> (Some e, release_keys keymap c down (pressed @ [st_keycode st]) ch3)
                   | (None, ch3) \<Rightarrow>
                       if st_shift st \<and> down then
                         (case send_key c sh state_released ch3 of
                            (Some e, ch4) \<Rightarrow> (Some e, release_keys keymap c down pressed ch4)
                          | (None, ch4) \<Rightarrow> type_loop keymap c sh sts False pressed ch4)
                       else type_loop keymap c sh sts down pressed ch3)))"

definition type_text ::
  "goerr + artifact \<Rightarrow> 'w caller \<Rightarrow> string \<Rightarrow> 'w chan \<Rightarrow> (goerr + string \<times> nat) \<times> 'w chan" where
  "type_text keymap c txt ch =
     (if txt = [] then (Inl (usage op_key ''text to type is empty''), ch)
      else
        (case key_sequence keymap txt of
           Inl e \<Rightarrow> (Inl e, ch)
         | Inr strokes \<Rightarrow>
             (case key_named keymap shift_name of
                Inl e \<Rightarrow> (Inl e, ch)
              | Inr sh \<Rightarrow>
                  (case type_loop keymap c (st_keycode sh) strokes False [] ch of
                     (Some e, ch1) \<Rightarrow> (Inl e, ch1)
                   | (None, ch1) \<Rightarrow> (Inr (txt, length strokes), ch1)))))"

section \<open>What the calls of an operation leave held\<close>

text \<open>
  The keys and the buttons a run of calls leaves down, whether or not each call was
  answered: a press counts from the moment it was sent, a release from the moment it was
  attempted.
\<close>

definition hold_key :: "u32 set \<Rightarrow> call \<Rightarrow> u32 set" where
  "hold_key H x =
     (let (cx, op, ps) = x in
      if op \<noteq> op_key then H
      else if p_state ps = state_pressed then insert (p_key ps) H
      else if p_state ps = state_released then H - {p_key ps} else H)"

definition hold_button :: "u32 set \<Rightarrow> call \<Rightarrow> u32 set" where
  "hold_button H x =
     (let (cx, op, ps) = x in
      if op \<noteq> op_pointer \<or> p_kind ps \<noteq> pointer_button then H
      else if p_state ps = state_pressed then insert (p_button ps) H
      else if p_state ps = state_released then H - {p_button ps} else H)"

definition sent :: "call list \<Rightarrow> 'w chan \<Rightarrow> 'w chan \<Rightarrow> bool" where
  "sent tr ch ch' \<longleftrightarrow> ch_sent ch' = ch_sent ch @ tr"

lemma sent_refl [simp]: "sent [] ch ch"
  by (simp add: sent_def)

lemma sent_trans: "sent a ch1 ch2 \<Longrightarrow> sent b ch2 ch3 \<Longrightarrow> sent (a @ b) ch1 ch3"
  by (simp add: sent_def)

lemma sent_send: "send c cx op ps ch = (r, ch') \<Longrightarrow> sent [(cx, op, ps)] ch ch'"
  by (simp add: sent_def send_sent)

lemma sent_call_error: "call_error (send c cx op ps ch) = (e, ch') \<Longrightarrow> sent [(cx, op, ps)] ch ch'"
  by (cases "send c cx op ps ch") (auto simp: call_error_def sent_send)

lemma sent_key: "send_key c k st ch = (e, ch') \<Longrightarrow> sent [(CallerCtx, op_key, key_params k st)] ch ch'"
  by (simp add: send_key_def sent_call_error)

definition press_call :: "ctx \<Rightarrow> u32 \<Rightarrow> call" where
  "press_call cx k = (cx, op_key, key_params k state_pressed)"

definition release_call :: "ctx \<Rightarrow> u32 \<Rightarrow> call" where
  "release_call cx k = (cx, op_key, key_params k state_released)"

lemma hold_key_simps [simp]:
  "hold_key H (press_call cx k) = insert k H" "hold_key H (release_call cx k) = H - {k}"
  by (simp_all add: hold_key_def press_call_def release_call_def key_params_def state_pressed_def
      state_released_def)

text \<open>The calls that type one stroke.\<close>

definition stroke_calls :: "u32 \<Rightarrow> stroke \<Rightarrow> call list" where
  "stroke_calls sh st =
     (if st_shift st then [press_call CallerCtx sh] else []) @
     [press_call CallerCtx (st_keycode st), release_call CallerCtx (st_keycode st)] @
     (if st_shift st then [release_call CallerCtx sh] else [])"

lemma sent_release_list: "sent (map (release_call ReleaseCtx) ks) ch (release_list c ks ch)"
proof (induction ks arbitrary: ch)
  case (Cons k ks)
  obtain r ch1 where s: "send c ReleaseCtx op_key (key_params k state_released) ch = (r, ch1)"
    by (cases "send c ReleaseCtx op_key (key_params k state_released) ch")
  show ?case using sent_trans [OF sent_send [OF s] Cons.IH] s by (simp add: release_call_def)
qed simp

lemma sent_release_keys:
  assumes "key_named km shift_name = Inr sh"
  shows "sent ((if d then [release_call ReleaseCtx (st_keycode sh)] else []) @
     map (release_call ReleaseCtx) (rev ks)) ch (release_keys km c d ks ch)"
proof (cases d)
  case True
  obtain r ch1 where s: "send c ReleaseCtx op_key (key_params (st_keycode sh) state_released) ch = (r, ch1)"
    by (cases "send c ReleaseCtx op_key (key_params (st_keycode sh) state_released) ch")
  then show ?thesis
    using sent_trans [OF sent_send [OF s] sent_release_list] True assms
    by (simp add: release_keys_def Let_def release_call_def)
qed (simp add: release_keys_def Let_def sent_release_list)

definition is_cleanup :: "call \<Rightarrow> bool" where
  "is_cleanup x \<longleftrightarrow> (\<exists>k. x = release_call ReleaseCtx k)"

definition aborted :: "call list \<Rightarrow> call list \<Rightarrow> bool" where
  "aborted full tr \<longleftrightarrow>
     (\<exists>pre post rel. full = pre @ post \<and> tr = pre @ rel \<and> (\<forall>x \<in> set rel. is_cleanup x))"

lemma aborted_intro: "full = pre @ post \<Longrightarrow> \<forall>x \<in> set rel. is_cleanup x \<Longrightarrow> aborted full (pre @ rel)"
  by (auto simp: aborted_def)

lemma aborted_append: "aborted full tr \<Longrightarrow> aborted (b @ full) (b @ tr)"
  unfolding aborted_def by (metis append.assoc)

lemma cleanup_release [simp]: "is_cleanup (release_call ReleaseCtx k)"
  by (auto simp: is_cleanup_def)

lemma stroke_held [simp]: "foldl hold_key {} (stroke_calls sh st) = {}"
  by (auto simp: stroke_calls_def)

definition typed_ok :: "u32 \<Rightarrow> stroke list \<Rightarrow> goerr option \<Rightarrow> call list \<Rightarrow> bool" where
  "typed_ok sh sts e tr \<longleftrightarrow> foldl hold_key {} tr = {} \<and>
     (e = None \<longrightarrow> tr = concat (map (stroke_calls sh) sts)) \<and>
     aborted (concat (map (stroke_calls sh) sts)) tr"

lemma typed_ok_append:
  "typed_ok sh sts e tr \<Longrightarrow> typed_ok sh (st # sts) e (stroke_calls sh st @ tr)"
  by (simp add: typed_ok_def aborted_append)

lemma type_loop_trace:
  assumes "key_named km shift_name = Inr shs" and "type_loop km c (st_keycode shs) sts False [] ch = (e, ch')"
  shows "\<exists>tr. sent tr ch ch' \<and> typed_ok (st_keycode shs) sts e tr"
  using assms(2)
proof (induction sts arbitrary: ch)
  case Nil
  then show ?case by (auto simp: typed_ok_def aborted_def intro!: exI [of _ "[]"])
next
  case (Cons st sts)
  let ?sh = "st_keycode shs" and ?k = "st_keycode st" and ?s = "st_shift st"
  let ?rest = "concat (map (stroke_calls ?sh) sts)"
  let ?a = "if ?s then [press_call CallerCtx ?sh] else []"
  let ?z = "if ?s then [release_call CallerCtx ?sh] else []"
  let ?p = "press_call CallerCtx ?k" and ?r = "release_call CallerCtx ?k"
  let ?down = "if ?s then [release_call ReleaseCtx ?sh] else []"
  have full: "concat (map (stroke_calls ?sh) (st # sts)) = ?a @ [?p, ?r] @ ?z @ ?rest"
    by (simp add: stroke_calls_def)
  obtain e1 ch1 where s1: "(if ?s then send_key c ?sh state_pressed ch else (None, ch)) = (e1, ch1)"
    by (metis prod.collapse)
  have t1: "sent ?a ch ch1" using s1 sent_key by (auto simp: press_call_def split: if_splits)
  note rk = sent_release_keys [OF assms(1)]
  have down: "(if ?s \<and> \<not> False then let (e, ch') = send_key c ?sh state_pressed ch in (e, True, ch')
      else (None, False, ch)) = (e1, ?s, ch1)"
    using s1 by (auto split: prod.splits if_splits)
  show ?case
  proof (cases e1)
    case (Some x)
    then have "?s" using s1 by (auto split: if_splits)
    have "ch' = release_keys km c ?s [] ch1" "e = Some x" using Cons.prems Some down by auto
    then have "sent (?a @ ?down) ch ch'" using sent_trans [OF t1 rk [of ?s "[]"]] by simp
    moreover have "typed_ok ?sh (st # sts) (Some x) (?a @ ?down)"
      unfolding typed_ok_def full by (intro conjI aborted_intro [OF refl]) (use \<open>?s\<close> in auto)
    ultimately show ?thesis using \<open>e = Some x\<close> by blast
  next
    case N1: None
    obtain e2 ch2 where s2: "send_key c ?k state_pressed ch1 = (e2, ch2)" by (cases "send_key c ?k state_pressed ch1")
    have t2: "sent (?a @ [?p]) ch ch2" using sent_trans [OF t1 sent_key [OF s2]] by (simp add: press_call_def)
    show ?thesis
    proof (cases e2)
      case (Some x)
      have "ch' = release_keys km c ?s [?k] ch2" "e = Some x" using Cons.prems N1 down s2 Some by auto
      then have "sent ((?a @ [?p]) @ (?down @ [release_call ReleaseCtx ?k])) ch ch'"
        using sent_trans [OF t2 rk [of ?s "[?k]"]] by simp
      moreover have "typed_ok ?sh (st # sts) (Some x) ((?a @ [?p]) @ (?down @ [release_call ReleaseCtx ?k]))"
        unfolding typed_ok_def full
        by (intro conjI aborted_intro [where post = "[?r] @ ?z @ ?rest"]) auto
      ultimately show ?thesis using \<open>e = Some x\<close> by blast
    next
      case N2: None
      obtain e3 ch3 where s3: "send_key c ?k state_released ch2 = (e3, ch3)" by (cases "send_key c ?k state_released ch2")
      have t3: "sent (?a @ [?p, ?r]) ch ch3"
        using sent_trans [OF t2 sent_key [OF s3]] by (simp add: release_call_def)
      show ?thesis
      proof (cases e3)
        case (Some x)
        have "ch' = release_keys km c ?s [?k] ch3" "e = Some x" using Cons.prems N1 N2 down s2 s3 Some by auto
        then have "sent ((?a @ [?p, ?r]) @ (?down @ [release_call ReleaseCtx ?k])) ch ch'"
          using sent_trans [OF t3 rk [of ?s "[?k]"]] by simp
        moreover have "typed_ok ?sh (st # sts) (Some x) ((?a @ [?p, ?r]) @ (?down @ [release_call ReleaseCtx ?k]))"
          unfolding typed_ok_def full
          by (intro conjI aborted_intro [where post = "?z @ ?rest"]) auto
        ultimately show ?thesis using \<open>e = Some x\<close> by blast
      next
        case N3: None
        obtain e4 ch4 where s4: "(if ?s then send_key c ?sh state_released ch3 else (None, ch3)) = (e4, ch4)"
          by (metis prod.collapse)
        have "sent ?z ch3 ch4" using s4 sent_key by (auto simp: release_call_def split: if_splits)
        then have t4: "sent (stroke_calls ?sh st) ch ch4"
          using sent_trans [OF t3] by (simp add: stroke_calls_def)
        show ?thesis
        proof (cases e4)
          case (Some x)
          then have "?s" using s4 by (auto split: if_splits)
          then have "ch' = release_keys km c ?s [] ch4" "e = Some x"
            using Cons.prems N1 N2 N3 down s2 s3 s4 Some by auto
          then have "sent (stroke_calls ?sh st @ ?down) ch ch'"
            using sent_trans [OF t4 rk [of ?s "[]"]] by simp
          moreover have "typed_ok ?sh (st # sts) (Some x) (stroke_calls ?sh st @ ?down)"
            unfolding typed_ok_def
            by (intro conjI aborted_intro [where post = ?rest]) auto
          ultimately show ?thesis using \<open>e = Some x\<close> by blast
        next
          case None
          then have "type_loop km c ?sh sts False [] ch4 = (e, ch')"
            using Cons.prems N1 N2 N3 down s2 s3 s4 by (auto split: if_splits)
          from Cons.IH [OF this] obtain tr where "sent tr ch4 ch'" "typed_ok ?sh sts e tr" by blast
          then show ?thesis using sent_trans [OF t4] typed_ok_append by blast
        qed
      qed
    qed
  qed
qed

section \<open>Windows\<close>

definition snap_call :: call where
  "snap_call = (CallerCtx, op_snapshot, no_params)"

lemma snapshot_sent: "snapshot c ch = (r, ch') \<Longrightarrow> sent [snap_call] ch ch'"
  by (auto simp: snapshot_def snap_call_def sent_send split: prod.splits sum.splits option.splits)

text \<open>
  What an operation on the window of \<open>tg\<close> may send: nothing, the snapshot alone, or the
  snapshot and then one request \<open>op\<close> that carries the handle of a window of that snapshot
  and the snapshot's revision, which is the one the caller named if it named one.
\<close>

definition fresh_request :: "string \<Rightarrow> target \<Rightarrow> wstate \<Rightarrow> params \<Rightarrow> bool" where
  "fresh_request op tg st ps \<longleftrightarrow>
     p_handle ps = tg_handle tg \<and> tg_handle tg \<in> tl_handle ` set (ws_toplevels st) \<and>
     p_revision ps = ws_revision st \<and> (tg_revision tg \<noteq> 0 \<longrightarrow> tg_revision tg = ws_revision st)"

definition window_trace :: "'w caller \<Rightarrow> string \<Rightarrow> target \<Rightarrow> 'w chan \<Rightarrow> call list \<Rightarrow> bool" where
  "window_trace c op tg ch tr \<longleftrightarrow>
     tr = [] \<or> tr = [snap_call] \<or>
     (\<exists>st ch1 ps. snapshot c ch = (Inr st, ch1) \<and> tr = [snap_call, (CallerCtx, op, ps)] \<and>
        fresh_request op tg st ps)"

lemma resolve_cases:
  assumes "resolve c op tg ch = (r, ch')"
  obtains (idle) e where "r = Inl e" "ch' = ch"
  | (refused) e where "r = Inl e" "sent [snap_call] ch ch'"
  | (found) win st where "r = Inr (win, st)" "sent [snap_call] ch ch'" "snapshot c ch = (Inr st, ch')"
      "tl_handle win = tg_handle tg" "win \<in> set (ws_toplevels st)"
      "tg_revision tg \<noteq> 0 \<longrightarrow> tg_revision tg = ws_revision st"
proof (cases "tg_handle tg = []")
  case True
  then have "\<exists>e. r = Inl e \<and> ch' = ch" using assms by (auto simp: resolve_def)
  then show thesis using idle by blast
next
  case False
  obtain s ch1 where s: "snapshot c ch = (s, ch1)" by (cases "snapshot c ch")
  note t = snapshot_sent [OF s]
  show thesis
  proof (cases s)
    case (Inl e)
    then have "\<exists>e. r = Inl e \<and> ch' = ch1" using assms False s by (auto simp: resolve_def)
    then show thesis using refused t by blast
  next
    case (Inr st)
    show thesis
    proof (cases "find_toplevel st (tg_handle tg)")
      case None
      then have "\<exists>e. r = Inl e \<and> ch' = ch1" using assms False s Inr by (auto simp: resolve_def)
      then show thesis using refused t by blast
    next
      case (Some win)
      then have win: "tl_handle win = tg_handle tg" "win \<in> set (ws_toplevels st)"
        by (auto simp: find_toplevel_def find_Some_iff)
      show thesis
      proof (cases "tg_revision tg \<noteq> 0 \<and> tg_revision tg \<noteq> ws_revision st")
        case True
        then have "\<exists>e. r = Inl e \<and> ch' = ch1" using assms False s Inr Some by (auto simp: resolve_def)
        then show thesis using refused t by blast
      next
        case fresh: False
        then have "r = Inr (win, st)" "ch' = ch1"
          using assms False s Inr Some by (auto simp: resolve_def split: if_splits)
        then show thesis using found s t Inr win fresh by blast
      qed
    qed
  qed
qed

lemma window_traceI:
  assumes "resolve c op tg ch = (r, ch1)"
    and "\<And>e. r = Inl e \<Longrightarrow> ch' = ch1"
    and "\<And>win st. r = Inr (win, st) \<Longrightarrow>
      (\<exists>ps. sent [(CallerCtx, op, ps)] ch1 ch' \<and> p_handle ps = tl_handle win \<and>
         p_revision ps = ws_revision st) \<or> ch' = ch1"
  shows "\<exists>tr. sent tr ch ch' \<and> window_trace c op tg ch tr"
  using assms(1)
proof (cases rule: resolve_cases)
  case (idle e)
  then show ?thesis using assms(2) by (auto simp: window_trace_def intro: exI [of _ "[]"])
next
  case (refused e)
  then show ?thesis using assms(2) by (auto simp: window_trace_def)
next
  case (found win st)
  from assms(3) [OF found(1)] show ?thesis
  proof (elim disjE exE conjE)
    fix ps
    assume "sent [(CallerCtx, op, ps)] ch1 ch'" "p_handle ps = tl_handle win" "p_revision ps = ws_revision st"
    moreover have "tg_handle tg \<in> tl_handle ` set (ws_toplevels st)"
      using found(4,5) by (metis imageI)
    ultimately have "sent ([snap_call] @ [(CallerCtx, op, ps)]) ch ch'" and "fresh_request op tg st ps"
      using found(4,6) sent_trans [OF found(2)] by (auto simp: fresh_request_def)
    then show ?thesis using found(3)
      by (intro exI [of _ "[snap_call, (CallerCtx, op, ps)]"]) (auto simp: window_trace_def)
  qed (use found in \<open>auto simp: window_trace_def\<close>)
qed

lemma mutate_sent: "mutate c op ps ch = (r, ch') \<Longrightarrow> sent [(CallerCtx, op, ps)] ch ch'"
  by (auto simp: mutate_def sent_send split: prod.splits sum.splits option.splits)

lemma window_mutate:
  assumes "resolve c op tg ch = (x, ch1)"
    and "\<And>e. x = Inl e \<Longrightarrow> ch' = ch1"
    and "\<And>win st. x = Inr (win, st) \<Longrightarrow> ch' = ch1 \<or>
      (\<exists>ps r. mutate c op ps ch1 = (r, ch') \<and> p_handle ps = tl_handle win \<and> p_revision ps = ws_revision st)"
  shows "\<exists>tr. sent tr ch ch' \<and> window_trace c op tg ch tr"
  by (rule window_traceI [OF assms(1,2)]) (use assms(3) mutate_sent in blast)+

lemma activate_trace:
  assumes "activate c tg ch = (r, ch')"
  shows "\<exists>tr. sent tr ch ch' \<and> window_trace c op_activate tg ch tr"
proof -
  obtain x ch1 where rs: "resolve c op_activate tg ch = (x, ch1)" by (cases "resolve c op_activate tg ch")
  show ?thesis
  proof (rule window_mutate [OF rs])
    show "ch' = ch1 \<or> (\<exists>ps r. mutate c op_activate ps ch1 = (r, ch') \<and> p_handle ps = tl_handle win \<and>
        p_revision ps = ws_revision st)" if "x = Inr (win, st)" for win st
      using assms rs that
      by (intro disjI2 exI [of _ "no_params\<lparr>p_handle := tl_handle win, p_revision := ws_revision st\<rparr>"])
        (simp add: activate_def)
  qed (use assms rs in \<open>simp add: activate_def\<close>)
qed

lemma close_window_trace:
  assumes "close_window c tg ch = (r, ch')"
  shows "\<exists>tr. sent tr ch ch' \<and> window_trace c op_close_window tg ch tr"
proof -
  obtain x ch1 where rs: "resolve c op_close_window tg ch = (x, ch1)" by (cases "resolve c op_close_window tg ch")
  show ?thesis
  proof (rule window_mutate [OF rs])
    show "ch' = ch1 \<or> (\<exists>ps r. mutate c op_close_window ps ch1 = (r, ch') \<and> p_handle ps = tl_handle win \<and>
        p_revision ps = ws_revision st)" if "x = Inr (win, st)" for win st
      using assms rs that
      by (intro disjI2 exI [of _ "no_params\<lparr>p_handle := tl_handle win, p_revision := ws_revision st\<rparr>"])
        (simp add: close_window_def)
  qed (use assms rs in \<open>simp add: close_window_def\<close>)
qed

lemma move_window_trace:
  assumes "move_window c rq ch = (r, ch')"
  shows "\<exists>tr. sent tr ch ch' \<and> window_trace c op_move (mv_target rq) ch tr"
proof -
  obtain x ch1 where rs: "resolve c op_move (mv_target rq) ch = (x, ch1)"
    by (cases "resolve c op_move (mv_target rq) ch")
  show ?thesis
  proof (rule window_mutate [OF rs])
    fix win st
    assume x: "x = Inr (win, st)"
    let ?ps = "no_params\<lparr>p_handle := tl_handle win, p_revision := ws_revision st, p_x := mv_x rq, p_y := mv_y rq\<rparr>"
    have "ch' = ch1 \<or> mutate c op_move ?ps ch1 = (r, ch')"
      using assms rs x by (auto simp: move_window_def split: option.splits)
    then show "ch' = ch1 \<or> (\<exists>ps r. mutate c op_move ps ch1 = (r, ch') \<and> p_handle ps = tl_handle win \<and>
        p_revision ps = ws_revision st)"
      by (elim disjE) (auto intro!: exI [of _ ?ps])
  qed (use assms rs in \<open>simp add: move_window_def\<close>)
qed

lemma resize_window_trace:
  "resize_window c rq ch = (r, ch') \<Longrightarrow>
    \<exists>tr. sent tr ch ch' \<and> window_trace c op_resize (rz_target rq) ch tr"
proof -
  assume a: "resize_window c rq ch = (r, ch')"
  show ?thesis
  proof (cases "rz_width rq = 0 \<or> rz_height rq = 0")
    case True
    then show ?thesis using a by (auto simp: resize_window_def window_trace_def intro: exI [of _ "[]"])
  next
    case False
    obtain x ch1 where rs: "resolve c op_resize (rz_target rq) ch = (x, ch1)"
      by (cases "resolve c op_resize (rz_target rq) ch")
    show ?thesis
    proof (rule window_traceI [OF rs])
      show "ch' = ch1" if "x = Inl e" for e using a False rs that by (simp add: resize_window_def)
      fix win st
      assume x: "x = Inr (win, st)"
      let ?ps = "no_params\<lparr>p_handle := tl_handle win, p_revision := ws_revision st,
                       p_width := rz_width rq, p_height := rz_height rq, p_timeout_ms := rz_timeout_ms rq\<rparr>"
      obtain y ch2 where y: "send c CallerCtx op_resize ?ps ch1 = (y, ch2)"
        by (cases "send c CallerCtx op_resize ?ps ch1")
      have "ch' = ch2" using a False rs x y
        by (auto simp: resize_window_def split: sum.splits option.splits)
      then show "(\<exists>ps. sent [(CallerCtx, op_resize, ps)] ch1 ch' \<and> p_handle ps = tl_handle win \<and>
         p_revision ps = ws_revision st) \<or> ch' = ch1"
        using sent_send [OF y] by (intro disjI1 exI [of _ ?ps]) simp
    qed
  qed
qed

section \<open>Properties\<close>

text \<open>
  C13. Typing never leaves a key held. Whatever the session answers to each call, the
  calls of one text release every key they press, the modifier included; without an
  error they are exactly the strokes of the text in order; with an error they are a
  prefix of those followed by clean-up releases only, made on the independent context;
  and a text the layout cannot type whole sends nothing.
\<close>

theorem typing_releases:
  assumes "type_text km c txt ch = (res, ch')"
  shows "\<exists>tr. sent tr ch ch' \<and> foldl hold_key {} tr = {} \<and>
    (\<forall>e. key_sequence km txt = Inl e \<longrightarrow> tr = []) \<and>
    (\<forall>strokes sh. key_sequence km txt = Inr strokes \<and> key_named km shift_name = Inr sh \<and> txt \<noteq> [] \<longrightarrow>
       (let full = concat (map (stroke_calls (st_keycode sh)) strokes) in
        aborted full tr \<and> (\<forall>v. res = Inr v \<longrightarrow> tr = full \<and> v = (txt, length strokes))))"
proof (cases "\<exists>strokes sh. txt \<noteq> [] \<and> key_sequence km txt = Inr strokes \<and> key_named km shift_name = Inr sh")
  case False
  then have "ch' = ch" using assms by (auto simp: type_text_def split: sum.splits if_splits)
  then show ?thesis using False by (intro exI [of _ "[]"]) auto
next
  case True
  then obtain strokes sh where k: "txt \<noteq> []" "key_sequence km txt = Inr strokes" "key_named km shift_name = Inr sh"
    by blast
  obtain e ch1 where t: "type_loop km c (st_keycode sh) strokes False [] ch = (e, ch1)"
    by (cases "type_loop km c (st_keycode sh) strokes False [] ch")
  then have r: "ch' = ch1" "\<And>v. res = Inr v \<Longrightarrow> e = None \<and> v = (txt, length strokes)"
    using assms k by (auto simp: type_text_def split: option.splits)
  obtain tr where tr: "sent tr ch ch1" "typed_ok (st_keycode sh) strokes e tr"
    using type_loop_trace [OF k(3) t] by blast
  show ?thesis
    using tr r k by (intro exI [of _ tr]) (auto simp: typed_ok_def Let_def)
qed

definition demo_caller :: "nat caller" where
  "demo_caller cx op ps w =
     ((if w = 2 then Inl (PlainErr ''lost'')
       else Inr \<lparr>rp_revision = 7, rp_state = Some \<lparr>ws_revision = 7, ws_toplevels =
              [\<lparr>tl_handle = ''w1'', tl_title = [], tl_app_id = [], tl_x = 10, tl_y = 20,
                tl_width = 100, tl_height = 50, tl_state = 0, tl_revision = 7\<rparr>]\<rparr>,
              rp_resize = None, rp_frame = None, rp_capture_request_id = 0\<rparr>), w + 1)"

definition demo_chan :: "nat chan" where
  "demo_chan = \<lparr>ch_world = 0, ch_sent = []\<rparr>"

theorem typing_releases_witness:
  "\<exists>ch' tr. type_text (Inr demo_artifact) demo_caller ''A'' demo_chan = (Inl (PlainErr ''lost''), ch') \<and>
     ch_sent ch' = tr \<and> foldl hold_key {} tr = {}"
proof -
  have r: "range_runes ''A'' = [(0, 65)]"
    by (simp add: range_runes_def runes_from.simps decode_rune_def byte_at_def Let_def)
  have e: "encode_rune 65 = ''A''" by code_simp
  have s: "key_sequence (Inr demo_artifact) ''A'' =
      Inr [\<lparr>st_keycode = 30, st_shift = True, st_rune = 65, st_name = []\<rparr>]"
    by (simp add: key_sequence_def r e demo_artifact_def)
  have n: "key_named (Inr demo_artifact) shift_name =
      Inr \<lparr>st_keycode = 42, st_shift = False, st_rune = 0, st_name = shift_name\<rparr>"
    by (simp add: key_named_def shift_name_def demo_artifact_def)
  obtain ch' where t: "type_text (Inr demo_artifact) demo_caller ''A'' demo_chan = (Inl (PlainErr ''lost''), ch')"
    by (simp add: type_text_def s n send_key_def call_error_def send_def demo_caller_def demo_chan_def)
  then show ?thesis
    using typing_releases [OF t] by (auto simp: sent_def demo_chan_def)
qed

lemma hold_button_simps [simp]:
  "hold_button H (cx, op_pointer, button_params b state_pressed) = insert b H"
  "hold_button H (cx, op_pointer, button_params b state_released) = H - {b}"
  "hold_button H snap_call = H"
  "hold_button H (cx, op_pointer, no_params\<lparr>p_kind := pointer_motion, p_x := x, p_y := y\<rparr>) = H"
  by (simp_all add: hold_button_def button_params_def snap_call_def no_params_def go_defs)

lemma click_trace:
  assumes "click rnd c rq ch = (res, ch')"
  shows "\<exists>tr. sent tr ch ch' \<and> foldl hold_button {} tr = {} \<and>
    (\<forall>v. res = Inr v \<longrightarrow> tr = [snap_call,
       (CallerCtx, op_pointer, no_params\<lparr>p_kind := pointer_motion, p_x := cr_output_x v, p_y := cr_output_y v\<rparr>),
       (CallerCtx, op_pointer, button_params (cr_button v) state_pressed),
       (ReleaseCtx, op_pointer, button_params (cr_button v) state_released)])"
proof -
  obtain x ch1 where rs: "resolve c op_pointer (ck_target rq) ch = (x, ch1)"
    by (cases "resolve c op_pointer (ck_target rq) ch")
  from rs show ?thesis
  proof (cases rule: resolve_cases)
    case (idle e)
    then show ?thesis using assms rs by (intro exI [of _ "[]"]) (auto simp: click_def)
  next
    case (refused e)
    then show ?thesis using assms rs by (intro exI [of _ "[snap_call]"]) (auto simp: click_def)
  next
    case (found win st)
    let ?b = "if ck_button rq = 0 then 1 else ck_button rq"
    show ?thesis
    proof (cases "content_point rnd win (ck_x rq) (ck_y rq)")
      case (Inl e)
      then show ?thesis using assms rs found by (intro exI [of _ "[snap_call]"]) (auto simp: click_def Let_def)
    next
      case (Inr xy)
      then obtain ox oy where xy: "content_point rnd win (ck_x rq) (ck_y rq) = Inr (ox, oy)" by (cases xy) auto
      let ?m = "no_params\<lparr>p_kind := pointer_motion, p_x := ox, p_y := oy\<rparr>"
      obtain m ch2 where mo: "send c CallerCtx op_pointer ?m ch1 = (m, ch2)"
        by (cases "send c CallerCtx op_pointer ?m ch1")
      note t2 = sent_trans [OF found(2) sent_send [OF mo]]
      show ?thesis
      proof (cases m)
        case (Inl e)
        then have "ch' = ch2" "\<exists>e. res = Inl e" using assms rs found xy mo by (auto simp: click_def Let_def)
        then show ?thesis using t2 by (intro exI [of _ "[snap_call, (CallerCtx, op_pointer, ?m)]"]) auto
      next
        case (Inr rp)
        obtain pe ch3 where pr: "call_error (send c CallerCtx op_pointer (button_params ?b state_pressed) ch2) = (pe, ch3)"
          by (metis prod.collapse)
        obtain re ch4 where rl: "release_button c ?b ch3 = (re, ch4)" by (metis prod.collapse)
        have t4: "sent (([snap_call] @ [(CallerCtx, op_pointer, ?m)]) @
            [(CallerCtx, op_pointer, button_params ?b state_pressed)] @
            [(ReleaseCtx, op_pointer, button_params ?b state_released)]) ch ch4"
          using sent_trans [OF t2 sent_trans [OF sent_call_error [OF pr]
              sent_call_error [OF rl [unfolded release_button_def]]]] .
        have "ch' = ch4" "\<And>v. res = Inr v \<Longrightarrow> cr_button v = ?b \<and> cr_output_x v = ox \<and> cr_output_y v = oy"
          using assms rs found xy mo Inr pr rl by (auto simp: click_def Let_def split: option.splits)
        then show ?thesis
          using t4
          by (intro exI [of _ "([snap_call] @ [(CallerCtx, op_pointer, ?m)]) @
            [(CallerCtx, op_pointer, button_params ?b state_pressed)] @
            [(ReleaseCtx, op_pointer, button_params ?b state_released)]"]) simp
      qed
    qed
  qed
qed

lemma tap_trace:
  assumes "tap_key km c rq ch = (e, ch')"
  shows "\<exists>tr. sent tr ch ch' \<and> foldl hold_key {} tr = {}"
proof (cases "key_identity km rq")
  case (Inl x)
  then show ?thesis using assms by (intro exI [of _ "[]"]) (auto simp: tap_key_def)
next
  case (Inr k)
  obtain pe ch1 where p: "send_key c k state_pressed ch = (pe, ch1)" by (metis prod.collapse)
  obtain re ch2 where r: "release_key c k ch1 = (re, ch2)" by (metis prod.collapse)
  have "ch' = ch2" using assms Inr p r by (simp add: tap_key_def Let_def)
  moreover have "sent ([press_call CallerCtx k] @ [release_call ReleaseCtx k]) ch ch2"
    using sent_trans [OF sent_key [OF p] sent_call_error [OF r [unfolded release_key_def]]]
    by (simp add: press_call_def release_call_def)
  ultimately show ?thesis
    by (intro exI [of _ "[press_call CallerCtx k] @ [release_call ReleaseCtx k]"]) simp
qed

text \<open>
  A click and a tap never leave what they pressed held, on any answer: the calls of a
  click, the snapshot and the motion included, leave no button down, those of a tap leave
  no key down; and a click that reports success sent exactly the snapshot, the motion to
  the reported point, the press and the release.
\<close>

lemma click_tap_release:
  "(click rnd c rq ch = (res, ch') \<longrightarrow> (\<exists>tr. sent tr ch ch' \<and> foldl hold_button {} tr = {} \<and>
      (\<forall>v. res = Inr v \<longrightarrow> tr = [snap_call,
         (CallerCtx, op_pointer, no_params\<lparr>p_kind := pointer_motion, p_x := cr_output_x v, p_y := cr_output_y v\<rparr>),
         (CallerCtx, op_pointer, button_params (cr_button v) state_pressed),
         (ReleaseCtx, op_pointer, button_params (cr_button v) state_released)]))) \<and>
   (tap_key km c krq ch = (e, ch') \<longrightarrow> (\<exists>tr. sent tr ch ch' \<and> foldl hold_key {} tr = {}))"
  by (intro conjI impI) (erule click_trace, erule tap_trace)

lemma click_tap_release_witness:
  "\<exists>e ch' tr. tap_key (Inr demo_artifact) demo_caller \<lparr>kr_keycode = 30, kr_name = [], kr_state = []\<rparr>
      (demo_chan\<lparr>ch_world := 2\<rparr>) = (Some e, ch') \<and> ch_sent ch' = tr \<and> foldl hold_key {} tr = {}"
proof -
  let ?rq = "\<lparr>kr_keycode = 30, kr_name = [], kr_state = []\<rparr>"
  obtain e ch' where t: "tap_key (Inr demo_artifact) demo_caller ?rq (demo_chan\<lparr>ch_world := 2\<rparr>) = (Some e, ch')"
    by (simp add: tap_key_def key_identity_def keycode_max_def send_key_def release_key_def
        call_error_def send_def demo_caller_def demo_chan_def)
  show ?thesis using click_tap_release [THEN conjunct2, THEN mp, OF t] t by (auto simp: sent_def demo_chan_def)
qed

text \<open>
  A window request carries only a revision just observed: activate, move, resize and
  close-window send nothing, or a snapshot alone, or a snapshot and then exactly one
  request on a window of that snapshot at that snapshot's revision; and a caller that
  named another revision gets no request sent at all.
\<close>

lemma window_requests_fresh:
  "(activate c tg ch = (r, ch') \<longrightarrow> (\<exists>tr. sent tr ch ch' \<and> window_trace c op_activate tg ch tr)) \<and>
   (move_window c mq ch = (r, ch') \<longrightarrow> (\<exists>tr. sent tr ch ch' \<and> window_trace c op_move (mv_target mq) ch tr)) \<and>
   (resize_window c zq ch = (q, ch') \<longrightarrow>
      (\<exists>tr. sent tr ch ch' \<and> window_trace c op_resize (rz_target zq) ch tr)) \<and>
   (close_window c tg ch = (r, ch') \<longrightarrow>
      (\<exists>tr. sent tr ch ch' \<and> window_trace c op_close_window tg ch tr))"
  by (intro conjI impI) (erule activate_trace move_window_trace resize_window_trace close_window_trace)+

lemma window_requests_fresh_witness:
  "\<exists>r ch' tr. activate demo_caller \<lparr>tg_handle = ''w1'', tg_revision = 6\<rparr> demo_chan = (r, ch') \<and>
     sent tr demo_chan ch' \<and> length tr \<le> 1"
proof -
  let ?tg = "\<lparr>tg_handle = ''w1'', tg_revision = 6\<rparr>"
  obtain r ch' where a: "activate demo_caller ?tg demo_chan = (r, ch')" by (metis prod.collapse)
  obtain tr where tr: "sent tr demo_chan ch'" "window_trace demo_caller op_activate ?tg demo_chan tr"
    using window_requests_fresh [THEN conjunct1, THEN mp, OF a] by blast
  have "\<And>st ch1. snapshot demo_caller demo_chan = (Inr st, ch1) \<Longrightarrow> ws_revision st = 7"
    by (auto simp: snapshot_def send_def demo_caller_def demo_chan_def)
  then have "length tr \<le> 1" using tr(2) by (auto simp: window_trace_def fresh_request_def)
  then show ?thesis using a tr(1) by blast
qed



end
