(* ===== verification/Control_State.thy ===== *)
theory Control_State
  imports Wire
begin

text \<open>
  The types of the control facade (\<open>internal/control/state.go\<close>): revisions and the two
  words that carry one on the wire, sizes, windows, events, and the protocol's failure
  codes. Handles are strings.
\<close>

definition revision_words :: "u64 \<Rightarrow> u32 \<times> u32" where
  "revision_words r = (ucast (drop_bit 32 r), ucast r)"

definition revision_from_words :: "u32 \<Rightarrow> u32 \<Rightarrow> u64" where
  "revision_from_words hi lo = push_bit 32 (ucast hi) OR ucast lo"

record size =
  sz_width :: u32
  sz_height :: u32

definition zero_size :: size where
  "zero_size = \<lparr>sz_width = 0, sz_height = 0\<rparr>"

definition size_string :: "size \<Rightarrow> string" where
  "size_string s = dec_nat (unat (sz_width s)) @ ''x'' @ dec_nat (unat (sz_height s))"

record window =
  wn_handle :: string
  wn_title :: string
  wn_app_id :: string
  wn_x :: int
  wn_y :: int
  wn_size :: size
  wn_state :: u32
  wn_revision :: u64

record cstate =
  cst_revision :: u64
  cst_windows :: "window list"

definition state_find :: "cstate \<Rightarrow> string \<Rightarrow> window option" where
  "state_find st h = List.find (\<lambda>w. wn_handle w = h) (cst_windows st)"

record resized =
  rd_handle :: string
  rd_requested :: size
  rd_configured :: size
  rd_committed :: size
  rd_visible :: size
  rd_revision :: u64

datatype pointer_event = Motion f64 f64 | Button u32 bool | Axis u32 f64 | NoPointerEvent

record key_event =
  ke_key :: u32
  ke_pressed :: bool

record frame =
  fm_capture_request_id :: u64
  fm_sequence :: u64

text \<open>Failure codes of the protocol: a code is a number, named or not.\<close>

datatype error_code = ErrStaleRevision | ErrWindowNotFound | ErrNotAuthorized | ErrCaptureUnavailable
  | ErrInvalidArgument | ErrUnknown nat

definition error_code_of :: "u32 \<Rightarrow> error_code" where
  "error_code_of c =
     (if c = 0 then ErrStaleRevision else if c = 1 then ErrWindowNotFound
      else if c = 2 then ErrNotAuthorized else if c = 3 then ErrCaptureUnavailable
      else if c = 4 then ErrInvalidArgument else ErrUnknown (unat c))"

fun error_code_string :: "error_code \<Rightarrow> string" where
  "error_code_string ErrStaleRevision = ''stale_revision''"
| "error_code_string ErrWindowNotFound = ''window_not_found''"
| "error_code_string ErrNotAuthorized = ''not_authorized''"
| "error_code_string ErrCaptureUnavailable = ''capture_unavailable''"
| "error_code_string ErrInvalidArgument = ''invalid_argument''"
| "error_code_string (ErrUnknown n) = ''unknown_error_'' @ dec_nat n"

record request_error =
  re_code :: error_code
  re_message :: string

definition request_error_string :: "request_error \<Rightarrow> string" where
  "request_error_string e =
     ''wlvision control: '' @ error_code_string (re_code e) @
     (if re_message e = [] then [] else '': '' @ re_message e)"

section \<open>Properties\<close>

lemma words_of_revision: "case_prod revision_from_words (revision_words r) = r"
  by (rule bit_eqI) (auto simp: revision_words_def revision_from_words_def bit_simps)

lemma revision_of_words: "revision_words (revision_from_words hi lo) = (hi, lo)"
proof -
  have "ucast (drop_bit 32 (revision_from_words hi lo)) = hi"
    by (rule bit_eqI) (auto simp: revision_from_words_def bit_simps dest: bit_imp_le_length)
  moreover have "ucast (revision_from_words hi lo) = lo"
    by (rule bit_eqI) (auto simp: revision_from_words_def bit_simps)
  ultimately show ?thesis by (simp add: revision_words_def)
qed

lemma revision_words_value:
  "unat (fst (revision_words r)) = unat r div 2 ^ 32" "unat (snd (revision_words r)) = unat r mod 2 ^ 32"
proof -
  have "unat r div 2 ^ 32 < 2 ^ 32" using unsigned_less [of r, where ?'a = nat] by (simp add: less_mult_imp_div_less)
  then show "unat (fst (revision_words r)) = unat r div 2 ^ 32"
    by (simp add: revision_words_def unsigned_ucast_eq drop_bit_eq_div take_bit_eq_mod unat_div_distrib)
  show "unat (snd (revision_words r)) = unat r mod 2 ^ 32"
    by (simp add: revision_words_def unsigned_ucast_eq take_bit_eq_mod)
qed

lemma revision_value: "unat (revision_from_words hi lo) = unat hi * 2 ^ 32 + unat lo"
  using revision_words_value [of "revision_from_words hi lo"]
  by (simp add: revision_of_words)

text \<open>
  The two wire words carry a revision exactly: splitting and joining are inverse to
  each other in both directions, and the joined revision is the high word times 2^32
  plus the low word, so revisions compare as their words do lexicographically.
\<close>

lemma revision_roundtrip:
  "case_prod revision_from_words (revision_words r) = r \<and>
   revision_words (revision_from_words hi lo) = (hi, lo) \<and>
   unat (revision_from_words hi lo) = unat hi * 2 ^ 32 + unat lo"
  using words_of_revision revision_of_words revision_value by blast

end
