(* ===== verification/Control_Client.thy ===== *)
theory Control_Client
  imports Control_State "HOL-Library.AList" "HOL-Library.Multiset"
begin

text \<open>
  The client of the private control protocol (\<open>internal/control/client.go\<close>). Its state is
  what the mutex of the source guards; the handlers of the protocol's events, the start
  and the end of a request are functions on it, and a run is any interleaving of them.
  The Go maps are association lists with distinct keys, whose order stands for the map's
  iteration order. A pending call is an object with a reply channel of capacity one: the
  object has a number of its own (\<open>pd_call\<close>), because a request identifier may wrap
  around, and \<open>cl_replies\<close> is what was sent into its channel, with the windows collected
  for it. Transporting requests and events is the Wayland client library's.
\<close>

section \<open>State\<close>

datatype pending_kind = WaitRequest | WaitResize | WaitCapture

record resize_reply =
  rrp_configured :: size
  rrp_committed :: size
  rrp_visible :: size
  rrp_revision :: u64

datatype ctl_error = CtlRequest request_error | CtlClosed | CtlCtx bool | CtlFailure failure | CtlOther string

record outcome =
  oc_err :: "ctl_error option"
  oc_revision :: u64
  oc_resize :: "resize_reply option"

record resize_progress =
  rg_configured :: size
  rg_committed :: size

record pending_call =
  pd_kind :: pending_kind
  pd_call :: nat
  pd_snapshot :: "window list option"

record client =
  cl_next :: u32
  cl_calls :: nat
  cl_pending :: "(u32 \<times> pending_call) list"
  cl_windows :: "(string \<times> window) list"
  cl_removed :: "string list"
  cl_progress :: "(u32 \<times> resize_progress) list"
  cl_revision :: u64
  cl_closed :: bool
  cl_replies :: "nat \<Rightarrow> (outcome \<times> window list) list"

definition new_client :: client where
  "new_client =
     \<lparr>cl_next = 0, cl_calls = 0, cl_pending = [], cl_windows = [], cl_removed = [], cl_progress = [],
      cl_revision = 0, cl_closed = False, cl_replies = (\<lambda>_. [])\<rparr>"

section \<open>Window lists\<close>

fun upsert_toplevel :: "window list \<Rightarrow> window \<Rightarrow> window list" where
  "upsert_toplevel [] w = [w]"
| "upsert_toplevel (x # xs) w = (if wn_handle x = wn_handle w then w # xs else x # upsert_toplevel xs w)"

fun remove_toplevel :: "window list \<Rightarrow> string \<Rightarrow> window list" where
  "remove_toplevel [] h = []"
| "remove_toplevel (x # xs) h = (if wn_handle x = h then xs else x # remove_toplevel xs h)"

definition merge_one :: "string list \<Rightarrow> window \<Rightarrow> (string \<times> window) list \<Rightarrow> (string \<times> window) list" where
  "merge_one removed w cached =
     (if wn_handle w \<in> set removed then cached
      else (case map_of cached (wn_handle w) of
              Some known \<Rightarrow> if wn_revision w \<le> wn_revision known then cached
                            else AList.update (wn_handle w) w cached
            | None \<Rightarrow> AList.update (wn_handle w) w cached))"

definition merge_snapshot ::
  "(string \<times> window) list \<Rightarrow> string list \<Rightarrow> window list \<Rightarrow> (string \<times> window) list" where
  "merge_snapshot cached removed snap = fold (merge_one removed) snap cached"

definition sort_toplevels :: "window list \<Rightarrow> window list" where
  "sort_toplevels ws = sort_key wn_handle ws"

definition state_of :: "client \<Rightarrow> cstate" where
  "state_of cl = \<lparr>cst_revision = cl_revision cl, cst_windows = sort_toplevels (map snd (cl_windows cl))\<rparr>"

definition map_snapshots :: "(window list \<Rightarrow> window list) \<Rightarrow> (u32 \<times> pending_call) list \<Rightarrow> (u32 \<times> pending_call) list" where
  "map_snapshots f ps = map (\<lambda>(i, p). (i, p\<lparr>pd_snapshot := map_option f (pd_snapshot p)\<rparr>)) ps"

section \<open>Event handlers\<close>

definition deliver :: "pending_call \<Rightarrow> outcome \<Rightarrow> client \<Rightarrow> client" where
  "deliver p oc cl =
     cl\<lparr>cl_replies := (cl_replies cl)(pd_call p :=
          cl_replies cl (pd_call p) @ [(oc, case pd_snapshot p of None \<Rightarrow> [] | Some ws \<Rightarrow> ws)])\<rparr>"

definition finish :: "u32 \<Rightarrow> outcome \<Rightarrow> client \<Rightarrow> client" where
  "finish i oc cl =
     (let found = map_of (cl_pending cl) i;
          cl1 = cl\<lparr>cl_pending := AList.delete i (cl_pending cl),
                   cl_progress := AList.delete i (cl_progress cl)\<rparr>
      in case found of None \<Rightarrow> cl1 | Some p \<Rightarrow> deliver p oc cl1)"

definition raise_revision :: "u64 \<Rightarrow> client \<Rightarrow> client" where
  "raise_revision r cl = (if cl_revision cl < r then cl\<lparr>cl_revision := r\<rparr> else cl)"

definition size_from_int32 :: "int \<Rightarrow> int \<Rightarrow> size" where
  "size_from_int32 w h =
     (if w < 0 \<or> h < 0 then zero_size else \<lparr>sz_width = word_of_int w, sz_height = word_of_int h\<rparr>)"

definition on_snapshot :: "u32 \<Rightarrow> u32 \<Rightarrow> client \<Rightarrow> client" where
  "on_snapshot hi lo cl =
     cl\<lparr>cl_revision := revision_from_words hi lo,
        cl_pending := map_snapshots (\<lambda>_. []) (cl_pending cl)\<rparr>"

definition on_toplevel_changed :: "window \<Rightarrow> client \<Rightarrow> client" where
  "on_toplevel_changed w cl =
     cl\<lparr>cl_revision := wn_revision w,
        cl_windows := AList.update (wn_handle w) w (cl_windows cl),
        cl_pending := map_snapshots (\<lambda>ws. upsert_toplevel ws w) (cl_pending cl)\<rparr>"

definition on_toplevel_removed :: "string \<Rightarrow> client \<Rightarrow> client" where
  "on_toplevel_removed h cl =
     cl\<lparr>cl_windows := AList.delete h (cl_windows cl), cl_removed := h # cl_removed cl,
        cl_pending := map_snapshots (\<lambda>ws. remove_toplevel ws h) (cl_pending cl)\<rparr>"

definition on_request_done :: "u32 \<Rightarrow> u32 \<Rightarrow> u32 \<Rightarrow> client \<Rightarrow> client" where
  "on_request_done i hi lo cl =
     (let r = revision_from_words hi lo
      in finish i \<lparr>oc_err = None, oc_revision = r, oc_resize = None\<rparr> (raise_revision r cl))"

definition on_request_failed :: "u32 \<Rightarrow> u32 \<Rightarrow> string \<Rightarrow> client \<Rightarrow> client" where
  "on_request_failed i code msg cl =
     finish i \<lparr>oc_err = Some (CtlRequest \<lparr>re_code = error_code_of code, re_message = msg\<rparr>),
               oc_revision = 0, oc_resize = None\<rparr> cl"

definition progress_of :: "u32 \<Rightarrow> client \<Rightarrow> resize_progress" where
  "progress_of i cl =
     (case map_of (cl_progress cl) i of
        None \<Rightarrow> \<lparr>rg_configured = zero_size, rg_committed = zero_size\<rparr> | Some p \<Rightarrow> p)"

definition on_resize_configured :: "u32 \<Rightarrow> int \<Rightarrow> int \<Rightarrow> client \<Rightarrow> client" where
  "on_resize_configured i w h cl =
     (if w \<le> 0 \<or> h \<le> 0 then cl
      else if map_of (cl_pending cl) i = None then cl
      else cl\<lparr>cl_progress := AList.update i
             ((progress_of i cl)\<lparr>rg_configured := \<lparr>sz_width = word_of_int w, sz_height = word_of_int h\<rparr>\<rparr>)
             (cl_progress cl)\<rparr>)"

definition on_resize_done :: "u32 \<Rightarrow> resize_reply \<Rightarrow> client \<Rightarrow> client" where
  "on_resize_done i rr cl =
     (let cl1 = raise_revision (rrp_revision rr) cl;
          cl2 = (if map_of (cl_pending cl1) i \<noteq> None
                 then cl1\<lparr>cl_progress := AList.update i
                        \<lparr>rg_configured = rrp_configured rr, rg_committed = rrp_committed rr\<rparr>
                        (cl_progress cl1)\<rparr>
                 else cl1)
      in finish i \<lparr>oc_err = None, oc_revision = rrp_revision rr, oc_resize = Some rr\<rparr> cl2)"

definition on_capture_authorized :: "u32 \<Rightarrow> client \<Rightarrow> client" where
  "on_capture_authorized i cl = finish i \<lparr>oc_err = None, oc_revision = 0, oc_resize = None\<rparr> cl"

definition fail_all :: "ctl_error \<Rightarrow> client \<Rightarrow> client" where
  "fail_all e cl =
     fold (\<lambda>(i, p). deliver p \<lparr>oc_err = Some e, oc_revision = 0, oc_resize = None\<rparr>) (cl_pending cl)
       (cl\<lparr>cl_pending := [], cl_closed := True\<rparr>)"

section \<open>Requests\<close>

definition enlist :: "pending_kind \<Rightarrow> window list option \<Rightarrow> client \<Rightarrow> u32 \<times> client" where
  "enlist k snap cl =
     (let i = cl_next cl + 1
      in (i, cl\<lparr>cl_next := i, cl_calls := Suc (cl_calls cl),
                cl_pending := AList.update i \<lparr>pd_kind = k, pd_call = cl_calls cl, pd_snapshot = snap\<rparr>
                  (cl_pending cl)\<rparr>))"

definition send_begin :: "pending_kind \<Rightarrow> window list option \<Rightarrow> client \<Rightarrow> (ctl_error + u32) \<times> client" where
  "send_begin k snap cl =
     (if cl_closed cl then (Inl CtlClosed, cl)
      else let (i, cl1) = enlist k snap cl in (Inr i, cl1))"

definition capture_begin :: "client \<Rightarrow> u32 \<times> client" where
  "capture_begin cl = enlist WaitCapture None cl"

definition forget :: "u32 \<Rightarrow> client \<Rightarrow> client" where
  "forget i cl = cl\<lparr>cl_pending := AList.delete i (cl_pending cl)\<rparr>"

text \<open>How the wait of a request ended; the flag tells a deadline from a cancellation.\<close>

datatype wait_end = IssueFailed | Replied outcome "window list" | CtxDone bool | ConnClosed

definition send_end :: "u32 \<Rightarrow> wait_end \<Rightarrow> client \<Rightarrow> (ctl_error + outcome \<times> window list) \<times> client" where
  "send_end i w cl =
     (case w of
        IssueFailed \<Rightarrow> (Inl (CtlOther ''send request %d: %w''), forget i cl)
      | Replied oc ws \<Rightarrow> ((case oc_err oc of Some e \<Rightarrow> Inl e | None \<Rightarrow> Inr (oc, ws)), cl)
      | CtxDone deadline \<Rightarrow> (Inl (CtlCtx deadline), forget i cl)
      | ConnClosed \<Rightarrow> (Inl CtlClosed, cl))"

definition snapshot_end :: "u32 \<Rightarrow> wait_end \<Rightarrow> client \<Rightarrow> (ctl_error + cstate) \<times> client" where
  "snapshot_end i w cl =
     (case send_end i w cl of
        (Inl e, cl1) \<Rightarrow> (Inl e, cl1)
      | (Inr (oc, ws), cl1) \<Rightarrow>
          let cached = merge_snapshot (cl_windows cl1) (cl_removed cl1) ws
          in (Inr \<lparr>cst_revision = oc_revision oc, cst_windows = sort_toplevels (map snd cached)\<rparr>,
              cl1\<lparr>cl_windows := cached\<rparr>))"

text \<open>\<open>Activate\<close>, \<open>Move\<close> and \<open>CloseWindow\<close> end the same way: with the current state.\<close>

definition window_end :: "u32 \<Rightarrow> wait_end \<Rightarrow> client \<Rightarrow> (ctl_error + cstate) \<times> client" where
  "window_end i w cl =
     (case send_end i w cl of (Inl e, cl1) \<Rightarrow> (Inl e, cl1) | (Inr _, cl1) \<Rightarrow> (Inr (state_of cl1), cl1))"

definition observed_size :: "size \<Rightarrow> string" where
  "observed_size s = (if s = zero_size then ''unknown'' else size_string s)"

definition resize_timeout :: "u32 \<Rightarrow> string \<Rightarrow> size \<Rightarrow> client \<Rightarrow> failure \<times> client" where
  "resize_timeout i h requested cl =
     (let p = progress_of i cl;
          visible = (case map_of (cl_windows cl) h of None \<Rightarrow> ''unknown'' | Some w \<Rightarrow> size_string (wn_size w))
      in (with_details
            [(''handle'', h), (''requested'', size_string requested),
             (''configured'', observed_size (rg_configured p)),
             (''committed'', observed_size (rg_committed p)), (''visible'', visible)]
            (new_failure WaitTimeout ''window.resize''
               ''the application did not commit the configured size in time''),
          cl\<lparr>cl_progress := AList.delete i (cl_progress cl)\<rparr>))"

definition resize_end :: "u32 \<Rightarrow> string \<Rightarrow> size \<Rightarrow> wait_end \<Rightarrow> client \<Rightarrow> (ctl_error + resized) \<times> client" where
  "resize_end i h requested w cl =
     (case send_end i w cl of
        (Inl (CtlCtx True), cl1) \<Rightarrow>
          (case resize_timeout i h requested cl1 of (f, cl2) \<Rightarrow> (Inl (CtlFailure f), cl2))
      | (Inl e, cl1) \<Rightarrow> (Inl e, cl1)
      | (Inr (oc, _), cl1) \<Rightarrow>
          (case oc_resize oc of
             None \<Rightarrow> (Inl (CtlOther ''wlvision control: resize of %s completed without a resize_done event''), cl1)
           | Some rr \<Rightarrow>
               (Inr \<lparr>rd_handle = h, rd_requested = requested, rd_configured = rrp_configured rr,
                     rd_committed = rrp_committed rr, rd_visible = rrp_visible rr,
                     rd_revision = rrp_revision rr\<rparr>, cl1)))"

definition input_end :: "u32 \<Rightarrow> wait_end \<Rightarrow> client \<Rightarrow> ctl_error option \<times> client" where
  "input_end i w cl =
     (case send_end i w cl of (Inl e, cl1) \<Rightarrow> (Some e, cl1) | (Inr _, cl1) \<Rightarrow> (None, cl1))"

definition capture_end :: "u32 \<Rightarrow> wait_end \<Rightarrow> client \<Rightarrow> (ctl_error + u64) \<times> client" where
  "capture_end i w cl =
     (case w of
        IssueFailed \<Rightarrow> (Inl (CtlOther ''authorize capture: %w''), forget i cl)
      | Replied oc _ \<Rightarrow> ((case oc_err oc of Some e \<Rightarrow> Inl e | None \<Rightarrow> Inr (ucast i)), cl)
      | CtxDone deadline \<Rightarrow> (Inl (CtlCtx deadline), forget i cl)
      | ConnClosed \<Rightarrow> (Inl CtlClosed, cl))"

section \<open>Runs\<close>

datatype action =
    EvSnapshot u32 u32 | EvChanged window | EvRemoved string | EvDone u32 u32 u32
  | EvFailed u32 u32 string | EvConfigured u32 int int | EvResizeDone u32 resize_reply
  | EvAuthorized u32 | EvLost ctl_error
  | DoSend pending_kind "window list option" | DoCapture
  | EndSnapshot u32 wait_end | EndWindow u32 wait_end | EndResize u32 string size wait_end
  | EndInput u32 wait_end | EndCapture u32 wait_end

fun act :: "client \<Rightarrow> action \<Rightarrow> client" where
  "act cl (EvSnapshot hi lo) = on_snapshot hi lo cl"
| "act cl (EvChanged w) = on_toplevel_changed w cl"
| "act cl (EvRemoved h) = on_toplevel_removed h cl"
| "act cl (EvDone i hi lo) = on_request_done i hi lo cl"
| "act cl (EvFailed i c m) = on_request_failed i c m cl"
| "act cl (EvConfigured i w h) = on_resize_configured i w h cl"
| "act cl (EvResizeDone i rr) = on_resize_done i rr cl"
| "act cl (EvAuthorized i) = on_capture_authorized i cl"
| "act cl (EvLost e) = fail_all e cl"
| "act cl (DoSend k snap) = snd (send_begin k snap cl)"
| "act cl DoCapture = snd (capture_begin cl)"
| "act cl (EndSnapshot i w) = snd (snapshot_end i w cl)"
| "act cl (EndWindow i w) = snd (window_end i w cl)"
| "act cl (EndResize i h s w) = snd (resize_end i h s w cl)"
| "act cl (EndInput i w) = snd (input_end i w cl)"
| "act cl (EndCapture i w) = snd (capture_end i w cl)"

definition run_client :: "action list \<Rightarrow> client" where
  "run_client as = foldl act new_client as"

section \<open>The invariant\<close>

text \<open>The pending calls as pairs of request identifier and call object.\<close>

definition keyed :: "(u32 \<times> pending_call) list \<Rightarrow> (u32 \<times> nat) list" where
  "keyed ps = map (\<lambda>(i, p). (i, pd_call p)) ps"

definition calls_ok :: "(u32 \<times> nat) list \<Rightarrow> nat \<Rightarrow> (nat \<Rightarrow> 'r list) \<Rightarrow> bool" where
  "calls_ok ks n rs \<longleftrightarrow> distinct (map fst ks) \<and> distinct (map snd ks) \<and>
     (\<forall>x \<in> set ks. snd x < n \<and> rs (snd x) = []) \<and>
     (\<forall>k. length (rs k) \<le> 1) \<and> (\<forall>k \<ge> n. rs k = [])"

definition windows_ok :: "(string \<times> window) list \<Rightarrow> bool" where
  "windows_ok ws \<longleftrightarrow> distinct (map fst ws) \<and> (\<forall>x \<in> set ws. wn_handle (snd x) = fst x)"

definition good_client :: "client \<Rightarrow> bool" where
  "good_client cl \<longleftrightarrow> calls_ok (keyed (cl_pending cl)) (cl_calls cl) (cl_replies cl) \<and>
     windows_ok (cl_windows cl)"

lemma keyed_map_snapshots [simp]: "keyed (map_snapshots f ps) = keyed ps"
  by (simp add: keyed_def map_snapshots_def case_prod_beta comp_def)

lemma keyed_delete [simp]: "keyed (AList.delete i ps) = AList.delete i (keyed ps)"
  by (induction ps) (auto simp: keyed_def)

lemma keyed_update [simp]: "keyed (AList.update i p ps) = AList.update i (pd_call p) (keyed ps)"
  by (induction ps) (auto simp: keyed_def)

lemma set_update_subset: "set (AList.update k v xs) \<subseteq> insert (k, v) (set xs)"
  by (induction xs) auto

lemma distinct_snd_update:
  "distinct (map snd xs) \<Longrightarrow> v \<notin> snd ` set xs \<Longrightarrow> distinct (map snd (AList.update k v xs))"
proof (induction xs)
  case (Cons x xs)
  have "snd ` set (AList.update k v xs) \<subseteq> insert v (snd ` set xs)"
    using set_update_subset [of k v xs] by auto
  then show ?case using Cons by (cases x) auto
qed simp

lemma calls_ok_filter: "calls_ok ks n rs \<Longrightarrow> calls_ok (filter P ks) n rs"
  by (auto simp: calls_ok_def distinct_map_filter)

lemma calls_ok_delete: "calls_ok ks n rs \<Longrightarrow> calls_ok (AList.delete i ks) n rs"
  by (simp add: AList.delete_eq calls_ok_filter)

lemma calls_ok_update:
  assumes "calls_ok ks n rs"
  shows "calls_ok (AList.update i n ks) (Suc n) rs"
proof -
  have "n \<notin> snd ` set ks" using assms by (auto simp: calls_ok_def)
  then have "distinct (map snd (AList.update i n ks))"
    using assms by (simp add: calls_ok_def distinct_snd_update)
  moreover have "snd x < Suc n \<and> rs (snd x) = []" if "x \<in> set (AList.update i n ks)" for x
    using that set_update_subset [of i n ks] assms by (auto simp: calls_ok_def dest!: subsetD)
  ultimately show ?thesis
    using assms by (auto simp: calls_ok_def distinct_update)
qed

lemma calls_ok_deliver:
  assumes "calls_ok ks n rs" and "x < n" and "rs x = []" and "x \<notin> snd ` set ks"
  shows "calls_ok ks n (rs(x := rs x @ [r]))"
  using assms by (auto simp: calls_ok_def rev_image_eqI)

lemma deliver_sel [simp]:
  "cl_pending (deliver p oc cl) = cl_pending cl" "cl_calls (deliver p oc cl) = cl_calls cl"
  "cl_windows (deliver p oc cl) = cl_windows cl" "cl_closed (deliver p oc cl) = cl_closed cl"
  "cl_progress (deliver p oc cl) = cl_progress cl" "cl_next (deliver p oc cl) = cl_next cl"
  "cl_removed (deliver p oc cl) = cl_removed cl" "cl_revision (deliver p oc cl) = cl_revision cl"
  by (simp_all add: deliver_def)

lemma finish_good:
  assumes g: "good_client cl"
  shows "good_client (finish i oc cl)"
proof (cases "map_of (cl_pending cl) i")
  case None
  then show ?thesis using g by (simp add: finish_def good_client_def calls_ok_delete)
next
  case (Some p)
  let ?ks = "keyed (cl_pending cl)"
  have c: "calls_ok ?ks (cl_calls cl) (cl_replies cl)" and w: "windows_ok (cl_windows cl)"
    using g by (auto simp: good_client_def)
  have m: "(i, pd_call p) \<in> set ?ks"
    using map_of_SomeD [OF Some] by (auto simp: keyed_def intro: rev_image_eqI)
  have "inj_on snd (set ?ks)" using c by (simp add: calls_ok_def distinct_map)
  then have "y = i" if "(y, pd_call p) \<in> set ?ks" for y
    using inj_onD [of snd "set ?ks" "(y, pd_call p)" "(i, pd_call p)"] that m by simp
  then have "pd_call p \<notin> snd ` set (AList.delete i ?ks)"
    by (auto simp: AList.delete_eq)
  moreover have "pd_call p < cl_calls cl \<and> cl_replies cl (pd_call p) = []"
    using m c by (fastforce simp: calls_ok_def)
  ultimately have "calls_ok (AList.delete i ?ks) (cl_calls cl)
      ((cl_replies cl)(pd_call p := cl_replies cl (pd_call p) @
        [(oc, case pd_snapshot p of None \<Rightarrow> [] | Some ws \<Rightarrow> ws)]))"
    by (intro calls_ok_deliver calls_ok_delete [OF c]) simp_all
  then show ?thesis using Some w by (simp add: finish_def good_client_def deliver_def)
qed

lemma fold_deliver_good:
  assumes "distinct (map (pd_call \<circ> snd) ps)" and "calls_ok [] n (cl_replies cl)"
    and "\<forall>x \<in> set ps. pd_call (snd x) < n \<and> cl_replies cl (pd_call (snd x)) = []"
  shows "calls_ok [] n (cl_replies (fold (\<lambda>(i, p). deliver p oc) ps cl))"
  using assms
proof (induction ps arbitrary: cl)
  case (Cons x ps)
  obtain i p where x: "x = (i, p)" by (cases x)
  have "calls_ok [] n (cl_replies (deliver p oc cl))"
    using calls_ok_deliver [OF Cons.prems(2), of "pd_call p"] Cons.prems(3) x by (simp add: deliver_def)
  moreover have "\<forall>y \<in> set ps. pd_call (snd y) < n \<and> cl_replies (deliver p oc cl) (pd_call (snd y)) = []"
    using Cons.prems x by (auto simp: deliver_def rev_image_eqI)
  ultimately show ?case using Cons.IH [of "deliver p oc cl"] Cons.prems(1) x by simp
qed simp

lemma fold_deliver_sel:
  "cl_pending (fold (\<lambda>(i, p). deliver p oc) ps cl) = cl_pending cl"
  "cl_calls (fold (\<lambda>(i, p). deliver p oc) ps cl) = cl_calls cl"
  "cl_windows (fold (\<lambda>(i, p). deliver p oc) ps cl) = cl_windows cl"
  "cl_closed (fold (\<lambda>(i, p). deliver p oc) ps cl) = cl_closed cl"
  by (induction ps arbitrary: cl) auto

lemma fail_all_good:
  assumes "good_client cl"
  shows "good_client (fail_all e cl)"
proof -
  have c: "calls_ok (keyed (cl_pending cl)) (cl_calls cl) (cl_replies cl)" and w: "windows_ok (cl_windows cl)"
    using assms by (auto simp: good_client_def)
  have "map snd (keyed (cl_pending cl)) = map (pd_call \<circ> snd) (cl_pending cl)"
    by (simp add: keyed_def case_prod_beta)
  then have d: "distinct (map (pd_call \<circ> snd) (cl_pending cl))" using c by (simp add: calls_ok_def)
  have p: "\<forall>x \<in> set (cl_pending cl). pd_call (snd x) < cl_calls cl \<and> cl_replies cl (pd_call (snd x)) = []"
    using c by (fastforce simp: calls_ok_def keyed_def)
  have n: "calls_ok [] (cl_calls cl) (cl_replies cl)" using c by (simp add: calls_ok_def)
  show ?thesis
    using fold_deliver_good [OF d, of "cl_calls cl" "cl\<lparr>cl_pending := [], cl_closed := True\<rparr>"] n p w
    by (simp add: fail_all_def good_client_def fold_deliver_sel keyed_def)
qed

lemma windows_ok_update: "windows_ok ws \<Longrightarrow> windows_ok (AList.update (wn_handle w) w ws)"
  using set_update_subset [of "wn_handle w" w ws] by (auto simp: windows_ok_def distinct_update)

lemma windows_ok_delete: "windows_ok ws \<Longrightarrow> windows_ok (AList.delete h ws)"
  by (auto simp: windows_ok_def AList.delete_eq distinct_map_filter)

lemma windows_ok_merge: "windows_ok ws \<Longrightarrow> windows_ok (merge_snapshot ws gone snap)"
  unfolding merge_snapshot_def
  by (induction snap arbitrary: ws) (auto simp: merge_one_def windows_ok_update split: option.splits)

lemma enlist_good: "good_client cl \<Longrightarrow> good_client (snd (enlist k snap cl))"
  by (simp add: enlist_def good_client_def Let_def calls_ok_update)

lemma forget_good: "good_client cl \<Longrightarrow> good_client (forget i cl)"
  by (simp add: forget_def good_client_def calls_ok_delete)

lemma send_end_good: "send_end i w cl = (r, cl') \<Longrightarrow> good_client cl \<Longrightarrow> good_client cl'"
  by (auto simp: send_end_def forget_good split: wait_end.splits)

lemma raise_good: "good_client cl \<Longrightarrow> good_client (raise_revision r cl)"
  by (simp add: raise_revision_def good_client_def)

lemma good_more [simp]:
  "good_client (cl\<lparr>cl_progress := x\<rparr>) = good_client cl"
  "good_client (cl\<lparr>cl_revision := v\<rparr>) = good_client cl"
  by (simp_all add: good_client_def)

lemma good_windows: "good_client cl \<Longrightarrow> windows_ok ws \<Longrightarrow> good_client (cl\<lparr>cl_windows := ws\<rparr>)"
  by (simp add: good_client_def)

lemma act_good: "good_client cl \<Longrightarrow> good_client (act cl a)"
proof (cases a)
  case (EvResizeDone i rr)
  assume "good_client cl"
  then show ?thesis unfolding EvResizeDone
    by (auto simp: on_resize_done_def Let_def intro!: finish_good raise_good)
next
  case (EndSnapshot i w)
  assume g: "good_client cl"
  obtain r cl1 where s: "send_end i w cl = (r, cl1)" by (cases "send_end i w cl")
  have "good_client cl1" using send_end_good [OF s g] .
  then show ?thesis unfolding EndSnapshot
    using s by (auto simp: snapshot_end_def Let_def good_client_def windows_ok_merge split: sum.splits)
next
  case (EndResize i h sz w)
  assume g: "good_client cl"
  obtain r cl1 where s: "send_end i w cl = (r, cl1)" by (cases "send_end i w cl")
  have "good_client cl1" using send_end_good [OF s g] .
  then show ?thesis unfolding EndResize
    using s by (auto simp: resize_end_def resize_timeout_def Let_def
        split: sum.splits ctl_error.splits bool.splits option.splits)
next
  case (EndWindow i w)
  assume g: "good_client cl"
  obtain r cl1 where s: "send_end i w cl = (r, cl1)" by (cases "send_end i w cl")
  then show ?thesis using send_end_good [OF s g] unfolding EndWindow
    by (auto simp: window_end_def split: sum.splits)
next
  case (EndInput i w)
  assume g: "good_client cl"
  obtain r cl1 where s: "send_end i w cl = (r, cl1)" by (cases "send_end i w cl")
  then show ?thesis using send_end_good [OF s g] unfolding EndInput
    by (auto simp: input_end_def split: sum.splits)
next
  case (EvSnapshot hi lo)
  then show "good_client cl \<Longrightarrow> ?thesis" by (simp add: on_snapshot_def good_client_def)
next
  case (EvChanged w)
  then show "good_client cl \<Longrightarrow> ?thesis"
    by (simp add: on_toplevel_changed_def good_client_def windows_ok_update)
next
  case (EvRemoved h)
  then show "good_client cl \<Longrightarrow> ?thesis"
    by (simp add: on_toplevel_removed_def good_client_def windows_ok_delete)
next
  case (DoSend k snap)
  then show "good_client cl \<Longrightarrow> ?thesis"
    using enlist_good [of cl k snap] by (auto simp: send_begin_def split: prod.splits)
qed (auto simp: on_request_done_def on_request_failed_def on_resize_configured_def
    on_capture_authorized_def capture_begin_def capture_end_def Let_def
    split: wait_end.splits intro: finish_good raise_good fail_all_good enlist_good forget_good)

interpretation client_inv: invariant_machine act good_client
  by unfold_locales (rule act_good)

lemma run_good: "good_client (run_client as)"
proof -
  have "good_client new_client"
    by (simp add: new_client_def good_client_def calls_ok_def keyed_def windows_ok_def)
  then show ?thesis unfolding run_client_def by (rule client_inv.inv_run)
qed

section \<open>What a reply is\<close>

lemma map_of_keyed: "map_of (cl_pending cl) i = Some p \<Longrightarrow> (i, pd_call p) \<in> set (keyed (cl_pending cl))"
  by (auto simp: keyed_def dest!: map_of_SomeD intro: rev_image_eqI)

lemma pending_unanswered: "good_client cl \<Longrightarrow> map_of (cl_pending cl) i = Some p \<Longrightarrow> cl_replies cl (pd_call p) = []"
  using map_of_keyed by (fastforce simp: good_client_def calls_ok_def)

lemma finish_replies:
  assumes "good_client cl" and "map_of (cl_pending cl) i = Some p"
  shows "cl_replies (finish i oc cl) (pd_call p) = [(oc, case pd_snapshot p of None \<Rightarrow> [] | Some ws \<Rightarrow> ws)]"
  using pending_unanswered [OF assms] assms(2) by (simp add: finish_def deliver_def)

lemma fold_deliver_other:
  "k \<notin> (pd_call \<circ> snd) ` set ps \<Longrightarrow> cl_replies (fold (\<lambda>(i, p). deliver p oc) ps cl) k = cl_replies cl k"
  by (induction ps arbitrary: cl) (auto simp: deliver_def)

lemma fold_deliver_replies:
  "distinct (map (pd_call \<circ> snd) ps) \<Longrightarrow> (i, p) \<in> set ps \<Longrightarrow>
    cl_replies (fold (\<lambda>(i, p). deliver p oc) ps cl) (pd_call p) =
      cl_replies cl (pd_call p) @ [(oc, case pd_snapshot p of None \<Rightarrow> [] | Some ws \<Rightarrow> ws)]"
proof (induction ps arbitrary: cl)
  case (Cons x ps)
  obtain j q where x: "x = (j, q)" by (cases x)
  show ?case
  proof (cases "(i, p) \<in> set ps")
    case True
    then have "pd_call p \<noteq> pd_call q" using Cons.prems(1) x by (force simp: image_iff)
    then show ?thesis using Cons.IH [OF _ True, of "deliver q oc cl"] Cons.prems(1) x by (simp add: deliver_def)
  next
    case False
    then have "p = q" using Cons.prems(2) x by auto
    have "cl_replies (fold (\<lambda>(i, p). deliver p oc) ps (deliver q oc cl)) (pd_call q) =
        cl_replies (deliver q oc cl) (pd_call q)"
      using Cons.prems(1) x by (intro fold_deliver_other) simp
    moreover have "cl_replies (deliver q oc cl) (pd_call q) =
        cl_replies cl (pd_call q) @ [(oc, case pd_snapshot q of None \<Rightarrow> [] | Some ws \<Rightarrow> ws)]"
      by (simp add: deliver_def)
    ultimately show ?thesis using x \<open>p = q\<close> by simp
  qed
qed simp

lemma fail_all_replies:
  assumes g: "good_client cl" and p: "map_of (cl_pending cl) i = Some p"
  shows "\<exists>ws. cl_replies (fail_all e cl) (pd_call p) = [(\<lparr>oc_err = Some e, oc_revision = 0, oc_resize = None\<rparr>, ws)]"
proof -
  have "map snd (keyed (cl_pending cl)) = map (pd_call \<circ> snd) (cl_pending cl)"
    by (simp add: keyed_def case_prod_beta)
  then have d: "distinct (map (pd_call \<circ> snd) (cl_pending cl))"
    using g by (simp add: good_client_def calls_ok_def)
  show ?thesis
    using fold_deliver_replies [OF d map_of_SomeD [OF p]] pending_unanswered [OF g p]
    by (simp add: fail_all_def)
qed

section \<open>Properties\<close>

text \<open>
  C23. In any interleaving of events, requests, cancellations and a lost connection, every
  call is answered at most once, so the dispatcher never blocks on a reply channel; a
  call still pending has no answer; the answer of a request event and the loss of the
  connection reach the call that waits, exactly once.
\<close>

theorem calls_answered_once:
  "length (cl_replies (run_client as) k) \<le> 1 \<and>
   (map_of (cl_pending (run_client as)) i = Some p \<longrightarrow>
      cl_replies (run_client as) (pd_call p) = [] \<and>
      length (cl_replies (run_client (as @ [EvDone i hi lo])) (pd_call p)) = 1 \<and>
      length (cl_replies (run_client (as @ [EvFailed i c m])) (pd_call p)) = 1 \<and>
      (\<exists>ws. cl_replies (run_client (as @ [EvLost e])) (pd_call p) =
         [(\<lparr>oc_err = Some e, oc_revision = 0, oc_resize = None\<rparr>, ws)]))"
proof (intro conjI impI)
  let ?cl = "run_client as"
  note g = run_good [of as]
  show "length (cl_replies ?cl k) \<le> 1" using g by (simp add: good_client_def calls_ok_def)
  assume p: "map_of (cl_pending ?cl) i = Some p"
  show "cl_replies ?cl (pd_call p) = []" by (rule pending_unanswered [OF g p])
  have r: "good_client (raise_revision v ?cl)" "map_of (cl_pending (raise_revision v ?cl)) i = Some p" for v
    using raise_good [OF g] p by (simp_all add: raise_revision_def)
  show "length (cl_replies (run_client (as @ [EvDone i hi lo])) (pd_call p)) = 1"
    using finish_replies [OF r] by (simp add: run_client_def on_request_done_def Let_def)
  show "length (cl_replies (run_client (as @ [EvFailed i c m])) (pd_call p)) = 1"
    using finish_replies [OF g p] by (simp add: run_client_def on_request_failed_def)
  show "\<exists>ws. cl_replies (run_client (as @ [EvLost e])) (pd_call p) =
      [(\<lparr>oc_err = Some e, oc_revision = 0, oc_resize = None\<rparr>, ws)]"
    using fail_all_replies [OF g p] by (simp add: run_client_def)
qed

theorem calls_answered_once_witness:
  "map_of (cl_pending (run_client [DoSend WaitRequest (Some [])])) 1 =
     Some \<lparr>pd_kind = WaitRequest, pd_call = 0, pd_snapshot = Some []\<rparr> \<and>
   length (cl_replies (run_client ([DoSend WaitRequest (Some [])] @ [EvDone 1 0 7])) 0) = 1"
proof -
  have p: "map_of (cl_pending (run_client [DoSend WaitRequest (Some [])])) 1 =
     Some \<lparr>pd_kind = WaitRequest, pd_call = 0, pd_snapshot = Some []\<rparr>"
    by (simp add: run_client_def send_begin_def enlist_def new_client_def Let_def)
  show ?thesis
    using calls_answered_once [THEN conjunct2, THEN mp, OF p] p by simp
qed

lemma merge_one_lookup:
  "map_of (merge_one gone w cached) h =
     (if h = wn_handle w \<and> h \<notin> set gone \<and>
         (case map_of cached h of None \<Rightarrow> True | Some k \<Rightarrow> wn_revision k < wn_revision w)
      then Some w else map_of cached h)"
  by (auto simp: merge_one_def update_conv' split: option.splits)

lemma merge_lookup:
  assumes "distinct (map wn_handle snap)"
  shows "map_of (merge_snapshot cached gone snap) h =
    (if h \<in> set gone then map_of cached h
     else (case List.find (\<lambda>w. wn_handle w = h) snap of
             None \<Rightarrow> map_of cached h
           | Some w \<Rightarrow> (case map_of cached h of
                Some k \<Rightarrow> if wn_revision k < wn_revision w then Some w else Some k
              | None \<Rightarrow> Some w)))"
  using assms
proof (induction snap arbitrary: cached)
  case Nil
  then show ?case by (simp add: merge_snapshot_def)
next
  case (Cons x snap)
  have step: "merge_snapshot cached gone (x # snap) = merge_snapshot (merge_one gone x cached) gone snap"
    by (simp add: merge_snapshot_def)
  have ih: "map_of (merge_snapshot (merge_one gone x cached) gone snap) h =
    (if h \<in> set gone then map_of (merge_one gone x cached) h
     else (case List.find (\<lambda>w. wn_handle w = h) snap of
             None \<Rightarrow> map_of (merge_one gone x cached) h
           | Some w \<Rightarrow> (case map_of (merge_one gone x cached) h of
                Some k \<Rightarrow> if wn_revision k < wn_revision w then Some w else Some k
              | None \<Rightarrow> Some w)))"
    using Cons.IH Cons.prems by simp
  show ?case
  proof (cases "wn_handle x = h")
    case True
    have "wn_handle x \<notin> wn_handle ` set snap" using Cons.prems by simp
    then have "List.find (\<lambda>w. wn_handle w = h) snap = None"
      unfolding find_None_iff using True by (metis imageI)
    then show ?thesis unfolding step ih using True by (auto simp: merge_one_lookup split: option.splits)
  next
    case False
    then have eq: "map_of (merge_one gone x cached) h = map_of cached h" by (auto simp: merge_one_lookup)
    show ?thesis unfolding step ih eq using False by simp
  qed
qed

text \<open>
  A snapshot never undoes what events already reported: merging one keeps the newest
  revision of every window, adds the windows the cache does not have, and never revives a
  handle that was removed; every other cached window stays.
\<close>

lemma snapshot_merge:
  assumes "distinct (map wn_handle snap)"
  shows "map_of (merge_snapshot cached gone snap) h =
    (if h \<in> set gone then map_of cached h
     else (case List.find (\<lambda>w. wn_handle w = h) snap of
             None \<Rightarrow> map_of cached h
           | Some w \<Rightarrow> (case map_of cached h of
                Some k \<Rightarrow> if wn_revision k < wn_revision w then Some w else Some k
              | None \<Rightarrow> Some w)))"
  using assms by (rule merge_lookup)

definition demo_window :: "string \<Rightarrow> u64 \<Rightarrow> window" where
  "demo_window h r = \<lparr>wn_handle = h, wn_title = [], wn_app_id = [], wn_x = 0, wn_y = 0,
     wn_size = zero_size, wn_state = 0, wn_revision = r\<rparr>"

lemma snapshot_merge_witness:
  "map_of (merge_snapshot [] [''gone''] [demo_window ''gone'' 3, demo_window ''w1'' 4]) ''gone'' = None \<and>
   map_of (merge_snapshot [] [''gone''] [demo_window ''gone'' 3, demo_window ''w1'' 4]) ''w1'' =
     Some (demo_window ''w1'' 4)"
proof -
  have d: "distinct (map wn_handle [demo_window ''gone'' 3, demo_window ''w1'' 4])"
    by (simp add: demo_window_def)
  show ?thesis
    using snapshot_merge [OF d, of "[]" "[''gone'']" "''gone''"] snapshot_merge [OF d, of "[]" "[''gone'']" "''w1''"]
    by (simp add: demo_window_def)
qed

lemma windows_ok_handles: "windows_ok ws \<Longrightarrow> distinct (map wn_handle (map snd ws))"
proof -
  assume w: "windows_ok ws"
  then have h: "map (wn_handle \<circ> snd) ws = map fst ws" by (auto simp: windows_ok_def)
  show ?thesis unfolding map_map h using w by (simp add: windows_ok_def)
qed

lemma state_of_windows: "cst_windows (state_of cl) = sort_toplevels (map snd (cl_windows cl))"
  by (simp add: state_of_def)

lemma distinct_mapD: "distinct (map f xs) \<Longrightarrow> distinct xs"
  by (simp add: distinct_map)

lemma distinct_map_sort_key: "distinct (map f xs) \<Longrightarrow> distinct (map f (sort_key f xs))"
  using distinct_map [of f xs] distinct_map [of f "sort_key f xs"] by simp

lemma sorted_windows_unique:
  assumes "windows_ok xs" and "windows_ok ys" and "map_of xs = map_of ys"
  shows "sort_toplevels (map snd xs) = sort_toplevels (map snd ys)"
proof -
  note d = windows_ok_handles
  have s: "set xs = set ys"
    using assms map_of_inject_set [of xs ys] by (simp add: windows_ok_def)
  have "distinct (map snd xs)" "distinct (map snd ys)"
    by (rule distinct_mapD [OF d [OF assms(1)]], rule distinct_mapD [OF d [OF assms(2)]])
  then have m: "mset (map snd xs) = mset (map snd ys)"
    using s set_eq_iff_mset_eq_distinct [of "map snd xs" "map snd ys"] by simp
  show ?thesis unfolding sort_toplevels_def
  proof (rule sort_key_inj_key_eq)
    show "mset (map snd xs) = mset (sort_key wn_handle (map snd ys))" using m by simp
    show "inj_on wn_handle (set (map snd xs))" using d [OF assms(1)] unfolding distinct_map [of wn_handle] by (rule conjunct2)
    show "sorted (map wn_handle (sort_key wn_handle (map snd ys)))" by simp
  qed
qed

text \<open>
  The reported state is stable: the windows come ordered by handle, each handle once,
  and two clients whose maps hold the same windows report the same list, whatever order
  the maps are walked in.
\<close>

lemma state_stable:
  "sorted (map wn_handle (cst_windows (state_of (run_client as)))) \<and>
   distinct (map wn_handle (cst_windows (state_of (run_client as)))) \<and>
   (map_of (cl_windows (run_client as)) = map_of (cl_windows (run_client bs)) \<longrightarrow>
      cst_windows (state_of (run_client as)) = cst_windows (state_of (run_client bs)))"
proof (intro conjI impI)
  have w: "windows_ok (cl_windows (run_client cs))" for cs
    using run_good by (simp add: good_client_def)
  show "sorted (map wn_handle (cst_windows (state_of (run_client as))))"
    unfolding state_of_windows sort_toplevels_def by (rule sorted_sort_key)
  show "distinct (map wn_handle (cst_windows (state_of (run_client as))))"
    unfolding state_of_windows sort_toplevels_def
    by (rule distinct_map_sort_key [OF windows_ok_handles [OF w]])
  show "cst_windows (state_of (run_client as)) = cst_windows (state_of (run_client bs))"
    if "map_of (cl_windows (run_client as)) = map_of (cl_windows (run_client bs))"
    unfolding state_of_windows by (rule sorted_windows_unique [OF w w that])
qed

lemma state_stable_witness:
  "cst_windows (state_of (run_client [EvChanged (demo_window ''b'' 1), EvChanged (demo_window ''a'' 2)])) =
   cst_windows (state_of (run_client [EvChanged (demo_window ''a'' 2), EvChanged (demo_window ''b'' 1)]))"
proof -
  have "map_of (cl_windows (run_client [EvChanged (demo_window ''b'' 1), EvChanged (demo_window ''a'' 2)])) =
    map_of (cl_windows (run_client [EvChanged (demo_window ''a'' 2), EvChanged (demo_window ''b'' 1)]))"
    by (simp add: run_client_def on_toplevel_changed_def new_client_def demo_window_def fun_upd_twist)
  then show ?thesis using state_stable by blast
qed

fun action_id :: "action \<Rightarrow> u32 option" where
  "action_id (EvDone i _ _) = Some i"
| "action_id (EvFailed i _ _) = Some i"
| "action_id (EvConfigured i _ _) = Some i"
| "action_id (EvResizeDone i _) = Some i"
| "action_id (EvAuthorized i) = Some i"
| "action_id (EndResize i _ _ _) = Some i"
| "action_id _ = None"

lemma finish_progress: "j \<noteq> i \<Longrightarrow> map_of (cl_progress (finish j oc cl)) i = map_of (cl_progress cl) i"
  by (auto simp: finish_def Let_def delete_conv' split: option.splits)

lemma send_end_progress: "send_end j w cl = (r, cl') \<Longrightarrow> cl_progress cl' = cl_progress cl"
  by (auto simp: send_end_def forget_def split: wait_end.splits)

lemma fold_deliver_progress: "cl_progress (fold (\<lambda>(i, p). deliver p oc) ps cl) = cl_progress cl"
  by (induction ps arbitrary: cl) auto

lemma raise_progress [simp]: "cl_progress (raise_revision r cl) = cl_progress cl"
  by (simp add: raise_revision_def)

lemma act_progress:
  assumes "action_id a \<noteq> Some i"
  shows "map_of (cl_progress (act cl a)) i = map_of (cl_progress cl) i"
proof (cases a)
  case (EndResize j h sz w)
  obtain r cl1 where s: "send_end j w cl = (r, cl1)" by (cases "send_end j w cl")
  have j: "j \<noteq> i" using assms EndResize by simp
  show ?thesis using s j send_end_progress [OF s] unfolding EndResize
    by (auto simp: resize_end_def resize_timeout_def Let_def delete_conv'
        split: sum.splits ctl_error.splits bool.splits option.splits)
next
  case (EvResizeDone j rr)
  then have "j \<noteq> i" using assms by simp
  then show ?thesis unfolding EvResizeDone
    by (auto simp: on_resize_done_def Let_def finish_progress update_conv')
next
  case (EndSnapshot j w)
  obtain r cl1 where s: "send_end j w cl = (r, cl1)" by (cases "send_end j w cl")
  show ?thesis using s send_end_progress [OF s] unfolding EndSnapshot
    by (auto simp: snapshot_end_def Let_def split: sum.splits)
next
  case (EndWindow j w)
  obtain r cl1 where s: "send_end j w cl = (r, cl1)" by (cases "send_end j w cl")
  show ?thesis using s send_end_progress [OF s] unfolding EndWindow
    by (auto simp: window_end_def split: sum.splits)
next
  case (EndInput j w)
  obtain r cl1 where s: "send_end j w cl = (r, cl1)" by (cases "send_end j w cl")
  show ?thesis using s send_end_progress [OF s] unfolding EndInput
    by (auto simp: input_end_def split: sum.splits)
qed (use assms in \<open>auto simp: on_snapshot_def on_toplevel_changed_def on_toplevel_removed_def
    on_request_done_def on_request_failed_def on_resize_configured_def on_capture_authorized_def
    send_begin_def capture_begin_def capture_end_def enlist_def forget_def fail_all_def Let_def
    finish_progress fold_deliver_progress update_conv' split: prod.splits wait_end.splits\<close>)

lemma run_progress:
  "list_all (\<lambda>a. action_id a \<noteq> Some i) as \<Longrightarrow>
    map_of (cl_progress (foldl act cl as)) i = map_of (cl_progress cl) i"
  by (induction as arbitrary: cl) (simp_all add: act_progress)

text \<open>
  C31. A resize that timed out reports what was observed for its own request only: events
  and requests of other identifiers leave its progress as it is, and the failure names the
  handle and the four sizes, a size nothing reported being unknown.
\<close>

theorem resize_progress_own:
  assumes "list_all (\<lambda>a. action_id a \<noteq> Some i) as"
  shows "progress_of i (foldl act cl as) = progress_of i cl \<and>
    f_code (fst (resize_timeout i h rq (foldl act cl as))) = WaitTimeout \<and>
    map_of (f_details (fst (resize_timeout i h rq (foldl act cl as)))) ''configured'' =
      Some (observed_size (rg_configured (progress_of i cl))) \<and>
    map_of (f_details (fst (resize_timeout i h rq (foldl act cl as)))) ''committed'' =
      Some (observed_size (rg_committed (progress_of i cl)))"
proof -
  have "progress_of i (foldl act cl as) = progress_of i cl"
    using run_progress [OF assms] by (simp add: progress_of_def)
  then show ?thesis by (simp add: resize_timeout_def Let_def)
qed

theorem resize_progress_own_witness:
  "map_of (f_details (fst (resize_timeout 1 ''w1'' zero_size
     (foldl act new_client [EvConfigured 2 640 480])))) ''configured'' = Some ''unknown''"
proof -
  have "list_all (\<lambda>a. action_id a \<noteq> Some 1) [EvConfigured 2 640 480]" by simp
  from resize_progress_own [OF this, of new_client "''w1''" zero_size] show ?thesis
    by (simp add: progress_of_def new_client_def observed_size_def)
qed

section \<open>What the model shows of the code\<close>

text \<open>
  After the connection was lost a request is refused at once, but asking for a capture is
  not: it enlists a call that nothing will answer.
\<close>

lemma capture_after_loss:
  assumes "cl_closed cl"
  shows "fst (send_begin k snap cl) = Inl CtlClosed \<and>
    (\<exists>p. map_of (cl_pending (snd (capture_begin cl))) (fst (capture_begin cl)) = Some p)"
  using assms by (simp add: send_begin_def capture_begin_def enlist_def Let_def update_conv')

text \<open>A resize that was cancelled, not timed out, leaves its progress behind.\<close>

lemma cancelled_resize_leaks:
  "cl_progress (snd (resize_end i h sz (CtxDone False) cl)) = cl_progress cl"
  by (simp add: resize_end_def send_end_def forget_def)

end
