(* ===== verification/Control_Requests.thy ===== *)
theory Control_Requests
  imports Complex_Main Control_Client
begin

text \<open>
  The requests the control client writes (\<open>internal/control/client.go\<close>): what each operation
  puts on the connection for a request identifier. A revision travels as its two words; a
  position as the integer part of a float, or in 24.8 fixed point. What the machine makes of
  a float that does not fit 32 bits is the conversion's own, the parameter \<open>wild\<close>.
\<close>

datatype ctl_request =
    SnapshotRequest u32
  | ActivateRequest u32 string u32 u32
  | MoveRequest u32 string u32 u32 int int
  | ResizeRequest u32 string u32 u32 u32 u32
  | CloseRequest u32 string u32 u32
  | MotionRequest u32 int int
  | ButtonRequest u32 u32 u32
  | AxisRequest u32 u32 int
  | KeyRequest u32 u32 u32
  | CaptureRequest u32

definition toward_zero :: "rat \<Rightarrow> int" where
  "toward_zero q = (if q < 0 then - \<lfloor>- q\<rfloor> else \<lfloor>q\<rfloor>)"

definition int32_of :: "(f64 \<Rightarrow> int) \<Rightarrow> f64 \<Rightarrow> int" where
  "int32_of wild v =
     (case v of
        Fin q \<Rightarrow> (if - (2 ^ 31) \<le> toward_zero q \<and> toward_zero q < 2 ^ 31 then toward_zero q else wild v)
      | _ \<Rightarrow> wild v)"

text \<open>Multiplying by 256 is exact; only a product beyond the largest float is rounded, and that is out of range.\<close>

definition fixed_from_float :: "(f64 \<Rightarrow> int) \<Rightarrow> f64 \<Rightarrow> int" where
  "fixed_from_float wild v = int32_of wild (case v of Fin q \<Rightarrow> Fin (q * 256) | _ \<Rightarrow> v)"

definition button_state :: "bool \<Rightarrow> u32" where
  "button_state pressed = (if pressed then 1 else 0)"

definition window_request :: "(u32 \<Rightarrow> string \<Rightarrow> u32 \<Rightarrow> u32 \<Rightarrow> ctl_request) \<Rightarrow> string \<Rightarrow> u64 \<Rightarrow> u32 \<Rightarrow> ctl_request" where
  "window_request f h v i = (case revision_words v of (hi, lo) \<Rightarrow> f i h hi lo)"

definition activate_request :: "string \<Rightarrow> u64 \<Rightarrow> u32 \<Rightarrow> ctl_request" where
  "activate_request = window_request ActivateRequest"

definition close_request :: "string \<Rightarrow> u64 \<Rightarrow> u32 \<Rightarrow> ctl_request" where
  "close_request = window_request CloseRequest"

definition move_request_on :: "(f64 \<Rightarrow> int) \<Rightarrow> string \<Rightarrow> u64 \<Rightarrow> f64 \<Rightarrow> f64 \<Rightarrow> u32 \<Rightarrow> ctl_request" where
  "move_request_on wild h v x y =
     window_request (\<lambda>i h hi lo. MoveRequest i h hi lo (int32_of wild x) (int32_of wild y)) h v"

definition resize_request_on :: "string \<Rightarrow> size \<Rightarrow> u64 \<Rightarrow> u32 \<Rightarrow> ctl_request" where
  "resize_request_on h z v =
     window_request (\<lambda>i h hi lo. ResizeRequest i h hi lo (sz_width z) (sz_height z)) h v"

text \<open>An empty pointer event is an error and nothing is written.\<close>

fun pointer_issue :: "(f64 \<Rightarrow> int) \<Rightarrow> pointer_event \<Rightarrow> u32 \<Rightarrow> ctl_error + ctl_request" where
  "pointer_issue wild (Motion x y) i = Inr (MotionRequest i (fixed_from_float wild x) (fixed_from_float wild y))"
| "pointer_issue wild (Button b pressed) i = Inr (ButtonRequest i b (button_state pressed))"
| "pointer_issue wild (Axis a v) i = Inr (AxisRequest i a (fixed_from_float wild v))"
| "pointer_issue wild NoPointerEvent i = Inl (CtlOther ''empty pointer event'')"

definition key_issue :: "key_event \<Rightarrow> u32 \<Rightarrow> ctl_request" where
  "key_issue e i = KeyRequest i (ke_key e) (button_state (ke_pressed e))"

text \<open>
  The words of a window request carry the revision the caller saw, for every request that
  names a window: the compositor that joins them compares against that very revision.
\<close>

fun request_revision :: "ctl_request \<Rightarrow> u64 option" where
  "request_revision (ActivateRequest i h hi lo) = Some (revision_from_words hi lo)"
| "request_revision (MoveRequest i h hi lo x y) = Some (revision_from_words hi lo)"
| "request_revision (ResizeRequest i h hi lo w t) = Some (revision_from_words hi lo)"
| "request_revision (CloseRequest i h hi lo) = Some (revision_from_words hi lo)"
| "request_revision _ = None"

lemma words_joined: "revision_words v = (hi, lo) \<Longrightarrow> revision_from_words hi lo = v"
  using words_of_revision [of v] by simp

lemma request_carries_revision:
  "request_revision (activate_request h v i) = Some v"
  "request_revision (close_request h v i) = Some v"
  "request_revision (move_request_on wild h v x y i) = Some v"
  "request_revision (resize_request_on h z v i) = Some v"
  by (auto simp: activate_request_def close_request_def move_request_on_def resize_request_on_def
      window_request_def words_joined split: prod.split)

text \<open>A position inside the 32-bit range loses its fraction when a window is moved, toward zero.\<close>

lemma toward_zero_near: "\<bar>of_int (toward_zero q) - q\<bar> < 1"
  unfolding toward_zero_def by (auto simp: abs_if) linarith+

lemma move_fraction_lost:
  assumes "\<bar>q\<bar> < 2 ^ 31"
  shows "int32_of wild (Fin q) = toward_zero q"
proof -
  have "- (2 ^ 31) \<le> toward_zero q \<and> toward_zero q < 2 ^ 31"
    using assms by (cases "q < 0") (auto simp: toward_zero_def floor_less_iff le_floor_iff intro: le_less_trans [of _ 0])
  then show ?thesis by (simp add: int32_of_def)
qed

text \<open>In 24.8 fixed point a coordinate is exact to less than a 256th of a pixel.\<close>

lemma fixed_point_close:
  assumes "\<bar>q\<bar> < 2 ^ 23"
  shows "\<bar>of_int (fixed_from_float wild (Fin q)) / 256 - q\<bar> < 1 / 256"
proof -
  have "fixed_from_float wild (Fin q) = toward_zero (q * 256)"
    using assms move_fraction_lost [of "q * 256" wild] by (simp add: fixed_from_float_def abs_mult)
  moreover have "\<bar>of_int (toward_zero (q * 256)) - q * 256\<bar> < 1" by (rule toward_zero_near)
  ultimately show ?thesis by (simp add: abs_if split: if_splits)
qed

section \<open>The connection\<close>

text \<open>
  \<open>Connect\<close> goes through the display library: what opening, the round trips, the search of
  the global, the binding and the creation of the controller answer is \<open>dialing\<close>. The trace
  says what was done to the connection.
\<close>

record dialing =
  di_open :: "string \<Rightarrow> string + unit"
  di_globals :: "string option"
  di_found :: bool
  di_bind :: "string option"
  di_create :: "string option"
  di_handshake :: "string option"

datatype dial_step = Opened string | BoundManager | CreatedController | HandlersRegistered | DispatchStarted | DialClosed

definition control_interface :: string where
  "control_interface = ''wlvision_control_v1''"

definition dial_failed :: "string \<Rightarrow> dial_step list \<Rightarrow> (string + client) \<times> dial_step list" where
  "dial_failed m steps = (Inl m, steps @ [DialClosed])"

definition connect_client :: "dialing \<Rightarrow> string \<Rightarrow> (string + client) \<times> dial_step list" where
  "connect_client d socket =
     (case di_open d socket of
        Inl e \<Rightarrow> (Inl (''connect to compositor: '' @ e), [])
      | Inr _ \<Rightarrow>
     case di_globals d of
        Some e \<Rightarrow> dial_failed (''enumerate globals: '' @ e) [Opened socket]
      | None \<Rightarrow>
     if \<not> di_found d then dial_failed (''compositor does not offer '' @ control_interface) [Opened socket]
     else
     (case di_bind d of
        Some e \<Rightarrow> dial_failed (''bind '' @ control_interface @ '': '' @ e) [Opened socket]
      | None \<Rightarrow>
     case di_create d of
        Some e \<Rightarrow> dial_failed (''create controller: '' @ e) [Opened socket, BoundManager]
      | None \<Rightarrow>
     case di_handshake d of
        Some e \<Rightarrow> dial_failed (''controller handshake: '' @ e)
                    [Opened socket, BoundManager, CreatedController, HandlersRegistered]
      | None \<Rightarrow> (Inr new_client,
                  [Opened socket, BoundManager, CreatedController, HandlersRegistered, DispatchStarted])))"

text \<open>A connection that was opened is closed exactly when no client comes back.\<close>

lemma connect_closes:
  "DialClosed \<in> set (snd (connect_client d socket)) \<longleftrightarrow>
     Opened socket \<in> set (snd (connect_client d socket)) \<and> (\<exists>m. fst (connect_client d socket) = Inl m)"
  by (auto simp: connect_client_def dial_failed_def split: sum.splits option.splits if_splits)

lemma dispatch_after_handshake:
  "DispatchStarted \<in> set (snd (connect_client d socket)) \<longleftrightarrow> (\<exists>cl. fst (connect_client d socket) = Inr cl)"
  by (auto simp: connect_client_def dial_failed_def split: sum.splits option.splits if_splits)

text \<open>The frame channel holds 64 announcements; one that finds it full is dropped.\<close>

definition push_frame :: "u32 \<Rightarrow> u32 \<Rightarrow> frame list \<Rightarrow> frame list" where
  "push_frame i n fs =
     (if length fs < 64 then fs @ [\<lparr>fm_capture_request_id = ucast i, fm_sequence = ucast n\<rparr>] else fs)"

lemma push_frame_bound: "length fs \<le> 64 \<Longrightarrow> length (push_frame i n fs) \<le> 64"
  by (simp add: push_frame_def)

text \<open>
  \<open>dispatch\<close> handles events until one read of the connection fails; everything waiting is
  then answered with the closed connection. A read is the events it handled or an error.
\<close>

fun dispatch_loop :: "(action list + string) list \<Rightarrow> client \<Rightarrow> client" where
  "dispatch_loop [] cl = cl"
| "dispatch_loop (Inl evs # rs) cl = dispatch_loop rs (foldl act cl evs)"
| "dispatch_loop (Inr e # rs) cl = fail_all CtlClosed cl"

text \<open>\<open>Close\<close> runs once: the waiters are released, the connection and the frame channel closed.\<close>

record link =
  lk_once :: bool
  lk_display_closed :: bool
  lk_frames_closed :: bool

definition close_client :: "link \<times> client \<Rightarrow> link \<times> client" where
  "close_client s =
     (case s of (lk, cl) \<Rightarrow>
        if lk_once lk then (lk, cl)
        else (\<lparr>lk_once = True, lk_display_closed = True, lk_frames_closed = True\<rparr>, fail_all CtlClosed cl))"

lemma close_client_idempotent: "close_client (close_client s) = close_client s"
  by (simp add: close_client_def split: prod.split)

lemma fail_all_closed [simp]: "cl_closed (fail_all e cl)" "cl_pending (fail_all e cl) = []"
  by (simp_all add: fail_all_def fold_deliver_sel)

text \<open>Once the connection failed nothing waits, and every request but a capture is refused.\<close>

lemma dispatch_ends_closed:
  "Inr e \<in> set rs \<Longrightarrow>
     cl_pending (dispatch_loop rs cl) = [] \<and> send_begin k w (dispatch_loop rs cl) = (Inl CtlClosed, dispatch_loop rs cl)"
proof (induction rs cl rule: dispatch_loop.induct)
  case (3 e rs cl)
  show ?case by (simp add: send_begin_def)
qed (simp_all del: act.simps)

end
