(* ===== verification/Input_Conserved.thy ===== *)
theory Input_Conserved
  imports Input_Service
begin

text \<open>
  What the input service leaves alone: its operations touch the world only through the
  caller, so whatever part of the world a call conserves, every operation conserves, the
  clean-up of an interrupted one included.
\<close>

locale conserved_caller =
  fixes v :: "'w \<Rightarrow> 'v" and c :: "'w caller"
  assumes call_keeps: "v (snd (c cx op ps w)) = v w"
begin

abbreviation held :: "'w chan \<Rightarrow> 'v" where
  "held ch \<equiv> v (ch_world ch)"

lemma send_kept: "send c cx op ps ch = (r, ch') \<Longrightarrow> held ch' = held ch"
  using call_keeps [of cx op ps "ch_world ch"] by (auto simp: send_def split: prod.splits)

lemma send_keeps [simp]: "held (snd (send c cx op ps ch)) = held ch"
  using send_kept by (metis prod.collapse)

lemma call_error_kept: "call_error (send c cx op ps ch) = (r, ch') \<Longrightarrow> held ch' = held ch"
  using send_kept [of cx op ps ch] by (cases "send c cx op ps ch") (auto simp: call_error_def)

lemma snapshot_kept: "snapshot c ch = (r, ch') \<Longrightarrow> held ch' = held ch"
  by (auto simp: snapshot_def dest!: send_kept split: prod.splits sum.splits option.splits)

lemma resolve_kept: "resolve c op tg ch = (r, ch') \<Longrightarrow> held ch' = held ch"
  by (auto simp: resolve_def Let_def dest!: snapshot_kept
      split: prod.splits sum.splits option.splits if_splits)

lemma mutate_kept: "mutate c op ps ch = (r, ch') \<Longrightarrow> held ch' = held ch"
  by (auto simp: mutate_def dest!: send_kept split: prod.splits sum.splits option.splits)

lemma windows_kept:
  "windows c ch = (r, ch') \<Longrightarrow> held ch' = held ch"
  "activate c tg ch = (r, ch') \<Longrightarrow> held ch' = held ch"
  "move_window c mv ch = (r, ch') \<Longrightarrow> held ch' = held ch"
  "resize_window c rz ch = (q, ch') \<Longrightarrow> held ch' = held ch"
  "close_window c tg ch = (r, ch') \<Longrightarrow> held ch' = held ch"
  by (auto simp: windows_def activate_def move_window_def resize_window_def close_window_def Let_def
      dest!: snapshot_kept resolve_kept mutate_kept send_kept
      split: prod.splits sum.splits option.splits if_splits)

lemma release_kept:
  "release_button c b ch = (r, ch') \<Longrightarrow> held ch' = held ch"
  "release_key c k ch = (r, ch') \<Longrightarrow> held ch' = held ch"
  "send_key c k st ch = (r, ch') \<Longrightarrow> held ch' = held ch"
  by (auto simp: release_button_def release_key_def send_key_def dest: call_error_kept)

lemma click_kept: "click rnd c rq ch = (r, ch') \<Longrightarrow> held ch' = held ch"
  by (auto simp: click_def Let_def dest!: snapshot_kept resolve_kept call_error_kept send_kept release_kept
      split: prod.splits sum.splits option.splits if_splits)

lemma pointer_kept:
  "pointer_op c rq ch = (r, ch') \<Longrightarrow> held ch' = held ch"
  "scroll c axis value ch = (r, ch') \<Longrightarrow> held ch' = held ch"
  by (auto simp: pointer_op_def scroll_def dest!: call_error_kept
      split: prod.splits sum.splits option.splits if_splits)

lemma key_kept:
  "press_key keymap c rq ch = (r, ch') \<Longrightarrow> held ch' = held ch"
  "tap_key keymap c rq ch = (r, ch') \<Longrightarrow> held ch' = held ch"
  by (auto simp: press_key_def tap_key_def Let_def dest!: call_error_kept release_kept
      split: prod.splits sum.splits option.splits if_splits)

lemma release_list_kept [simp]: "held (release_list c ks ch) = held ch"
  by (induction ks arbitrary: ch) simp_all

lemma release_keys_kept [simp]: "held (release_keys keymap c shift_down pressed ch) = held ch"
  by (simp add: release_keys_def Let_def split: sum.split)

lemma type_loop_kept: "type_loop keymap c sh sts down pressed ch = (r, ch') \<Longrightarrow> held ch' = held ch"
proof (induction sts arbitrary: down pressed ch)
  case (Cons st sts)
  obtain e1 down1 ch1 where shift:
      "(if st_shift st \<and> \<not> down then case send_key c sh state_pressed ch of (e, ch') \<Rightarrow> (e, True, ch')
        else (None, down, ch)) = (e1, down1, ch1)" by (metis prod_cases3)
  then have one: "held ch1 = held ch" by (auto dest: release_kept split: if_splits prod.splits)
  obtain e2 ch2 where press: "send_key c (st_keycode st) state_pressed ch1 = (e2, ch2)" by fastforce
  obtain e3 ch3 where up: "send_key c (st_keycode st) state_released ch2 = (e3, ch3)" by fastforce
  obtain e4 ch4 where shift_up: "send_key c sh state_released ch3 = (e4, ch4)" by fastforce
  have "held ch2 = held ch" "held ch3 = held ch" "held ch4 = held ch"
    using one release_kept(3) [OF press] release_kept(3) [OF up] release_kept(3) [OF shift_up] by simp_all
  moreover have "(case e1 of
      Some e \<Rightarrow> (Some e, release_keys keymap c down1 pressed ch1)
    | None \<Rightarrow>
        (case e2 of
           Some e \<Rightarrow> (Some e, release_keys keymap c down1 (pressed @ [st_keycode st]) ch2)
         | None \<Rightarrow>
             (case e3 of
                Some e \<Rightarrow> (Some e, release_keys keymap c down1 (pressed @ [st_keycode st]) ch3)
              | None \<Rightarrow>
                  if st_shift st \<and> down1 then
                    (case e4 of
                       Some e \<Rightarrow> (Some e, release_keys keymap c down1 pressed ch4)
                     | None \<Rightarrow> type_loop keymap c sh sts False pressed ch4)
                  else type_loop keymap c sh sts down1 pressed ch3))) = (r, ch')"
    using Cons.prems unfolding type_loop.simps shift Let_def prod.case press up shift_up
    by (cases e1; cases e2; cases e3; cases e4; simp)
  ultimately show ?case
    using one Cons.IH by (cases e1; cases e2; cases e3; cases e4) (auto split: if_splits)
qed simp

lemma type_text_kept: "type_text keymap c txt ch = (r, ch') \<Longrightarrow> held ch' = held ch"
  by (auto simp: type_text_def dest!: type_loop_kept split: prod.splits sum.splits option.splits if_splits)

end

end
