(* ===== verification/Inject_Names.thy ===== *)
theory Inject_Names
  imports Results Paths "HOL-Library.AList"
begin

text \<open>
  The names of a payload archive (\<open>internal/inject/receiver.go\<close>): the failures of the
  receiver, the masks for modes, the check of an entry's name, and the record of the names
  an archive has created, which refuses duplicates and conflicts. \<open>strconv.Quote\<close> is the
  parameter \<open>qt\<close>.
\<close>

section \<open>Failures\<close>

definition operation_receive :: string where
  "operation_receive = ''inject.receive''"

definition rejected_detail :: "string \<Rightarrow> string \<Rightarrow> goerr" where
  "rejected_detail reason detail =
     Typed (with_details
       ((''reason'', reason) # (if detail \<noteq> [] then [(''detail'', detail)] else []))
       (new_failure PayloadRejected operation_receive
         (if detail \<noteq> [] then reason @ '': '' @ detail else reason)))"

definition rejected :: "string \<Rightarrow> goerr" where
  "rejected reason = rejected_detail reason []"

definition wait_failure :: "string \<Rightarrow> goerr" where
  "wait_failure e =
     Typed (with_details [(''reason'', ''context cancelled'')]
       (new_failure WaitTimeout operation_receive (''payload reception cancelled: '' @ e)))"

section \<open>Modes and limits\<close>

text \<open>Permission bits are written in decimal: 493 is octal 755, 420 is 644, 384 is 600, 73 is 111.\<close>

definition payload_perm_mask :: u32 where "payload_perm_mask = 493"
definition non_exec_mask :: u32 where "non_exec_mask = 420"
definition dir_perm :: u32 where "dir_perm = 493"
definition file_perm :: u32 where "file_perm = 384"
definition default_binary_perm :: u32 where "default_binary_perm = 493"
definition default_max_bytes :: int where "default_max_bytes = 67108864"
definition default_max_files :: int where "default_max_files = 1024"
definition max_int64 :: int where "max_int64 = 9223372036854775807"

definition mask_mode :: "u32 \<Rightarrow> u32" where
  "mask_mode m = (if m AND 73 = 0 then m AND non_exec_mask else m AND payload_perm_mask)"

definition mask_binary_mode :: "u32 \<Rightarrow> u32" where
  "mask_binary_mode m = (if m = 0 then default_binary_perm else mask_mode m)"

definition mask_tar_mode :: "64 word \<Rightarrow> u32" where
  "mask_tar_mode m = mask_mode (ucast m)"

definition limited_bound :: "int \<Rightarrow> int" where
  "limited_bound limit = (if limit = max_int64 then limit else limit + 1)"

section \<open>Names\<close>

definition nul :: char where
  "nul = char_of (0::nat)"

definition plain_name :: "string \<Rightarrow> bool" where
  "plain_name n \<longleftrightarrow> n \<noteq> [] \<and> n \<noteq> ''.'' \<and> n \<noteq> ''..'' \<and> slash \<notin> set n \<and> nul \<notin> set n"

definition clean_entry_name :: "(string \<Rightarrow> string) \<Rightarrow> string \<Rightarrow> goerr + string" where
  "clean_entry_name qt n =
     (if n = [] then Inl (rejected ''entry name is empty'')
      else if nul \<in> set n then Inl (rejected_detail ''entry name contains a NUL byte'' (qt n))
      else if is_abs n then Inl (rejected_detail ''absolute entry name'' (qt n))
      else if ''..'' \<in> set (split_on slash n)
        then Inl (rejected_detail ''entry name contains a .. path element'' (qt n))
      else if path_clean n = ''..'' \<or> has_prefix (path_clean n) ''../''
        then Inl (rejected_detail ''entry name escapes the payload root'' (qt n))
      else Inr (path_clean n))"

section \<open>The names an archive has created\<close>

record path_tree =
  pt_names :: "string list"
  pt_dirs :: "(string \<times> bool) list"

definition empty_tree :: path_tree where
  "empty_tree = \<lparr>pt_names = [], pt_dirs = []\<rparr>"

text \<open>\<open>sort.SearchStrings\<close>: the first index whose string is not smaller, on a sorted list.\<close>

definition search_strings :: "string list \<Rightarrow> string \<Rightarrow> nat" where
  "search_strings xs x = length (takeWhile (\<lambda>y. y < x) xs)"

definition insert_name :: "string list \<Rightarrow> string \<Rightarrow> string list" where
  "insert_name xs x = (let i = search_strings xs x in take i xs @ x # drop i xs)"

text \<open>
  The loop over the parents. \<open>path.Dir\<close> of anything but \<open>.\<close> and \<open>/\<close> is shorter or one of
  those two, which ends the loop.
\<close>

function parent_file :: "(string \<times> bool) list \<Rightarrow> string \<Rightarrow> string option" where
  "parent_file dirs parent =
     (if parent = ''.'' \<or> parent = ''/'' then None
      else if map_of dirs parent = Some False then Some parent
      else parent_file dirs (path_dir parent))"
  by pat_completeness auto
termination
  by (relation "measure (\<lambda>(dirs, p). if p = ''.'' \<or> p = ''/'' then 0 else Suc (length p))")
    (auto dest: path_dir_shorter)

declare parent_file.simps [simp del]

definition tree_check :: "(string \<Rightarrow> string) \<Rightarrow> path_tree \<Rightarrow> string \<Rightarrow> bool \<Rightarrow> goerr + path_tree" where
  "tree_check qt t n is_dir =
     (let i = search_strings (pt_names t) n;
          d = search_strings (pt_names t) (n @ ''/'')
      in if i < length (pt_names t) \<and> pt_names t ! i = n
         then Inl (rejected_detail ''duplicate entry name'' (qt n))
         else (case parent_file (pt_dirs t) (path_dir n) of
                 Some p \<Rightarrow> Inl (rejected_detail ''entry name conflicts with an earlier entry'' (qt p))
               | None \<Rightarrow>
                   if \<not> is_dir \<and> d < length (pt_names t) \<and> has_prefix (pt_names t ! d) (n @ ''/'')
                   then Inl (rejected_detail ''entry name conflicts with an earlier entry''
                               (qt (pt_names t ! d)))
                   else Inr \<lparr>pt_names = insert_name (pt_names t) n,
                             pt_dirs = AList.update n is_dir (pt_dirs t)\<rparr>))"

section \<open>The check of names is exact\<close>

definition above :: "string \<Rightarrow> string \<Rightarrow> bool" where
  "above p q \<longleftrightarrow> has_prefix q (p @ ''/'')"

definition tree_ok :: "path_tree \<Rightarrow> bool" where
  "tree_ok t \<longleftrightarrow> sorted_wrt (<) (pt_names t) \<and> set (pt_names t) = dom (map_of (pt_dirs t)) \<and>
     (\<forall>q \<in> set (pt_names t). confined q) \<and>
     (\<forall>p q. map_of (pt_dirs t) p = Some False \<longrightarrow> q \<in> set (pt_names t) \<longrightarrow> \<not> above p q)"

lemma search_strings_eq: "search_strings xs x = length (takeWhile (\<lambda>y. y < x) xs)"
  by (simp add: search_strings_def)

lemma search_drop: "drop (search_strings xs x) xs = dropWhile (\<lambda>y. y < x) xs"
  by (simp add: search_strings_def dropWhile_eq_drop)

lemma search_first:
  "search_strings xs x < length xs \<Longrightarrow> xs ! search_strings xs x = hd (dropWhile (\<lambda>y. y < x) xs)"
  by (metis hd_drop_conv_nth search_drop)

lemma search_inside: "search_strings xs x < length xs \<longleftrightarrow> dropWhile (\<lambda>y. y < x) xs \<noteq> []"
  by (metis drop_eq_Nil linorder_not_le search_drop)

lemma sorted_dropWhile_ge:
  "sorted_wrt (<) xs \<Longrightarrow> (y::string) \<in> set xs \<Longrightarrow> x \<le> y \<Longrightarrow>
    dropWhile (\<lambda>z. z < x) xs \<noteq> [] \<and> hd (dropWhile (\<lambda>z. z < x) xs) \<le> y \<and> x \<le> hd (dropWhile (\<lambda>z. z < x) xs)"
  by (induction xs) (auto simp: less_imp_le not_less)

lemma search_member:
  assumes "sorted_wrt (<) xs"
  shows "search_strings xs x < length xs \<and> xs ! search_strings xs x = x \<longleftrightarrow> x \<in> set xs"
proof
  assume "x \<in> set xs"
  then show "search_strings xs x < length xs \<and> xs ! search_strings xs x = x"
    using sorted_dropWhile_ge [OF assms _ order_refl, of x] search_inside [of xs x] search_first [of xs x] by auto
qed (metis nth_mem)

lemma prefix_le: "has_prefix q p \<Longrightarrow> p \<le> (q::string)"
proof -
  have "p \<le> p @ r" for r :: string by (induction p) auto
  then show "has_prefix q p \<Longrightarrow> p \<le> q" by (auto simp: has_prefix_append)
qed

lemma prefix_between: "p \<le> y \<Longrightarrow> y \<le> p @ r \<Longrightarrow> has_prefix (y::string) p"
proof (induction p arbitrary: y)
  case (Cons a p)
  then show ?case by (cases y) (auto simp: has_prefix_def)
qed simp

lemma search_prefix:
  assumes "sorted_wrt (<) xs"
  shows "search_strings xs p < length xs \<and> has_prefix (xs ! search_strings xs p) p \<longleftrightarrow>
    (\<exists>q \<in> set xs. has_prefix q p)"
proof
  assume "\<exists>q \<in> set xs. has_prefix q p"
  then obtain q where q: "q \<in> set xs" "has_prefix q p" by blast
  then obtain r where r: "q = p @ r" by (auto simp: has_prefix_append)
  note d = sorted_dropWhile_ge [OF assms q(1) prefix_le [OF q(2)]]
  then have "has_prefix (hd (dropWhile (\<lambda>y. y < p) xs)) p" using prefix_between r by blast
  then show "search_strings xs p < length xs \<and> has_prefix (xs ! search_strings xs p) p"
    using d search_inside search_first by metis
qed (metis nth_mem)

lemma insert_name_split:
  "insert_name xs x = takeWhile (\<lambda>y. y < x) xs @ x # dropWhile (\<lambda>y. y < x) xs"
  by (simp add: insert_name_def Let_def search_strings_def dropWhile_eq_drop [symmetric] takeWhile_eq_take [symmetric])

lemma insert_name_sorted:
  assumes "sorted_wrt (<) xs" and "(x::string) \<notin> set xs"
  shows "sorted_wrt (<) (insert_name xs x)" "set (insert_name xs x) = insert x (set xs)"
proof -
  show "set (insert_name xs x) = insert x (set xs)"
    unfolding insert_name_split by (metis Un_insert_right list.simps(15) set_append takeWhile_dropWhile_id)
  show "sorted_wrt (<) (insert_name xs x)" using assms
    unfolding insert_name_split
    by (induction xs) (auto simp: not_less order.order_iff_strict dest: set_takeWhileD set_dropWhileD)
qed

section \<open>Ancestors\<close>

lemma above_split: "above p q \<Longrightarrow> \<exists>r. split_on slash q = split_on slash p @ split_on slash r"
  by (auto simp: above_def has_prefix_append split_on_join_slash)

lemma confined_not_dot: "confined n \<Longrightarrow> n \<noteq> ''.''"
  by (auto simp: confined_def)

lemma above_dir:
  assumes "confined n" and "above p n"
  shows "path_dir n \<noteq> ''.'' \<and> (p = path_dir n \<or> above p (path_dir n))"
proof -
  obtain r where r: "split_on slash n = split_on slash p @ split_on slash r" using above_split [OF assms(2)] by blast
  have long: "length (split_on slash n) \<noteq> 1"
  proof -
    have "0 < length (split_on slash p)" "0 < length (split_on slash r)" by simp_all
    then show ?thesis unfolding r length_append by linarith
  qed
  have d: "path_dir n = join_with slash (split_on slash p @ butlast (split_on slash r))"
    using confined_path_dir [OF assms(1)] long r by (simp add: butlast_append)
  have ne: "path_dir n \<noteq> ''.''"
  proof -
    have "butlast (split_on slash n) \<noteq> []"
      using r by (simp add: butlast_append)
    moreover have pl: "\<forall>e \<in> set (butlast (split_on slash n)). plain_elem e"
      using assms(1) by (auto simp: confined_def dest: in_set_butlastD)
    ultimately have "confined (path_dir n)"
      unfolding confined_path_dir [OF assms(1)] if_not_P [OF long] by (rule confined_join)
    then show ?thesis by (rule confined_not_dot)
  qed
  show ?thesis
  proof (cases "butlast (split_on slash r) = []")
    case True
    then show ?thesis using d ne by simp
  next
    case False
    then have "path_dir n = p @ slash # join_with slash (butlast (split_on slash r))"
      using d by (simp add: join_with_append)
    then show ?thesis using ne by (simp add: above_def has_prefix_append)
  qed
qed

lemma dir_above:
  assumes "confined n" and "path_dir n \<noteq> ''.''"
  shows "above (path_dir n) n"
proof -
  have long: "length (split_on slash n) \<noteq> 1" using assms confined_path_dir by auto
  let ?es = "butlast (split_on slash n)"
  have ne: "?es \<noteq> []"
    using long split_on_nonempty [of slash n] by (cases "split_on slash n") (auto split: if_splits)
  have "n = join_with slash (?es @ [last (split_on slash n)])" by simp
  also have "\<dots> = path_dir n @ slash # last (split_on slash n)"
    using confined_path_dir [OF assms(1)] long ne by (simp add: join_with_append del: append_butlast_last_id)
  finally show ?thesis unfolding above_def has_prefix_append by (metis append_Cons append_Nil append_assoc)
qed

lemma above_trans: "above p q \<Longrightarrow> above q n \<Longrightarrow> above p n"
  by (auto simp: above_def has_prefix_append)

lemma parent_file_spec:
  "n = ''.'' \<or> confined n \<Longrightarrow>
    (case parent_file dirs n of
       Some p \<Rightarrow> map_of dirs p = Some False \<and> n \<noteq> ''.'' \<and> (p = n \<or> above p n)
     | None \<Rightarrow> n = ''.'' \<or> (\<forall>p. p = n \<or> above p n \<longrightarrow> map_of dirs p \<noteq> Some False))"
proof (induction dirs n rule: parent_file.induct)
  case (1 dirs n)
  show ?case
  proof (cases "n = ''.'' \<or> map_of dirs n = Some False")
    case True
    then show ?thesis using 1(2) by (subst parent_file.simps) (auto simp: confined_def)
  next
    case False
    then have c: "confined n" using 1(2) by simp
    then have root: "n \<noteq> ''/''" by (auto simp: confined_def)
    have step: "parent_file dirs n = parent_file dirs (path_dir n)"
      using False root by (subst parent_file.simps) simp
    have ih: "case parent_file dirs (path_dir n) of
       Some p \<Rightarrow> map_of dirs p = Some False \<and> path_dir n \<noteq> ''.'' \<and> (p = path_dir n \<or> above p (path_dir n))
     | None \<Rightarrow> path_dir n = ''.'' \<or> (\<forall>p. p = path_dir n \<or> above p (path_dir n) \<longrightarrow> map_of dirs p \<noteq> Some False)"
      using 1(1) False root confined_path_dir_cases [OF c] by simp
    show ?thesis unfolding step
      using ih above_dir [OF c] dir_above [OF c] above_trans [of _ "path_dir n" n] False
      by (auto split: option.splits)
  qed
qed

text \<open>What a new name would clash with.\<close>

definition clashes :: "path_tree \<Rightarrow> string \<Rightarrow> bool \<Rightarrow> bool" where
  "clashes t n is_dir \<longleftrightarrow> n \<in> set (pt_names t) \<or>
     (\<exists>p. map_of (pt_dirs t) p = Some False \<and> above p n) \<or>
     (\<not> is_dir \<and> (\<exists>q \<in> set (pt_names t). above n q))"

lemma tree_check_decides:
  assumes "tree_ok t" and "confined n"
  shows "(\<exists>e. tree_check qt t n is_dir = Inl e) \<longleftrightarrow> clashes t n is_dir"
proof -
  have sorted: "sorted_wrt (<) (pt_names t)" using assms(1) by (simp add: tree_ok_def)
  have parent: "(\<exists>p. parent_file (pt_dirs t) (path_dir n) = Some p) \<longleftrightarrow>
      (\<exists>p. map_of (pt_dirs t) p = Some False \<and> above p n)"
    using parent_file_spec [OF confined_path_dir_cases [OF assms(2)], of "pt_dirs t"]
      above_dir [OF assms(2)] dir_above [OF assms(2)] above_trans [of _ "path_dir n" n]
    by (auto split: option.splits)
  show ?thesis
    using search_member [OF sorted, of n] search_prefix [OF sorted, of "n @ ''/''"] parent
    by (auto simp: tree_check_def Let_def clashes_def above_def split: option.splits)
qed

lemma tree_check_Inr:
  assumes "tree_check qt t n is_dir = Inr t'" and "tree_ok t" and "confined n"
  shows "tree_ok t'" "set (pt_names t') = insert n (set (pt_names t))"
    "map_of (pt_dirs t') = (map_of (pt_dirs t))(n \<mapsto> is_dir)"
proof -
  have t': "t' = \<lparr>pt_names = insert_name (pt_names t) n, pt_dirs = AList.update n is_dir (pt_dirs t)\<rparr>"
    using assms(1) by (auto simp: tree_check_def Let_def split: option.splits if_splits)
  have free: "\<not> clashes t n is_dir" using tree_check_decides [OF assms(2,3), of qt is_dir] assms(1) by auto
  have self: "\<not> above n n" by (simp add: above_def has_prefix_def)
  note ins = insert_name_sorted [of "pt_names t" n]
  show names: "set (pt_names t') = insert n (set (pt_names t))"
    using ins(2) free assms(2) t' by (simp add: clashes_def tree_ok_def)
  show dirs: "map_of (pt_dirs t') = (map_of (pt_dirs t))(n \<mapsto> is_dir)" using t' by (simp add: update_conv')
  show "tree_ok t'" unfolding tree_ok_def names dirs
  proof (intro conjI allI ballI impI)
    show "sorted_wrt (<) (pt_names t')" using ins(1) free assms(2) t' by (simp add: clashes_def tree_ok_def)
    show "insert n (set (pt_names t)) = dom ((map_of (pt_dirs t))(n \<mapsto> is_dir))"
      using assms(2) by (auto simp: tree_ok_def)
    show "confined q" if "q \<in> insert n (set (pt_names t))" for q
      using that assms(2,3) by (auto simp: tree_ok_def)
    show "\<not> above p q" if "((map_of (pt_dirs t))(n \<mapsto> is_dir)) p = Some False"
      "q \<in> insert n (set (pt_names t))" for p q
    proof -
      have old: "map_of (pt_dirs t) p = Some False \<Longrightarrow> q \<in> set (pt_names t) \<Longrightarrow> \<not> above p q"
        using assms(2) unfolding tree_ok_def by blast
      show ?thesis using that free old self unfolding clashes_def by (auto split: if_splits)
    qed
  qed
qed

text \<open>The names of an archive as a machine: an entry that is refused changes nothing.\<close>

definition tree_step :: "(string \<Rightarrow> string) \<Rightarrow> path_tree \<Rightarrow> string \<times> bool \<Rightarrow> path_tree" where
  "tree_step qt t e =
     (case clean_entry_name qt (fst e) of
        Inl _ \<Rightarrow> t
      | Inr n \<Rightarrow> if n = ''.'' then t else (case tree_check qt t n (snd e) of Inl _ \<Rightarrow> t | Inr t' \<Rightarrow> t'))"

lemma clean_entry_confined: "clean_entry_name qt s = Inr n \<Longrightarrow> n = ''.'' \<or> confined n"
  using path_clean_confined [of s] by (auto simp: clean_entry_name_def split: if_splits)

lemma tree_step_ok: "tree_ok t \<Longrightarrow> tree_ok (tree_step qt t e)"
  using clean_entry_confined tree_check_Inr(1) by (fastforce simp: tree_step_def split: sum.splits)

interpretation archive_names: invariant_machine "tree_step qt" tree_ok for qt
  by unfold_locales (rule tree_step_ok)

lemma empty_tree_ok: "tree_ok empty_tree"
  by (simp add: tree_ok_def empty_tree_def)

text \<open>
  C38. After any entries of an archive, a new entry is refused exactly when its name was
  used, when a file is one of its ancestors, or when it is a file and one of the names
  lies below it; an accepted one is recorded with its kind; so no recorded file is ever
  an ancestor of a recorded name. The source decides this by binary search in the sorted
  names and by walking up \<open>path.Dir\<close>.
\<close>

theorem tree_check_exact:
  assumes "confined n" and "t = foldl (tree_step qt) empty_tree es"
  shows "((\<exists>e. tree_check qt t n is_dir = Inl e) \<longleftrightarrow>
      n \<in> set (pt_names t) \<or> (\<exists>p. map_of (pt_dirs t) p = Some False \<and> above p n) \<or>
      (\<not> is_dir \<and> (\<exists>q \<in> set (pt_names t). above n q))) \<and>
    (\<forall>t'. tree_check qt t n is_dir = Inr t' \<longrightarrow>
      set (pt_names t') = insert n (set (pt_names t)) \<and>
      map_of (pt_dirs t') = (map_of (pt_dirs t))(n \<mapsto> is_dir)) \<and>
    (\<forall>p q. map_of (pt_dirs t) p = Some False \<longrightarrow> q \<in> set (pt_names t) \<longrightarrow> \<not> above p q)"
proof -
  have ok: "tree_ok t" unfolding assms(2) by (rule archive_names.inv_run [OF empty_tree_ok])
  show ?thesis
    using tree_check_decides [OF ok assms(1), of qt is_dir] tree_check_Inr [OF _ ok assms(1)] ok
    by (simp add: clashes_def tree_ok_def)
qed

theorem tree_check_exact_witness:
  "\<exists>e. tree_check id (foldl (tree_step id) empty_tree [(''b'', True), (''a'', False)]) ''a/c'' False = Inl e"
proof -
  have c: "confined ''a/c''" by (simp add: confined_def plain_elem_def)
  have t: "pt_dirs (foldl (tree_step id) empty_tree [(''b'', True), (''a'', False)]) =
      [(''b'', True), (''a'', False)]"
    by code_simp
  have "above ''a'' ''a/c''" by (simp add: above_def has_prefix_def)
  then show ?thesis
    using tree_check_exact [OF c refl, of id "[(''b'', True), (''a'', False)]" False] unfolding t by auto
qed

end
