(* ===== verification/Inject.thy ===== *)
theory Inject
  imports Inject_Names
begin

text \<open>
  The payload receiver (\<open>internal/inject/receiver.go\<close>). It stages a binary or a tar bundle
  in a directory of its own and renames it to the payload's name. The staging tree is a
  list of relative paths with distinct keys; every call on it may fail (\<open>sg_faults\<close> gives
  the text of the error, call by call; none fails when the list is exhausted) and a
  creation is subject to the umask. \<open>archive/tar\<close> over the limited, hashing reader is the
  parameter \<open>archive\<close>: what it answers, how many bytes of the bound are left, which bytes
  were read. SHA-256 in hexadecimal and \<open>strconv.Quote\<close> are the parameters \<open>sha\<close> and \<open>qt\<close>.
  An error of the operating system is reduced to its text.
\<close>

section \<open>The staging directory\<close>

datatype node = FileNode string u32 | DirNode u32

type_synonym tree = "(string \<times> node) list"

record staging =
  sg_tree :: tree
  sg_faults :: "string option list"
  sg_umask :: u32

definition next_fault :: "staging \<Rightarrow> string option \<times> staging" where
  "next_fault st =
     (case sg_faults st of [] \<Rightarrow> (None, st) | f # fs \<Rightarrow> (f, st\<lparr>sg_faults := fs\<rparr>))"

definition put_node :: "string \<Rightarrow> node \<Rightarrow> staging \<Rightarrow> staging" where
  "put_node p v st = st\<lparr>sg_tree := AList.update p v (sg_tree st)\<rparr>"

definition parent_is_dir :: "tree \<Rightarrow> string \<Rightarrow> bool" where
  "parent_is_dir t p \<longleftrightarrow>
     path_dir p = ''.'' \<or> (case map_of t (path_dir p) of Some (DirNode _) \<Rightarrow> True | _ \<Rightarrow> False)"

datatype made = Made | Exists | NotMade string

definition sg_mkdir :: "string \<Rightarrow> u32 \<Rightarrow> staging \<Rightarrow> made \<times> staging" where
  "sg_mkdir p m st =
     (case next_fault st of
        (Some e, st1) \<Rightarrow> (NotMade e, st1)
      | (None, st1) \<Rightarrow>
          if map_of (sg_tree st1) p \<noteq> None then (Exists, st1)
          else if \<not> parent_is_dir (sg_tree st1) p then (NotMade ''not a directory'', st1)
          else (Made, put_node p (DirNode (m AND NOT (sg_umask st1))) st1))"

definition sg_chmod :: "string \<Rightarrow> u32 \<Rightarrow> staging \<Rightarrow> string option \<times> staging" where
  "sg_chmod p m st =
     (case next_fault st of
        (Some e, st1) \<Rightarrow> (Some e, st1)
      | (None, st1) \<Rightarrow>
          (case map_of (sg_tree st1) p of
             None \<Rightarrow> (Some ''no such file or directory'', st1)
           | Some (DirNode _) \<Rightarrow> (None, put_node p (DirNode m) st1)
           | Some (FileNode b _) \<Rightarrow> (None, put_node p (FileNode b m) st1)))"

definition sg_create :: "string \<Rightarrow> staging \<Rightarrow> string option \<times> staging" where
  "sg_create p st =
     (case next_fault st of
        (Some e, st1) \<Rightarrow> (Some e, st1)
      | (None, st1) \<Rightarrow>
          if map_of (sg_tree st1) p \<noteq> None then (Some ''file exists'', st1)
          else if \<not> parent_is_dir (sg_tree st1) p then (Some ''not a directory'', st1)
          else (None, put_node p (FileNode [] (file_perm AND NOT (sg_umask st1))) st1))"

text \<open>A write that fails leaves the bytes it wrote before.\<close>

definition sg_write :: "string \<Rightarrow> string \<Rightarrow> staging \<Rightarrow> string option \<times> staging" where
  "sg_write p data st =
     (case next_fault st of
        (Some e, st1) \<Rightarrow> (Some e, st1)
      | (None, st1) \<Rightarrow>
          (case map_of (sg_tree st1) p of
             Some (FileNode b m) \<Rightarrow> (None, put_node p (FileNode (b @ data) m) st1)
           | _ \<Rightarrow> (None, st1)))"

section \<open>The archive\<close>

datatype entry_type =
  TypeReg | TypeRegA | TypeDir | TypeSymlink | TypeLink | TypeChar | TypeBlock | TypeFifo | TypeOther

record header =
  h_name :: string
  h_mode :: "64 word"
  h_size :: int
  h_type :: entry_type

datatype read_err = ReadEOF | ReadUnexpectedEOF | ReadOther string

definition read_err_text :: "read_err \<Rightarrow> string" where
  "read_err_text e =
     (case e of ReadEOF \<Rightarrow> ''EOF'' | ReadUnexpectedEOF \<Rightarrow> ''unexpected EOF'' | ReadOther t \<Rightarrow> t)"

datatype tar_next = TarEntry header | TarEnd | TarBad read_err

record 'r archive =
  ar_open :: "int \<Rightarrow> 'r"
  ar_ctx :: "'r \<Rightarrow> string option \<times> 'r"
  ar_next :: "'r \<Rightarrow> tar_next \<times> 'r"
  ar_body :: "int \<Rightarrow> 'r \<Rightarrow> (string \<times> read_err option) \<times> 'r"
  ar_drain :: "'r \<Rightarrow> read_err option \<times> 'r"
  ar_left :: "'r \<Rightarrow> int"
  ar_seen :: "'r \<Rightarrow> string"

text \<open>
  \<open>truncated_body\<close> is the sentinel of the source for a body shorter than its header
  declared; \<open>None\<close> stands for it in \<open>archive_failure\<close>.
\<close>

definition truncated_body :: string where
  "truncated_body = ''truncated archive body''"

definition archive_failure :: "int \<Rightarrow> int \<Rightarrow> read_err option \<Rightarrow> goerr" where
  "archive_failure left limit e =
     (if left \<le> 0 then rejected_detail ''payload exceeds MaxBytes'' (dec_int limit)
      else (case e of
              None \<Rightarrow> rejected_detail ''truncated archive'' truncated_body
            | Some (ReadOther t) \<Rightarrow> rejected_detail ''invalid tar archive'' t
            | Some t \<Rightarrow> rejected_detail ''truncated archive'' (read_err_text t)))"

fun ensure_loop :: "string \<Rightarrow> string list \<Rightarrow> staging \<Rightarrow> goerr option \<times> staging" where
  "ensure_loop prefix [] st = (None, st)"
| "ensure_loop prefix (e # es) st =
     (let p = (if prefix = [] then e else prefix @ slash # e)
      in case sg_mkdir p dir_perm st of
           (NotMade t, st1) \<Rightarrow> (Some (rejected_detail ''cannot create an archive directory'' t), st1)
         | (_, st1) \<Rightarrow>
             (case sg_chmod p dir_perm st1 of
                (Some t, st2) \<Rightarrow> (Some (rejected_detail ''cannot set an archive directory mode'' t), st2)
              | (None, st2) \<Rightarrow> ensure_loop p es st2))"

definition ensure_dirs :: "string \<Rightarrow> staging \<Rightarrow> goerr option \<times> staging" where
  "ensure_dirs n st =
     (if n = ''.'' \<or> n = [] \<or> n = ''/'' then (None, st)
      else ensure_loop [] (split_on slash n) st)"

text \<open>\<open>io.CopyN\<close>: no error exactly when as many bytes as asked for were copied.\<close>

datatype copied = CopyDone | CopyTruncated | CopyFailed string

definition copy_n :: "'r archive \<Rightarrow> string \<Rightarrow> int \<Rightarrow> 'r \<Rightarrow> staging \<Rightarrow> copied \<times> 'r \<times> staging" where
  "copy_n ar p sz r st =
     (case ar_body ar sz r of
        ((data, e), r1) \<Rightarrow>
          (case sg_write p (take (nat sz) data) st of
             (Some t, st1) \<Rightarrow> (CopyFailed t, r1, st1)
           | (None, st1) \<Rightarrow>
               if nat sz \<le> length data then (CopyDone, r1, st1)
               else (case e of
                       Some (ReadOther t) \<Rightarrow> (CopyFailed t, r1, st1)
                     | _ \<Rightarrow> (CopyTruncated, r1, st1))))"

definition close_file :: "staging \<Rightarrow> string option \<times> staging" where
  "close_file st = next_fault st"

text \<open>The result of \<open>writeFile\<close>: nothing, the truncation sentinel, or a failure.\<close>

datatype written = Written | Truncated | NotWritten goerr

definition write_file ::
  "'r archive \<Rightarrow> string \<Rightarrow> 64 word \<Rightarrow> int \<Rightarrow> 'r \<Rightarrow> staging \<Rightarrow> written \<times> 'r \<times> staging" where
  "write_file ar p mode sz r st =
     (case sg_create p st of
        (Some t, st1) \<Rightarrow> (NotWritten (rejected_detail ''cannot create an archive file'' t), r, st1)
      | (None, st1) \<Rightarrow>
          (case copy_n ar p sz r st1 of
             (CopyTruncated, r2, st2) \<Rightarrow> (Truncated, r2, st2)
           | (CopyFailed t, r2, st2) \<Rightarrow>
               (NotWritten (rejected_detail ''cannot extract an archive file'' t), r2, st2)
           | (CopyDone, r2, st2) \<Rightarrow>
               (case sg_chmod p (mask_tar_mode mode) st2 of
                  (Some t, st3) \<Rightarrow>
                    (NotWritten (rejected_detail ''cannot apply an archive file mode'' t), r2, st3)
                | (None, st3) \<Rightarrow>
                    (case close_file st3 of
                       (Some t, st4) \<Rightarrow>
                         (NotWritten (rejected_detail ''cannot flush an archive file'' t), r2, st4)
                     | (None, st4) \<Rightarrow> (Written, r2, st4)))))"

section \<open>Extracting an archive\<close>

record extraction =
  ex_tree :: path_tree
  ex_declared :: int
  ex_files :: nat

definition new_extraction :: extraction where
  "new_extraction = \<lparr>ex_tree = empty_tree, ex_declared = 0, ex_files = 0\<rparr>"

definition tar_file ::
  "'r archive \<Rightarrow> (string \<Rightarrow> string) \<Rightarrow> int \<Rightarrow> header \<Rightarrow> string \<Rightarrow> extraction \<Rightarrow> 'r \<Rightarrow> staging \<Rightarrow>
     (goerr + extraction) \<times> 'r \<times> staging" where
  "tar_file ar qt limit h n x r st =
     (if h_size h < 0 then (Inl (rejected_detail ''entry declares a negative size'' (qt (h_name h))), r, st)
      else if h_size h > limit \<or> ex_declared x > limit - h_size h
        then (Inl (rejected_detail ''declared entry size exceeds MaxBytes'' (qt (h_name h))), r, st)
      else case tree_check qt (ex_tree x) n False of
        Inl e \<Rightarrow> (Inl e, r, st)
      | Inr t \<Rightarrow>
          (case ensure_dirs (path_dir n) st of
             (Some e, st1) \<Rightarrow> (Inl e, r, st1)
           | (None, st1) \<Rightarrow>
               (case write_file ar n (h_mode h) (h_size h) r st1 of
                  (Truncated, r2, st2) \<Rightarrow> (Inl (archive_failure (ar_left ar r2) limit None), r2, st2)
                | (NotWritten e, r2, st2) \<Rightarrow> (Inl e, r2, st2)
                | (Written, r2, st2) \<Rightarrow>
                    (Inr \<lparr>ex_tree = t, ex_declared = ex_declared x + h_size h,
                          ex_files = Suc (ex_files x)\<rparr>, r2, st2))))"

definition tar_dir ::
  "(string \<Rightarrow> string) \<Rightarrow> string \<Rightarrow> extraction \<Rightarrow> staging \<Rightarrow> (goerr + extraction) \<times> staging" where
  "tar_dir qt n x st =
     (case tree_check qt (ex_tree x) n True of
        Inl e \<Rightarrow> (Inl e, st)
      | Inr t \<Rightarrow>
          (case ensure_dirs n st of
             (Some e, st1) \<Rightarrow> (Inl e, st1)
           | (None, st1) \<Rightarrow> (Inr (x\<lparr>ex_tree := t\<rparr>), st1)))"

text \<open>The mode bits of octal 7000 (3584): setuid, setgid and sticky.\<close>

definition tar_entry ::
  "'r archive \<Rightarrow> (string \<Rightarrow> string) \<Rightarrow> int \<Rightarrow> header \<Rightarrow> extraction \<Rightarrow> 'r \<Rightarrow> staging \<Rightarrow>
     (goerr + extraction) \<times> 'r \<times> staging" where
  "tar_entry ar qt limit h x r st =
     (let refuse = (\<lambda>reason. (Inl (rejected_detail reason (qt (h_name h))), r, st))
      in case clean_entry_name qt (h_name h) of
           Inl e \<Rightarrow> (Inl e, r, st)
         | Inr n \<Rightarrow>
             if n = ''.'' then
               (if h_type h = TypeDir then (Inr x, r, st)
                else refuse ''entry name resolves to the payload root'')
             else if h_mode h AND 3584 \<noteq> 0
               then refuse ''entry mode requests setuid, setgid, or sticky bits''
             else (case h_type h of
                 TypeReg \<Rightarrow> tar_file ar qt limit h n x r st
               | TypeRegA \<Rightarrow> tar_file ar qt limit h n x r st
               | TypeDir \<Rightarrow> (let (res, st1) = tar_dir qt n x st in (res, r, st1))
               | TypeSymlink \<Rightarrow> refuse ''symlink entry is not supported''
               | TypeLink \<Rightarrow> refuse ''hard link entry is not supported''
               | TypeChar \<Rightarrow> refuse ''device node entry is not allowed''
               | TypeBlock \<Rightarrow> refuse ''device node entry is not allowed''
               | TypeFifo \<Rightarrow> refuse ''fifo entry is not allowed''
               | TypeOther \<Rightarrow> refuse ''irregular entry type is not allowed''))"

text \<open>The loop over the entries: it reads at most one more entry than the archive may hold.\<close>

function tar_loop ::
  "'r archive \<Rightarrow> (string \<Rightarrow> string) \<Rightarrow> int \<Rightarrow> nat \<Rightarrow> nat \<Rightarrow> extraction \<Rightarrow> 'r \<Rightarrow> staging \<Rightarrow>
     (goerr + extraction) \<times> 'r \<times> staging" where
  "tar_loop ar qt limit mx entries x r st =
     (case ar_ctx ar r of
        (Some e, r1) \<Rightarrow> (Inl (wait_failure e), r1, st)
      | (None, r1) \<Rightarrow>
          (case ar_next ar r1 of
             (TarEnd, r2) \<Rightarrow> (Inr x, r2, st)
           | (TarBad e, r2) \<Rightarrow> (Inl (archive_failure (ar_left ar r2) limit (Some e)), r2, st)
           | (TarEntry h, r2) \<Rightarrow>
               if mx < Suc entries
               then (Inl (rejected_detail ''entry count exceeds MaxFiles'' (dec_nat mx)), r2, st)
               else (case tar_entry ar qt limit h x r2 st of
                       (Inl e, r3, st1) \<Rightarrow> (Inl e, r3, st1)
                     | (Inr x1, r3, st1) \<Rightarrow> tar_loop ar qt limit mx (Suc entries) x1 r3 st1)))"
  by pat_completeness auto
termination
  by (relation "measure (\<lambda>(ar, qt, limit, mx, entries, x, r, st). mx - entries)") auto

declare tar_loop.simps [simp del]

datatype payload_kind = KindBinary | KindTar | KindOther string

record payload_spec =
  sp_kind :: payload_kind
  sp_name :: string
  sp_mode :: u32
  sp_max_bytes :: int
  sp_max_files :: int

definition spec_limit :: "payload_spec \<Rightarrow> int" where
  "spec_limit spec = (if sp_max_bytes spec \<le> 0 then default_max_bytes else sp_max_bytes spec)"

definition spec_max_files :: "payload_spec \<Rightarrow> int" where
  "spec_max_files spec = (if sp_max_files spec \<le> 0 then default_max_files else sp_max_files spec)"

definition digest_string :: "(string \<Rightarrow> string) \<Rightarrow> string \<Rightarrow> string" where
  "digest_string sha bs = ''sha256:'' @ sha bs"

definition tar_payload ::
  "'r archive \<Rightarrow> (string \<Rightarrow> string) \<Rightarrow> (string \<Rightarrow> string) \<Rightarrow> payload_spec \<Rightarrow> staging \<Rightarrow>
     (goerr + (string \<times> int \<times> nat)) \<times> staging" where
  "tar_payload ar sha qt spec st =
     (let limit = spec_limit spec
      in case tar_loop ar qt limit (nat (spec_max_files spec)) 0 new_extraction
              (ar_open ar (limited_bound limit)) st of
           (Inl e, _, st1) \<Rightarrow> (Inl e, st1)
         | (Inr x, r1, st1) \<Rightarrow>
             (case ar_drain ar r1 of
                (Some e, r2) \<Rightarrow> (Inl (archive_failure (ar_left ar r2) limit (Some e)), st1)
              | (None, r2) \<Rightarrow>
                  if ar_left ar r2 \<le> 0
                  then (Inl (rejected_detail ''payload exceeds MaxBytes'' (dec_int limit)), st1)
                  else (Inr (digest_string sha (ar_seen ar r2),
                             limited_bound limit - ar_left ar r2, ex_files x), st1)))"

section \<open>Staging a binary\<close>

text \<open>A stream: the bytes it holds and what reading past them gives, the end or an error.\<close>

record byte_source =
  bs_data :: string
  bs_error :: "string option"

definition binary_payload ::
  "(string \<Rightarrow> string) \<Rightarrow> string option \<Rightarrow> payload_spec \<Rightarrow> byte_source \<Rightarrow> staging \<Rightarrow>
     (goerr + (string \<times> int \<times> nat)) \<times> staging" where
  "binary_payload sha ctx spec src st =
     (let limit = spec_limit spec; data = take (nat limit) (bs_data src)
      in case ctx of Some e \<Rightarrow> (Inl (wait_failure e), st) | None \<Rightarrow>
      case sg_create (sp_name spec) st of
        (Some t, st1) \<Rightarrow> (Inl (rejected_detail ''cannot create the payload file'' t), st1)
      | (None, st1) \<Rightarrow>
      case sg_write (sp_name spec) data st1 of
        (Some t, st2) \<Rightarrow> (Inl (rejected_detail ''payload stream could not be read'' t), st2)
      | (None, st2) \<Rightarrow>
      if int (length (bs_data src)) \<le> limit \<and> bs_error src \<noteq> None
      then (Inl (rejected_detail ''payload stream could not be read'' (the (bs_error src))), st2)
      else if limit < int (length (bs_data src))
      then (Inl (rejected_detail ''payload exceeds MaxBytes'' (dec_int limit)), st2)
      else case sg_chmod (sp_name spec) (mask_binary_mode (sp_mode spec)) st2 of
        (Some t, st3) \<Rightarrow> (Inl (rejected_detail ''cannot apply the payload file mode'' t), st3)
      | (None, st3) \<Rightarrow>
      case close_file st3 of
        (Some t, st4) \<Rightarrow> (Inl (rejected_detail ''cannot flush the payload file'' t), st4)
      | (None, st4) \<Rightarrow> (Inr (digest_string sha data, int (length data), 1), st4))"

section \<open>Receiving a payload\<close>

text \<open>
  The payload directory: its entries, the staging directory aside, and the staging
  directory that a call leaves behind, if any.
\<close>

datatype pentry = PFile string u32 | PTree u32 tree

record payload_dir =
  pd_entries :: "(string \<times> pentry) list"
  pd_left :: "tree option"

record 'r inject_env =
  ie_archive :: "'r archive"
  ie_sha :: "string \<Rightarrow> string"
  ie_quote :: "string \<Rightarrow> string"
  ie_wd :: "string + string"
  ie_staging :: string
  ie_ctx_first :: "string option"
  ie_ctx_binary :: "string option"
  ie_source :: byte_source

record inject_result =
  ir_path :: string
  ir_digest :: string
  ir_bytes :: int
  ir_files :: nat

definition abs_path :: "string + string \<Rightarrow> string \<Rightarrow> string + string" where
  "abs_path wd dir =
     (if is_abs dir then Inr (path_clean dir)
      else case wd of Inl e \<Rightarrow> Inl e | Inr w \<Rightarrow> Inr (path_join w dir))"

text \<open>\<open>rename\<close>: a file replaces a file, a directory an empty directory.\<close>

fun replaceable :: "pentry option \<Rightarrow> pentry \<Rightarrow> bool" where
  "replaceable None v \<longleftrightarrow> True"
| "replaceable (Some (PFile _ _)) (PFile _ _) \<longleftrightarrow> True"
| "replaceable (Some (PTree _ t)) (PTree _ _) \<longleftrightarrow> t = []"
| "replaceable _ _ \<longleftrightarrow> False"

definition staged_entry :: "payload_spec \<Rightarrow> tree \<Rightarrow> pentry option" where
  "staged_entry spec t =
     (if sp_kind spec = KindBinary
      then (case map_of t (sp_name spec) of Some (FileNode b m) \<Rightarrow> Some (PFile b m) | _ \<Rightarrow> None)
      else Some (PTree dir_perm t))"

definition rename_staged ::
  "string \<Rightarrow> payload_spec \<Rightarrow> tree \<Rightarrow> payload_dir \<Rightarrow> string + payload_dir" where
  "rename_staged stg spec t d =
     (case staged_entry spec t of
        None \<Rightarrow> Inl ''no such file or directory''
      | Some v \<Rightarrow>
          if sp_name spec = stg \<and> sp_kind spec = KindBinary then Inl ''file exists''
          else if replaceable (map_of (pd_entries d) (sp_name spec)) v
          then Inr (d\<lparr>pd_entries := AList.update (sp_name spec) v (pd_entries d),
                      pd_left := (if sp_kind spec = KindBinary
                                  then Some (AList.delete (sp_name spec) t) else None)\<rparr>)
          else Inl ''file exists'')"

text \<open>The deferred removal of the staging directory; its own error is ignored.\<close>

definition discard_staging :: "staging \<Rightarrow> payload_dir \<Rightarrow> payload_dir" where
  "discard_staging st d =
     (case next_fault st of
        (Some _, _) \<Rightarrow> d\<lparr>pd_left := Some (sg_tree st)\<rparr>
      | (None, _) \<Rightarrow> d\<lparr>pd_left := None\<rparr>)"

definition stage_payload ::
  "'r inject_env \<Rightarrow> payload_spec \<Rightarrow> staging \<Rightarrow> (goerr + (string \<times> int \<times> nat)) \<times> staging" where
  "stage_payload en spec st =
     (if sp_kind spec = KindBinary
      then binary_payload (ie_sha en) (ie_ctx_binary en) spec (ie_source en) st
      else tar_payload (ie_archive en) (ie_sha en) (ie_quote en) spec st)"

definition finish_install ::
  "'r inject_env \<Rightarrow> payload_spec \<Rightarrow> string \<Rightarrow> string \<times> int \<times> nat \<Rightarrow> staging \<Rightarrow> payload_dir \<Rightarrow>
     (goerr + inject_result) \<times> payload_dir" where
  "finish_install en spec abs_dir res st d =
     (let ok = (\<lambda>d1. (Inr \<lparr>ir_path = path_join abs_dir (sp_name spec), ir_digest = fst res,
                       ir_bytes = fst (snd res), ir_files = snd (snd res)\<rparr>, d1))
      in case next_fault st of
        (Some t, st1) \<Rightarrow>
          (Inl (rejected_detail ''cannot flush the staged payload'' t), discard_staging st1 d)
      | (None, st1) \<Rightarrow>
      case next_fault st1 of
        (Some t, st2) \<Rightarrow>
          (Inl (rejected_detail ''cannot install the payload under its final name'' t),
           discard_staging st2 d)
      | (None, st2) \<Rightarrow>
      case rename_staged (ie_staging en) spec (sg_tree st2) d of
        Inl t \<Rightarrow>
          (Inl (rejected_detail ''cannot install the payload under its final name'' t),
           discard_staging st2 d)
      | Inr d1 \<Rightarrow>
      if sp_kind spec \<noteq> KindBinary then ok d1
      else case next_fault st2 of
        (Some t, st3) \<Rightarrow>
          (Inl (rejected_detail ''cannot remove the staging directory'' t),
           discard_staging (st3\<lparr>sg_tree := AList.delete (sp_name spec) (sg_tree st3)\<rparr>) d1)
      | (None, st3) \<Rightarrow> ok (d1\<lparr>pd_left := None\<rparr>))"

text \<open>Everything before the payload is read: the checks, then the staging directory.\<close>

definition open_staging ::
  "'r inject_env \<Rightarrow> string \<Rightarrow> payload_spec \<Rightarrow> staging \<Rightarrow> payload_dir \<Rightarrow>
     (goerr \<times> payload_dir) + (string \<times> staging)" where
  "open_staging en dir spec st d =
     (case ie_ctx_first en of Some e \<Rightarrow> Inl (wait_failure e, d) | None \<Rightarrow>
      if dir = [] then Inl (rejected ''payload directory is empty'', d)
      else case abs_path (ie_wd en) dir of
        Inl t \<Rightarrow> Inl (rejected_detail ''payload directory is not usable'' t, d)
      | Inr abs_dir \<Rightarrow>
      if \<not> plain_name (sp_name spec)
      then Inl (rejected_detail ''payload name is not a plain file name'' (ie_quote en (sp_name spec)), d)
      else case sp_kind spec of
        KindOther k \<Rightarrow> Inl (rejected_detail ''unknown payload kind'' (ie_quote en k), d)
      | _ \<Rightarrow>
      case next_fault st of
        (Some t, st1) \<Rightarrow> Inl (rejected_detail ''payload directory is not available'' t, d)
      | (None, st1) \<Rightarrow>
      case next_fault st1 of
        (Some t, st2) \<Rightarrow> Inl (rejected_detail ''payload directory is not writable'' t, d)
      | (None, st2) \<Rightarrow>
      case next_fault (st2\<lparr>sg_tree := []\<rparr>) of
        (Some t, st3) \<Rightarrow>
          Inl (rejected_detail ''cannot set the payload directory mode'' t, d\<lparr>pd_left := Some []\<rparr>)
      | (None, st3) \<Rightarrow>
      case next_fault st3 of
        (Some t, st4) \<Rightarrow>
          Inl (rejected_detail ''cannot open the staging directory'' t, discard_staging st4 d)
      | (None, st4) \<Rightarrow> Inr (abs_dir, st4))"

definition receive ::
  "'r inject_env \<Rightarrow> string \<Rightarrow> payload_spec \<Rightarrow> staging \<Rightarrow> payload_dir \<Rightarrow>
     (goerr + inject_result) \<times> payload_dir" where
  "receive en dir spec st d =
     (case open_staging en dir spec st d of
        Inl (e, d1) \<Rightarrow> (Inl e, d1)
      | Inr (abs_dir, st1) \<Rightarrow>
          (case stage_payload en spec st1 of
             (Inl e, st2) \<Rightarrow> (Inl e, discard_staging st2 d)
           | (Inr res, st2) \<Rightarrow> finish_install en spec abs_dir res st2 d))"

section \<open>What extraction keeps\<close>

definition weigh :: "(node \<Rightarrow> nat) \<Rightarrow> tree \<Rightarrow> nat" where
  "weigh f t = sum_list (map (f \<circ> snd) t)"

fun is_file :: "node \<Rightarrow> nat" where
  "is_file (FileNode _ _) = 1"
| "is_file (DirNode _) = 0"

fun node_bytes :: "node \<Rightarrow> nat" where
  "node_bytes (FileNode b _) = length b"
| "node_bytes (DirNode _) = 0"

fun safe_node :: "node \<Rightarrow> bool" where
  "safe_node (FileNode _ m) \<longleftrightarrow> m AND NOT payload_perm_mask = 0"
| "safe_node (DirNode m) \<longleftrightarrow> m = dir_perm"

definition shape_ok :: "tree \<Rightarrow> bool" where
  "shape_ok t \<longleftrightarrow> distinct (map fst t) \<and>
     (\<forall>p v. map_of t p = Some v \<longrightarrow> confined p \<and> parent_is_dir t p)"

definition modes_ok :: "tree \<Rightarrow> bool" where
  "modes_ok t \<longleftrightarrow> (\<forall>p v. map_of t p = Some v \<longrightarrow> safe_node v)"

lemma weigh_new: "map_of t p = None \<Longrightarrow> weigh f (AList.update p v t) = weigh f t + f v"
  by (induction t) (auto simp: weigh_def split: if_splits)

lemma weigh_old: "map_of t p = Some w \<Longrightarrow> weigh f (AList.update p v t) + f w = weigh f t + f v"
  by (induction t) (auto simp: weigh_def split: if_splits)

lemma next_fault_sel: "next_fault st = (f, st1) \<Longrightarrow> sg_tree st1 = sg_tree st \<and> sg_umask st1 = sg_umask st"
  by (auto simp: next_fault_def split: list.splits)

lemma put_node_sel [simp]: "sg_tree (put_node p v st) = AList.update p v (sg_tree st)"
  by (simp add: put_node_def)

lemma mask_safe [simp]: "mask_mode m AND NOT payload_perm_mask = 0"
proof -
  have "non_exec_mask AND NOT payload_perm_mask = 0"
    by (simp add: non_exec_mask_def payload_perm_mask_def)
  then show ?thesis
    by (simp add: mask_mode_def and.assoc)
qed

lemma parent_mono:
  "parent_is_dir t p \<Longrightarrow> (\<And>q m. map_of t q = Some (DirNode m) \<Longrightarrow> \<exists>m'. map_of t' q = Some (DirNode m'))
    \<Longrightarrow> parent_is_dir t' p"
  by (fastforce simp: parent_is_dir_def split: option.splits node.splits)

lemma shape_put:
  assumes "shape_ok t" and "confined p" and "parent_is_dir t p"
    and "\<And>m. map_of t p = Some (DirNode m) \<Longrightarrow> \<exists>m'. v = DirNode m'"
  shows "shape_ok (AList.update p v t)"
  unfolding shape_ok_def
proof (intro conjI allI impI)
  show "distinct (map fst (AList.update p v t))" using assms(1) by (simp add: shape_ok_def distinct_update)
  fix q w
  assume q: "map_of (AList.update p v t) q = Some w"
  have keep: "parent_is_dir (AList.update p v t) q" if "parent_is_dir t q" for q
    by (rule parent_mono [OF that]) (use assms(4) in \<open>auto simp: update_conv'\<close>)
  show "confined q" using q assms(1,2) by (auto simp: shape_ok_def update_conv' split: if_splits)
  show "parent_is_dir (AList.update p v t) q"
    using q assms(1,3) keep by (auto simp: shape_ok_def update_conv' split: if_splits)
qed

lemma modes_put: "modes_ok t \<Longrightarrow> safe_node v \<Longrightarrow> modes_ok (AList.update p v t)"
  by (auto simp: modes_ok_def update_conv' split: if_splits)

text \<open>\<open>kept st st'\<close>: the shape is kept, and no file, and no byte of one, came or went.\<close>

definition kept :: "staging \<Rightarrow> staging \<Rightarrow> bool" where
  "kept st st' \<longleftrightarrow> (shape_ok (sg_tree st) \<longrightarrow> shape_ok (sg_tree st')) \<and>
     weigh is_file (sg_tree st') = weigh is_file (sg_tree st) \<and>
     weigh node_bytes (sg_tree st') = weigh node_bytes (sg_tree st)"

lemma kept_refl [simp]: "kept st st"
  by (simp add: kept_def)

lemma kept_trans: "kept a b \<Longrightarrow> kept b c \<Longrightarrow> kept a c"
  by (simp add: kept_def)

lemma mkdir_kept:
  assumes "sg_mkdir p m st = (r, st')" and "confined p"
  shows "kept st st' \<and> (r = Made \<longrightarrow> (\<exists>m'. sg_tree st' = AList.update p (DirNode m') (sg_tree st)) \<and>
      map_of (sg_tree st) p = None) \<and> (r \<noteq> Made \<longrightarrow> sg_tree st' = sg_tree st) \<and>
    (r = Exists \<longrightarrow> map_of (sg_tree st) p \<noteq> None)"
  using assms
  by (auto simp: sg_mkdir_def kept_def weigh_new shape_put dest!: next_fault_sel
      split: prod.splits option.splits if_splits)

lemma chmod_kept:
  assumes "sg_chmod p m st = (r, st')"
  shows "kept st st' \<and>
    (r = None \<longrightarrow> (\<exists>v. sg_tree st' = AList.update p v (sg_tree st) \<and>
       (v = DirNode m \<or> (\<exists>b. v = FileNode b m)))) \<and> (r \<noteq> None \<longrightarrow> sg_tree st' = sg_tree st)"
proof -
  have shape: "shape_ok (AList.update p v t)"
    if "shape_ok t" "map_of t p = Some (FileNode b k) \<or> (\<exists>k k'. map_of t p = Some (DirNode k) \<and> v = DirNode k')"
    for t v b k
    using that by (intro shape_put) (auto simp: shape_ok_def simp del: map_of_eq_Some_iff)
  have same: "weigh f (AList.update p v t) = weigh f t" if "map_of t p = Some w" "f v = f w" for t v w f
    using weigh_old [OF that(1), of f v] that(2) by simp
  show ?thesis using assms
    by (auto simp: sg_chmod_def kept_def same shape dest!: next_fault_sel
        split: prod.splits option.splits node.splits)
qed

lemma make_dir:
  assumes "sg_mkdir p dir_perm st = (mk, st1)" and "sg_chmod p dir_perm st1 = (ch, st2)" and "confined p"
  shows "kept st st2 \<and> (mk = Made \<or> mk = Exists \<longrightarrow> ch = None \<longrightarrow> modes_ok (sg_tree st) \<longrightarrow> modes_ok (sg_tree st2))"
proof (intro conjI impI)
  note m = mkdir_kept [OF assms(1,3)] and c = chmod_kept [OF assms(2)]
  show "kept st st2" using m c kept_trans by blast
  assume "mk = Made \<or> mk = Exists" "ch = None" and ok: "modes_ok (sg_tree st)"
  then obtain v where v: "sg_tree st2 = AList.update p v (sg_tree st1)" "safe_node v"
    using c by (auto simp: dir_perm_def payload_perm_mask_def)
  have "map_of (sg_tree st2) q = (if q = p then Some v else map_of (sg_tree st) q)" for q
    using m v(1) by (cases "mk = Made") (auto simp: update_conv')
  then show "modes_ok (sg_tree st2)" using ok v(2) by (simp add: modes_ok_def)
qed

lemma ensure_loop_kept:
  assumes "ensure_loop prefix es st = (r, st')" and "prefix = [] \<or> confined prefix"
    and "\<forall>e \<in> set es. plain_elem e"
  shows "kept st st' \<and> (r = None \<longrightarrow> modes_ok (sg_tree st) \<longrightarrow> modes_ok (sg_tree st'))"
  using assms
proof (induction es arbitrary: prefix st r st')
  case Nil
  then show ?case by simp
next
  case (Cons e es)
  let ?p = "if prefix = [] then e else prefix @ slash # e"
  have pl: "plain_elem e" "\<forall>e \<in> set es. plain_elem e" using Cons.prems(3) by simp_all
  have c: "confined ?p"
    using Cons.prems(2) pl(1) by (auto simp: confined_def split_on_join_slash plain_elem_def split_on_single)
  obtain mk st1 where mk: "sg_mkdir ?p dir_perm st = (mk, st1)" by (cases "sg_mkdir ?p dir_perm st")
  obtain ch st2 where ch: "sg_chmod ?p dir_perm st1 = (ch, st2)" by (cases "sg_chmod ?p dir_perm st1")
  note k1 = mkdir_kept [OF mk c] and k2 = make_dir [OF mk ch c]
  show ?case
  proof (cases "(\<exists>t. mk = NotMade t) \<or> ch \<noteq> None")
    case True
    then show ?thesis using Cons.prems(1) mk ch k1 k2
      by (auto simp: Let_def split: made.splits)
  next
    case False
    then have go: "ensure_loop ?p es st2 = (r, st')" and made: "mk = Made \<or> mk = Exists"
      using Cons.prems(1) mk ch by (auto simp: Let_def split: made.splits)
    show ?thesis using Cons.IH [OF go _ pl(2)] c k2 made False kept_trans by blast
  qed
qed

lemma ensure_dirs_kept:
  assumes "ensure_dirs n st = (r, st')" and "n = ''.'' \<or> confined n"
  shows "kept st st' \<and> (r = None \<longrightarrow> modes_ok (sg_tree st) \<longrightarrow> modes_ok (sg_tree st'))"
  using assms ensure_loop_kept [of "[]" "split_on slash n" st r st']
  by (auto simp: ensure_dirs_def confined_def split: if_splits)

lemma write_file_effect:
  assumes "write_file ar p mode sz r st = (Written, r', st')" and "confined p" and "0 \<le> sz"
    and "shape_ok (sg_tree st)" and "modes_ok (sg_tree st)"
  shows "shape_ok (sg_tree st')" "modes_ok (sg_tree st')"
    "weigh is_file (sg_tree st') = Suc (weigh is_file (sg_tree st))"
    "weigh node_bytes (sg_tree st') = weigh node_bytes (sg_tree st) + nat sz"
proof -
  obtain st1 where cr: "sg_create p st = (None, st1)"
    using assms(1) by (auto simp: write_file_def split: prod.splits option.splits)
  then have new: "map_of (sg_tree st) p = None" "parent_is_dir (sg_tree st) p"
    and t1: "\<exists>m. sg_tree st1 = AList.update p (FileNode [] m) (sg_tree st)"
    by (auto simp: sg_create_def dest!: next_fault_sel split: prod.splits option.splits if_splits)
  obtain r2 st2 where cp: "copy_n ar p sz r st1 = (CopyDone, r2, st2)"
    using assms(1) cr by (auto simp: write_file_def split: prod.splits option.splits copied.splits)
  obtain data e where body: "ar_body ar sz r = ((data, e), r2)" and len: "nat sz \<le> length data"
    and wr: "sg_write p (take (nat sz) data) st1 = (None, st2)"
    using cp by (auto simp: copy_n_def split: prod.splits option.splits if_splits read_err.splits)
  have t2: "\<exists>m. sg_tree st2 = AList.update p (FileNode (take (nat sz) data) m) (sg_tree st)"
    using wr t1 by (auto simp: sg_write_def update_conv' dest!: next_fault_sel
        split: prod.splits option.splits node.splits)
  obtain st3 where ch: "sg_chmod p (mask_tar_mode mode) st2 = (None, st3)"
    and t3: "sg_tree st' = sg_tree st3"
    using assms(1) cr cp by (auto simp: write_file_def close_file_def dest!: next_fault_sel
        split: prod.splits option.splits)
  have t: "sg_tree st' = AList.update p (FileNode (take (nat sz) data) (mask_tar_mode mode)) (sg_tree st)"
    using ch t2 t3 by (auto simp: sg_chmod_def update_conv' dest!: next_fault_sel
        split: prod.splits option.splits node.splits)
  show "shape_ok (sg_tree st')" using t assms(2,4) new by (auto intro: shape_put)
  show "modes_ok (sg_tree st')" using t assms(5) by (auto intro!: modes_put simp: mask_tar_mode_def)
  show "weigh is_file (sg_tree st') = Suc (weigh is_file (sg_tree st))" using t new by (simp add: weigh_new)
  show "weigh node_bytes (sg_tree st') = weigh node_bytes (sg_tree st) + nat sz"
    using t new len by (simp add: weigh_new)
qed

text \<open>The invariant of the loop, after some of at most \<open>mx\<close> entries.\<close>

definition extracted :: "int \<Rightarrow> nat \<Rightarrow> extraction \<Rightarrow> staging \<Rightarrow> bool" where
  "extracted limit entries x st \<longleftrightarrow>
     shape_ok (sg_tree st) \<and> modes_ok (sg_tree st) \<and>
     weigh is_file (sg_tree st) = ex_files x \<and> ex_files x \<le> entries \<and>
     int (weigh node_bytes (sg_tree st)) = ex_declared x \<and> ex_declared x \<le> limit"

lemma extracted_kept:
  "extracted limit k x st \<Longrightarrow> kept st st' \<Longrightarrow> modes_ok (sg_tree st') \<Longrightarrow>
    extracted limit (Suc k) (x\<lparr>ex_tree := t\<rparr>) st'"
  by (simp add: extracted_def kept_def)

lemma tar_file_extracted:
  assumes "tar_file ar qt limit h n x r st = (Inr x', r', st')" and "confined n"
    and "extracted limit k x st"
  shows "extracted limit (Suc k) x' st'"
proof -
  have pos: "0 \<le> h_size h" and fits: "ex_declared x + h_size h \<le> limit"
    using assms(1) by (auto simp: tar_file_def split: if_splits)
  obtain t st1 where dirs: "ensure_dirs (path_dir n) st = (None, st1)"
    and wf: "write_file ar n (h_mode h) (h_size h) r st1 = (Written, r', st')"
    and x': "x' = \<lparr>ex_tree = t, ex_declared = ex_declared x + h_size h, ex_files = Suc (ex_files x)\<rparr>"
    using assms(1) by (auto simp: tar_file_def split: if_splits sum.splits prod.splits option.splits written.splits)
  have "kept st st1" "modes_ok (sg_tree st1)"
    using ensure_dirs_kept [OF dirs confined_path_dir_cases [OF assms(2)]] assms(3)
    by (simp_all add: extracted_def)
  then have e: "extracted limit (Suc k) x st1" using extracted_kept [OF assms(3)] by (simp add: extracted_def)
  then have "shape_ok (sg_tree st1)" "modes_ok (sg_tree st1)" by (simp_all add: extracted_def)
  note w = write_file_effect [OF wf assms(2) pos this]
  have "ex_files x \<le> k" using assms(3) by (simp add: extracted_def)
  then show ?thesis using e w fits pos x' by (simp add: extracted_def)
qed

lemma tar_entry_extracted:
  assumes "tar_entry ar qt limit h x r st = (Inr x', r', st')" and "extracted limit k x st"
  shows "extracted limit (Suc k) x' st'"
proof -
  obtain n where n: "clean_entry_name qt (h_name h) = Inr n"
    using assms(1) by (auto simp: tar_entry_def Let_def split: sum.splits)
  have weaker: "extracted limit (Suc k) x st" using assms(2) by (simp add: extracted_def)
  consider (itself) "x' = x" "st' = st" | (regular) "confined n" "tar_file ar qt limit h n x r st = (Inr x', r', st')"
    | (folder) "confined n" "tar_dir qt n x st = (Inr x', st')"
    using assms(1) n clean_entry_confined [OF n]
    by (auto simp: tar_entry_def Let_def split: if_splits entry_type.splits prod.splits)
  then show ?thesis
  proof cases
    case itself
    then show ?thesis using weaker by simp
  next
    case regular
    show ?thesis by (rule tar_file_extracted [OF regular(2,1) assms(2)])
  next
    case folder
    then obtain t where t: "ensure_dirs n st = (None, st')" "x' = x\<lparr>ex_tree := t\<rparr>"
      by (auto simp: tar_dir_def split: sum.splits prod.splits option.splits)
    then have "kept st st'" "modes_ok (sg_tree st')"
      using ensure_dirs_kept [OF t(1)] folder(1) assms(2) by (simp_all add: extracted_def)
    then show ?thesis using extracted_kept [OF assms(2)] t(2) by blast
  qed
qed

lemma tar_loop_extracted:
  "tar_loop ar qt limit mx k x r st = (Inr x', r', st') \<Longrightarrow> extracted limit k x st \<Longrightarrow> k \<le> mx \<Longrightarrow>
    extracted limit mx x' st'"
proof (induction ar qt limit mx k x r st rule: tar_loop.induct)
  case (1 ar qt limit mx k x r st)
  obtain r1 where c: "ar_ctx ar r = (None, r1)"
    using 1(2) by (subst (asm) tar_loop.simps) (auto split: prod.splits option.splits)
  obtain nx r2 where nx: "ar_next ar r1 = (nx, r2)" by (cases "ar_next ar r1")
  show ?case
  proof (cases nx)
    case (TarEntry h)
    obtain x1 r3 st1 where e: "tar_entry ar qt limit h x r2 st = (Inr x1, r3, st1)"
      and k: "Suc k \<le> mx" and rest: "tar_loop ar qt limit mx (Suc k) x1 r3 st1 = (Inr x', r', st')"
      using 1(2) c nx TarEntry by (subst (asm) tar_loop.simps) (auto split: prod.splits sum.splits if_splits)
    have "extracted limit (Suc k) x1 st1" by (rule tar_entry_extracted [OF e 1(3)])
    then show ?thesis
      using 1(1) [OF c [symmetric] refl nx [symmetric] TarEntry _ e [symmetric] refl refl rest] k
        \<open>extracted limit (Suc k) x1 st1\<close> by simp
  next
    case TarEnd
    then show ?thesis using 1(2-4) c nx by (subst (asm) tar_loop.simps) (auto simp: extracted_def)
  next
    case (TarBad e)
    then show ?thesis using 1(2) c nx by (subst (asm) tar_loop.simps) auto
  qed
qed

section \<open>Calls that do not fail\<close>

text \<open>Once no call is scheduled to fail, none is later: the schedule only gets shorter.\<close>

definition sound :: "staging \<Rightarrow> staging \<Rightarrow> bool" where
  "sound st st' \<longleftrightarrow> (sg_faults st = [] \<longrightarrow> sg_faults st' = [])"

lemma sound_refl [simp]: "sound st st"
  by (simp add: sound_def)

lemma sound_trans: "sound a b \<Longrightarrow> sound b c \<Longrightarrow> sound a c"
  by (simp add: sound_def)

lemma sound_fault: "next_fault st = (f, st1) \<Longrightarrow> sound st st1"
  by (auto simp: next_fault_def sound_def split: list.splits)

lemma sound_put [simp]: "sound st (put_node p v st1) = sound st st1"
  by (simp add: sound_def put_node_def)

lemma sound_ops:
  "sg_mkdir p m st = (a, st1) \<Longrightarrow> sound st st1"
  "sg_chmod p m st = (b, st1) \<Longrightarrow> sound st st1"
  "sg_create p st = (b, st1) \<Longrightarrow> sound st st1"
  "sg_write p data st = (b, st1) \<Longrightarrow> sound st st1"
  "close_file st = (b, st1) \<Longrightarrow> sound st st1"
  by (auto simp: sg_mkdir_def sg_chmod_def sg_create_def sg_write_def close_file_def dest!: sound_fault
      split: prod.splits option.splits node.splits if_splits)

lemma sound_ensure_loop: "ensure_loop prefix es st = (r, st') \<Longrightarrow> sound st st'"
proof (induction es arbitrary: prefix st)
  case (Cons e es)
  let ?p = "if prefix = [] then e else prefix @ slash # e"
  obtain mk st1 where mk: "sg_mkdir ?p dir_perm st = (mk, st1)" by (cases "sg_mkdir ?p dir_perm st")
  obtain ch st2 where ch: "sg_chmod ?p dir_perm st1 = (ch, st2)" by (cases "sg_chmod ?p dir_perm st1")
  have s: "sound st st1" "sound st st2" using sound_ops(1) [OF mk] sound_ops(2) [OF ch] sound_trans by blast+
  have "st' = st1 \<or> st' = st2 \<or> ensure_loop ?p es st2 = (r, st')"
    using Cons.prems mk ch by (auto simp: Let_def split: made.splits option.splits)
  then show ?case using Cons.IH s sound_trans by blast
qed simp

lemma sound_write_file: "write_file ar p mode sz r st = (w, r', st') \<Longrightarrow> sound st st'"
  unfolding write_file_def copy_n_def
  by (auto dest!: sound_ops intro: sound_trans split: prod.splits option.splits if_splits read_err.splits)

lemma sound_tar_entry: "tar_entry ar qt limit h x r st = (e, r', st') \<Longrightarrow> sound st st'"
proof -
  have dirs: "ensure_dirs n st = (q, st1) \<Longrightarrow> sound st st1" for n q st1
    using sound_ensure_loop by (auto simp: ensure_dirs_def split: if_splits)
  have regular: "tar_file ar qt limit h n x r st = (e, r', st') \<Longrightarrow> sound st st'" for n
    unfolding tar_file_def
    by (auto dest!: dirs sound_write_file intro: sound_trans
        split: if_splits sum.splits prod.splits option.splits written.splits)
  have folder: "tar_dir qt n x st = (e, st') \<Longrightarrow> sound st st'" for n
    unfolding tar_dir_def by (auto dest!: dirs split: sum.splits prod.splits option.splits)
  show "tar_entry ar qt limit h x r st = (e, r', st') \<Longrightarrow> sound st st'"
    by (auto simp: tar_entry_def Let_def dest: regular folder
        split: sum.splits if_splits entry_type.splits prod.splits)
qed

lemma sound_tar_loop: "tar_loop ar qt limit mx k x r st = (e, r', st') \<Longrightarrow> sound st st'"
proof (induction ar qt limit mx k x r st rule: tar_loop.induct)
  case (1 ar qt limit mx k x r st)
  show ?case
    using 1(2) 1(1) sound_tar_entry sound_trans
    by (subst (asm) tar_loop.simps) (fastforce split: prod.splits option.splits tar_next.splits if_splits sum.splits)
qed

lemma sound_stage: "stage_payload en spec st = (e, st') \<Longrightarrow> sound st st'"
  unfolding stage_payload_def
  by (auto simp: tar_payload_def binary_payload_def Let_def dest!: sound_tar_loop sound_ops intro: sound_trans
      split: if_splits sum.splits prod.splits option.splits)

section \<open>Properties\<close>

text \<open>
  C22. What a tar bundle leaves in the staging directory when it is accepted: every path is
  a relative name that stays inside, whose parent is a directory of the tree; directories
  have the directory mode and files no permission outside the mask, so no setuid bit and
  no write bit of group or other; the files are as many as the result says and at most as
  many as allowed, and together not larger than the limit.
\<close>

theorem bundle_confined:
  assumes "tar_payload ar sha qt spec st = (Inr (dg, n, files), st')" and "sg_tree st = []"
  shows "(\<forall>p v. map_of (sg_tree st') p = Some v \<longrightarrow>
      confined p \<and> parent_is_dir (sg_tree st') p \<and> safe_node v) \<and>
    distinct (map fst (sg_tree st')) \<and>
    weigh is_file (sg_tree st') = files \<and> int files \<le> spec_max_files spec \<and>
    int (weigh node_bytes (sg_tree st')) \<le> spec_limit spec \<and> n \<le> limited_bound (spec_limit spec) - 1"
proof -
  obtain x r1 r2 where loop: "tar_loop ar qt (spec_limit spec) (nat (spec_max_files spec)) 0 new_extraction
        (ar_open ar (limited_bound (spec_limit spec))) st = (Inr x, r1, st')"
    and files: "files = ex_files x" and left: "0 < ar_left ar r2"
    and n: "n = limited_bound (spec_limit spec) - ar_left ar r2"
    using assms(1) by (auto simp: tar_payload_def Let_def split: sum.splits prod.splits option.splits if_splits)
  have pos: "0 < spec_max_files spec" "0 < spec_limit spec"
    by (simp_all add: spec_max_files_def spec_limit_def default_max_files_def default_max_bytes_def)
  have "extracted (spec_limit spec) 0 new_extraction st"
    using assms(2) pos by (simp add: extracted_def new_extraction_def shape_ok_def modes_ok_def weigh_def)
  then have "extracted (spec_limit spec) (nat (spec_max_files spec)) x st'"
    using tar_loop_extracted [OF loop] by simp
  then show ?thesis using files n left pos by (auto simp: extracted_def shape_ok_def modes_ok_def)
qed

text \<open>A reader over a list of headers with their bodies, for the witnesses.\<close>

definition list_archive :: "((header \<times> string) list \<times> int) archive" where
  "list_archive = \<lparr>ar_open = (\<lambda>n. ([(\<lparr>h_name = ''bin/./app'', h_mode = 511, h_size = 2, h_type = TypeReg\<rparr>, ''ab'')], n)),
     ar_ctx = (\<lambda>r. (None, r)),
     ar_next = (\<lambda>(es, n). case es of [] \<Rightarrow> (TarEnd, (es, n)) | (h, b) # _ \<Rightarrow> (TarEntry h, (es, n - 1))),
     ar_body = (\<lambda>k (es, n). case es of [] \<Rightarrow> (([], None), (es, n)) | (h, b) # rest \<Rightarrow> ((b, None), (rest, n))),
     ar_drain = (\<lambda>r. (None, r)), ar_left = snd, ar_seen = (\<lambda>_. [])\<rparr>"

definition demo_spec :: payload_spec where
  "demo_spec = \<lparr>sp_kind = KindTar, sp_name = ''app'', sp_mode = 0, sp_max_bytes = 10, sp_max_files = 4\<rparr>"

definition demo_staging :: staging where
  "demo_staging = \<lparr>sg_tree = [], sg_faults = [], sg_umask = 18\<rparr>"

definition demo_tree :: tree where
  "demo_tree = [(''bin'', DirNode 493), (''bin/app'', FileNode ''ab'' 493)]"

lemma demo_bundle:
  "tar_payload list_archive id id demo_spec demo_staging =
     (Inr (''sha256:'', 1, 1), demo_staging\<lparr>sg_tree := demo_tree\<rparr>)"
  by code_simp

theorem bundle_confined_witness:
  "tar_payload list_archive id id demo_spec demo_staging =
     (Inr (''sha256:'', 1, 1), demo_staging\<lparr>sg_tree := demo_tree\<rparr>) \<and>
   parent_is_dir demo_tree ''bin/app'' \<and> weigh is_file demo_tree = 1"
  using bundle_confined [OF demo_bundle] demo_bundle
  by (simp add: demo_staging_def demo_tree_def)

section \<open>Installing\<close>

text \<open>What a complete payload is: all bytes of the stream, or a bundle whose extraction succeeded.\<close>

definition complete_payload :: "'r inject_env \<Rightarrow> payload_spec \<Rightarrow> string \<times> int \<times> nat \<Rightarrow> pentry \<Rightarrow> bool" where
  "complete_payload en spec res v \<longleftrightarrow>
     (if sp_kind spec = KindBinary
      then v = PFile (bs_data (ie_source en)) (mask_binary_mode (sp_mode spec)) \<and>
        bs_error (ie_source en) = None \<and>
        res = (digest_string (ie_sha en) (bs_data (ie_source en)), int (length (bs_data (ie_source en))), 1) \<and>
        int (length (bs_data (ie_source en))) \<le> spec_limit spec
      else \<exists>st0 st1. sg_tree st0 = [] \<and> v = PTree dir_perm (sg_tree st1) \<and>
        tar_payload (ie_archive en) (ie_sha en) (ie_quote en) spec st0 = (Inr res, st1))"

lemma binary_payload_Inr:
  assumes "binary_payload sha ctx spec src st = (Inr res, st')" and "sg_tree st = []"
  shows "sg_tree st' = [(sp_name spec, FileNode (bs_data src) (mask_binary_mode (sp_mode spec)))]"
    "bs_error src = None" "int (length (bs_data src)) \<le> spec_limit spec"
    "res = (digest_string sha (bs_data src), int (length (bs_data src)), 1)"
proof -
  let ?n = "sp_name spec"
  let ?data = "take (nat (spec_limit spec)) (bs_data src)"
  obtain st1 st2 st3 where cr: "sg_create ?n st = (None, st1)" and wr: "sg_write ?n ?data st1 = (None, st2)"
    and ch: "sg_chmod ?n (mask_binary_mode (sp_mode spec)) st2 = (None, st3)"
    and cl: "close_file st3 = (None, st')" and res: "res = (digest_string sha ?data, int (length ?data), 1)"
    and fits: "bs_error src = None" "int (length (bs_data src)) \<le> spec_limit spec"
    using assms(1)
    by (auto simp: binary_payload_def Let_def split: option.splits prod.splits if_splits)
  have all: "?data = bs_data src" using fits(2) by simp
  obtain m where "sg_tree st1 = [(?n, FileNode [] m)]"
    using cr assms(2) by (auto simp: sg_create_def dest!: next_fault_sel split: option.splits prod.splits if_splits)
  then have "sg_tree st2 = [(?n, FileNode (bs_data src) m)]"
    using wr all by (auto simp: sg_write_def dest!: next_fault_sel split: option.splits prod.splits)
  then have "sg_tree st3 = [(?n, FileNode (bs_data src) (mask_binary_mode (sp_mode spec)))]"
    using ch by (auto simp: sg_chmod_def dest!: next_fault_sel split: option.splits prod.splits)
  then show "sg_tree st' = [(?n, FileNode (bs_data src) (mask_binary_mode (sp_mode spec)))]"
    using cl by (auto simp: close_file_def dest!: next_fault_sel)
  show "bs_error src = None" "int (length (bs_data src)) \<le> spec_limit spec" by (rule fits)+
  show "res = (digest_string sha (bs_data src), int (length (bs_data src)), 1)" using res all by simp
qed

lemma stage_complete:
  assumes "stage_payload en spec st = (Inr res, st')" and "sg_tree st = []"
  shows "\<exists>v. staged_entry spec (sg_tree st') = Some v \<and> complete_payload en spec res v"
  using assms binary_payload_Inr [of "ie_sha en" "ie_ctx_binary en" spec "ie_source en" st res st']
  by (auto simp: stage_payload_def complete_payload_def staged_entry_def split: if_splits)

lemma discard_sel [simp]: "pd_entries (discard_staging st d) = pd_entries d"
  by (auto simp: discard_staging_def split: prod.splits option.splits)

lemma discard_sound: "sg_faults st = [] \<Longrightarrow> pd_left (discard_staging st d) = None"
  by (simp add: discard_staging_def next_fault_def)

lemma rename_staged_Inr:
  "rename_staged stg spec t d = Inr d' \<Longrightarrow> \<exists>v. staged_entry spec t = Some v \<and>
    pd_entries d' = AList.update (sp_name spec) v (pd_entries d) \<and>
    (sp_kind spec \<noteq> KindBinary \<longrightarrow> pd_left d' = None)"
  by (auto simp: rename_staged_def split: option.splits if_splits)

lemma finish_install_cases:
  assumes "finish_install en spec a res st d = (r, d')" and "staged_entry spec (sg_tree st) = Some v"
  shows "(\<exists>e. r = Inl e \<and> pd_entries d' = pd_entries d) \<or>
    pd_entries d' = AList.update (sp_name spec) v (pd_entries d) \<and>
      (case r of Inl _ \<Rightarrow> sp_kind spec = KindBinary \<and> sg_faults st \<noteq> []
       | Inr x \<Rightarrow> pd_left d' = None \<and> x = \<lparr>ir_path = path_join a (sp_name spec), ir_digest = fst res,
           ir_bytes = fst (snd res), ir_files = snd (snd res)\<rparr>)"
  using assms
  by (auto simp: finish_install_def Let_def next_fault_def dest!: rename_staged_Inr
      split: prod.splits option.splits sum.splits if_splits list.splits)

lemma finish_install_left:
  assumes "finish_install en spec a res st d = (r, d')" and "sg_faults st = []"
  shows "pd_left d' = None"
  using assms
  by (auto simp: finish_install_def Let_def next_fault_def discard_staging_def dest!: rename_staged_Inr
      split: sum.splits if_splits)

lemma open_staging_Inl:
  assumes "open_staging en dir spec st d = Inl (e, d')"
  shows "pd_entries d' = pd_entries d" "sg_faults st = [] \<Longrightarrow> pd_left d' = pd_left d"
proof -
  show "pd_entries d' = pd_entries d"
    using assms by (auto simp: open_staging_def split: option.splits if_splits sum.splits payload_kind.splits prod.splits)
  show "sg_faults st = [] \<Longrightarrow> pd_left d' = pd_left d"
    using assms by (auto simp: open_staging_def next_fault_def
        split: option.splits if_splits sum.splits payload_kind.splits)
qed

lemma open_staging_Inr:
  assumes "open_staging en dir spec st d = Inr (a, st')"
  shows "sg_tree st' = []" "sound st st'" "plain_name (sp_name spec)" "abs_path (ie_wd en) dir = Inr a"
proof -
  obtain st1 st2 st3 where f: "next_fault st = (None, st1)" "next_fault st1 = (None, st2)"
    "next_fault (st2\<lparr>sg_tree := []\<rparr>) = (None, st3)" "next_fault st3 = (None, st')"
    and rest: "plain_name (sp_name spec)" "abs_path (ie_wd en) dir = Inr a"
    using assms by (auto simp: open_staging_def split: option.splits if_splits sum.splits payload_kind.splits prod.splits)
  show "sg_tree st' = []" using next_fault_sel [OF f(3)] next_fault_sel [OF f(4)] by simp
  show "sound st st'"
    using sound_fault [OF f(1)] sound_fault [OF f(2)] sound_fault [OF f(3)] sound_fault [OF f(4)]
    by (simp add: sound_def)
  show "plain_name (sp_name spec)" "abs_path (ie_wd en) dir = Inr a" by (rule rest)+
qed

lemma receive_effect:
  assumes "receive en dir spec st d = (r, d')"
  shows "(\<forall>q. q \<noteq> sp_name spec \<longrightarrow> map_of (pd_entries d') q = map_of (pd_entries d) q) \<and>
    (map_of (pd_entries d') (sp_name spec) = map_of (pd_entries d) (sp_name spec) \<or>
      (\<exists>res v. complete_payload en spec res v \<and> map_of (pd_entries d') (sp_name spec) = Some v)) \<and>
    (case r of
       Inl e \<Rightarrow> sp_kind spec = KindBinary \<and> sg_faults st \<noteq> [] \<or> pd_entries d' = pd_entries d
     | Inr x \<Rightarrow> plain_name (sp_name spec) \<and> pd_left d' = None \<and>
        (\<exists>a res v. abs_path (ie_wd en) dir = Inr a \<and> complete_payload en spec res v \<and>
          map_of (pd_entries d') (sp_name spec) = Some v \<and>
          x = \<lparr>ir_path = path_join a (sp_name spec), ir_digest = fst res,
            ir_bytes = fst (snd res), ir_files = snd (snd res)\<rparr>)) \<and>
    (sg_faults st = [] \<longrightarrow> pd_left d = None \<longrightarrow> pd_left d' = None)"
proof (cases "open_staging en dir spec st d")
  case (Inl p)
  then show ?thesis using assms open_staging_Inl [of en dir spec st d "fst p" "snd p"]
    by (auto simp: receive_def split: prod.splits)
next
  case (Inr p)
  obtain a st1 where p: "p = (a, st1)" by (cases p)
  note o = open_staging_Inr [OF Inr [unfolded p]]
  obtain e st2 where sp: "stage_payload en spec st1 = (e, st2)" by (cases "stage_payload en spec st1")
  have clean: "sg_faults st = [] \<Longrightarrow> sg_faults st2 = []"
    using o(2) sound_stage [OF sp] by (simp add: sound_def)
  show ?thesis
  proof (cases e)
    case (Inl x)
    then show ?thesis using assms Inr p sp clean by (auto simp: receive_def discard_sound)
  next
    case (Inr res)
    have fin: "finish_install en spec a res st2 d = (r, d')"
      using assms \<open>open_staging en dir spec st d = Inr p\<close> p sp Inr by (simp add: receive_def)
    obtain v where v: "staged_entry spec (sg_tree st2) = Some v" "complete_payload en spec res v"
      using stage_complete [OF sp [unfolded Inr] o(1)] by blast
    obtain dg k fs where res: "res = (dg, k, fs)" by (cases res)
    show ?thesis
      using finish_install_cases [OF fin v(1)] finish_install_left [OF fin clean] v(2) o(3,4) clean res
      by (auto simp: update_conv' split: sum.splits)
  qed
qed

text \<open>
  C7. Receiving is all or nothing. Whatever call fails, no other entry of the payload
  directory changes, and the payload's own entry is the one it was or the complete payload;
  a bundle that fails changes nothing. On success the entry is the complete payload,
  the name was a plain one and no staging directory is left; and when no call of the
  operating system fails, none is ever left.
\<close>

theorem receive_atomic:
  assumes "receive en dir spec st d = (r, d')"
  shows "(\<forall>q. q \<noteq> sp_name spec \<longrightarrow> map_of (pd_entries d') q = map_of (pd_entries d) q) \<and>
    (map_of (pd_entries d') (sp_name spec) = map_of (pd_entries d) (sp_name spec) \<or>
      (\<exists>res v. complete_payload en spec res v \<and> map_of (pd_entries d') (sp_name spec) = Some v)) \<and>
    (case r of
       Inl e \<Rightarrow> sp_kind spec = KindBinary \<and> sg_faults st \<noteq> [] \<or> pd_entries d' = pd_entries d
     | Inr x \<Rightarrow> plain_name (sp_name spec) \<and> pd_left d' = None \<and>
        (\<exists>a res v. abs_path (ie_wd en) dir = Inr a \<and> complete_payload en spec res v \<and>
          map_of (pd_entries d') (sp_name spec) = Some v \<and>
          x = \<lparr>ir_path = path_join a (sp_name spec), ir_digest = fst res,
            ir_bytes = fst (snd res), ir_files = snd (snd res)\<rparr>)) \<and>
    (sg_faults st = [] \<longrightarrow> pd_left d = None \<longrightarrow> pd_left d' = None)"
  by (rule receive_effect [OF assms])

definition demo_env :: "((header \<times> string) list \<times> int) inject_env" where
  "demo_env = \<lparr>ie_archive = list_archive, ie_sha = id, ie_quote = id, ie_wd = Inr ''/'',
     ie_staging = ''.staging-1'', ie_ctx_first = None, ie_ctx_binary = None,
     ie_source = \<lparr>bs_data = [], bs_error = None\<rparr>\<rparr>"

definition demo_payload_dir :: payload_dir where
  "demo_payload_dir = \<lparr>pd_entries = [(''old'', PFile ''x'' 420)], pd_left = None\<rparr>"

lemma demo_receive:
  "receive demo_env ''/payload'' demo_spec demo_staging demo_payload_dir =
     (Inr \<lparr>ir_path = ''/payload/app'', ir_digest = ''sha256:'', ir_bytes = 1, ir_files = 1\<rparr>,
      \<lparr>pd_entries = [(''old'', PFile ''x'' 420), (''app'', PTree 493 demo_tree)], pd_left = None\<rparr>)"
  by code_simp

theorem receive_atomic_witness:
  "pd_left (snd (receive demo_env ''/payload'' demo_spec demo_staging demo_payload_dir)) = None \<and>
   map_of (pd_entries (snd (receive demo_env ''/payload'' demo_spec demo_staging demo_payload_dir))) ''old''
     = Some (PFile ''x'' 420)"
proof -
  have f: "sg_faults demo_staging = []" "pd_left demo_payload_dir = None" "''old'' \<noteq> sp_name demo_spec"
    "map_of (pd_entries demo_payload_dir) ''old'' = Some (PFile ''x'' 420)"
    by (simp_all add: demo_staging_def demo_payload_dir_def demo_spec_def)
  show ?thesis using receive_atomic [OF demo_receive] f unfolding demo_receive by simp
qed

text \<open>
  Two failures of the operating system break what the source's comment promises: when the
  mode of the staging directory cannot be set, the directory is left behind; when the
  emptied staging directory of a binary cannot be removed, the call fails although the
  payload is installed.
\<close>

lemma staging_left_behind:
  "receive demo_env ''/payload'' demo_spec (demo_staging\<lparr>sg_faults := [None, None, Some ''e'']\<rparr>) demo_payload_dir =
     (Inl (rejected_detail ''cannot set the payload directory mode'' ''e''), demo_payload_dir\<lparr>pd_left := Some []\<rparr>)"
  by code_simp

lemma installed_but_failed:
  "receive (demo_env\<lparr>ie_source := \<lparr>bs_data = ''ab'', bs_error = None\<rparr>\<rparr>) ''/payload''
     (demo_spec\<lparr>sp_kind := KindBinary\<rparr>)
     (demo_staging\<lparr>sg_faults := replicate 10 None @ [Some ''e'']\<rparr>) demo_payload_dir =
   (Inl (rejected_detail ''cannot remove the staging directory'' ''e''),
    \<lparr>pd_entries = [(''old'', PFile ''x'' 420), (''app'', PFile ''ab'' 493)], pd_left = None\<rparr>)"
  by code_simp

end
