(* ===== verification/Rpc.thy ===== *)
theory Rpc
  imports Results
begin

text \<open>
  The control transport (\<open>internal/rpc/rpc.go\<close>): one framed request and one framed answer
  per connection, over a Unix socket. A byte is a \<open>char\<close>. A connection is what the peer
  has sent and how reading ends after it (\<open>rest\<close>), and the bytes written to it; a write
  may fail. JSON encoding is the parameter \<open>codec\<close>, the handler is the parameter \<open>h\<close>,
  and whether the caller's context is done is a flag of the call. Deadlines only decide
  how a read ends, so they are part of that.
\<close>

section \<open>Framing\<close>

definition max_message :: nat where
  "max_message = 4194304"

definition op_control :: string where
  "op_control = ''control''"

datatype read_end = EndEOF | EndUnexpectedEOF | EndDeadline | EndOther string

datatype rpc_err = TooLarge | ReadEnded read_end

record stream =
  in_bytes :: string
  in_end :: read_end

text \<open>
  \<open>io.ReadFull\<close>: \<open>EOF\<close> when nothing was read, \<open>ErrUnexpectedEOF\<close> when the end came later,
  any other error as it is.
\<close>

definition read_full :: "nat \<Rightarrow> stream \<Rightarrow> (read_end + string) \<times> stream" where
  "read_full n s =
     (if n \<le> length (in_bytes s) then (Inr (take n (in_bytes s)), s\<lparr>in_bytes := drop n (in_bytes s)\<rparr>)
      else (Inl (case in_end s of
                   EndEOF \<Rightarrow> if in_bytes s = [] then EndEOF else EndUnexpectedEOF
                 | e \<Rightarrow> e), s\<lparr>in_bytes := []\<rparr>))"

text \<open>\<open>binary.BigEndian\<close> on 32 bits.\<close>

definition be_bytes :: "u32 \<Rightarrow> string" where
  "be_bytes w = map (\<lambda>k. char_of (unat (drop_bit k w AND 255))) [24, 16, 8, 0]"

definition be_word :: "string \<Rightarrow> u32" where
  "be_word bs = foldl (\<lambda>w c. push_bit 8 w OR of_nat (of_char c)) 0 bs"

definition read_message :: "stream \<Rightarrow> (rpc_err + string) \<times> stream" where
  "read_message s =
     (case read_full 4 s of
        (Inl e, s1) \<Rightarrow> (Inl (ReadEnded e), s1)
      | (Inr hdr, s1) \<Rightarrow>
          let n = unat (be_word hdr)
          in if max_message < n then (Inl TooLarge, s1)
             else (case read_full n s1 of
                     (Inl e, s2) \<Rightarrow> (Inl (ReadEnded e), s2)
                   | (Inr body, s2) \<Rightarrow> (Inr body, s2)))"

text \<open>
  Writing: the bytes that reach the wire. \<open>ok\<close> says whether the writes of the header and of
  the body succeed; nothing is written of a message that is too large.
\<close>

record wire =
  wr_bytes :: string
  wr_fails :: "string option list"

definition wire_write :: "string \<Rightarrow> wire \<Rightarrow> string option \<times> wire" where
  "wire_write bs w =
     (case wr_fails w of
        Some e # fs \<Rightarrow> (Some e, w\<lparr>wr_fails := fs\<rparr>)
      | None # fs \<Rightarrow> (None, w\<lparr>wr_bytes := wr_bytes w @ bs, wr_fails := fs\<rparr>)
      | [] \<Rightarrow> (None, w\<lparr>wr_bytes := wr_bytes w @ bs\<rparr>))"

datatype write_err = WriteTooLarge | WriteFailed string

definition write_message :: "string \<Rightarrow> wire \<Rightarrow> write_err option \<times> wire" where
  "write_message body w =
     (if max_message < length body then (Some WriteTooLarge, w)
      else case wire_write (be_bytes (of_nat (length body))) w of
             (Some e, w1) \<Rightarrow> (Some (WriteFailed e), w1)
           | (None, w1) \<Rightarrow>
               (case wire_write body w1 of
                  (Some e, w2) \<Rightarrow> (Some (WriteFailed e), w2)
                | (None, w2) \<Rightarrow> (None, w2)))"

section \<open>Server\<close>

record rpc_config =
  cf_path :: string
  cf_expected_uid :: u32
  cf_dir_mode :: u32
  cf_socket_mode :: u32

record response =
  rs_payload :: string
  rs_failure :: "failure option"

text \<open>\<open>json.Marshal\<close> and \<open>json.Unmarshal\<close> of a response; marshalling may fail.\<close>

record resp_codec =
  rc_encode :: "response \<Rightarrow> string option"
  rc_decode :: "string \<Rightarrow> response option"

definition payload_response :: "string \<Rightarrow> response" where
  "payload_response p = \<lparr>rs_payload = p, rs_failure = None\<rparr>"

definition failure_response :: "failure \<Rightarrow> response" where
  "failure_response f = \<lparr>rs_payload = [], rs_failure = Some f\<rparr>"

definition rpc_usage :: "string \<Rightarrow> failure" where
  "rpc_usage m = new_failure UsageError op_control m"

definition failure_from_error :: "goerr \<Rightarrow> failure" where
  "failure_from_error e =
     (case e of
        Typed f \<Rightarrow> f
      | EngineNotFound t \<Rightarrow> new_failure SessionNotReady op_control t
      | PlainErr t \<Rightarrow> new_failure SessionNotReady op_control t)"

definition respond :: "resp_codec \<Rightarrow> response \<Rightarrow> wire \<Rightarrow> wire" where
  "respond rc resp w =
     (case rc_encode rc resp of
        None \<Rightarrow> w
      | Some body \<Rightarrow>
          if max_message < length body then
            (case rc_encode rc (failure_response (rpc_usage ''malformed or oversized control response'')) of
               None \<Rightarrow> w
             | Some body' \<Rightarrow> snd (write_message body' w))
          else snd (write_message body w))"

text \<open>
  One connection. The peer's credentials are the parameter \<open>peer\<close>: an error, or a user
  identifier; on an error Go's \<open>uid\<close> is 0. The handler gets the world and may change it.
\<close>

definition wrong_user :: "u32 \<Rightarrow> failure" where
  "wrong_user uid =
     with_details [(''uid'', dec_nat (unat uid))]
       (new_failure SessionNotReady op_control ''the control socket is not available to this user'')"

definition handle_conn ::
  "rpc_config \<Rightarrow> resp_codec \<Rightarrow> (string \<Rightarrow> 'w \<Rightarrow> (goerr + string) \<times> 'w) \<Rightarrow> u32 option \<Rightarrow> stream \<Rightarrow> wire \<Rightarrow> 'w \<Rightarrow>
     wire \<times> 'w" where
  "handle_conn cf rc h peer s w x =
     (if cf_expected_uid cf \<noteq> 0 \<and> peer \<noteq> Some (cf_expected_uid cf)
      then (respond rc (failure_response (wrong_user (case peer of Some u \<Rightarrow> u | None \<Rightarrow> 0))) w, x)
      else case fst (read_message s) of
        Inl TooLarge \<Rightarrow>
          (respond rc (failure_response (rpc_usage ''malformed or oversized control message'')) w, x)
      | Inl (ReadEnded _) \<Rightarrow> (w, x)
      | Inr request \<Rightarrow>
          (case h request x of
             (Inl e, x1) \<Rightarrow> (respond rc (failure_response (failure_from_error e)) w, x1)
           | (Inr p, x1) \<Rightarrow> (respond rc (payload_response p) w, x1)))"

text \<open>
  The accept loop. What the listener yields is a list: a connection, an error whose
  \<open>Timeout()\<close> holds, another error; each with whether the server is closed or the context
  done by then. The loop keeps serving when the list is exhausted (\<open>None\<close>).
\<close>

datatype accepted =
  Conn "u32 option" stream wire
| AcceptTimeout bool
| AcceptFailed bool string

fun serve_loop ::
  "rpc_config \<Rightarrow> resp_codec \<Rightarrow> (string \<Rightarrow> 'w \<Rightarrow> (goerr + string) \<times> 'w) \<Rightarrow> accepted list \<Rightarrow> 'w \<Rightarrow>
     goerr option option \<times> wire list \<times> 'w" where
  "serve_loop cf rc h [] x = (None, [], x)"
| "serve_loop cf rc h (Conn peer s w # rest) x =
     (let (w1, x1) = handle_conn cf rc h peer s w x;
          (r, ws, x2) = serve_loop cf rc h rest x1
      in (r, w1 # ws, x2))"
| "serve_loop cf rc h (AcceptTimeout stopped # rest) x =
     (if stopped then (Some None, [], x) else serve_loop cf rc h rest x)"
| "serve_loop cf rc h (AcceptFailed stopped t # rest) x =
     (if stopped then (Some None, [], x)
      else (Some (Some (PlainErr (''rpc: accepting connection: '' @ t))), [], x))"

definition serve ::
  "rpc_config \<Rightarrow> resp_codec \<Rightarrow> (string \<Rightarrow> 'w \<Rightarrow> (goerr + string) \<times> 'w) option \<Rightarrow> accepted list \<Rightarrow> 'w \<Rightarrow>
     goerr option option \<times> wire list \<times> 'w" where
  "serve cf rc h evs x =
     (case h of
        None \<Rightarrow> (Some (Some (PlainErr ''rpc: no handler installed'')), [], x)
      | Some f \<Rightarrow> serve_loop cf rc f evs x)"

section \<open>The socket and its directory\<close>

text \<open>Modes in decimal: 448 is octal 700, 384 is 600, 18 is 022.\<close>

definition default_dir_mode :: u32 where "default_dir_mode = 448"
definition default_socket_mode :: u32 where "default_socket_mode = 384"

datatype dir_stat = StatEntry bool u32 "u32 option" | StatMissing | StatFailed string

record dir_calls =
  dc_stat :: dir_stat
  dc_uid :: u32
  dc_mkdir :: "string option"
  dc_chmod :: "string option"
  dc_listen :: "string option"
  dc_socket_chmod :: "string option"

text \<open>The answer is the mode the call left on the directory, if it set one.\<close>

definition prepare_dir :: "dir_calls \<Rightarrow> u32 \<Rightarrow> goerr + u32 option" where
  "prepare_dir dc mode =
     (case dc_stat dc of
        StatEntry is_dir perm owner \<Rightarrow>
          if \<not> is_dir then Inl (PlainErr ''rpc: %s exists and is not a directory'')
          else if perm AND 18 \<noteq> 0 then Inl (PlainErr ''rpc: socket directory %s is group or world writable (%#o)'')
          else (case owner of
                  None \<Rightarrow> Inl (PlainErr ''rpc: cannot determine the owner of socket directory %s'')
                | Some u \<Rightarrow>
                    if u \<noteq> dc_uid dc then Inl (PlainErr ''rpc: socket directory %s is owned by uid %d, not %d'')
                    else Inr None)
      | StatMissing \<Rightarrow>
          (case dc_mkdir dc of
             Some _ \<Rightarrow> Inl (PlainErr ''rpc: creating socket directory %s: %w'')
           | None \<Rightarrow>
               (case dc_chmod dc of
                  Some _ \<Rightarrow> Inl (PlainErr ''rpc: setting socket directory mode: %w'')
                | None \<Rightarrow> Inr (Some mode)))
      | StatFailed _ \<Rightarrow> Inl (PlainErr ''rpc: inspecting socket directory %s: %w''))"

text \<open>A server that listens; a failure after the socket is bound removes it again.\<close>

record server =
  sv_config :: rpc_config
  sv_dir_mode :: "u32 option"
  sv_mode :: u32
  sv_bound :: bool
  sv_closed :: bool

definition listen :: "rpc_config \<Rightarrow> dir_calls \<Rightarrow> goerr + server" where
  "listen cf dc =
     (if cf_path cf = [] then Inl (PlainErr ''rpc: empty socket path'')
      else case prepare_dir dc (if cf_dir_mode cf = 0 then default_dir_mode else cf_dir_mode cf) of
        Inl e \<Rightarrow> Inl e
      | Inr dm \<Rightarrow>
          (case dc_listen dc of
             Some _ \<Rightarrow> Inl (PlainErr ''rpc: listening on %s: %w'')
           | None \<Rightarrow>
               (case dc_socket_chmod dc of
                  Some _ \<Rightarrow> Inl (PlainErr ''rpc: setting socket mode: %w'')
                | None \<Rightarrow>
                    Inr \<lparr>sv_config = cf, sv_dir_mode = dm,
                         sv_mode = (if cf_socket_mode cf = 0 then default_socket_mode else cf_socket_mode cf),
                         sv_bound = True, sv_closed = False\<rparr>)))"

text \<open>\<open>cl\<close>: the error of closing the listener, with whether it is \<open>net.ErrClosed\<close>; \<open>rm\<close>: of removing the file, with whether it did not exist.\<close>

definition close_server ::
  "(string \<times> bool) option \<Rightarrow> (string \<times> bool) option \<Rightarrow> server \<Rightarrow> goerr option \<times> server" where
  "close_server cl rm sv =
     (if sv_closed sv then (None, sv)
      else let err = (case cl of Some (e, False) \<Rightarrow> Some (PlainErr e) | _ \<Rightarrow> None);
               err1 = (case rm of
                         Some (e, False) \<Rightarrow> (if err = None then Some (PlainErr e) else err)
                       | _ \<Rightarrow> err)
           in (err1, sv\<lparr>sv_closed := True, sv_bound := (case rm of Some (_, False) \<Rightarrow> sv_bound sv | _ \<Rightarrow> False)\<rparr>))"

section \<open>Client\<close>

record client_conn =
  cc_used :: bool
  cc_closed :: bool

definition dial :: "string \<Rightarrow> string option \<Rightarrow> bool \<Rightarrow> goerr + client_conn" where
  "dial path err is_unix =
     (if path = [] then Inl (PlainErr ''rpc: empty socket path'')
      else case err of
        Some _ \<Rightarrow> Inl (PlainErr ''rpc: dialing %s: %w'')
      | None \<Rightarrow>
          if is_unix then Inr \<lparr>cc_used = False, cc_closed = False\<rparr>
          else Inl (PlainErr ''rpc: %s is not a Unix socket''))"

definition cancelled_read :: failure where
  "cancelled_read = new_failure SessionNotReady op_control
     ''the control request was cancelled before a complete response arrived''"

definition read_failure :: "bool \<Rightarrow> rpc_err \<Rightarrow> goerr" where
  "read_failure cancelled e =
     (case e of
        TooLarge \<Rightarrow> Typed (rpc_usage ''malformed or oversized control response'')
      | ReadEnded r \<Rightarrow>
          if cancelled then Typed cancelled_read
          else (case r of
                  EndOther t \<Rightarrow> PlainErr (''rpc: reading response: '' @ t)
                | _ \<Rightarrow> Typed (new_failure SessionNotReady op_control
                         ''the control socket closed before a complete response arrived'')))"

text \<open>
  A call writes the request and reads what the peer answers to the bytes it got. \<open>cancelled\<close>
  says whether the context was done when a write or a read failed.
\<close>

definition conn_call ::
  "resp_codec \<Rightarrow> bool \<Rightarrow> string \<Rightarrow> wire \<Rightarrow> (string \<Rightarrow> stream) \<Rightarrow> client_conn \<Rightarrow> (goerr + string) \<times> client_conn" where
  "conn_call rc cancelled request w answer cn =
     (if cc_closed cn then (Inl (PlainErr ''rpc: connection is closed''), cn)
      else if cc_used cn then (Inl (PlainErr ''rpc: one request per connection''), cn)
      else (case write_message request w of
              (Some WriteTooLarge, _) \<Rightarrow>
                Inl (Typed (rpc_usage ''malformed or oversized control request''))
            | (Some (WriteFailed t), _) \<Rightarrow>
                if cancelled then Inl (Typed cancelled_read)
                else Inl (PlainErr (''rpc: sending request: '' @ t))
            | (None, w1) \<Rightarrow>
                (case fst (read_message (answer (wr_bytes w1))) of
                   Inl e \<Rightarrow> Inl (read_failure cancelled e)
                 | Inr body \<Rightarrow>
                     (case rc_decode rc body of
                        None \<Rightarrow> Inl (Typed (rpc_usage ''malformed control response''))
                      | Some resp \<Rightarrow>
                          (case rs_failure resp of
                             Some f \<Rightarrow> Inl (Typed f)
                           | None \<Rightarrow> Inr (rs_payload resp)))), cn\<lparr>cc_used := True\<rparr>))"

definition close_conn :: "string option \<Rightarrow> client_conn \<Rightarrow> goerr option \<times> client_conn" where
  "close_conn err cn =
     (if cc_closed cn then (None, cn) else (map_option PlainErr err, cn\<lparr>cc_closed := True\<rparr>))"

section \<open>Both ends\<close>

definition fresh_wire :: wire where
  "fresh_wire = \<lparr>wr_bytes = [], wr_fails = []\<rparr>"

definition fresh_conn :: client_conn where
  "fresh_conn = \<lparr>cc_used = False, cc_closed = False\<rparr>"

definition closed_stream :: "string \<Rightarrow> stream" where
  "closed_stream bs = \<lparr>in_bytes = bs, in_end = EndEOF\<rparr>"

text \<open>A call over a connection on which no write fails, served by \<open>handle_conn\<close>.\<close>

definition serve_bytes ::
  "rpc_config \<Rightarrow> resp_codec \<Rightarrow> (string \<Rightarrow> 'w \<Rightarrow> (goerr + string) \<times> 'w) \<Rightarrow> u32 option \<Rightarrow> 'w \<Rightarrow> string \<Rightarrow> stream \<times> 'w" where
  "serve_bytes cf rc h peer x bs =
     (let (w, x1) = handle_conn cf rc h peer (closed_stream bs) fresh_wire x
      in (closed_stream (wr_bytes w), x1))"

definition exchange ::
  "rpc_config \<Rightarrow> resp_codec \<Rightarrow> (string \<Rightarrow> 'w \<Rightarrow> (goerr + string) \<times> 'w) \<Rightarrow> u32 option \<Rightarrow> string \<Rightarrow> 'w \<Rightarrow>
     (goerr + string) \<times> 'w" where
  "exchange cf rc h peer request x =
     (fst (conn_call rc False request fresh_wire (\<lambda>bs. fst (serve_bytes cf rc h peer x bs)) fresh_conn),
      case write_message request fresh_wire of
        (None, w) \<Rightarrow> snd (serve_bytes cf rc h peer x (wr_bytes w))
      | (Some _, _) \<Rightarrow> x)"

section \<open>A frame is read back\<close>

lemma byte_back: "of_nat (of_char (char_of (unat (v AND 255)))) = (v AND 255 :: u32)"
proof -
  have "v AND 255 \<le> 255" by (rule word_and_le1)
  then have "unat (v AND 255) < 256" by (simp add: word_le_nat_alt)
  then have "of_char (char_of (unat (v AND 255))) = unat (v AND 255)"
    by (simp only: of_char_of mod_less)
  then show ?thesis by simp
qed

lemma be_word_bytes [simp]: "be_word (be_bytes w) = w"
proof (rule bit_word_eqI)
  fix n
  assume n: "n < LENGTH(32)"
  have m: "(255::u32) = mask 8" by (simp add: mask_eq_exp_minus_1)
  show "bit (be_word (be_bytes w)) n = bit w n"
    unfolding be_word_def be_bytes_def using n
    by (simp only: list.map foldl.simps byte_back)
      (cases "n < 8"; cases "n < 16"; cases "n < 24"; auto simp: m bit_simps)
qed

lemma be_bytes_length [simp]: "length (be_bytes w) = 4"
  by (simp add: be_bytes_def)

lemma read_full_enough: "n = length bs \<Longrightarrow> read_full n (s\<lparr>in_bytes := bs @ rest\<rparr>) = (Inr bs, s\<lparr>in_bytes := rest\<rparr>)"
  by (simp add: read_full_def)

text \<open>
  The law of a framed transport: what is written within the limit is what a reader gets,
  and nothing after it is touched.
\<close>

lemma frame_written:
  "length body \<le> max_message \<Longrightarrow> write_message body fresh_wire =
    (None, \<lparr>wr_bytes = be_bytes (of_nat (length body)) @ body, wr_fails = []\<rparr>)"
  by (simp add: write_message_def wire_write_def fresh_wire_def)

lemma frame_read:
  assumes "length body \<le> max_message"
  shows "read_message \<lparr>in_bytes = be_bytes (of_nat (length body)) @ body @ rest, in_end = e\<rparr> =
    (Inr body, \<lparr>in_bytes = rest, in_end = e\<rparr>)"
proof -
  have n: "unat (of_nat (length body) :: u32) = length body"
    using assms by (simp add: unat_of_nat max_message_def)
  show ?thesis using assms by (simp add: read_message_def read_full_def n Let_def)
qed

lemma frame_declared_large:
  assumes "4 \<le> length bs" and "max_message < unat (be_word (take 4 bs))"
  shows "fst (read_message \<lparr>in_bytes = bs, in_end = e\<rparr>) = Inl TooLarge"
  using assms by (simp add: read_message_def read_full_def Let_def)

locale framing =
  fixes put :: "string \<Rightarrow> (write_err + string)"
    and get :: "string \<Rightarrow> (rpc_err + string) \<times> string"
    and limit :: nat
  assumes put_ok: "length b \<le> limit \<Longrightarrow> \<exists>f. put b = Inr f"
    and put_large: "limit < length b \<Longrightarrow> put b = Inl WriteTooLarge"
    and get_put: "put b = Inr f \<Longrightarrow> get (f @ rest) = (Inr b, rest)"
begin

lemma put_inj: "put a = Inr f \<Longrightarrow> put b = Inr f \<Longrightarrow> a = b"
  using get_put [of a f "[]"] get_put [of b f "[]"] by simp

lemma get_two: "put a = Inr f \<Longrightarrow> put b = Inr g \<Longrightarrow> get (snd (get (f @ g @ rest))) = (Inr b, rest)"
  by (simp add: get_put)

lemma delivered: "put b = Inr f \<Longrightarrow> fst (get f) = Inr b"
  using get_put [of b f "[]"] by simp

end

definition put_frame :: "string \<Rightarrow> write_err + string" where
  "put_frame b = (case write_message b fresh_wire of (Some e, _) \<Rightarrow> Inl e | (None, w) \<Rightarrow> Inr (wr_bytes w))"

definition get_frame :: "string \<Rightarrow> (rpc_err + string) \<times> string" where
  "get_frame bs = (let (r, s) = read_message (closed_stream bs) in (r, in_bytes s))"

interpretation control_frames: framing put_frame get_frame max_message
proof unfold_locales
  fix b f rest
  show "length b \<le> max_message \<Longrightarrow> \<exists>f. put_frame b = Inr f"
    by (simp add: put_frame_def frame_written)
  show "max_message < length b \<Longrightarrow> put_frame b = Inl WriteTooLarge"
    by (simp add: put_frame_def write_message_def)
  show "put_frame b = Inr f \<Longrightarrow> get_frame (f @ rest) = (Inr b, rest)"
  proof (cases "length b \<le> max_message")
    case True
    then show "put_frame b = Inr f \<Longrightarrow> get_frame (f @ rest) = (Inr b, rest)"
      by (auto simp: put_frame_def frame_written get_frame_def closed_stream_def frame_read)
  next
    case False
    then show "put_frame b = Inr f \<Longrightarrow> get_frame (f @ rest) = (Inr b, rest)"
      by (simp add: put_frame_def write_message_def)
  qed
qed

section \<open>Properties\<close>

text \<open>
  A message within the limit arrives as it was written, whatever follows it on the
  stream, a second message included; a longer one is not written at all; and two messages
  with the same frame are the same message.
\<close>

lemma frames_roundtrip:
  "(length a \<le> max_message \<longrightarrow>
      (\<exists>f. put_frame a = Inr f \<and> get_frame (f @ rest) = (Inr a, rest) \<and>
        (put_frame b = Inr f \<longrightarrow> a = b) \<and>
        (\<forall>g. put_frame b = Inr g \<longrightarrow> get_frame (snd (get_frame (f @ g @ rest))) = (Inr b, rest)))) \<and>
   (max_message < length a \<longrightarrow> put_frame a = Inl WriteTooLarge)"
  using control_frames.put_ok [of a] control_frames.put_large [of a]
    control_frames.get_put control_frames.put_inj control_frames.get_two by blast

lemma frames_roundtrip_witness:
  "length ''ping'' \<le> max_message \<and> (\<exists>f. put_frame ''ping'' = Inr f \<and> get_frame (f @ ''x'') = (Inr ''ping'', ''x''))"
proof -
  have "length ''ping'' \<le> max_message" by (simp add: max_message_def)
  then show ?thesis using frames_roundtrip [of "''ping''" "''x''" "[]"] by blast
qed

lemma responded:
  "rc_encode rc resp = Some b \<Longrightarrow> length b \<le> max_message \<Longrightarrow>
    fst (read_message (closed_stream (wr_bytes (respond rc resp fresh_wire)))) = Inr b"
  using frame_read [of b "[]"] by (simp add: respond_def frame_written closed_stream_def)

lemma request_read:
  "length q \<le> max_message \<Longrightarrow>
    read_message (closed_stream (be_bytes (of_nat (length q)) @ q)) = (Inr q, closed_stream [])"
  using frame_read [of q "[]"] by (simp add: closed_stream_def)

text \<open>What the server answers to a request that arrived.\<close>

definition answer_of :: "rpc_config \<Rightarrow> u32 option \<Rightarrow> goerr + string \<Rightarrow> response" where
  "answer_of cf peer r =
     (if cf_expected_uid cf \<noteq> 0 \<and> peer \<noteq> Some (cf_expected_uid cf)
      then failure_response (wrong_user (case peer of Some u \<Rightarrow> u | None \<Rightarrow> 0))
      else case r of Inl e \<Rightarrow> failure_response (failure_from_error e) | Inr p \<Rightarrow> payload_response p)"

lemma exchange_answer:
  assumes "length q \<le> max_message" and "rc_encode rc (answer_of cf peer (fst (h q x))) = Some b"
    and "length b \<le> max_message" and "rc_decode rc b = Some (answer_of cf peer (fst (h q x)))"
  shows "exchange cf rc h peer q x =
    ((case rs_failure (answer_of cf peer (fst (h q x))) of Some f \<Rightarrow> Inl (Typed f)
       | None \<Rightarrow> Inr (rs_payload (answer_of cf peer (fst (h q x))))),
     if cf_expected_uid cf \<noteq> 0 \<and> peer \<noteq> Some (cf_expected_uid cf) then x else snd (h q x))"
proof -
  let ?a = "answer_of cf peer (fst (h q x))"
  let ?x = "if cf_expected_uid cf \<noteq> 0 \<and> peer \<noteq> Some (cf_expected_uid cf) then x else snd (h q x)"
  have served: "handle_conn cf rc h peer (closed_stream (be_bytes (of_nat (length q)) @ q)) fresh_wire x =
      (respond rc ?a fresh_wire, ?x)"
    by (auto simp: handle_conn_def answer_of_def request_read [OF assms(1)] split: prod.splits sum.splits)
  show ?thesis
    unfolding exchange_def conn_call_def
    by (simp add: fresh_conn_def frame_written [OF assms(1)] serve_bytes_def served
        responded [OF assms(2,3)] assms(4))
qed

text \<open>
  C10. A call through the transport, over a connection on which no write fails. A peer of
  the wrong user never reaches the handler and is told so. Any other peer's request is
  handled exactly once, as it was sent, and the caller gets what the handler returned: a
  payload, or its failure, an untyped error under the code for a session that is not
  ready. A request longer than the limit is refused by the caller itself and nothing
  is handled.
\<close>

theorem control_call_faithful:
  assumes "rc_encode rc (answer_of cf peer (fst (h q x))) = Some b" and "length b \<le> max_message"
    and "rc_decode rc b = Some (answer_of cf peer (fst (h q x)))"
  shows "(length q \<le> max_message \<longrightarrow> cf_expected_uid cf \<noteq> 0 \<longrightarrow> peer \<noteq> Some (cf_expected_uid cf) \<longrightarrow>
      exchange cf rc h peer q x = (Inl (Typed (wrong_user (case peer of Some u \<Rightarrow> u | None \<Rightarrow> 0))), x)) \<and>
    (length q \<le> max_message \<longrightarrow> cf_expected_uid cf = 0 \<or> peer = Some (cf_expected_uid cf) \<longrightarrow>
      exchange cf rc h peer q x =
        ((case fst (h q x) of Inr p \<Rightarrow> Inr p
          | Inl (Typed f) \<Rightarrow> Inl (Typed f)
          | Inl e \<Rightarrow> Inl (Typed (failure_from_error e))), snd (h q x))) \<and>
    (max_message < length q \<longrightarrow>
      exchange cf rc h peer q x = (Inl (Typed (rpc_usage ''malformed or oversized control request'')), x))"
proof -
  note ans = exchange_answer [of q rc cf peer h x b, OF _ assms]
  show ?thesis
  proof (intro conjI impI)
    show "exchange cf rc h peer q x = (Inl (Typed (wrong_user (case peer of Some u \<Rightarrow> u | None \<Rightarrow> 0))), x)"
      if "length q \<le> max_message" "cf_expected_uid cf \<noteq> 0" "peer \<noteq> Some (cf_expected_uid cf)"
      using ans [OF that(1)] that(2,3) by (simp add: answer_of_def failure_response_def)
    show "exchange cf rc h peer q x =
        ((case fst (h q x) of Inr p \<Rightarrow> Inr p
          | Inl (Typed f) \<Rightarrow> Inl (Typed f)
          | Inl e \<Rightarrow> Inl (Typed (failure_from_error e))), snd (h q x))"
      if "length q \<le> max_message" "cf_expected_uid cf = 0 \<or> peer = Some (cf_expected_uid cf)"
      using ans [OF that(1)] that(2)
      by (auto simp: answer_of_def failure_response_def payload_response_def failure_from_error_def
          split: sum.splits goerr.splits)
    show "exchange cf rc h peer q x = (Inl (Typed (rpc_usage ''malformed or oversized control request'')), x)"
      if "max_message < length q"
      using that by (simp add: exchange_def conn_call_def fresh_conn_def write_message_def)
  qed
qed

text \<open>A codec for the witness, which transports payloads; and an echoing handler that counts.\<close>

definition plain_codec :: resp_codec where
  "plain_codec = \<lparr>rc_encode = (\<lambda>r. Some (rs_payload r)), rc_decode = (\<lambda>s. Some (payload_response s))\<rparr>"

definition echo :: "string \<Rightarrow> nat \<Rightarrow> (goerr + string) \<times> nat" where
  "echo q n = (Inr (rev q), Suc n)"

definition demo_config :: rpc_config where
  "demo_config = \<lparr>cf_path = ''/run/control'', cf_expected_uid = 1000, cf_dir_mode = 0, cf_socket_mode = 0\<rparr>"

theorem control_call_faithful_witness:
  "exchange demo_config plain_codec echo (Some 1000) ''ping'' 4 = (Inr ''gnip'', 5)"
proof -
  have a: "answer_of demo_config (Some 1000) (fst (echo ''ping'' 4)) = payload_response ''gnip''"
    by (simp add: answer_of_def demo_config_def echo_def)
  have h: "rc_encode plain_codec (payload_response ''gnip'') = Some ''gnip''"
    "length ''gnip'' \<le> max_message" "rc_decode plain_codec ''gnip'' = Some (payload_response ''gnip'')"
    by (simp_all add: plain_codec_def payload_response_def max_message_def)
  have "length ''ping'' \<le> max_message" by (simp add: max_message_def)
  then show ?thesis
    using control_call_faithful [of plain_codec demo_config "Some 1000" echo "''ping''" 4 "''gnip''",
        unfolded a, OF h, THEN conjunct2, THEN conjunct1]
    by (simp add: echo_def demo_config_def)
qed

lemma close_twice: "close_server c2 r2 (snd (close_server c1 r1 sv)) = (None, snd (close_server c1 r1 sv))"
proof -
  have "sv_closed (snd (close_server c1 r1 sv))" by (simp add: close_server_def Let_def)
  then show ?thesis by (simp add: close_server_def [of c2 r2])
qed

lemma prepare_dir_Inr:
  "prepare_dir dc m = Inr dm \<Longrightarrow> dm = Some m \<and> dc_stat dc = StatMissing \<or>
     dm = None \<and> (\<exists>perm. dc_stat dc = StatEntry True perm (Some (dc_uid dc)) \<and> perm AND 18 = 0)"
  by (auto simp: prepare_dir_def split: if_splits dir_stat.splits option.splits)

text \<open>
  A socket that listens is private: its mode is the configured one, 600 by default, and
  its directory was created with exactly the configured mode, 700 by default, or belongs
  to the current user and is writable by nobody else; any other state of the directory is
  refused, and closing twice is closing once.
\<close>

lemma socket_private:
  assumes "listen cf dc = Inr sv"
  shows "cf_path cf \<noteq> [] \<and> sv_bound sv \<and> \<not> sv_closed sv \<and>
    sv_mode sv = (if cf_socket_mode cf = 0 then 384 else cf_socket_mode cf) \<and>
    (sv_dir_mode sv = Some (if cf_dir_mode cf = 0 then 448 else cf_dir_mode cf) \<and> dc_stat dc = StatMissing \<or>
     sv_dir_mode sv = None \<and> (\<exists>perm. dc_stat dc = StatEntry True perm (Some (dc_uid dc)) \<and> perm AND 18 = 0)) \<and>
    close_server c2 r2 (snd (close_server c1 r1 sv)) = (None, snd (close_server c1 r1 sv))"
proof -
  obtain dm where dm: "prepare_dir dc (if cf_dir_mode cf = 0 then default_dir_mode else cf_dir_mode cf) = Inr dm"
    and sv: "sv = \<lparr>sv_config = cf, sv_dir_mode = dm,
      sv_mode = (if cf_socket_mode cf = 0 then default_socket_mode else cf_socket_mode cf),
      sv_bound = True, sv_closed = False\<rparr>" and path: "cf_path cf \<noteq> []"
    using assms by (simp add: listen_def split: if_splits sum.splits option.splits)
  show ?thesis
    using prepare_dir_Inr [OF dm] close_twice [of c2 r2 c1 r1 sv] path
    unfolding default_dir_mode_def by (simp add: sv [unfolded default_socket_mode_def] split del: if_split)
qed

definition demo_calls :: dir_calls where
  "demo_calls = \<lparr>dc_stat = StatMissing, dc_uid = 1000, dc_mkdir = None, dc_chmod = None, dc_listen = None,
     dc_socket_chmod = None\<rparr>"

lemma socket_private_witness:
  "\<exists>sv. listen demo_config demo_calls = Inr sv \<and> sv_mode sv = 384 \<and> sv_dir_mode sv = Some 448"
proof -
  obtain sv where sv: "listen demo_config demo_calls = Inr sv"
    by (simp add: listen_def prepare_dir_def demo_config_def demo_calls_def)
  show ?thesis using socket_private [OF sv] sv by (auto simp: demo_config_def demo_calls_def)
qed

end
