(* ===== verification/Supervisor_Status.thy ===== *)
theory Supervisor_Status
  imports Session_Service Inject Numbers
begin

text \<open>
  The parts of the supervisor (\<open>cmd/wlvision-supervisor/main.go\<close>) that stand by themselves:
  the reaper, how a process ended, the log of a child, the status another process reads,
  the payload command and the start of a child. A file that can be read is in \<open>files\<close>;
  whether a process exists is the parameter \<open>exists\<close>; JSON is the parameter \<open>decode\<close>, which
  overwrites the fields the document has.
\<close>

section \<open>How a process ended\<close>

text \<open>\<open>syscall.WaitStatus\<close> on Linux; \<open>signal_name\<close> is Go's table of signal names.\<close>

type_synonym wait_status = u32

definition ws_exited :: "wait_status \<Rightarrow> bool" where "ws_exited w \<longleftrightarrow> w AND 127 = 0"
definition ws_signaled :: "wait_status \<Rightarrow> bool" where "ws_signaled w \<longleftrightarrow> w AND 127 \<noteq> 127 \<and> w AND 127 \<noteq> 0"
definition ws_stopped :: "wait_status \<Rightarrow> bool" where "ws_stopped w \<longleftrightarrow> w AND 255 = 127"
definition ws_continued :: "wait_status \<Rightarrow> bool" where "ws_continued w \<longleftrightarrow> w = 65535"

definition describe_wait_status :: "(nat \<Rightarrow> string) \<Rightarrow> wait_status \<Rightarrow> string" where
  "describe_wait_status signal_name w =
     (if ws_exited w then ''exit status '' @ dec_nat (unat (drop_bit 8 w AND 255))
      else if ws_signaled w then ''killed by '' @ signal_name (unat (w AND 127))
      else if ws_stopped w then ''stopped by '' @ signal_name (unat (drop_bit 8 w AND 255))
      else if ws_continued w then ''continued''
      else ''wait status '' @ dec_nat (unat w))"

section \<open>The reaper\<close>

text \<open>
  What \<open>Reap\<close> answers, in order: an exit, \<open>ECHILD\<close>, or another error. \<open>reap_loop\<close> gives the
  events it delivers, the lines it logs, and whether it has returned.
\<close>

datatype reap = Reaped nat wait_status | ReapNoChild | ReapError string

fun reap_loop :: "nat set \<Rightarrow> reap list \<Rightarrow> (nat \<times> wait_status) list \<times> string list \<times> bool" where
  "reap_loop seen [] = ([], [], False)"
| "reap_loop seen (ReapNoChild # rest) = ([], [], True)"
| "reap_loop seen (ReapError e # rest) = ([], [''supervisor: cannot reap a child: '' @ e], True)"
| "reap_loop seen (Reaped pid st # rest) =
     (if pid \<in> seen then reap_loop seen rest
      else let (evs, lg, ended) = reap_loop (insert pid seen) rest in ((pid, st) # evs, lg, ended))"

text \<open>\<open>wait4\<close> is retried while it is interrupted.\<close>

datatype wait4 = WaitInterrupted | WaitAnswer reap

fun syscall_reap :: "wait4 list \<Rightarrow> (reap \<times> wait4 list) option" where
  "syscall_reap [] = None"
| "syscall_reap (WaitInterrupted # ws) = syscall_reap ws"
| "syscall_reap (WaitAnswer r # ws) = Some (r, ws)"

section \<open>The log of a child\<close>

text \<open>
  Lines are stamped with the time they are emitted: \<open>stamp\<close> is the time's text, and the
  clock is a list of times whose head is the present.
\<close>

record line_writer =
  lw_buf :: string
  lw_lines :: "string list"

fun take_lines :: "string \<Rightarrow> string list \<times> string" where
  "take_lines [] = ([], [])"
| "take_lines (c # s) =
     (let (ls, r) = take_lines s
      in if c = char_of (10::nat) then ([] # ls, r)
         else (case ls of [] \<Rightarrow> ([], c # r) | l # ls' \<Rightarrow> ((c # l) # ls', r)))"

definition line_write :: "line_writer \<Rightarrow> string \<Rightarrow> line_writer" where
  "line_write lw p =
     (let (ls, r) = take_lines (lw_buf lw @ p)
      in \<lparr>lw_buf = r, lw_lines = lw_lines lw @ ls\<rparr>)"

definition line_flush :: "line_writer \<Rightarrow> line_writer" where
  "line_flush lw =
     (if lw_buf lw \<noteq> [] then \<lparr>lw_buf = [], lw_lines = lw_lines lw @ [lw_buf lw]\<rparr> else lw)"

definition emit :: "string \<Rightarrow> string \<Rightarrow> string" where
  "emit stamp line = stamp @ '' '' @ line @ [char_of (10::nat)]"

section \<open>The status another process reads\<close>

definition process_running :: string where "process_running = ''running''"
definition process_exited :: string where "process_exited = ''exited''"
definition process_not_started :: string where "process_not_started = ''not-started''"

definition control_dir :: string where "control_dir = ''/run/wlvision/control''"
definition ready_marker :: string where "ready_marker = ''agent.ready''"
definition weston_pid_file :: string where "weston_pid_file = ''weston.pid''"
definition agent_pid_file :: string where "agent_pid_file = ''agent.pid''"
definition status_file :: string where "status_file = ''status.json''"

type_synonym files = "string \<Rightarrow> string option"

definition pid_from_file :: "files \<Rightarrow> string \<Rightarrow> string \<Rightarrow> int" where
  "pid_from_file files dir n =
     (case files (path_join dir n) of
        None \<Rightarrow> 0
      | Some payload \<Rightarrow>
          (case atoi (trim_space payload) of
             None \<Rightarrow> 0
           | Some pid \<Rightarrow> if pid \<le> 0 then 0 else pid))"

definition alive :: "(int \<Rightarrow> bool) \<Rightarrow> int \<Rightarrow> bool" where
  "alive exists pid \<longleftrightarrow> 0 < pid \<and> exists pid"

definition blank_status :: "string \<Rightarrow> container_status" where
  "blank_status m =
     \<lparr>ct_ready = False, ct_weston = process_not_started, ct_agent = process_not_started, ct_message = m\<rparr>"

definition recorded_status :: "(container_status \<Rightarrow> string \<Rightarrow> container_status option) \<Rightarrow> files \<Rightarrow> string \<Rightarrow> container_status" where
  "recorded_status decode files dir =
     (case files (path_join dir status_file) of
        None \<Rightarrow> blank_status ''the supervisor has not started''
      | Some payload \<Rightarrow>
          (case decode (blank_status ''the supervisor has not started'') payload of
             None \<Rightarrow> blank_status ''the supervisor status is unreadable''
           | Some st \<Rightarrow> st))"

definition read_status ::
  "(container_status \<Rightarrow> string \<Rightarrow> container_status option) \<Rightarrow> (int \<Rightarrow> bool) \<Rightarrow> files \<Rightarrow> string \<Rightarrow> container_status" where
  "read_status decode exists files dir0 =
     (let dir = (if dir0 = [] then control_dir else dir0);
          st0 = recorded_status decode files dir;
          st1 = (if ct_weston st0 = process_running \<and> \<not> alive exists (pid_from_file files dir weston_pid_file)
                 then st0\<lparr>ct_weston := process_exited, ct_ready := False\<rparr> else st0);
          st2 = (if ct_agent st1 = process_running \<and> \<not> alive exists (pid_from_file files dir agent_pid_file)
                 then st1\<lparr>ct_agent := process_exited, ct_ready := False\<rparr> else st1)
      in if files (path_join dir ready_marker) = None then st2\<lparr>ct_ready := False\<rparr> else st2)"

section \<open>The payload command\<close>

text \<open>
  The flags of \<open>receive\<close> once \<open>flag\<close> parsed them; a parse error is its text. What reaches
  standard error is the failure, what reaches standard output the payload.
\<close>

record receive_flags =
  rf_kind :: payload_kind
  rf_name :: string
  rf_dir :: string
  rf_mode :: string
  rf_max_bytes :: int
  rf_max_files :: int

definition payload_op :: string where
  "payload_op = ''payload.receive''"

definition report_failure :: "bool \<Rightarrow> failure \<Rightarrow> nat" where
  "report_failure rendered f = (if rendered then exit_code (f_code f) else 1)"

definition receive_command ::
  "'r inject_env \<Rightarrow> bool \<Rightarrow> bool \<Rightarrow> string + receive_flags \<Rightarrow> staging \<Rightarrow> payload_dir \<Rightarrow>
     nat \<times> (failure + payload_result) \<times> payload_dir" where
  "receive_command en rendered encodable parsed st d =
     (let refuse = (\<lambda>f d1. (report_failure rendered f, Inl f, d1))
      in case parsed of
        Inl t \<Rightarrow> refuse (new_failure UsageError payload_op t) d
      | Inr fl \<Rightarrow>
      if rf_name fl = [] then refuse (new_failure UsageError payload_op ''a payload name is required'') d
      else case (if rf_mode fl = [] then Some 0 else parse_octal (rf_mode fl)) of
        None \<Rightarrow> refuse (new_failure UsageError payload_op ''the mode %q is not an octal permission'') d
      | Some mode \<Rightarrow>
      case receive en (rf_dir fl)
             \<lparr>sp_kind = rf_kind fl, sp_name = rf_name fl, sp_mode = mode,
              sp_max_bytes = rf_max_bytes fl, sp_max_files = rf_max_files fl\<rparr> st d of
        (Inl (Typed f), d1) \<Rightarrow> refuse f d1
      | (Inl e, d1) \<Rightarrow>
          refuse (new_failure PayloadRejected payload_op
            (case e of PlainErr t \<Rightarrow> t | EngineNotFound t \<Rightarrow> t | Typed f \<Rightarrow> f_message f)) d1
      | (Inr res, d1) \<Rightarrow>
          if encodable
          then (0, Inr \<lparr>pr_path = ir_path res, pr_digest = ir_digest res, pr_bytes = ir_bytes res,
                       pr_files = int (ir_files res)\<rparr>, d1)
          else refuse (new_failure PayloadRejected payload_op ''cannot report what was stored: %v'') d1)"

definition display_gid_from_env :: "string \<Rightarrow> int" where
  "display_gid_from_env v =
     (if v = [] then 0
      else case atoi v of None \<Rightarrow> 0 | Some gid \<Rightarrow> if gid < 0 then 0 else gid)"

section \<open>Starting a child\<close>

text \<open>
  The descriptors the supervisor holds while it starts a child, and those left when the
  call returns. \<open>copying\<close> is the read end the copy of the output owns.
\<close>

datatype descriptor = PipeReader | PipeWriter | DevNull

record start_calls =
  so_lookup :: "string + string"
  so_pipe :: "string option"
  so_null :: "string option"
  so_start :: "string + nat"

definition os_start :: "start_calls \<Rightarrow> string list \<Rightarrow> (goerr + nat) \<times> descriptor set" where
  "os_start sc argv =
     (if argv = [] then (Inl (PlainErr ''supervisor: no command to start''), {})
      else case so_lookup sc of
        Inl t \<Rightarrow> (Inl (PlainErr t), {})
      | Inr _ \<Rightarrow>
      case so_pipe sc of
        Some t \<Rightarrow> (Inl (PlainErr t), {})
      | None \<Rightarrow>
      let held = {PipeReader, PipeWriter}
      in case so_null sc of
        Some t \<Rightarrow> (Inl (PlainErr t), held - {PipeReader} - {PipeWriter})
      | None \<Rightarrow>
      let held1 = insert DevNull held - {DevNull}
      in case so_start sc of
        Inl t \<Rightarrow> (Inl (PlainErr t), held1 - {PipeReader} - {PipeWriter})
      | Inr pid \<Rightarrow> (Inr pid, held1 - {PipeWriter}))"

section \<open>Lemmas\<close>

lemma os_start_descriptors:
  "os_start sc argv = (r, ds) \<Longrightarrow> ds = (case r of Inl _ \<Rightarrow> {} | Inr _ \<Rightarrow> {PipeReader})"
  by (auto simp: os_start_def Let_def split: if_splits sum.splits option.splits)

lemma split_on_resume:
  "split_on c (s @ p) = butlast (split_on c s) @ split_on c (last (split_on c s) @ p)"
proof (induction s)
  case (Cons x xs)
  obtain y ys where y: "split_on c xs = y # ys" by (cases "split_on c xs") auto
  show ?case using Cons y by (cases ys) auto
qed simp

lemma take_lines_split:
  "take_lines s = (butlast (split_on (char_of (10::nat)) s), last (split_on (char_of (10::nat)) s))"
proof (induction s)
  case (Cons x xs)
  obtain y ys where y: "split_on (char_of (10::nat)) xs = y # ys" by (cases "split_on (char_of (10::nat)) xs") auto
  show ?case using Cons y by (cases ys) (auto simp: Let_def)
qed simp

definition empty_log :: line_writer where
  "empty_log = \<lparr>lw_buf = [], lw_lines = []\<rparr>"

lemma log_after:
  "foldl line_write empty_log ps =
    \<lparr>lw_buf = last (split_on (char_of (10::nat)) (concat ps)),
     lw_lines = butlast (split_on (char_of (10::nat)) (concat ps))\<rparr>"
proof (induction ps rule: rev_induct)
  case Nil
  then show ?case by (simp add: empty_log_def)
next
  case (snoc p ps)
  let ?s = "concat ps"
  have "split_on (char_of (10::nat)) (?s @ p) =
      butlast (split_on (char_of (10::nat)) ?s) @
      split_on (char_of (10::nat)) (last (split_on (char_of (10::nat)) ?s) @ p)"
    by (rule split_on_resume)
  then show ?case
    using snoc by (simp add: line_write_def take_lines_split butlast_append del: split_on.simps)
qed

lemma reap_loop_once:
  "reap_loop seen rs = (evs, lg, ended) \<Longrightarrow> distinct (map fst evs) \<and> fst ` set evs \<inter> seen = {}"
proof (induction seen rs arbitrary: evs rule: reap_loop.induct)
  case (4 seen pid st rest)
  then show ?case by (cases "pid \<in> seen") (fastforce split: prod.splits)+
qed auto

section \<open>Properties\<close>

text \<open>
  C39. The log of a child does not depend on how its output was cut into writes: after any
  writes and the final flush, the lines are those of the whole output, in order, none of
  them split or joined; a last line without a line feed is kept.
\<close>

theorem child_log_lines:
  "lw_lines (line_flush (foldl line_write empty_log ps)) =
    (let ls = split_on (char_of (10::nat)) (concat ps) in if last ls = [] then butlast ls else ls) \<and>
   lw_buf (line_flush (foldl line_write empty_log ps)) = []"
  by (simp add: log_after line_flush_def Let_def append_butlast_last_id)

text \<open>
  What another process reads is checked against the present: a child is reported as
  running only while the process of its recorded identifier exists; the session is ready
  only if the supervisor said so, the controller's marker is there and no child that was
  recorded as running is gone; anything else recorded is reported as it is.
\<close>

lemma read_status_checked:
  fixes decode exists files dir
  defines "st \<equiv> read_status decode exists files dir"
    and "base \<equiv> (if dir = [] then control_dir else dir)"
  shows "(ct_weston st = process_running \<longrightarrow> alive exists (pid_from_file files base weston_pid_file)) \<and>
    (ct_agent st = process_running \<longrightarrow> alive exists (pid_from_file files base agent_pid_file)) \<and>
    (ct_ready st \<longleftrightarrow> ct_ready (recorded_status decode files base) \<and>
       files (path_join base ready_marker) \<noteq> None \<and>
       ct_weston st = ct_weston (recorded_status decode files base) \<and>
       ct_agent st = ct_agent (recorded_status decode files base)) \<and>
    ct_message st = ct_message (recorded_status decode files base) \<and>
    (ct_weston st = ct_weston (recorded_status decode files base) \<or> ct_weston st = process_exited) \<and>
    (ct_agent st = ct_agent (recorded_status decode files base) \<or> ct_agent st = process_exited)"
  by (auto simp: st_def base_def read_status_def Let_def process_running_def process_exited_def)

definition demo_files :: files where
  "demo_files = [''/run/wlvision/control/status.json'' \<mapsto> ''s'', ''/run/wlvision/control/agent.ready'' \<mapsto> [],
     ''/run/wlvision/control/weston.pid'' \<mapsto> ''12'', ''/run/wlvision/control/agent.pid'' \<mapsto> ''13'']"

definition demo_decode :: "container_status \<Rightarrow> string \<Rightarrow> container_status option" where
  "demo_decode st s = Some \<lparr>ct_ready = True, ct_weston = process_running, ct_agent = process_running, ct_message = []\<rparr>"

lemma read_status_checked_witness:
  "ct_ready (read_status demo_decode (\<lambda>p. p = 12 \<or> p = 13) demo_files []) \<and>
   alive (\<lambda>p. p = 12 \<or> p = 13) (pid_from_file demo_files control_dir weston_pid_file)"
proof -
  have "ct_weston (read_status demo_decode (\<lambda>p. p = 12 \<or> p = 13) demo_files []) = process_running"
    "ct_ready (read_status demo_decode (\<lambda>p. p = 12 \<or> p = 13) demo_files [])"
    by code_simp+
  then show ?thesis
    using read_status_checked [of demo_decode "\<lambda>p. p = 12 \<or> p = 13" demo_files "[]"] by simp
qed

text \<open>
  The source's comments on readiness and on the reaper, where the code does otherwise: a
  status written after the controller's death can still say ready, because a child
  recorded as exited is not looked at again; a process that reuses an identifier is
  never reported; and a reaper that runs before the first child is started returns.
\<close>

lemma ready_after_exit:
  "ct_ready (read_status (\<lambda>_ _. Some \<lparr>ct_ready = True, ct_weston = process_running,
       ct_agent = process_exited, ct_message = ''the controller exited''\<rparr>) (\<lambda>_. True) demo_files [])"
  by code_simp

lemma recycled_pid_lost:
  "fst (reap_loop {} [Reaped 7 0, Reaped 7 256, Reaped 8 0]) = [(7, 0), (8, 0)]"
  by simp

lemma reaper_gives_up: "fst (reap_loop {} (ReapNoChild # rest)) = []"
  by simp

lemma report_failure_pos [simp]: "report_failure rendered f \<noteq> 0" "0 \<noteq> report_failure rendered f"
proof -
  have "exit_code (f_code f) \<noteq> 0" using exit_code_range [of "f_code f"] by auto
  then show "report_failure rendered f \<noteq> 0" by (simp add: report_failure_def)
  then show "0 \<noteq> report_failure rendered f" by simp
qed

lemma receive_command_cases:
  assumes "receive_command en rendered encodable parsed st d = (status, r, d')"
  shows "(\<exists>f. status = report_failure rendered f \<and> r = Inl f \<and> d' = d) \<or>
    (\<exists>fl mode e. parsed = Inr fl \<and>
      receive en (rf_dir fl) \<lparr>sp_kind = rf_kind fl, sp_name = rf_name fl, sp_mode = mode,
        sp_max_bytes = rf_max_bytes fl, sp_max_files = rf_max_files fl\<rparr> st d = (e, d') \<and>
      ((\<exists>f. status = report_failure rendered f \<and> r = Inl f) \<or>
       (\<exists>res. e = Inr res \<and> status = 0 \<and> r = Inr \<lparr>pr_path = ir_path res, pr_digest = ir_digest res,
          pr_bytes = ir_bytes res, pr_files = int (ir_files res)\<rparr>)))"
  using assms unfolding receive_command_def Let_def
  by (auto split: sum.splits if_splits option.splits prod.splits goerr.splits)

text \<open>
  The payload command succeeds exactly when a payload is reported; what it reports is
  then the complete payload that is installed under the requested name. On a failure the
  exit status is the one the failure's code selects, never that of success, and no entry
  of another name changes either way.
\<close>

lemma receive_command_contract:
  assumes "receive_command en rendered encodable parsed st d = (status, r, d')"
  shows "(status = 0 \<longleftrightarrow> (\<exists>p. r = Inr p)) \<and>
    (case r of
       Inl f \<Rightarrow> status = (if rendered then exit_code (f_code f) else 1)
     | Inr p \<Rightarrow> \<exists>fl spec v res. parsed = Inr fl \<and> sp_name spec = rf_name fl \<and> sp_kind spec = rf_kind fl \<and>
         complete_payload en spec res v \<and> map_of (pd_entries d') (rf_name fl) = Some v \<and>
         pr_digest p = fst res \<and> pr_bytes p = fst (snd res) \<and> pr_files p = int (snd (snd res))) \<and>
    (\<forall>q. (case parsed of Inr fl \<Rightarrow> q \<noteq> rf_name fl | Inl _ \<Rightarrow> True) \<longrightarrow>
       map_of (pd_entries d') q = map_of (pd_entries d) q)"
  using receive_command_cases [OF assms]
proof (elim disjE exE conjE)
  fix f
  assume "status = report_failure rendered f" "r = Inl f" "d' = d"
  then show ?thesis by (simp add: report_failure_def [symmetric])
next
  fix fl mode e f
  assume "parsed = Inr fl" "status = report_failure rendered f" "r = Inl f"
    and rc: "receive en (rf_dir fl) \<lparr>sp_kind = rf_kind fl, sp_name = rf_name fl, sp_mode = mode,
        sp_max_bytes = rf_max_bytes fl, sp_max_files = rf_max_files fl\<rparr> st d = (e, d')"
  then show ?thesis using receive_effect [OF rc] by (simp add: report_failure_def [symmetric])
next
  fix fl mode e res
  assume *: "parsed = Inr fl" "e = Inr res" "status = 0" "r = Inr \<lparr>pr_path = ir_path res,
      pr_digest = ir_digest res, pr_bytes = ir_bytes res, pr_files = int (ir_files res)\<rparr>"
    and rc: "receive en (rf_dir fl) \<lparr>sp_kind = rf_kind fl, sp_name = rf_name fl, sp_mode = mode,
        sp_max_bytes = rf_max_bytes fl, sp_max_files = rf_max_files fl\<rparr> st d = (e, d')"
  let ?spec = "\<lparr>sp_kind = rf_kind fl, sp_name = rf_name fl, sp_mode = mode,
        sp_max_bytes = rf_max_bytes fl, sp_max_files = rf_max_files fl\<rparr>"
  have keep: "map_of (pd_entries d') q = map_of (pd_entries d) q" if "q \<noteq> rf_name fl" for q
    using receive_effect [OF rc] that by simp
  obtain a dg n k v where "complete_payload en ?spec (dg, n, k) v" "map_of (pd_entries d') (rf_name fl) = Some v"
    "res = \<lparr>ir_path = path_join a (rf_name fl), ir_digest = dg, ir_bytes = n, ir_files = k\<rparr>"
    using receive_effect [OF rc] *(2) by auto
  then have "\<exists>fl' spec v res'. Inr fl = (Inr fl' :: string + receive_flags) \<and> sp_name spec = rf_name fl' \<and>
      sp_kind spec = rf_kind fl' \<and> complete_payload en spec res' v \<and>
      map_of (pd_entries d') (rf_name fl') = Some v \<and> ir_digest res = fst res' \<and>
      ir_bytes res = fst (snd res') \<and> int (ir_files res) = int (snd (snd res'))"
    by (intro exI [of _ fl] exI [of _ ?spec] exI [of _ v] exI [of _ "(dg, n, k)"]) simp
  then show ?thesis using * keep by simp
qed

definition demo_flags :: receive_flags where
  "demo_flags = \<lparr>rf_kind = KindTar, rf_name = ''app'', rf_dir = ''/payload'', rf_mode = [],
     rf_max_bytes = 10, rf_max_files = 4\<rparr>"

lemma demo_command:
  "receive_command demo_env True True (Inr demo_flags) demo_staging demo_payload_dir =
    (0, Inr \<lparr>pr_path = ''/payload/app'', pr_digest = ''sha256:'', pr_bytes = 1, pr_files = 1\<rparr>,
     \<lparr>pd_entries = [(''old'', PFile ''x'' 420), (''app'', PTree 493 demo_tree)], pd_left = None\<rparr>)"
  by code_simp

lemma receive_command_contract_witness:
  "\<exists>spec v res. sp_name spec = ''app'' \<and> complete_payload demo_env spec res v \<and>
     map_of (pd_entries (snd (snd (receive_command demo_env True True (Inr demo_flags)
       demo_staging demo_payload_dir)))) ''app'' = Some v"
  using receive_command_contract [OF demo_command] unfolding demo_command
  by (auto simp: demo_flags_def)

end
