(* ===== verification/Supervisor_Run.thy ===== *)
theory Supervisor_Run
  imports Supervisor_Status
begin

text \<open>
  The supervisor of a session (\<open>cmd/wlvision-supervisor/main.go\<close>) as a machine. \<open>run_start\<close>
  is \<open>Run\<close> up to the first time it waits; an event is what one of its waits receives, or
  one turn of the goroutine that watches for readiness, which may interleave anywhere once
  it was started and, because its select may prefer the ticker, also after it was told to
  stop. What the operating system answers is the environment \<open>sup_env\<close>. Log lines are not
  kept.
\<close>

section \<open>Options\<close>

record options =
  op_runtime_dir :: string
  op_control_dir :: string
  op_wayland_dir :: string
  op_payload_dir :: string
  op_export_dir :: string
  op_display :: string
  op_agent_path :: string
  op_width :: int
  op_height :: int
  op_ready_timeout :: int
  op_stop_timeout :: int
  op_display_gid :: int

text \<open>Durations are in nanoseconds: 20 and 5 seconds by default.\<close>

definition effective_options :: "options \<Rightarrow> options" where
  "effective_options o0 =
     (let rt = (if op_runtime_dir o0 = [] then ''/run/wlvision'' else op_runtime_dir o0)
      in \<lparr>op_runtime_dir = rt,
          op_control_dir = (if op_control_dir o0 = [] then control_dir else op_control_dir o0),
          op_wayland_dir = (if op_wayland_dir o0 = [] then ''/run/wlvision/wayland'' else op_wayland_dir o0),
          op_payload_dir = (if op_payload_dir o0 = [] then path_join rt ''payload'' else op_payload_dir o0),
          op_export_dir = (if op_export_dir o0 = [] then path_join rt ''export'' else op_export_dir o0),
          op_display = (if op_display o0 = [] then ''wlvision-1'' else op_display o0),
          op_agent_path = (if op_agent_path o0 = [] then ''/usr/libexec/wlvision-agent'' else op_agent_path o0),
          op_width = (if op_width o0 \<le> 0 then 1280 else op_width o0),
          op_height = (if op_height o0 \<le> 0 then 800 else op_height o0),
          op_ready_timeout = (if op_ready_timeout o0 \<le> 0 then 20000000000 else op_ready_timeout o0),
          op_stop_timeout = (if op_stop_timeout o0 \<le> 0 then 5000000000 else op_stop_timeout o0),
          op_display_gid = op_display_gid o0\<rparr>)"

section \<open>What the supervisor asks of the system\<close>

text \<open>Modes in decimal: 1023 is octal 1777, 493 is 755, 448 is 700, 438 is 666, 432 is 660.\<close>

datatype fs_call = MkdirAll string u32 | Chmod string u32 | WriteConfig string

record sup_env =
  se_fs :: "fs_call \<Rightarrow> (bool \<times> string) option"
  se_environ :: "string list"
  se_spawn_weston :: "string list \<Rightarrow> string list \<Rightarrow> string + nat"
  se_spawn_agent :: "string list \<Rightarrow> string list \<Rightarrow> string + nat"
  se_weston_pid :: "string option"
  se_agent_pid :: "string option"
  se_status_ok :: "container_status \<Rightarrow> bool"
  se_signal_name :: "nat \<Rightarrow> string"

definition weston_ini :: string where
  "weston_ini = ''weston.ini''"

definition prepare_calls :: "options \<Rightarrow> fs_call list" where
  "prepare_calls o1 =
     concat (map (\<lambda>(p, m). [MkdirAll p m, Chmod p m])
       [(op_control_dir o1, 448), (op_wayland_dir o1, 493), (op_payload_dir o1, 493), (op_export_dir o1, 448)])
     @ [WriteConfig (path_join (op_control_dir o1) weston_ini)]"

fun fs_error :: "fs_call \<Rightarrow> goerr" where
  "fs_error (MkdirAll p m) = PlainErr ''supervisor: cannot create %s: %w''"
| "fs_error (Chmod p m) = PlainErr ''supervisor: cannot set the mode of %s: %w''"
| "fs_error (WriteConfig p) = PlainErr ''supervisor: cannot write the compositor configuration: %w''"

fun first_error :: "sup_env \<Rightarrow> fs_call list \<Rightarrow> goerr option" where
  "first_error en [] = None"
| "first_error en (c # cs) = (case se_fs en c of Some _ \<Rightarrow> Some (fs_error c) | None \<Rightarrow> first_error en cs)"

definition prepare :: "sup_env \<Rightarrow> options \<Rightarrow> goerr option" where
  "prepare en o1 =
     (case se_fs en (MkdirAll (op_runtime_dir o1) 1023) of
        Some (False, _) \<Rightarrow> Some (fs_error (MkdirAll (op_runtime_dir o1) 1023))
      | _ \<Rightarrow> first_error en (prepare_calls o1))"

definition compositor_argv :: "options \<Rightarrow> string list" where
  "compositor_argv o1 =
     [''weston'', ''--backend=headless'', ''--renderer=pixman'', ''--shell=wlvision-shell'', ''--fake-seat'',
      ''--width='' @ dec_int (op_width o1), ''--height='' @ dec_int (op_height o1), ''--idle-time=0'',
      ''--socket='' @ op_display o1, ''--config='' @ path_join (op_control_dir o1) weston_ini]"

definition compositor_env :: "sup_env \<Rightarrow> options \<Rightarrow> string list" where
  "compositor_env en o1 =
     se_environ en @
     [''XDG_RUNTIME_DIR='' @ op_wayland_dir o1, ''WLVISION_SHELL_LOG=1'', ''XKB_DEFAULT_RULES=evdev'',
      ''XKB_DEFAULT_MODEL=pc105'', ''XKB_DEFAULT_LAYOUT=us'', ''XKB_DEFAULT_VARIANT='',
      ''XKB_DEFAULT_OPTIONS='']"

definition agent_env :: "sup_env \<Rightarrow> options \<Rightarrow> string list" where
  "agent_env en o1 =
     se_environ en @ [''XDG_RUNTIME_DIR='' @ op_wayland_dir o1, ''WAYLAND_DISPLAY='' @ op_display o1]"

section \<open>State\<close>

record child =
  ch_name :: string
  ch_pid :: nat
  ch_exit :: "wait_status option"

datatype sent = Term string | Kill string

datatype phase =
  Awaiting
| Serving
| Stopping "string list" "goerr option"
| Ended "goerr option"

record sup =
  su_options :: options
  su_weston :: "child option"
  su_agent :: "child option"
  su_ready :: bool
  su_reason :: string
  su_status :: "container_status option"
  su_signals :: "sent list"
  su_phase :: phase
  su_watching :: bool
  su_unwritten :: bool

definition child_state :: "child \<Rightarrow> string" where
  "child_state c = (if ch_exit c = None then process_running else process_exited)"

definition mark_exited :: "wait_status \<Rightarrow> child \<Rightarrow> child" where
  "mark_exited w c = (if ch_exit c = None then c\<lparr>ch_exit := Some w\<rparr> else c)"

definition exit_error :: "sup_env \<Rightarrow> child \<Rightarrow> string" where
  "exit_error en c = describe_wait_status (se_signal_name en) (case ch_exit c of Some w \<Rightarrow> w | None \<Rightarrow> 0)"

definition current_status :: "sup \<Rightarrow> container_status" where
  "current_status s =
     \<lparr>ct_ready = su_ready s,
      ct_weston = (case su_weston s of None \<Rightarrow> process_not_started | Some c \<Rightarrow> child_state c),
      ct_agent = (case su_agent s of None \<Rightarrow> process_not_started | Some c \<Rightarrow> child_state c),
      ct_message = su_reason s\<rparr>"

definition write_status :: "sup_env \<Rightarrow> sup \<Rightarrow> sup" where
  "write_status en s =
     (if se_status_ok en (current_status s) then s\<lparr>su_status := Some (current_status s)\<rparr> else s)"

definition set_reason :: "string \<Rightarrow> sup \<Rightarrow> sup" where
  "set_reason r s = s\<lparr>su_reason := r, su_ready := False\<rparr>"

text \<open>\<open>observe\<close>: the child an exit belongs to, compositor first, with the exit recorded on it.\<close>

datatype whose = OfWeston child | OfAgent child | Orphan

definition observe_exit :: "nat \<Rightarrow> wait_status \<Rightarrow> sup \<Rightarrow> whose \<times> sup" where
  "observe_exit pid w s =
     (case su_weston s of
        Some c \<Rightarrow>
          if ch_pid c = pid then (OfWeston (mark_exited w c), s\<lparr>su_weston := Some (mark_exited w c)\<rparr>)
          else (case su_agent s of
                  Some a \<Rightarrow>
                    if ch_pid a = pid then (OfAgent (mark_exited w a), s\<lparr>su_agent := Some (mark_exited w a)\<rparr>)
                    else (Orphan, s)
                | None \<Rightarrow> (Orphan, s))
      | None \<Rightarrow>
          (case su_agent s of
             Some a \<Rightarrow>
               if ch_pid a = pid then (OfAgent (mark_exited w a), s\<lparr>su_agent := Some (mark_exited w a)\<rparr>)
               else (Orphan, s)
           | None \<Rightarrow> (Orphan, s)))"

definition children :: "sup \<Rightarrow> child list" where
  "children s =
     (case su_agent s of Some c \<Rightarrow> [c] | None \<Rightarrow> []) @ (case su_weston s of Some c \<Rightarrow> [c] | None \<Rightarrow> [])"

text \<open>The start of \<open>stopAll\<close>, up to its wait; when no child is pending it is over at once.\<close>

definition finish_stop :: "sup_env \<Rightarrow> goerr option \<Rightarrow> sup \<Rightarrow> sup" where
  "finish_stop en r s = (write_status en s)\<lparr>su_phase := Ended r\<rparr>"

definition stop_all :: "sup_env \<Rightarrow> goerr option \<Rightarrow> sup \<Rightarrow> sup" where
  "stop_all en r s =
     (if children s = [] then s\<lparr>su_phase := Ended r\<rparr>
      else let s1 = s\<lparr>su_signals := su_signals s @ map (Term \<circ> ch_name) (children s)\<rparr>;
               pending = map ch_name (filter (\<lambda>c. child_state c = process_running) (children s1))
           in if pending = [] then finish_stop en r s1 else s1\<lparr>su_phase := Stopping pending r\<rparr>)"

section \<open>Starting\<close>

definition new_child :: "string \<Rightarrow> nat \<Rightarrow> child" where
  "new_child n pid = \<lparr>ch_name = n, ch_pid = pid, ch_exit = None\<rparr>"

definition start_compositor :: "sup_env \<Rightarrow> sup \<Rightarrow> goerr option \<times> sup" where
  "start_compositor en s =
     (case se_spawn_weston en (compositor_argv (su_options s)) (compositor_env en (su_options s)) of
        Inl t \<Rightarrow> (Some (PlainErr (''supervisor: cannot start the compositor: '' @ t)), s)
      | Inr pid \<Rightarrow>
          (case se_weston_pid en of
             Some t \<Rightarrow> (Some (PlainErr (''supervisor: cannot record the weston.pid: '' @ t)),
                        s\<lparr>su_weston := Some (new_child ''compositor'' pid)\<rparr>)
           | None \<Rightarrow> (None, s\<lparr>su_weston := Some (new_child ''compositor'' pid)\<rparr>)))"

definition start_agent :: "sup_env \<Rightarrow> sup \<Rightarrow> goerr option \<times> sup" where
  "start_agent en s =
     (case se_spawn_agent en [op_agent_path (su_options s)] (agent_env en (su_options s)) of
        Inl t \<Rightarrow> (Some (PlainErr (''supervisor: cannot start the controller: '' @ t)), s)
      | Inr pid \<Rightarrow>
          (case se_agent_pid en of
             Some t \<Rightarrow> (Some (PlainErr (''supervisor: cannot record the agent.pid: '' @ t)),
                        s\<lparr>su_agent := Some (new_child ''controller'' pid)\<rparr>)
           | None \<Rightarrow> (None, s\<lparr>su_agent := Some (new_child ''controller'' pid)\<rparr>)))"

definition new_supervisor :: "options \<Rightarrow> sup" where
  "new_supervisor o0 =
     \<lparr>su_options = effective_options o0, su_weston = None, su_agent = None, su_ready = False, su_reason = [],
      su_status = None, su_signals = [], su_phase = Awaiting, su_watching = False, su_unwritten = False\<rparr>"

definition run_start :: "sup_env \<Rightarrow> options \<Rightarrow> sup" where
  "run_start en o0 =
     (let s = new_supervisor o0
      in case prepare en (su_options s) of
           Some e \<Rightarrow> s\<lparr>su_phase := Ended (Some e)\<rparr>
         | None \<Rightarrow>
             (case start_compositor en s of
                (Some e, s1) \<Rightarrow>
                  (write_status en (set_reason ''the compositor did not start'' s1))\<lparr>su_phase := Ended (Some e)\<rparr>
              | (None, s1) \<Rightarrow> s1))"

section \<open>Events\<close>

text \<open>
  \<open>SocketFound chmod chown\<close>: the display socket exists, with the errors of setting its mode
  and group; \<open>late\<close> says that the deadline has passed when the wait returns.
\<close>

datatype event =
  SocketFound "string option" "string option"
| Exited nat wait_status bool
| Polled bool
| Cancelled
| StopDeadline
| MarkerSeen
| WatcherWrites

definition fail_wait :: "sup_env \<Rightarrow> goerr \<Rightarrow> sup \<Rightarrow> sup" where
  "fail_wait en e s = stop_all en (Some e) (write_status en s)"

definition late_error :: goerr where
  "late_error = PlainErr ''supervisor: the compositor did not publish %s within %s''"

definition socket_ready :: "sup_env \<Rightarrow> string option \<Rightarrow> string option \<Rightarrow> sup \<Rightarrow> sup" where
  "socket_ready en chmod chown s =
     (case chmod of
        Some t \<Rightarrow> fail_wait en (PlainErr (''supervisor: cannot set the mode of %s: '' @ t)) s
      | None \<Rightarrow>
      if op_display_gid (su_options s) \<noteq> 0 \<and> chown \<noteq> None
      then fail_wait en (PlainErr (''supervisor: cannot set the group of %s: '' @ the chown)) s
      else (case start_agent en s of
              (Some e, s1) \<Rightarrow>
                stop_all en (Some e) (write_status en (set_reason ''the controller did not start'' s1))
            | (None, s1) \<Rightarrow> (write_status en s1)\<lparr>su_phase := Serving, su_watching := True\<rparr>))"

definition wait_socket :: "sup_env \<Rightarrow> event \<Rightarrow> sup \<Rightarrow> sup" where
  "wait_socket en ev s =
     (case ev of
        SocketFound chmod chown \<Rightarrow> socket_ready en chmod chown s
      | Exited pid w late \<Rightarrow>
          (case observe_exit pid w s of
             (OfWeston c, s1) \<Rightarrow>
               fail_wait en (PlainErr (''supervisor: the compositor exited before publishing a socket: ''
                 @ exit_error en c)) s1
           | (_, s1) \<Rightarrow> if late then fail_wait en late_error s1 else s1)
      | Polled late \<Rightarrow> if late then fail_wait en late_error s else s
      | Cancelled \<Rightarrow> fail_wait en (PlainErr ''supervisor: stopped while waiting for the compositor'') s
      | _ \<Rightarrow> s)"

text \<open>
  One turn of \<open>watchReadiness\<close>, in its two parts: the flag under the lock, then the status,
  unless the flag was set already.
\<close>

definition watcher_sees :: "sup \<Rightarrow> sup" where
  "watcher_sees s =
     (if su_watching s \<and> \<not> su_unwritten s
      then s\<lparr>su_ready := True, su_unwritten := \<not> su_ready s\<rparr> else s)"

definition watcher_writes :: "sup_env \<Rightarrow> sup \<Rightarrow> sup" where
  "watcher_writes en s = (if su_unwritten s then (write_status en s)\<lparr>su_unwritten := False\<rparr> else s)"

definition serve_event :: "sup_env \<Rightarrow> event \<Rightarrow> sup \<Rightarrow> sup" where
  "serve_event en ev s =
     (case ev of
        Exited pid w _ \<Rightarrow>
          (case observe_exit pid w s of
             (Orphan, s1) \<Rightarrow> s1
           | (OfWeston c, s1) \<Rightarrow>
               stop_all en (Some (PlainErr (''the compositor exited: '' @ exit_error en c)))
                 (write_status en (set_reason ''the compositor exited'' s1))
           | (OfAgent c, s1) \<Rightarrow>
               stop_all en (Some (PlainErr (''the controller exited: '' @ exit_error en c)))
                 (write_status en (set_reason ''the controller exited'' s1)))
      | Cancelled \<Rightarrow> stop_all en None s
      | MarkerSeen \<Rightarrow> watcher_sees s
      | WatcherWrites \<Rightarrow> watcher_writes en s
      | _ \<Rightarrow> s)"

definition stop_event :: "sup_env \<Rightarrow> string list \<Rightarrow> goerr option \<Rightarrow> event \<Rightarrow> sup \<Rightarrow> sup" where
  "stop_event en pending r ev s =
     (case ev of
        Exited pid w _ \<Rightarrow>
          (case observe_exit pid w s of
             (Orphan, s1) \<Rightarrow> s1
           | (OfWeston c, s1) \<Rightarrow>
               (let p = remove1 (ch_name c) pending
                in if p = [] then finish_stop en r s1 else s1\<lparr>su_phase := Stopping p r\<rparr>)
           | (OfAgent c, s1) \<Rightarrow>
               (let p = remove1 (ch_name c) pending
                in if p = [] then finish_stop en r s1 else s1\<lparr>su_phase := Stopping p r\<rparr>))
      | StopDeadline \<Rightarrow> finish_stop en r (s\<lparr>su_signals := su_signals s @ map Kill pending\<rparr>)
      | MarkerSeen \<Rightarrow> watcher_sees s
      | WatcherWrites \<Rightarrow> watcher_writes en s
      | _ \<Rightarrow> s)"

definition sup_act :: "sup_env \<Rightarrow> sup \<Rightarrow> event \<Rightarrow> sup" where
  "sup_act en s ev =
     (case su_phase s of
        Awaiting \<Rightarrow> wait_socket en ev s
      | Serving \<Rightarrow> serve_event en ev s
      | Stopping p r \<Rightarrow> stop_event en p r ev s
      | Ended _ \<Rightarrow> s)"

definition run_supervisor :: "sup_env \<Rightarrow> options \<Rightarrow> event list \<Rightarrow> sup" where
  "run_supervisor en o0 evs = foldl (sup_act en) (run_start en o0) evs"

section \<open>What stopping leaves\<close>

definition named :: "sup \<Rightarrow> bool" where
  "named s \<longleftrightarrow> (\<forall>c. su_weston s = Some c \<longrightarrow> ch_name c = ''compositor'') \<and>
     (\<forall>c. su_agent s = Some c \<longrightarrow> ch_name c = ''controller'')"

definition stopped :: "sup \<Rightarrow> bool" where
  "stopped s \<longleftrightarrow> (\<forall>c \<in> set (children s). Term (ch_name c) \<in> set (su_signals s) \<and>
     (ch_exit c \<noteq> None \<or> Kill (ch_name c) \<in> set (su_signals s)))"

definition stopping :: "string list \<Rightarrow> sup \<Rightarrow> bool" where
  "stopping ps s \<longleftrightarrow> (\<forall>c \<in> set (children s). Term (ch_name c) \<in> set (su_signals s) \<and>
     (ch_exit c \<noteq> None \<or> ch_name c \<in> set ps))"

definition sup_ok :: "sup \<Rightarrow> bool" where
  "sup_ok s \<longleftrightarrow> named s \<and>
     (case su_phase s of Stopping ps _ \<Rightarrow> stopping ps s | Ended _ \<Rightarrow> stopped s | _ \<Rightarrow> True)"

lemma children_set: "set (children s) = set_option (su_agent s) \<union> set_option (su_weston s)"
  by (auto simp: children_def split: option.splits)

lemma write_status_sel [simp]:
  "su_weston (write_status en s) = su_weston s" "su_agent (write_status en s) = su_agent s"
  "su_signals (write_status en s) = su_signals s" "su_phase (write_status en s) = su_phase s"
  "children (write_status en s) = children s"
  by (simp_all add: write_status_def children_def)

lemma set_reason_sel [simp]:
  "su_weston (set_reason r s) = su_weston s" "su_agent (set_reason r s) = su_agent s"
  "su_signals (set_reason r s) = su_signals s" "su_phase (set_reason r s) = su_phase s"
  "children (set_reason r s) = children s"
  by (simp_all add: set_reason_def children_def)

lemma named_cong:
  "su_weston s' = su_weston s \<Longrightarrow> su_agent s' = su_agent s \<Longrightarrow> named s' \<longleftrightarrow> named s"
  by (simp add: named_def)

lemma named_status [simp]: "named (write_status en s) = named s" "named (set_reason r s) = named s"
  by (simp_all add: named_def)

lemma named_phase [simp]:
  "named (s\<lparr>su_phase := p\<rparr>) = named s" "named (s\<lparr>su_phase := p, su_watching := b\<rparr>) = named s"
  "named (s\<lparr>su_signals := g\<rparr>) = named s"
  by (simp_all add: named_def)

lemma finish_stop_ok: "named s \<Longrightarrow> stopped s \<Longrightarrow> sup_ok (finish_stop en r s)"
  by (auto simp: finish_stop_def sup_ok_def stopped_def named_def children_set)

lemma stop_all_ok:
  assumes "named s"
  shows "sup_ok (stop_all en r s)"
proof (cases "children s = []")
  case True
  then show ?thesis using assms by (simp add: stop_all_def sup_ok_def stopped_def named_def children_def)
next
  case False
  define s1 where "s1 = s\<lparr>su_signals := su_signals s @ map (Term \<circ> ch_name) (children s)\<rparr>"
  define ps where "ps = map ch_name (filter (\<lambda>c. child_state c = process_running) (children s1))"
  have c: "children s1 = children s" by (simp add: s1_def children_def)
  have n: "named s1" using assms by (simp add: named_def s1_def)
  have t: "stopping ps s1"
    using c by (auto simp: stopping_def ps_def s1_def child_state_def)
  show ?thesis
  proof (cases "ps = []")
    case True
    then have "stopped s1" using t by (auto simp: stopping_def stopped_def)
    then have "sup_ok (finish_stop en r s1)" by (rule finish_stop_ok [OF n])
    then show ?thesis using False True by (simp add: stop_all_def Let_def s1_def ps_def)
  next
    case False
    then have "stop_all en r s = s1\<lparr>su_phase := Stopping ps r\<rparr>"
      using \<open>children s \<noteq> []\<close> by (simp add: stop_all_def Let_def s1_def ps_def)
    then show ?thesis using n t by (simp add: sup_ok_def named_def stopping_def children_set)
  qed
qed

lemma mark_exited_sel [simp]: "ch_name (mark_exited w c) = ch_name c" "\<exists>y. ch_exit (mark_exited w c) = Some y"
  "ch_pid (mark_exited w c) = ch_pid c"
  by (simp_all add: mark_exited_def)

lemma observe_named: "observe_exit pid w s = (o1, s1) \<Longrightarrow> named s \<Longrightarrow> named s1"
  by (auto simp: observe_exit_def named_def split: option.splits if_splits)

lemma observe_phase: "observe_exit pid w s = (o1, s1) \<Longrightarrow> su_phase s1 = su_phase s"
  by (auto simp: observe_exit_def split: option.splits if_splits)

lemma observe_stopping:
  assumes "observe_exit pid w s = (o1, s1)" and "named s" and "stopping ps s"
  shows "stopping (case o1 of OfWeston c \<Rightarrow> remove1 (ch_name c) ps | OfAgent c \<Rightarrow> remove1 (ch_name c) ps
    | Orphan \<Rightarrow> ps) s1"
  using assms
  by (auto simp: observe_exit_def stopping_def named_def children_set split: option.splits if_splits)

lemma start_agent_named: "start_agent en s = (e, s1) \<Longrightarrow> named s \<Longrightarrow> named s1"
  by (auto simp: start_agent_def named_def new_child_def split: sum.splits option.splits)

lemma fail_wait_ok: "named s \<Longrightarrow> sup_ok (fail_wait en e s)"
  by (simp add: fail_wait_def stop_all_ok)

lemma wait_socket_ok:
  assumes "named s" and "su_phase s = Awaiting"
  shows "sup_ok (wait_socket en ev s)"
proof -
  have same: "named s1 \<Longrightarrow> su_phase s1 = Awaiting \<Longrightarrow> sup_ok s1" for s1 by (simp add: sup_ok_def)
  have ready: "sup_ok (socket_ready en a b s)" for a b
  proof -
    obtain e s1 where e: "start_agent en s = (e, s1)" by (cases "start_agent en s")
    have n: "named s1" by (rule start_agent_named [OF e assms(1)])
    have "sup_ok ((write_status en s1)\<lparr>su_phase := Serving, su_watching := True\<rparr>)"
      using n by (simp add: sup_ok_def)
    then show ?thesis using e n assms(1)
      by (cases a; cases e) (simp_all add: socket_ready_def fail_wait_ok stop_all_ok)
  qed
  show ?thesis
  proof (cases ev)
    case (Exited pid w late)
    obtain o1 s1 where o1: "observe_exit pid w s = (o1, s1)" by (cases "observe_exit pid w s")
    note n = observe_named [OF o1 assms(1)] and ph = observe_phase [OF o1]
    show ?thesis using Exited o1 n ph assms(2)
      by (cases o1) (simp_all add: wait_socket_def fail_wait_ok same)
  qed (use ready same assms in \<open>simp_all add: wait_socket_def fail_wait_ok\<close>)
qed

lemma watcher_ok: "sup_ok s \<Longrightarrow> sup_ok (watcher_sees s)" "sup_ok s \<Longrightarrow> sup_ok (watcher_writes en s)"
  by (auto simp: watcher_sees_def watcher_writes_def sup_ok_def named_def stopped_def stopping_def children_set
      split: phase.splits)

lemma serve_event_ok:
  assumes "named s" and "su_phase s = Serving"
  shows "sup_ok (serve_event en ev s)"
proof -
  have ok: "sup_ok s" using assms by (simp add: sup_ok_def)
  have same: "named s1 \<Longrightarrow> su_phase s1 = Serving \<Longrightarrow> sup_ok s1" for s1 by (simp add: sup_ok_def)
  show ?thesis
  proof (cases ev)
    case (Exited pid w late)
    obtain o1 s1 where o1: "observe_exit pid w s = (o1, s1)" by (cases "observe_exit pid w s")
    note n = observe_named [OF o1 assms(1)] and ph = observe_phase [OF o1]
    show ?thesis using Exited o1 n ph assms(2)
      by (cases o1) (simp_all add: serve_event_def stop_all_ok same)
  qed (use ok watcher_ok [OF ok] assms in \<open>simp_all add: serve_event_def stop_all_ok\<close>)
qed

lemma stop_event_ok:
  assumes "named s" and "su_phase s = Stopping ps r" and "stopping ps s"
  shows "sup_ok (stop_event en ps r ev s)"
proof -
  have ok: "sup_ok s" using assms by (simp add: sup_ok_def)
  have fin: "sup_ok (if p = [] then finish_stop en r s1 else s1\<lparr>su_phase := Stopping p r\<rparr>)"
    if "named s1" "stopping p s1" for p s1
  proof (cases "p = []")
    case True
    then have "stopped s1" using that(2) by (simp add: stopping_def stopped_def)
    then show ?thesis using True finish_stop_ok [OF that(1)] by simp
  next
    case False
    have "stopping p (s1\<lparr>su_phase := Stopping p r\<rparr>)"
      using that(2) by (simp add: stopping_def children_def)
    then show ?thesis using False that(1) by (simp add: sup_ok_def)
  qed
  have killed: "sup_ok (finish_stop en r (s\<lparr>su_signals := su_signals s @ map Kill ps\<rparr>))"
    using assms by (intro finish_stop_ok) (auto simp: named_def stopping_def stopped_def children_set)
  show ?thesis
  proof (cases ev)
    case (Exited pid w late)
    obtain o1 s1 where o1: "observe_exit pid w s = (o1, s1)" by (cases "observe_exit pid w s")
    note n = observe_named [OF o1 assms(1)] and st = observe_stopping [OF o1 assms(1,3)]
    show ?thesis
    proof (cases o1)
      case (OfWeston c)
      show ?thesis unfolding stop_event_def Exited event.case o1 prod.case OfWeston whose.case Let_def
        by (rule fin [OF n]) (use st OfWeston in simp)
    next
      case (OfAgent c)
      show ?thesis unfolding stop_event_def Exited event.case o1 prod.case OfAgent whose.case Let_def
        by (rule fin [OF n]) (use st OfAgent in simp)
    next
      case Orphan
      then show ?thesis using Exited o1 n st observe_phase [OF o1] assms(2)
        by (simp add: stop_event_def sup_ok_def)
    qed
  qed (use ok killed watcher_ok [OF ok] in \<open>simp_all add: stop_event_def\<close>)
qed

lemma sup_act_ok: "sup_ok s \<Longrightarrow> sup_ok (sup_act en s ev)"
  using wait_socket_ok [of s en ev] serve_event_ok [of s en ev] stop_event_ok [of s _ _ en ev]
  by (auto simp: sup_act_def sup_ok_def split: phase.splits)

interpretation supervisor: invariant_machine "sup_act en" sup_ok for en
  by unfold_locales (rule sup_act_ok)

lemma run_start_ok: "se_weston_pid en = None \<Longrightarrow> sup_ok (run_start en o0)"
  by (auto simp: run_start_def Let_def start_compositor_def new_supervisor_def sup_ok_def named_def stopped_def
      children_def new_child_def set_reason_def write_status_def split: option.splits sum.splits)

lemma run_ok: "se_weston_pid en = None \<Longrightarrow> sup_ok (run_supervisor en o0 evs)"
  unfolding run_supervisor_def by (rule supervisor.inv_run) (rule run_start_ok)

section \<open>Why it ends\<close>

text \<open>Until a stop is asked for, no phase carries a result without an error.\<close>

definition no_orderly_end :: "sup \<Rightarrow> bool" where
  "no_orderly_end s \<longleftrightarrow> (\<forall>ps. su_phase s \<noteq> Stopping ps None) \<and> su_phase s \<noteq> Ended None"

lemma stop_all_phase: "(\<exists>ps. su_phase (stop_all en r s) = Stopping ps r) \<or> su_phase (stop_all en r s) = Ended r"
  by (auto simp: stop_all_def Let_def finish_stop_def)

lemma fail_wait_orderly: "no_orderly_end (fail_wait en e s)"
  using stop_all_phase [of en "Some e" "write_status en s"] by (auto simp: no_orderly_end_def fail_wait_def)

lemma stop_all_orderly: "no_orderly_end (stop_all en (Some e) s)"
  using stop_all_phase [of en "Some e" s] by (auto simp: no_orderly_end_def)

lemma orderly_phase: "su_phase s1 = su_phase s \<Longrightarrow> no_orderly_end s \<Longrightarrow> no_orderly_end s1"
  by (simp add: no_orderly_end_def)

lemma watcher_phase [simp]: "su_phase (watcher_sees s) = su_phase s" "su_phase (watcher_writes en s) = su_phase s"
  by (simp_all add: watcher_sees_def watcher_writes_def)

lemma act_orderly:
  assumes "no_orderly_end s" and "ev \<noteq> Cancelled"
  shows "no_orderly_end (sup_act en s ev)"
proof (cases ev)
  case (Exited pid w late)
  obtain o1 s1 where o1: "observe_exit pid w s = (o1, s1)" by (cases "observe_exit pid w s")
  have n: "no_orderly_end s1" by (rule orderly_phase [OF observe_phase [OF o1] assms(1)])
  have fin: "no_orderly_end (if p = [] then finish_stop en r s1 else s1\<lparr>su_phase := Stopping p r\<rparr>)"
    if "su_phase s = Stopping ps r" for p ps r
    using assms(1) that by (auto simp: no_orderly_end_def finish_stop_def)
  show ?thesis
    using assms(1) n fin Exited o1
    by (cases "su_phase s"; cases o1)
      (simp_all add: sup_act_def wait_socket_def serve_event_def stop_event_def fail_wait_orderly stop_all_orderly
        Let_def)
next
  case (SocketFound a b)
  have "no_orderly_end (socket_ready en a b s)"
    by (auto simp: socket_ready_def fail_wait_orderly stop_all_orderly no_orderly_end_def [of "_\<lparr>su_phase := _, su_watching := _\<rparr>"]
        split: option.splits prod.splits)
  then show ?thesis using SocketFound assms(1)
    by (cases "su_phase s") (simp_all add: sup_act_def wait_socket_def serve_event_def stop_event_def)
next
  case StopDeadline
  then show ?thesis using assms(1)
    by (cases "su_phase s")
      (auto simp: sup_act_def wait_socket_def serve_event_def stop_event_def no_orderly_end_def finish_stop_def)
next
  case (Polled late)
  then show ?thesis using assms(1) fail_wait_orderly
    by (cases "su_phase s") (simp_all add: sup_act_def wait_socket_def serve_event_def stop_event_def)
next
  case MarkerSeen
  then show ?thesis using assms(1) orderly_phase [of "watcher_sees s" s]
    by (cases "su_phase s") (simp_all add: sup_act_def wait_socket_def serve_event_def stop_event_def)
next
  case WatcherWrites
  then show ?thesis using assms(1) orderly_phase [of "watcher_writes en s" s]
    by (cases "su_phase s") (simp_all add: sup_act_def wait_socket_def serve_event_def stop_event_def)
qed (use assms(2) in simp)

lemma run_orderly: "Cancelled \<notin> set evs \<Longrightarrow> no_orderly_end (run_supervisor en o0 evs)"
proof (induction evs rule: rev_induct)
  case Nil
  show ?case
    by (auto simp: run_supervisor_def run_start_def Let_def start_compositor_def new_supervisor_def no_orderly_end_def
        split: option.splits sum.splits)
next
  case (snoc ev evs)
  then show ?case using act_orderly [of "run_supervisor en o0 evs" ev en] by (auto simp: run_supervisor_def)
qed

lemma orphan_kept:
  assumes "\<And>c. c \<in> set (children s) \<Longrightarrow> ch_pid c \<noteq> pid" and "su_phase s = Serving \<or> (\<exists>ps r. su_phase s = Stopping ps r)"
  shows "sup_act en s (Exited pid w late) = s"
proof -
  have "observe_exit pid w s = (Orphan, s)"
    using assms(1) by (auto simp: observe_exit_def children_set split: option.splits)
  then show ?thesis using assms(2) by (auto simp: sup_act_def serve_event_def stop_event_def)
qed

section \<open>Properties\<close>


definition demo_options :: options where
  "demo_options = \<lparr>op_runtime_dir = [], op_control_dir = [], op_wayland_dir = [], op_payload_dir = [],
     op_export_dir = [], op_display = [], op_agent_path = [], op_width = 0, op_height = 0,
     op_ready_timeout = 0, op_stop_timeout = 0, op_display_gid = 0\<rparr>"

definition demo_sup_env :: sup_env where
  "demo_sup_env = \<lparr>se_fs = (\<lambda>_. None), se_environ = [], se_spawn_weston = (\<lambda>_ _. Inr 2),
     se_spawn_agent = (\<lambda>_ _. Inr 3), se_weston_pid = None, se_agent_pid = None, se_status_ok = (\<lambda>_. True),
     se_signal_name = dec_nat\<rparr>"

definition demo_events :: "event list" where
  "demo_events = [SocketFound None None, MarkerSeen, WatcherWrites, Exited 3 256 False, StopDeadline]"

lemma demo_run:
  "su_phase (run_supervisor demo_sup_env demo_options demo_events)
     = Ended (Some (PlainErr ''the controller exited: exit status 1''))"
  by code_simp


text \<open>
  The watcher can undo what the death of a child set: a status published after the
  controller exited can say that the session is ready, together with the reason it is not.
\<close>

lemma ready_published_after_death:
  "su_status (run_supervisor demo_sup_env demo_options
      [SocketFound None None, Exited 3 256 False, MarkerSeen, WatcherWrites]) =
    Some \<lparr>ct_ready = True, ct_weston = process_running, ct_agent = process_exited,
      ct_message = ''the controller exited''\<rparr>"
  by code_simp

lemma compositor_left_running:
  "run_supervisor (demo_sup_env\<lparr>se_weston_pid := Some ''e''\<rparr>) demo_options [] =
    (new_supervisor demo_options)\<lparr>su_weston := Some (new_child ''compositor'' 2),
      su_reason := ''the compositor did not start'',
      su_status := Some \<lparr>ct_ready = False, ct_weston = process_running, ct_agent = process_not_started,
        ct_message = ''the compositor did not start''\<rparr>,
      su_phase := Ended (Some (PlainErr ''supervisor: cannot record the weston.pid: e''))\<rparr>"
  by code_simp

end
