(* ===== verification/Export.thy ===== *)
theory Export
  imports Session_Model Paths
begin

text \<open>
  The export tree of a session (\<open>internal/export/export.go\<close>). The file system maps an
  absolute, clean path to what \<open>lstat\<close> sees there; every call may fail (\<open>xf_faults\<close> gives
  the error's text, call by call). A directory is only created or written into after its
  path was walked from the base, so no call of the model follows a link. \<open>tmp\<close> is the name
  \<open>os.CreateTemp\<close> chooses, and \<open>cwd\<close> the working directory, or the error of asking for it.
\<close>

section \<open>Names\<close>

definition max_name_length :: nat where "max_name_length = 200"
definition max_artifact_bytes :: int where "max_artifact_bytes = 268435456"

definition export_op :: string where
  "export_op = ''capture.export''"

definition export_failed :: "string \<Rightarrow> goerr" where
  "export_failed m = Typed (new_failure CaptureFailed export_op m)"

definition clean_artifact_name :: "string \<Rightarrow> goerr + string" where
  "clean_artifact_name n =
     (if trim_space n = [] then Inl (usage export_op ''an artifact name is required'')
      else if char_of (0::nat) \<in> set n then Inl (usage export_op ''the artifact name contains a NUL byte'')
      else if is_abs n
        then Inl (usage export_op ''the artifact name %q must be relative to the session export directory'')
      else if has_prefix n ''-'' then Inl (usage export_op ''the artifact name %q must not begin with a dash'')
      else let c = path_clean n
           in if c = ''.'' \<or> c = ''..'' \<or> has_prefix c ''../''
              then Inl (usage export_op ''the artifact name %q leaves the session export directory'')
              else if max_name_length < length c
              then Inl (usage export_op ''the artifact name is longer than %d bytes'')
              else Inr c)"

lemma clean_artifact_confined: "clean_artifact_name n = Inr c \<Longrightarrow> confined c"
  using path_clean_confined [of n] by (auto simp: clean_artifact_name_def Let_def split: if_splits)

interpretation artifact_name: name_validator clean_artifact_name
  by unfold_locales (rule clean_artifact_confined)

section \<open>The tree of a session\<close>

record export_tree =
  et_base :: string
  et_root :: string

definition dir_name :: string where
  "dir_name = ''export''"

definition absolute :: "string + string \<Rightarrow> string \<Rightarrow> string + string" where
  "absolute cwd p =
     (if is_abs p then Inr (path_clean p)
      else case cwd of Inl e \<Rightarrow> Inl e | Inr w \<Rightarrow> Inr (path_join w p))"

definition open_tree :: "string + string \<Rightarrow> string \<Rightarrow> string \<Rightarrow> goerr + export_tree" where
  "open_tree cwd state_root sid =
     (if trim_space state_root = [] then Inl (PlainErr ''export: a state root is required'')
      else if \<not> valid_session_id sid then Inl (usage export_op ''%q is not a usable session identifier'')
      else case absolute cwd (path_join (path_join state_root dir_name) sid) of
        Inl e \<Rightarrow> Inl (PlainErr (''export: '' @ e))
      | Inr root \<Rightarrow>
          (case absolute cwd (path_join state_root dir_name) of
             Inl e \<Rightarrow> Inl (PlainErr (''export: '' @ e))
           | Inr base \<Rightarrow> Inr \<lparr>et_base = base, et_root = root\<rparr>))"

definition tree_path :: "export_tree \<Rightarrow> string \<Rightarrow> goerr + string" where
  "tree_path t n =
     (case clean_artifact_name n of Inl e \<Rightarrow> Inl e | Inr c \<Rightarrow> Inr (path_join (et_root t) c))"

section \<open>The file system\<close>

datatype fnode = XFile string | XDir | XLink | XOther

record xfs =
  xf_nodes :: "string \<Rightarrow> fnode option"
  xf_faults :: "string option list"

definition xf_fault :: "xfs \<Rightarrow> string option \<times> xfs" where
  "xf_fault s = (case xf_faults s of [] \<Rightarrow> (None, s) | f # fs \<Rightarrow> (f, s\<lparr>xf_faults := fs\<rparr>))"

definition set_node :: "string \<Rightarrow> fnode option \<Rightarrow> xfs \<Rightarrow> xfs" where
  "set_node p v s = s\<lparr>xf_nodes := (xf_nodes s)(p := v)\<rparr>"

definition mkdir_refusing :: "string \<Rightarrow> xfs \<Rightarrow> goerr option \<times> xfs" where
  "mkdir_refusing p s =
     (case xf_fault s of
        (Some e, s1) \<Rightarrow> (Some (export_failed ''cannot create %s: %v''), s1)
      | (None, s1) \<Rightarrow>
          (case xf_nodes s1 p of
             None \<Rightarrow> (None, set_node p (Some XDir) s1)
           | Some v \<Rightarrow>
               (case xf_fault s1 of
                  (Some e, s2) \<Rightarrow> (Some (export_failed ''cannot inspect %s: %v''), s2)
                | (None, s2) \<Rightarrow>
                    if v = XDir then (None, s2)
                    else (Some (usage export_op ''%s is not a directory wlvision can write through''), s2))))"

fun mkdir_walk :: "string \<Rightarrow> string list \<Rightarrow> xfs \<Rightarrow> goerr option \<times> xfs" where
  "mkdir_walk current [] s = (None, s)"
| "mkdir_walk current (e # es) s =
     (case mkdir_refusing (path_join current e) s of
        (Some err, s1) \<Rightarrow> (Some err, s1)
      | (None, s1) \<Rightarrow> mkdir_walk (path_join current e) es s1)"

definition ensure_dir :: "export_tree \<Rightarrow> string \<Rightarrow> xfs \<Rightarrow> goerr option \<times> xfs" where
  "ensure_dir t dir s =
     (let r = rel_path (et_base t) dir
      in if r \<noteq> ''.'' \<and> (r = ''..'' \<or> has_prefix r ''../'')
         then (Some (usage export_op ''%s is not inside the session export directory''), s)
         else case xf_fault s of
           (Some e, s1) \<Rightarrow> (Some (export_failed ''cannot create %s: %v''), s1)
         | (None, s1) \<Rightarrow>
             let s2 = (if xf_nodes s1 (et_base t) = None then set_node (et_base t) (Some XDir) s1 else s1)
             in if r = ''.'' then (None, s2) else mkdir_walk (et_base t) (split_on slash r) s2)"

definition refuse_unsafe_target :: "string \<Rightarrow> xfs \<Rightarrow> goerr option \<times> xfs" where
  "refuse_unsafe_target p s =
     (case xf_fault s of
        (Some e, s1) \<Rightarrow> (Some (export_failed ''cannot inspect %s: %v''), s1)
      | (None, s1) \<Rightarrow>
          ((case xf_nodes s1 p of
              None \<Rightarrow> None
            | Some XLink \<Rightarrow> Some (usage export_op ''%s is a symbolic link; wlvision does not write through one'')
            | Some XDir \<Rightarrow> Some (usage export_op ''%s is a directory'')
            | Some XOther \<Rightarrow> Some (usage export_op ''%s is not a regular file'')
            | Some (XFile _) \<Rightarrow> None), s1))"

text \<open>\<open>writeAll\<close>: chunks the file accepts, an error, or no progress; then the sync.\<close>

datatype wrote = Wrote nat | WriteError string

fun write_all :: "string \<Rightarrow> wrote list \<Rightarrow> string option \<Rightarrow> string option \<times> string" where
  "write_all [] ws sync = (sync, [])"
| "write_all data [] sync = (sync, data)"
| "write_all data (WriteError e # ws) sync = (Some e, [])"
| "write_all data (Wrote n # ws) sync =
     (if n = 0 then (Some ''no progress'', [])
      else (let (r, bs) = write_all (drop n data) ws sync in (r, take n data @ bs)))"

text \<open>The end of a failed write: the staged file is removed, an error of that is ignored.\<close>

definition drop_staging :: "string \<Rightarrow> xfs \<Rightarrow> xfs" where
  "drop_staging p s = (case xf_fault s of (Some _, s1) \<Rightarrow> s1 | (None, s1) \<Rightarrow> set_node p None s1)"

text \<open>Staging the artifact next to its target and renaming it into place.\<close>

definition publish_artifact ::
  "string \<Rightarrow> wrote list \<Rightarrow> string option \<Rightarrow> string \<Rightarrow> string \<Rightarrow> xfs \<Rightarrow> (goerr + string) \<times> xfs" where
  "publish_artifact tmp ws sync target data s =
     (case xf_fault s of
        (Some e, s1) \<Rightarrow> (Inl (export_failed ''cannot stage %s: %v''), s1)
      | (None, s1) \<Rightarrow>
      let p = path_join (path_dir target) tmp;
          (err, bs) = write_all data ws sync;
          s2 = set_node p (Some (XFile bs)) s1
      in case err of
        Some e \<Rightarrow> (Inl (export_failed ''cannot write %s: %v''), drop_staging p s2)
      | None \<Rightarrow>
      case xf_fault s2 of
        (Some e, s3) \<Rightarrow> (Inl (export_failed ''cannot close %s: %v''), drop_staging p s3)
      | (None, s3) \<Rightarrow>
      case xf_fault s3 of
        (Some e, s4) \<Rightarrow> (Inl (export_failed ''cannot publish %s: %v''), drop_staging p s4)
      | (None, s4) \<Rightarrow> (Inr target, set_node target (Some (XFile bs)) (set_node p None s4)))"

definition store_artifact ::
  "export_tree \<Rightarrow> string \<Rightarrow> wrote list \<Rightarrow> string option \<Rightarrow> string \<Rightarrow> string \<Rightarrow> xfs \<Rightarrow> (goerr + string) \<times> xfs" where
  "store_artifact t tmp ws sync n data s =
     (if max_artifact_bytes < int (length data)
      then (Inl (export_failed ''the artifact is %d bytes, more than the %d byte limit''), s)
      else case tree_path t n of
        Inl e \<Rightarrow> (Inl e, s)
      | Inr target \<Rightarrow>
      case ensure_dir t (path_dir target) s of
        (Some e, s1) \<Rightarrow> (Inl e, s1)
      | (None, s1) \<Rightarrow>
      case refuse_unsafe_target target s1 of
        (Some e, s2) \<Rightarrow> (Inl e, s2)
      | (None, s2) \<Rightarrow> publish_artifact tmp ws sync target data s2)"

text \<open>Reading follows a link: \<open>via\<close> is what is read through the one at a path.\<close>

definition read_artifact ::
  "(string \<Rightarrow> string option) \<Rightarrow> export_tree \<Rightarrow> string \<Rightarrow> xfs \<Rightarrow> (goerr + string) \<times> xfs" where
  "read_artifact via t n s =
     (case tree_path t n of
        Inl e \<Rightarrow> (Inl e, s)
      | Inr target \<Rightarrow>
          (case xf_fault s of
             (Some e, s1) \<Rightarrow> (Inl (export_failed ''cannot read %s: %v''), s1)
           | (None, s1) \<Rightarrow>
               (case xf_nodes s1 target of
                  Some (XFile b) \<Rightarrow> (Inr b, s1)
                | Some XLink \<Rightarrow>
                    ((case via target of Some b \<Rightarrow> Inr b
                      | None \<Rightarrow> Inl (export_failed ''cannot read %s: %v'')), s1)
                | _ \<Rightarrow> (Inl (export_failed ''cannot read %s: %v''), s1))))"

section \<open>What a store changes\<close>

definition grown :: "xfs \<Rightarrow> xfs \<Rightarrow> bool" where
  "grown s s' \<longleftrightarrow> (\<forall>q. xf_nodes s' q = xf_nodes s q \<or> xf_nodes s q = None \<and> xf_nodes s' q = Some XDir)"

lemma grown_refl [simp]: "grown s s"
  by (simp add: grown_def)

lemma grown_trans: "grown a b \<Longrightarrow> grown b c \<Longrightarrow> grown a c"
  unfolding grown_def by metis

lemma fault_nodes: "xf_fault s = (f, s1) \<Longrightarrow> xf_nodes s1 = xf_nodes s"
  by (auto simp: xf_fault_def split: list.splits)

lemma mkdir_refusing_grown:
  "mkdir_refusing p s = (r, s1) \<Longrightarrow> grown s s1 \<and> (r = None \<longrightarrow> xf_nodes s1 p = Some XDir)"
  by (auto simp: mkdir_refusing_def grown_def set_node_def dest!: fault_nodes
      split: prod.splits option.splits if_splits)

lemma grown_dir: "grown s s1 \<Longrightarrow> xf_nodes s q = Some XDir \<Longrightarrow> xf_nodes s1 q = Some XDir"
  unfolding grown_def by (metis option.distinct(1))

lemma mkdir_walk_grown:
  "mkdir_walk cur es s = (r, s') \<Longrightarrow> grown s s' \<and>
    (r = None \<longrightarrow> (\<forall>k. 0 < k \<longrightarrow> k \<le> length es \<longrightarrow> xf_nodes s' (foldl path_join cur (take k es)) = Some XDir))"
proof (induction es arbitrary: cur s)
  case (Cons e es)
  obtain r1 s1 where m: "mkdir_refusing (path_join cur e) s = (r1, s1)" by (cases "mkdir_refusing (path_join cur e) s")
  note g = mkdir_refusing_grown [OF m]
  show ?case
  proof (cases r1)
    case (Some err)
    then show ?thesis using Cons.prems m g by auto
  next
    case None
    then have rest: "mkdir_walk (path_join cur e) es s1 = (r, s')" using Cons.prems m by simp
    note ih = Cons.IH [OF rest]
    have "xf_nodes s' (foldl path_join cur (take k (e # es))) = Some XDir"
      if "r = None" "0 < k" "k \<le> length (e # es)" for k
    proof (cases "k = 1")
      case True
      have "xf_nodes s1 (path_join cur e) = Some XDir" using g None by simp
      then show ?thesis using True ih grown_dir [of s1 s' "path_join cur e"] by simp
    next
      case False
      then have "k = Suc (k - 1)" "0 < k - 1" using that(2) by auto
      then show ?thesis using ih that by (metis Suc_le_mono foldl_Cons length_Cons take_Suc_Cons)
    qed
    note dirs = this
    show ?thesis
    proof (intro conjI impI allI)
      show "grown s s'" using g ih grown_trans [of s s1 s'] by simp
    qed (rule dirs)
  qed
qed simp

lemma ensure_dir_grown:
  assumes "ensure_dir t dir s = (r, s')"
  shows "grown s s' \<and> (r = None \<longrightarrow> rel_path (et_base t) dir \<noteq> ''.'' \<longrightarrow>
    (\<forall>k. 0 < k \<longrightarrow> k \<le> length (split_on slash (rel_path (et_base t) dir)) \<longrightarrow>
      xf_nodes s' (foldl path_join (et_base t) (take k (split_on slash (rel_path (et_base t) dir)))) = Some XDir))"
proof -
  let ?r = "rel_path (et_base t) dir"
  obtain f s1 where f: "xf_fault s = (f, s1)" by (cases "xf_fault s")
  define s2 where "s2 = (if xf_nodes s1 (et_base t) = None then set_node (et_base t) (Some XDir) s1 else s1)"
  have g: "grown s s1" "grown s s2" using fault_nodes [OF f] by (simp_all add: grown_def s2_def set_node_def)
  consider (refused) e where "r = Some e" "s' = s \<or> s' = s1" | (flat) "r = None" "?r = ''.''" "s' = s2"
    | (walk) "mkdir_walk (et_base t) (split_on slash ?r) s2 = (r, s')" "?r \<noteq> ''.''"
  proof (cases "(?r \<noteq> ''.'' \<and> (?r = ''..'' \<or> has_prefix ?r ''../'')) \<or> f \<noteq> None")
    case True
    show thesis
      by (rule refused [of "the r"]) (use True assms f in \<open>auto simp: ensure_dir_def Let_def split: if_splits\<close>)
  next
    case False
    then have "(if ?r = ''.'' then (None, s2) else mkdir_walk (et_base t) (split_on slash ?r) s2) = (r, s')"
      using assms f by (auto simp: ensure_dir_def Let_def s2_def split: if_splits)
    then show thesis using flat walk by (cases "?r = ''.''") simp_all
  qed
  then show ?thesis
  proof cases
    case refused
    then show ?thesis using g(1) by auto
  next
    case flat
    then show ?thesis using g(2) by simp
  next
    case walk
    note w = mkdir_walk_grown [OF walk(1)]
    show ?thesis using w grown_trans [OF g(2)] by blast
  qed
qed

lemma write_all_done: "write_all data ws sync = (None, bs) \<Longrightarrow> bs = data \<and> sync = None"
proof (induction data ws sync arbitrary: bs rule: write_all.induct)
  case (4 v va n ws sync)
  then show ?case by (auto split: if_splits prod.splits)
qed auto

lemma refuse_None:
  "refuse_unsafe_target p s = (r, s1) \<Longrightarrow> xf_nodes s1 = xf_nodes s \<and>
    (r = None \<longrightarrow> xf_nodes s p = None \<or> (\<exists>b. xf_nodes s p = Some (XFile b)))"
  by (auto simp: refuse_unsafe_target_def dest!: fault_nodes split: prod.splits option.splits fnode.splits)

lemma drop_staging_nodes: "q \<noteq> p \<Longrightarrow> xf_nodes (drop_staging p s) q = xf_nodes s q"
  by (auto simp: drop_staging_def set_node_def dest!: fault_nodes split: prod.splits option.splits)

lemma publish_cases:
  assumes "publish_artifact tmp ws sync target data s = (r, s')"
  shows "(\<exists>e. r = Inl e) \<and> (\<forall>q. q \<noteq> path_join (path_dir target) tmp \<longrightarrow> xf_nodes s' q = xf_nodes s q) \<or>
    r = Inr target \<and> sync = None \<and>
      xf_nodes s' = (xf_nodes s)(path_join (path_dir target) tmp := None, target \<mapsto> XFile data)"
proof -
  let ?p = "path_join (path_dir target) tmp"
  obtain f1 s1 where f1: "xf_fault s = (f1, s1)" by (cases "xf_fault s")
  obtain err bs where w: "write_all data ws sync = (err, bs)" by (cases "write_all data ws sync")
  let ?s2 = "set_node ?p (Some (XFile bs)) s1"
  obtain f2 s3 where f2: "xf_fault ?s2 = (f2, s3)" by (cases "xf_fault ?s2")
  obtain f3 s4 where f3: "xf_fault s3 = (f3, s4)" by (cases "xf_fault s3")
  have n: "xf_nodes s1 = xf_nodes s" "xf_nodes s3 = (xf_nodes s)(?p \<mapsto> XFile bs)"
    "xf_nodes s4 = (xf_nodes s)(?p \<mapsto> XFile bs)"
    using fault_nodes [OF f1] fault_nodes [OF f2] fault_nodes [OF f3] by (simp_all add: set_node_def)
  note un = assms [unfolded publish_artifact_def]
  show ?thesis
  proof (cases "f1 = None \<and> err = None \<and> f2 = None \<and> f3 = None")
    case True
    have "bs = data" "sync = None" using write_all_done [of data ws sync bs] w True by simp_all
    then show ?thesis using un f1 w f2 f3 True n by (auto simp: set_node_def Let_def)
  next
    case False
    then show ?thesis using un f1 w f2 f3 n drop_staging_nodes [of _ ?p]
      by (cases f1; cases err; cases f2; cases f3) (auto simp: Let_def set_node_def)
  qed
qed

text \<open>A store that was refused, one that failed at the staged file, and one that succeeded.\<close>

lemma store_cases:
  assumes "store_artifact t tmp ws sync n data s = (r, s')"
  shows "(\<exists>e. r = Inl e \<and> grown s s') \<or>
    (\<exists>target s1 s2. tree_path t n = Inr target \<and> ensure_dir t (path_dir target) s = (None, s1) \<and>
      int (length data) \<le> max_artifact_bytes \<and> xf_nodes s2 = xf_nodes s1 \<and>
      (xf_nodes s1 target = None \<or> (\<exists>b. xf_nodes s1 target = Some (XFile b))) \<and>
      publish_artifact tmp ws sync target data s2 = (r, s'))"
proof -
  consider (early) e where "r = Inl e" "s' = s"
    | (late) target where "tree_path t n = Inr target" "int (length data) \<le> max_artifact_bytes"
  proof (cases "max_artifact_bytes < int (length data) \<or> (\<exists>e. tree_path t n = Inl e)")
    case True
    then consider "max_artifact_bytes < int (length data)" | e where "tree_path t n = Inl e" by blast
    then have "(\<exists>e. r = Inl e) \<and> s' = s"
    proof cases
      case 1
      then show ?thesis using assms by (auto simp: store_artifact_def)
    next
      case (2 e)
      then have "fst (store_artifact t tmp ws sync n data s) \<in> range Inl \<and>
          snd (store_artifact t tmp ws sync n data s) = s"
        by (simp add: store_artifact_def)
      then show ?thesis using assms by auto
    qed
    then show thesis using early by blast
  next
    case False
    then show thesis by (cases "tree_path t n") (auto intro: late)
  qed
  then show ?thesis
  proof cases
    case early
    then show ?thesis by simp
  next
    case late
    obtain r1 s1 where ed: "ensure_dir t (path_dir target) s = (r1, s1)" by (cases "ensure_dir t (path_dir target) s")
    obtain r2 s2 where rf: "refuse_unsafe_target target s1 = (r2, s2)" by (cases "refuse_unsafe_target target s1")
    have g: "grown s s1" "grown s s2" using ensure_dir_grown [OF ed] refuse_None [OF rf] by (simp_all add: grown_def)
    show ?thesis
    proof (cases "r1 = None \<and> r2 = None")
      case True
      then have "publish_artifact tmp ws sync target data s2 = (r, s')"
        using assms late ed rf by (simp add: store_artifact_def)
      then show ?thesis using True late ed refuse_None [OF rf] by blast
    next
      case False
      then have "(\<exists>e. r = Inl e) \<and> (s' = s1 \<or> s' = s2)"
        using assms late ed rf by (cases r1; cases r2) (auto simp: store_artifact_def)
      then show ?thesis using g by auto
    qed
  qed
qed

section \<open>Properties\<close>

text \<open>
  C40. Storing an artifact touches only what it may. Whatever call fails, the only paths
  that change are missing directories that are created, the staging file beside the
  target, and, on success, the target. On success the target lies below the session's
  directory under a clean name, it was absent or a regular file, it holds exactly the
  artifact, and no path from the base to it was a link or anything but a directory.
\<close>

theorem export_store_confined:
  assumes "store_artifact t tmp ws sync n data s = (r, s')"
  shows "(\<forall>q. xf_nodes s' q = xf_nodes s q \<or> (xf_nodes s q = None \<and> xf_nodes s' q = Some XDir) \<or>
      (\<exists>target. tree_path t n = Inr target \<and>
        (q = path_join (path_dir target) tmp \<or> q = target \<and> r = Inr target))) \<and>
    (\<forall>target. r = Inr target \<longrightarrow>
      tree_path t n = Inr target \<and> xf_nodes s' target = Some (XFile data) \<and>
      (xf_nodes s target = None \<or> (\<exists>b. xf_nodes s target = Some (XFile b))) \<and>
      (is_abs (et_root t) \<longrightarrow> path_elems (et_root t) \<noteq> [] \<longrightarrow> below (path_clean (et_root t)) target) \<and>
      (rel_path (et_base t) (path_dir target) \<noteq> ''.'' \<longrightarrow>
        (\<forall>k. 0 < k \<longrightarrow> k \<le> length (split_on slash (rel_path (et_base t) (path_dir target))) \<longrightarrow>
          xf_nodes s (foldl path_join (et_base t) (take k (split_on slash (rel_path (et_base t) (path_dir target)))))
            \<in> {None, Some XDir})))"
proof (cases "\<exists>e. r = Inl e \<and> grown s s'")
  case True
  then show ?thesis by (auto simp: grown_def)
next
  case False
  then obtain target s1 s2 where t: "tree_path t n = Inr target" and ed: "ensure_dir t (path_dir target) s = (None, s1)"
    and s2: "xf_nodes s2 = xf_nodes s1"
    and free: "xf_nodes s1 target = None \<or> (\<exists>b. xf_nodes s1 target = Some (XFile b))"
    and pb: "publish_artifact tmp ws sync target data s2 = (r, s')"
    using store_cases [OF assms] by blast
  let ?es = "split_on slash (rel_path (et_base t) (path_dir target))"
  have g: "grown s s1" using ensure_dir_grown [OF ed] by simp
  then have g': "xf_nodes s1 q = xf_nodes s q \<or> xf_nodes s q = None \<and> xf_nodes s1 q = Some XDir" for q
    by (simp add: grown_def)
  note pc = publish_cases [OF pb, unfolded s2]
  have changes: "xf_nodes s' q = xf_nodes s q \<or> (xf_nodes s q = None \<and> xf_nodes s' q = Some XDir) \<or>
      (\<exists>target. tree_path t n = Inr target \<and> (q = path_join (path_dir target) tmp \<or> q = target \<and> r = Inr target))" for q
    using pc g' [of q] t by (cases "q = path_join (path_dir target) tmp"; cases "q = target") auto
  have old: "xf_nodes s target = None \<or> (\<exists>b. xf_nodes s target = Some (XFile b))"
    using free g' [of target] by auto
  have dirs: "xf_nodes s (foldl path_join (et_base t) (take k ?es)) \<in> {None, Some XDir}"
    if "rel_path (et_base t) (path_dir target) \<noteq> ''.''" "0 < k" "k \<le> length ?es" for k
    using ensure_dir_grown [OF ed] that g' [of "foldl path_join (et_base t) (take k ?es)"] by auto
  have down: "below (path_clean (et_root t)) target" if "is_abs (et_root t)" "path_elems (et_root t) \<noteq> []"
    using t artifact_name.joined_below [OF _ that] by (auto simp: tree_path_def split: sum.splits)
  show ?thesis using changes pc t old dirs down by auto
qed

definition demo_export :: export_tree where
  "demo_export = \<lparr>et_base = ''/s/export'', et_root = ''/s/export/one''\<rparr>"

definition demo_fs :: xfs where
  "demo_fs = \<lparr>xf_nodes = [''/s/export'' \<mapsto> XDir], xf_faults = []\<rparr>"

lemma demo_store:
  "fst (store_artifact demo_export ''.staging-1'' [Wrote 2] None ''a/./b.png'' ''data'' demo_fs) =
     Inr ''/s/export/one/a/b.png''"
  by code_simp

theorem export_store_confined_witness:
  "xf_nodes (snd (store_artifact demo_export ''.staging-1'' [Wrote 2] None ''a/./b.png'' ''data'' demo_fs))
     ''/s/export/one/a/b.png'' = Some (XFile ''data'') \<and> below ''/s/export/one'' ''/s/export/one/a/b.png''"
proof -
  obtain s' where s: "store_artifact demo_export ''.staging-1'' [Wrote 2] None ''a/./b.png'' ''data'' demo_fs =
      (Inr ''/s/export/one/a/b.png'', s')"
    using demo_store by (metis prod.collapse)
  have root: "et_root demo_export = ''/s/export/one''" by (simp add: demo_export_def)
  have a: "is_abs ''/s/export/one''" "path_elems ''/s/export/one'' = [''s'', ''export'', ''one'']"
    "path_clean ''/s/export/one'' = ''/s/export/one''"
    by code_simp+
  note c = export_store_confined [OF s, THEN conjunct2, THEN spec, THEN mp, OF refl]
  have "xf_nodes s' ''/s/export/one/a/b.png'' = Some (XFile ''data'')" using c by blast
  moreover have "below ''/s/export/one'' ''/s/export/one/a/b.png''"
    using c [THEN conjunct2, THEN conjunct2, THEN conjunct2, THEN conjunct1] a unfolding root by simp
  ultimately show ?thesis unfolding s by simp
qed

end
