(* ===== verification/Capture_Frame.thy ===== *)
theory Capture_Frame
  imports Complex_Main Wire Numbers
begin

text \<open>
  Captured pictures (\<open>internal/capture/format.go\<close> and the digests of \<open>vision.go\<close>): the
  accepted pixel formats, the conversion of a compositor buffer into packed RGBA, the
  digest of a picture and the text form of digests. A byte is a \<open>char\<close>, an index an
  \<open>int\<close> of Go with its wrap-around at 64 bits. An access out of range panics, which is
  the result \<open>None\<close>. SHA-256 and the PNG encoder are parameters.
\<close>

section \<open>Integers of 64 bits\<close>

definition wrap64 :: "int \<Rightarrow> int" where
  "wrap64 i = (i + 2 ^ 63) mod 2 ^ 64 - 2 ^ 63"

lemma wrap64_small: "- (2 ^ 63) \<le> i \<Longrightarrow> i < 2 ^ 63 \<Longrightarrow> wrap64 i = i"
  by (simp add: wrap64_def)

lemma wrap64_nonneg: "0 \<le> i \<Longrightarrow> i < 2 ^ 63 \<Longrightarrow> wrap64 i = i"
  by (rule wrap64_small) simp_all

definition pixel_byte :: "string \<Rightarrow> int \<Rightarrow> char option" where
  "pixel_byte s i = (if 0 \<le> i \<and> i < int (length s) then Some (s ! nat i) else None)"

definition byte_of :: "nat \<Rightarrow> char" where
  "byte_of n = char_of (n mod 256)"

section \<open>Pixel formats\<close>

definition format_argb :: u32 where "format_argb = 0"
definition format_xrgb :: u32 where "format_xrgb = 1"
definition drm_argb :: u32 where "drm_argb = 0x34325241"
definition drm_xrgb :: u32 where "drm_xrgb = 0x34325258"

definition format_string :: "u32 \<Rightarrow> string" where
  "format_string f =
     (if f = format_argb then ''argb8888'' else if f = format_xrgb then ''xrgb8888''
      else ''unknown_format_'' @ dec_nat (unat f))"

definition drm_code :: "u32 \<Rightarrow> u32" where
  "drm_code f = (if f = format_argb then drm_argb else if f = format_xrgb then drm_xrgb else 0)"

definition format_from_drm :: "u32 \<Rightarrow> string + u32" where
  "format_from_drm code =
     (if code = drm_argb then Inr format_argb else if code = drm_xrgb then Inr format_xrgb
      else Inl ''unsupported DRM format 0x%08x'')"

lemma format_drm_roundtrip:
  "format_from_drm (drm_code f) = Inr f \<longleftrightarrow> f = format_argb \<or> f = format_xrgb"
  by (auto simp: format_from_drm_def drm_code_def drm_argb_def drm_xrgb_def
      format_argb_def format_xrgb_def)

section \<open>Pictures\<close>

record rgba =
  im_width :: int
  im_height :: int
  im_pix :: string

definition im_stride :: "rgba \<Rightarrow> int" where
  "im_stride im = 4 * im_width im"

text \<open>\<open>image.NewRGBA\<close> panics when the number of bytes does not fit an \<open>int\<close>.\<close>

definition picture_fits :: "int \<Rightarrow> int \<Rightarrow> bool" where
  "picture_fits w h \<longleftrightarrow> 4 * w * h < 2 ^ 63"

definition swizzle :: "u32 \<Rightarrow> string \<Rightarrow> int \<Rightarrow> string option" where
  "swizzle f px src =
     (case (pixel_byte px src, pixel_byte px (src + 1), pixel_byte px (src + 2), pixel_byte px (src + 3)) of
        (Some blue, Some green, Some red, Some alpha) \<Rightarrow>
          Some [red, green, blue, if f = format_xrgb then byte_of 255 else alpha]
      | _ \<Rightarrow> None)"

fun decode_row :: "u32 \<Rightarrow> string \<Rightarrow> int \<Rightarrow> nat \<Rightarrow> string option" where
  "decode_row f px src 0 = Some []"
| "decode_row f px src (Suc n) =
     (case swizzle f px src of
        None \<Rightarrow> None
      | Some p \<Rightarrow> map_option (\<lambda>r. p @ r) (decode_row f px (wrap64 (src + 4)) n))"

fun decode_rows :: "u32 \<Rightarrow> string \<Rightarrow> int \<Rightarrow> nat \<Rightarrow> int \<Rightarrow> nat \<Rightarrow> string option" where
  "decode_rows f px stride w y 0 = Some []"
| "decode_rows f px stride w y (Suc n) =
     (case decode_row f px (wrap64 (y * stride)) w of
        None \<Rightarrow> None
      | Some r \<Rightarrow> map_option (\<lambda>rs. r @ rs) (decode_rows f px stride w (y + 1) n))"

definition decode_picture :: "u32 \<Rightarrow> int \<Rightarrow> int \<Rightarrow> int \<Rightarrow> string \<Rightarrow> (string + rgba) option" where
  "decode_picture f stride width height px =
     (if f \<noteq> format_argb \<and> f \<noteq> format_xrgb then Some (Inl ''unsupported pixel format %s'')
      else if width \<le> 0 \<or> height \<le> 0 then Some (Inl ''invalid dimensions %dx%d'')
      else
        let row_bytes = wrap64 (width * 4)
        in if stride < row_bytes
           then Some (Inl ''stride %d is smaller than a row of %d pixels (%d bytes)'')
           else if int (length px) < wrap64 (wrap64 (stride * (height - 1)) + row_bytes)
           then Some (Inl ''buffer of %d bytes is too small for %dx%d at stride %d'')
           else if \<not> picture_fits width height then None
           else map_option (\<lambda>pix. Inr \<lparr>im_width = width, im_height = height, im_pix = pix\<rparr>)
                  (decode_rows f px stride (nat width) 0 (nat height)))"

section \<open>The digest of a picture\<close>

definition put_uint32 :: "u32 \<Rightarrow> string" where
  "put_uint32 v =
     [byte_of (unat (drop_bit 24 v)), byte_of (unat (drop_bit 16 v)),
      byte_of (unat (drop_bit 8 v)), byte_of (unat v)]"

definition picture_row :: "rgba \<Rightarrow> nat \<Rightarrow> string" where
  "picture_row im y =
     take (nat (4 * im_width im)) (drop (y * nat (im_stride im)) (im_pix im))"

definition hashed_bytes :: "rgba \<Rightarrow> string" where
  "hashed_bytes im =
     put_uint32 (of_int (im_width im)) @ put_uint32 (of_int (im_height im)) @
     concat (map (picture_row im) [0..<nat (im_height im)])"

definition picture_digest :: "(string \<Rightarrow> string) \<Rightarrow> rgba \<Rightarrow> string" where
  "picture_digest sha im = sha (hashed_bytes im)"

section \<open>The text form of a digest\<close>

definition hex_digit :: "nat \<Rightarrow> char" where
  "hex_digit n = char_of (if n < 10 then 48 + n else 87 + n)"

definition hex_encode :: "string \<Rightarrow> string" where
  "hex_encode s = concat (map (\<lambda>c. [hex_digit (of_char c div 16), hex_digit (of_char c mod 16)]) s)"

definition from_hex :: "char \<Rightarrow> nat option" where
  "from_hex c =
     (let n = of_char c
      in if 48 \<le> n \<and> n \<le> 57 then Some (n - 48)
         else if 97 \<le> n \<and> n \<le> 102 then Some (n - 87)
         else if 65 \<le> n \<and> n \<le> 70 then Some (n - 55)
         else None)"

text \<open>\<open>hex.DecodeString\<close>: either case is read, an odd length is an error.\<close>

fun hex_decode :: "string \<Rightarrow> string option" where
  "hex_decode [] = Some []"
| "hex_decode [c] = None"
| "hex_decode (a # b # s) =
     (case (from_hex a, from_hex b) of
        (Some x, Some y) \<Rightarrow> map_option (\<lambda>r. char_of (x * 16 + y) # r) (hex_decode s)
      | _ \<Rightarrow> None)"

definition digest_prefix :: string where
  "digest_prefix = ''sha256:''"

definition digest_length :: nat where
  "digest_length = 32"

definition parse_digest :: "string \<Rightarrow> string + string" where
  "parse_digest text =
     (let trimmed = trim_space text
      in if \<not> has_prefix trimmed digest_prefix then Inl ''capture: digest %q is not a sha256 digest''
         else case hex_decode (drop (length digest_prefix) trimmed) of
                None \<Rightarrow> Inl ''capture: digest %q is not hexadecimal: %w''
              | Some d \<Rightarrow>
                  if length d \<noteq> digest_length then Inl ''capture: digest %q is %d bytes, want %d''
                  else Inr d)"

definition digest_text :: "string \<Rightarrow> string" where
  "digest_text d = digest_prefix @ hex_encode d"


section \<open>Decoding is the swizzled visible part of the buffer\<close>

definition pixel_of :: "u32 \<Rightarrow> string \<Rightarrow> nat \<Rightarrow> string" where
  "pixel_of f px k =
     [px ! (k + 2), px ! (k + 1), px ! k, if f = format_xrgb then byte_of 255 else px ! (k + 3)]"

definition visible_row :: "u32 \<Rightarrow> nat \<Rightarrow> nat \<Rightarrow> string \<Rightarrow> nat \<Rightarrow> string" where
  "visible_row f stride w px y = concat (map (\<lambda>x. pixel_of f px (y * stride + 4 * x)) [0..<w])"

definition visible_picture :: "u32 \<Rightarrow> int \<Rightarrow> int \<Rightarrow> int \<Rightarrow> string \<Rightarrow> rgba" where
  "visible_picture f stride width height px =
     \<lparr>im_width = width, im_height = height,
      im_pix = concat (map (visible_row f (nat stride) (nat width) px) [0..<nat height])\<rparr>"

lemma swizzle_in_range:
  "k + 3 < length px \<Longrightarrow> swizzle f px (int k) = Some (pixel_of f px k)"
  by (simp add: swizzle_def pixel_byte_def pixel_of_def nat_add_distrib)

lemma decode_row_in_range:
  assumes "k + 4 * n \<le> length px" and "int (length px) < 2 ^ 63"
  shows "decode_row f px (int k) n = Some (concat (map (\<lambda>x. pixel_of f px (k + 4 * x)) [0..<n]))"
  using assms(1)
proof (induction n arbitrary: k)
  case (Suc n)
  have here: "swizzle f px (int k) = Some (pixel_of f px k)"
    using Suc.prems by (intro swizzle_in_range) simp
  have "int (k + 4) < 2 ^ 63" using Suc.prems assms(2) by simp
  then have next_src: "wrap64 (int k + 4) = int (k + 4)" by (simp add: wrap64_small)
  have rest: "decode_row f px (int (k + 4)) n =
      Some (concat (map (\<lambda>x. pixel_of f px (k + 4 + 4 * x)) [0..<n]))"
    using Suc.prems by (intro Suc.IH) simp
  have shift: "map (\<lambda>x. pixel_of f px (k + 4 * x)) [0..<Suc n] =
      pixel_of f px k # map (\<lambda>x. pixel_of f px (k + 4 + 4 * x)) [0..<n]"
    by (simp add: upt_conv_Cons map_Suc_upt [symmetric] algebra_simps del: upt_Suc)
  show ?case
    unfolding shift using here next_src rest by simp
qed simp

lemma decode_rows_in_range:
  assumes "n > 0 \<Longrightarrow> (y + n - 1) * s + 4 * w \<le> length px" and "int (length px) < 2 ^ 63"
  shows "decode_rows f px (int s) w (int y) n = Some (concat (map (visible_row f s w px) [y..<y + n]))"
  using assms(1)
proof (induction n arbitrary: y)
  case (Suc n)
  have top: "(y + n) * s + 4 * w \<le> length px" using Suc.prems by simp
  have "y * s \<le> (y + n) * s" by simp
  then have fits: "y * s + 4 * w \<le> length px" using top by linarith
  then have "y * s \<le> length px" by simp
  then have "int (y * s) < 2 ^ 63" using assms(2) by linarith
  then have "wrap64 (int y * int s) = int (y * s)" unfolding of_nat_mult by (intro wrap64_nonneg) simp_all
  then have row: "decode_row f px (wrap64 (int y * int s)) w = Some (visible_row f s w px y)"
    using fits assms(2) by (simp add: decode_row_in_range visible_row_def del: of_nat_mult)
  have "decode_rows f px (int s) w (int (Suc y)) n =
      Some (concat (map (visible_row f s w px) [Suc y..<Suc y + n]))"
    by (rule Suc.IH) (use top in simp)
  then have rest: "decode_rows f px (int s) w (int y + 1) n =
      Some (concat (map (visible_row f s w px) [Suc y..<Suc y + n]))"
    by (simp add: add.commute)
  show ?case
    using row rest by (simp add: upt_conv_Cons del: upt_Suc)
qed simp

text \<open>
  C35. On every buffer whose size fits an \<open>int\<close>, decoding returns without a panic. It
  refuses an unknown format, an empty picture, a stride shorter than a row and a buffer
  too small for the rows, and otherwise yields the picture whose pixels are the visible
  part of every row with blue and red exchanged, opaque when the format carries no
  alpha; the padding between rows never enters the picture.
\<close>

theorem decode_picture_visible:
  assumes "0 \<le> stride" and "stride * height < 2 ^ 63" and "width < 2 ^ 31"
    and "int (length px) < 2 ^ 63"
  shows "decode_picture f stride width height px =
    Some (if f \<noteq> format_argb \<and> f \<noteq> format_xrgb then Inl ''unsupported pixel format %s''
      else if width \<le> 0 \<or> height \<le> 0 then Inl ''invalid dimensions %dx%d''
      else if stride < 4 * width then Inl ''stride %d is smaller than a row of %d pixels (%d bytes)''
      else if int (length px) < stride * (height - 1) + 4 * width
      then Inl ''buffer of %d bytes is too small for %dx%d at stride %d''
      else Inr (visible_picture f stride width height px))"
proof (cases "0 < width \<and> 0 < height \<and> 4 * width \<le> stride")
  case True
  then have pos: "0 < width" "0 < height" "4 * width \<le> stride" by simp_all
  have "stride * height = stride * (height - 1) + stride" by (simp add: algebra_simps)
  then have sum: "stride * (height - 1) + 4 * width < 2 ^ 63" using assms(2) pos by linarith
  have nonneg: "0 \<le> stride * (height - 1)" using assms(1) pos by simp
  have "4 * width * height \<le> stride * height" using pos by (intro mult_right_mono) auto
  then have fits: "picture_fits width height" unfolding picture_fits_def using assms(2) by linarith
  have "wrap64 (4 * width) = 4 * width"
    by (intro wrap64_nonneg) (use pos assms(3) in simp_all)
  moreover have "wrap64 (stride * (height - 1)) = stride * (height - 1)"
    by (intro wrap64_nonneg) (use sum nonneg pos in linarith)+
  moreover have "wrap64 (stride * (height - 1) + 4 * width) = stride * (height - 1) + 4 * width"
    by (intro wrap64_nonneg) (use sum nonneg pos in linarith)+
  ultimately have wraps: "wrap64 (width * 4) = 4 * width"
    "wrap64 (stride * (height - 1)) = stride * (height - 1)"
    "wrap64 (stride * (height - 1) + 4 * width) = stride * (height - 1) + 4 * width"
    by (simp_all add: mult.commute)
  have rows: "decode_rows f px stride (nat width) 0 (nat height) =
      Some (im_pix (visible_picture f stride width height px))"
    if "stride * (height - 1) + 4 * width \<le> int (length px)"
  proof -
    have "0 + nat height - 1 = nat (height - 1)" by simp
    then have "int ((0 + nat height - 1) * nat stride + 4 * nat width) = stride * (height - 1) + 4 * width"
      using pos assms(1) by simp
    then have "(0 + nat height - 1) * nat stride + 4 * nat width \<le> length px" using that by linarith
    then show ?thesis
      using decode_rows_in_range [of "nat height" 0 "nat stride" "nat width" px f] assms(1,4)
      by (simp add: visible_picture_def)
  qed
  show ?thesis
    using pos wraps fits rows
    by (auto simp: decode_picture_def Let_def visible_picture_def not_less)
next
  case False
  have "wrap64 (width * 4) = 4 * width" if "0 < width" using that assms(3) by (simp add: wrap64_small)
  with False show ?thesis by (auto simp: decode_picture_def Let_def)
qed


definition demo_buffer :: string where
  "demo_buffer = ''bgraBGRA..b2g2B3G3..''"

theorem decode_picture_visible_witness:
  "decode_picture format_xrgb 10 2 2 demo_buffer =
     Some (Inr \<lparr>im_width = 2, im_height = 2,
       im_pix = ''rgb'' @ [byte_of 255] @ ''RGB'' @ [byte_of 255] @
                ''g2b'' @ [byte_of 255] @ ''G3B'' @ [byte_of 255]\<rparr>) \<and>
   decode_picture format_xrgb 10 2 3 demo_buffer =
     Some (Inl ''buffer of %d bytes is too small for %dx%d at stride %d'')"
  using decode_picture_visible [of 10 2 2 demo_buffer format_xrgb]
    decode_picture_visible [of 10 3 2 demo_buffer format_xrgb]
  by (simp add: visible_picture_def visible_row_def pixel_of_def format_xrgb_def format_argb_def
      demo_buffer_def upt_rec)

text \<open>The digest covers the dimensions and the visible pixels, and nothing else.\<close>

lemma concat_map_take_drop:
  assumes "\<forall>y < n. length (r y) = k" and "y < n"
  shows "take k (drop (y * k) (concat (map r [0..<n]))) = r y"
  using assms
proof (induction y arbitrary: r n)
  case 0
  then obtain m where "n = Suc m" by (cases n) auto
  with 0 show ?case by (simp add: upt_conv_Cons del: upt_Suc)
next
  case (Suc y)
  then obtain m where n: "n = Suc m" by (cases n) auto
  have "take k (drop (y * k) (concat (map (r \<circ> Suc) [0..<m]))) = (r \<circ> Suc) y"
    using Suc.prems n by (intro Suc.IH) auto
  moreover have "drop (Suc y * k) (concat (map r [0..<n])) = drop (y * k) (concat (map (r \<circ> Suc) [0..<m]))"
    using Suc.prems n by (simp add: upt_conv_Cons map_Suc_upt [symmetric] add.commute [of k] del: upt_Suc)
  ultimately show ?case by simp
qed

lemma length_visible_row: "length (visible_row f s w px y) = 4 * w"
  by (induction w) (simp_all add: visible_row_def pixel_of_def)

lemma picture_row_visible:
  assumes "0 \<le> width" and "y < nat height"
  shows "picture_row (visible_picture f stride width height px) y =
    visible_row f (nat stride) (nat width) px y"
proof -
  have "nat (4 * width) = 4 * nat width" using assms(1) by simp
  then show ?thesis
    using concat_map_take_drop [of "nat height" "visible_row f (nat stride) (nat width) px" "4 * nat width" y]
      length_visible_row assms(2)
    by (simp add: picture_row_def im_stride_def visible_picture_def)
qed

lemma digest_of_visible:
  assumes "0 \<le> width"
  shows "hashed_bytes (visible_picture f stride width height px) =
    put_uint32 (of_int width) @ put_uint32 (of_int height) @
    im_pix (visible_picture f stride width height px)"
proof -
  have rows: "map (picture_row (visible_picture f stride width height px)) [0..<nat height] =
      map (visible_row f (nat stride) (nat width) px) [0..<nat height]"
    using assms by (intro map_cong refl picture_row_visible) auto
  have dims: "im_width (visible_picture f stride width height px) = width"
    "im_height (visible_picture f stride width height px) = height"
    "im_pix (visible_picture f stride width height px) =
      concat (map (visible_row f (nat stride) (nat width) px) [0..<nat height])"
    by (simp_all add: visible_picture_def)
  show ?thesis unfolding hashed_bytes_def dims rows ..
qed

section \<open>Digests survive their text form\<close>

lemma hex_digit_value: "n < 16 \<Longrightarrow> of_char (hex_digit n) = (if n < 10 then 48 + n else 87 + n :: nat)"
  unfolding hex_digit_def of_char_of by simp

lemma high_nibble: "of_char (c::char) div 16 < (16::nat)"
  by (rule less_mult_imp_div_less) simp

lemma from_hex_digit: "n < 16 \<Longrightarrow> from_hex (hex_digit n) = Some n"
  by (simp add: from_hex_def hex_digit_value Let_def)

lemma hex_decode_encode: "hex_decode (hex_encode s) = Some s"
proof (induction s)
  case (Cons c s)
  have "char_of (of_char c div 16 * 16 + of_char c mod 16 :: nat) = c" by simp
  then show ?case using Cons by (simp add: hex_encode_def from_hex_digit high_nibble)
qed (simp add: hex_encode_def)

lemma hex_digit_not_space: "n < 16 \<Longrightarrow> \<not> is_space (hex_digit n)"
  by (simp add: is_space_def hex_digit_value)

lemma hex_encode_not_space: "c \<in> set (hex_encode s) \<Longrightarrow> \<not> is_space c"
proof (induction s)
  case (Cons a s)
  then show ?case by (auto simp: hex_encode_def hex_digit_not_space high_nibble)
qed (simp add: hex_encode_def)

lemma trim_space_none:
  assumes "\<forall>c \<in> set s. \<not> is_space c"
  shows "trim_space s = s"
proof -
  have "dropWhile is_space t = t" if "set t \<subseteq> set s" for t
    using that assms by (simp add: dropWhile_eq_self_iff) (metis hd_in_set subsetD)
  then show ?thesis by (simp add: trim_space_def)
qed

lemma digest_text_roundtrip:
  assumes "length d = digest_length"
  shows "parse_digest (digest_text d) = Inr d"
proof -
  have "\<forall>c \<in> set (digest_text d). \<not> is_space c"
    using hex_encode_not_space [of _ d] by (auto simp: digest_text_def digest_prefix_def is_space_def)
  then have "trim_space (digest_text d) = digest_text d" by (rule trim_space_none)
  then show ?thesis
    using assms by (simp add: parse_digest_def Let_def digest_text_def hex_decode_encode)
qed

lemma parse_digest_length: "parse_digest t = Inr d \<Longrightarrow> length d = digest_length"
  by (auto simp: parse_digest_def Let_def split: if_splits option.splits)

end
