(* ===== verification/Capture_Wait.thy ===== *)
theory Capture_Wait
  imports Complex_Main Capture_Frame
begin

text \<open>
  The waits (\<open>internal/capture/stability.go\<close>, with the clock, the samples and the probe
  interval of \<open>vision.go\<close> and \<open>waitUntil\<close> of \<open>burst.go\<close>). A time is a number of
  nanoseconds. The clock, the capturer and the observer are values of records of
  functions over a world, as the code takes them through interfaces; \<open>ck_await\<close> is the
  \<open>select\<close> between a timer and the end of the context. The three waits share the shape
  of their loop, which is \<open>poll_loop\<close>; it may not end, so it is a partial function, and
  that it does end over a clock that keeps time is a theorem. The list of probes a
  stable wait returns besides its result is the record of what it did: the code keeps
  only the last sample.
\<close>

section \<open>Clocks\<close>

record 'w clock =
  ck_now :: "'w \<Rightarrow> int \<times> 'w"
  ck_await :: "int \<Rightarrow> 'w \<Rightarrow> string option \<times> 'w"

partial_function (option) wait_until :: "'w clock \<Rightarrow> int \<Rightarrow> 'w \<Rightarrow> (string option \<times> 'w) option" where
  "wait_until ck deadline w =
     (case ck_now ck w of
        (now, w1) \<Rightarrow>
          if \<not> now < deadline then Some (None, w1)
          else (case ck_await ck (deadline - now) w1 of
                  (None, w2) \<Rightarrow> wait_until ck deadline w2
                | (Some err, w2) \<Rightarrow> Some (Some err, w2)))"

declare wait_until.simps [code]

definition millisecond :: int where "millisecond = 1000000"
definition wait_poll_interval :: int where "wait_poll_interval = 100 * millisecond"
definition probe_interval_cap :: int where "probe_interval_cap = 100 * millisecond"
definition probe_interval_floor :: int where "probe_interval_floor = 16 * millisecond"

lemmas interval_defs [go_defs] = millisecond_def wait_poll_interval_def probe_interval_cap_def
  probe_interval_floor_def

text \<open>A \<open>time.Duration\<close> divided by two truncates towards zero.\<close>

definition half :: "int \<Rightarrow> int" where
  "half d = (if d < 0 then - ((- d) div 2) else d div 2)"

definition probe_interval :: "int \<Rightarrow> int" where
  "probe_interval stable_for =
     (let i1 = half stable_for;
          i2 = (if i1 > probe_interval_cap then probe_interval_cap else i1)
      in if i2 < probe_interval_floor then probe_interval_floor else i2)"

definition earlier :: "int \<Rightarrow> int \<Rightarrow> int" where
  "earlier a b = (if b < a then b else a)"

section \<open>Samples and results\<close>

datatype status = StatusCaptured | StatusDeduplicated | StatusMissed | StatusFailed

fun status_string :: "status \<Rightarrow> string" where
  "status_string StatusCaptured = ''captured''"
| "status_string StatusDeduplicated = ''deduplicated''"
| "status_string StatusMissed = ''missed''"
| "status_string StatusFailed = ''failed''"

record sample =
  sm_scheduled :: int
  sm_requested :: int
  sm_completed :: int
  sm_request_id :: u64
  sm_frame_seq :: u64
  sm_digest :: string
  sm_status :: status
  sm_path :: string
  sm_revision :: u64
  sm_error :: string

definition zero_digest :: string where
  "zero_digest = replicate digest_length (byte_of 0)"

record captured =
  cp_frame :: frame_result
  cp_revision :: u64

definition sample_of :: "captured \<Rightarrow> int \<Rightarrow> int \<Rightarrow> int \<Rightarrow> status \<Rightarrow> sample" where
  "sample_of cap scheduled requested completed st =
     \<lparr>sm_scheduled = scheduled, sm_requested = requested, sm_completed = completed,
      sm_request_id = fr_capture_request_id (cp_frame cap), sm_frame_seq = fr_sequence (cp_frame cap),
      sm_digest = (case parse_digest (fr_digest (cp_frame cap)) of Inr d \<Rightarrow> d | Inl _ \<Rightarrow> zero_digest),
      sm_status = st, sm_path = [], sm_revision = cp_revision cap,
      sm_error = (case parse_digest (fr_digest (cp_frame cap)) of Inr _ \<Rightarrow> [] | Inl err \<Rightarrow> err)\<rparr>"

record wait_result =
  wr_kind :: string
  wr_duration :: int
  wr_probes :: nat
  wr_observations :: nat
  wr_revision :: u64
  wr_last :: "sample option"
  wr_state :: "wstate option"

definition no_result :: "string \<Rightarrow> wait_result" where
  "no_result kind =
     \<lparr>wr_kind = kind, wr_duration = 0, wr_probes = 0, wr_observations = 0, wr_revision = 0,
      wr_last = None, wr_state = None\<rparr>"

definition kind_stable :: string where "kind_stable = ''stable''"
definition kind_window_count :: string where "kind_window_count = ''window_count''"
definition kind_exited :: string where "kind_exited = ''exited''"
definition kind_new_frame :: string where "kind_new_frame = ''new_frame''"
definition kind_window_state :: string where "kind_window_state = ''window_state''"

definition operation_wait :: string where "operation_wait = ''capture.wait''"

section \<open>What a wait runs against\<close>

record 'w observer =
  ob_snapshot :: "'w \<Rightarrow> (goerr + wstate) \<times> 'w"
  ob_exited :: "int \<Rightarrow> 'w \<Rightarrow> (goerr + bool \<times> int) \<times> 'w"

type_synonym 'w capturer = "'w \<Rightarrow> (goerr + captured) \<times> 'w"

record 'w wait_deps =
  wd_clock :: "'w clock option"
  wd_capturer :: "'w capturer option"
  wd_observer :: "'w observer option"

definition check_wait_deps :: "'w wait_deps \<Rightarrow> bool \<Rightarrow> bool \<Rightarrow> goerr option" where
  "check_wait_deps deps need_capturer need_observer =
     (if wd_clock deps = None then Some (usage operation_wait ''a clock is required'')
      else if need_capturer \<and> wd_capturer deps = None
      then Some (usage operation_wait ''a capturer is required'')
      else if need_observer \<and> wd_observer deps = None
      then Some (usage operation_wait ''an observer is required'')
      else None)"

definition check_wait_timeout :: "int \<Rightarrow> goerr option" where
  "check_wait_timeout timeout =
     (if timeout \<le> 0 then Some (usage operation_wait ''timeout must be positive, got %s'') else None)"

definition timeout_failure :: "string \<Rightarrow> wait_result \<Rightarrow> goerr" where
  "timeout_failure kind out =
     Typed (with_details
       ([(''kind'', kind), (''revision'', dec_nat (unat (wr_revision out))),
         (''probes'', dec_nat (wr_probes out)), (''observations'', dec_nat (wr_observations out))] @
        (case wr_last out of
           None \<Rightarrow> []
         | Some s \<Rightarrow> [(''digest'', digest_text (sm_digest s)),
                     (''frame_sequence'', dec_nat (unat (sm_frame_seq s))),
                     (''request_id'', dec_nat (unat (sm_request_id s)))]))
       (new_failure WaitTimeout operation_wait ''%s wait timed out after %s''))"

section \<open>The loop the waits share\<close>

text \<open>
  \<open>ended d err s\<close> and \<open>expired s\<close> are the results when the context or the time runs out;
  \<open>body\<close> is one turn, given the scheduled and the requested offset: it either ends the
  wait or gives the state of the next turn.
\<close>

partial_function (option) poll_loop ::
  "'w clock \<Rightarrow> int \<Rightarrow> int \<Rightarrow> int \<Rightarrow> (int \<Rightarrow> string \<Rightarrow> 's \<Rightarrow> 'r) \<Rightarrow> ('s \<Rightarrow> 'r) \<Rightarrow>
   (int \<Rightarrow> int \<Rightarrow> 's \<Rightarrow> 'w \<Rightarrow> ('s + 'r) \<times> 'w) \<Rightarrow> nat \<Rightarrow> 's \<Rightarrow> 'w \<Rightarrow> ('r \<times> 'w) option" where
  "poll_loop ck interval start deadline ended expired body n s w =
     (case wait_until ck (earlier (start + int n * interval) deadline) w of
        None \<Rightarrow> None
      | Some (Some err, w1) \<Rightarrow>
          (case ck_now ck w1 of (t, w2) \<Rightarrow> Some (ended (t - start) err s, w2))
      | Some (None, w1) \<Rightarrow>
          (case ck_now ck w1 of
             (now, w2) \<Rightarrow>
               if \<not> now < deadline
               then (case ck_now ck w2 of (t, w3) \<Rightarrow> Some (expired s, w3))
               else (case body (int n * interval) (now - start) s w2 of
                       (Inl s', w3) \<Rightarrow>
                         poll_loop ck interval start deadline ended expired body (Suc n) s' w3
                     | (Inr r, w3) \<Rightarrow> Some (r, w3))))"

declare poll_loop.simps [code]

section \<open>Waiting for the picture to hold still\<close>

record comparable =
  cm_digest :: string
  cm_width :: int
  cm_height :: int
  cm_format :: string
  cm_revision :: u64

record stable_run =
  sr_current :: "comparable option"
  sr_since :: int
  sr_identical :: nat
  sr_completed :: "int option"
  sr_out :: wait_result

record probe =
  pr_scheduled :: int
  pr_requested :: int
  pr_completed :: int
  pr_answer :: "goerr + captured"

definition run_reset :: "stable_run \<Rightarrow> stable_run" where
  "run_reset r =
     r\<lparr>sr_current := None, sr_identical := 0, sr_out := (sr_out r)\<lparr>wr_observations := 0\<rparr>\<rparr>"

definition note_missed :: "int \<Rightarrow> stable_run \<Rightarrow> stable_run" where
  "note_missed scheduled r =
     (case sr_completed r of
        Some t \<Rightarrow> if t > scheduled then run_reset r else r
      | None \<Rightarrow> r)"

definition note_probe :: "int \<Rightarrow> stable_run \<Rightarrow> stable_run" where
  "note_probe completed r =
     r\<lparr>sr_completed := Some completed,
       sr_out := (sr_out r)\<lparr>wr_probes := Suc (wr_probes (sr_out r))\<rparr>\<rparr>"

definition comparable_frame :: "captured \<Rightarrow> string \<Rightarrow> comparable" where
  "comparable_frame cap d =
     \<lparr>cm_digest = d, cm_width = fr_width (cp_frame cap), cm_height = fr_height (cp_frame cap),
      cm_format = fr_format (cp_frame cap), cm_revision = cp_revision cap\<rparr>"

definition note_answer :: "int \<Rightarrow> probe \<Rightarrow> stable_run \<Rightarrow> stable_run \<times> bool" where
  "note_answer stable_for pb r =
     (case pr_answer pb of
        Inl _ \<Rightarrow> (run_reset r, False)
      | Inr cap \<Rightarrow>
          let r1 = r\<lparr>sr_out := (sr_out r)
                \<lparr>wr_last := Some (sample_of cap (pr_scheduled pb) (pr_requested pb) (pr_completed pb)
                              StatusCaptured),
                 wr_revision := cp_revision cap\<rparr>\<rparr>
          in case parse_digest (fr_digest (cp_frame cap)) of
               Inl _ \<Rightarrow> (run_reset r1, False)
             | Inr d \<Rightarrow>
                 let frame = comparable_frame cap d
                 in if sr_current r1 = Some frame
                    then let n = Suc (sr_identical r1);
                             r2 = r1\<lparr>sr_identical := n, sr_out := (sr_out r1)\<lparr>wr_observations := n\<rparr>\<rparr>
                         in if 2 \<le> n \<and> pr_requested pb - sr_since r1 \<ge> stable_for
                            then (r2\<lparr>sr_out := (sr_out r2)\<lparr>wr_duration := pr_completed pb\<rparr>\<rparr>, True)
                            else (r2, False)
                    else (r1\<lparr>sr_current := Some frame, sr_since := pr_requested pb, sr_identical := 1,
                             sr_out := (sr_out r1)\<lparr>wr_observations := 1\<rparr>\<rparr>, False))"

definition stable_body ::
  "'w clock \<Rightarrow> 'w capturer \<Rightarrow> ('w \<Rightarrow> string option) \<Rightarrow> int \<Rightarrow> int \<Rightarrow> int \<Rightarrow> int \<Rightarrow>
   stable_run \<times> probe list \<Rightarrow> 'w \<Rightarrow>
   ((stable_run \<times> probe list) + (wait_result \<times> goerr option \<times> probe list)) \<times> 'w" where
  "stable_body ck capture ctx_err start stable_for scheduled requested st w =
     (case st of
        (r, seen) \<Rightarrow>
          let r1 = note_missed scheduled r;
              (answer, w1) = capture w;
              (t, w2) = ck_now ck w1;
              r2 = note_probe (t - start) r1;
              pb = \<lparr>pr_scheduled = scheduled, pr_requested = requested, pr_completed = t - start,
                    pr_answer = answer\<rparr>
          in case (answer, ctx_err w2) of
               (Inl _, Some err) \<Rightarrow>
                 (Inr ((sr_out r2)\<lparr>wr_duration := t - start\<rparr>, Some (PlainErr err), seen @ [pb]), w2)
             | _ \<Rightarrow>
                 (case note_answer stable_for pb r2 of
                    (r3, True) \<Rightarrow> (Inr (sr_out r3, None, seen @ [pb]), w2)
                  | (r3, False) \<Rightarrow> (Inl (r3, seen @ [pb]), w2)))"

definition fresh_run :: "string \<Rightarrow> stable_run" where
  "fresh_run kind =
     \<lparr>sr_current = None, sr_since = 0, sr_identical = 0, sr_completed = None,
      sr_out = no_result kind\<rparr>"

definition empty_result :: wait_result where
  "empty_result = no_result []"

definition wait_stable ::
  "'w wait_deps \<Rightarrow> ('w \<Rightarrow> string option) \<Rightarrow> int \<Rightarrow> int \<Rightarrow> 'w \<Rightarrow>
   ((wait_result \<times> goerr option \<times> probe list) \<times> 'w) option" where
  "wait_stable deps ctx_err stable_for timeout w =
     (case check_wait_deps deps True False of
        Some err \<Rightarrow> Some ((empty_result, Some err, []), w)
      | None \<Rightarrow>
          (case check_wait_timeout timeout of
             Some err \<Rightarrow> Some ((empty_result, Some err, []), w)
           | None \<Rightarrow>
               if stable_for \<le> 0
               then Some ((empty_result,
                           Some (usage operation_wait ''stable duration must be positive, got %s''), []), w)
               else
                 (case (wd_clock deps, wd_capturer deps) of
                    (Some ck, Some capture) \<Rightarrow>
                      (case ck_now ck w of
                         (start, w1) \<Rightarrow>
                           poll_loop ck (probe_interval stable_for) start (start + timeout)
                             (\<lambda>d err (r, seen). ((sr_out r)\<lparr>wr_duration := d\<rparr>, Some (PlainErr err), seen))
                             (\<lambda>(r, seen). (sr_out r, Some (timeout_failure kind_stable (sr_out r)), seen))
                             (stable_body ck capture ctx_err start stable_for)
                             0 (fresh_run kind_stable, []) w1)
                  | _ \<Rightarrow> None)))"


section \<open>Waiting for a new frame\<close>

definition new_frame_body ::
  "'w clock \<Rightarrow> 'w capturer \<Rightarrow> ('w \<Rightarrow> string option) \<Rightarrow> int \<Rightarrow> u64 \<Rightarrow> int \<Rightarrow> int \<Rightarrow>
   wait_result \<Rightarrow> 'w \<Rightarrow> (wait_result + (wait_result \<times> goerr option)) \<times> 'w" where
  "new_frame_body ck capture ctx_err start after scheduled requested out w =
     (let (answer, w1) = capture w;
          out1 = out\<lparr>wr_probes := Suc (wr_probes out)\<rparr>;
          (t, w2) = ck_now ck w1
      in case answer of
           Inl _ \<Rightarrow>
             (case ctx_err w2 of
                Some err \<Rightarrow> (Inr (out1\<lparr>wr_duration := t - start\<rparr>, Some (PlainErr err)), w2)
              | None \<Rightarrow> (Inl out1, w2))
         | Inr cap \<Rightarrow>
             let out2 = out1\<lparr>wr_last := Some (sample_of cap requested requested (t - start) StatusCaptured),
                             wr_revision := cp_revision cap\<rparr>
             in if fr_sequence (cp_frame cap) > after
                then (Inr (out2\<lparr>wr_duration := t - start\<rparr>, None), w2)
                else (Inl out2, w2))"

definition wait_new_frame ::
  "'w wait_deps \<Rightarrow> ('w \<Rightarrow> string option) \<Rightarrow> u64 \<Rightarrow> int \<Rightarrow> 'w \<Rightarrow>
   ((wait_result \<times> goerr option) \<times> 'w) option" where
  "wait_new_frame deps ctx_err after timeout w =
     (case check_wait_deps deps True False of
        Some err \<Rightarrow> Some ((empty_result, Some err), w)
      | None \<Rightarrow>
          (case check_wait_timeout timeout of
             Some err \<Rightarrow> Some ((empty_result, Some err), w)
           | None \<Rightarrow>
               (case (wd_clock deps, wd_capturer deps) of
                  (Some ck, Some capture) \<Rightarrow>
                    (case ck_now ck w of
                       (start, w1) \<Rightarrow>
                         poll_loop ck wait_poll_interval start (start + timeout)
                           (\<lambda>d err out. (out\<lparr>wr_duration := d\<rparr>, Some (PlainErr err)))
                           (\<lambda>out. (out, Some (timeout_failure kind_new_frame out)))
                           (new_frame_body ck capture ctx_err start after)
                           0 (no_result kind_new_frame) w1)
                | _ \<Rightarrow> None)))"

section \<open>Waiting for the session state\<close>

type_synonym 'w observation = "wait_result \<Rightarrow> 'w \<Rightarrow> (wait_result \<times> (goerr + bool)) \<times> 'w"

definition observe_body ::
  "'w clock \<Rightarrow> 'w observation \<Rightarrow> ('w \<Rightarrow> string option) \<Rightarrow> int \<Rightarrow> int \<Rightarrow> int \<Rightarrow>
   wait_result \<Rightarrow> 'w \<Rightarrow> (wait_result + (wait_result \<times> goerr option)) \<times> 'w" where
  "observe_body ck observe ctx_err start scheduled requested out w =
     (case observe (out\<lparr>wr_observations := Suc (wr_observations out)\<rparr>) w of
        ((out1, Inl _), w1) \<Rightarrow>
          (case ctx_err w1 of
             Some err \<Rightarrow>
               (case ck_now ck w1 of
                  (t, w2) \<Rightarrow> (Inr (out1\<lparr>wr_duration := t - start\<rparr>, Some (PlainErr err)), w2))
           | None \<Rightarrow> (Inl out1, w1))
      | ((out1, Inr True), w1) \<Rightarrow>
          (case ck_now ck w1 of (t, w2) \<Rightarrow> (Inr (out1\<lparr>wr_duration := t - start\<rparr>, None), w2))
      | ((out1, Inr False), w1) \<Rightarrow> (Inl out1, w1))"

definition wait_observations ::
  "string \<Rightarrow> 'w wait_deps \<Rightarrow> ('w \<Rightarrow> string option) \<Rightarrow> ('w observer \<Rightarrow> 'w observation) \<Rightarrow> int \<Rightarrow> 'w \<Rightarrow>
   ((wait_result \<times> goerr option) \<times> 'w) option" where
  "wait_observations kind deps ctx_err observe timeout w =
     (case check_wait_deps deps False True of
        Some err \<Rightarrow> Some ((empty_result, Some err), w)
      | None \<Rightarrow>
          (case check_wait_timeout timeout of
             Some err \<Rightarrow> Some ((empty_result, Some err), w)
           | None \<Rightarrow>
               (case (wd_clock deps, wd_observer deps) of
                  (Some ck, Some ob) \<Rightarrow>
                    (case ck_now ck w of
                       (start, w1) \<Rightarrow>
                         poll_loop ck wait_poll_interval start (start + timeout)
                           (\<lambda>d err out. (out\<lparr>wr_duration := d\<rparr>, Some (PlainErr err)))
                           (\<lambda>out. (out, Some (timeout_failure kind out)))
                           (observe_body ck (observe ob) ctx_err start)
                           0 (no_result kind) w1)
                | _ \<Rightarrow> None)))"

definition observe_count :: "int \<Rightarrow> 'w observer \<Rightarrow> 'w observation" where
  "observe_count want ob out w =
     (case ob_snapshot ob w of
        (Inl err, w1) \<Rightarrow> ((out, Inl err), w1)
      | (Inr st, w1) \<Rightarrow>
          ((out\<lparr>wr_revision := ws_revision st, wr_state := Some st\<rparr>,
            Inr (int (length (ws_toplevels st)) = want)), w1))"

definition wait_window_count where
  "wait_window_count deps ctx_err want timeout w =
     wait_observations kind_window_count deps ctx_err (observe_count want) timeout w"

definition observe_exited :: "int \<Rightarrow> 'w observer \<Rightarrow> 'w observation" where
  "observe_exited since ob out w =
     (case ob_exited ob since w of
        (Inl err, w1) \<Rightarrow> ((out, Inl err), w1)
      | (Inr (exited, _), w1) \<Rightarrow> ((out, Inr exited), w1))"

text \<open>The clock is read before it is checked, so a wait without one panics: \<open>None\<close>.\<close>

definition wait_exited where
  "wait_exited deps ctx_err timeout w =
     (case wd_clock deps of
        None \<Rightarrow> None
      | Some ck \<Rightarrow>
          (case ck_now ck w of
             (since, w1) \<Rightarrow> wait_observations kind_exited deps ctx_err (observe_exited since) timeout w1))"

record window_want =
  ww_handle :: string
  ww_width :: u32
  ww_height :: u32
  ww_state :: "u32 option"

definition window_matches :: "toplevel \<Rightarrow> window_want \<Rightarrow> bool" where
  "window_matches win want =
     (if ww_handle want \<noteq> [] \<and> tl_handle win \<noteq> ww_handle want then False
      else if ww_width want \<noteq> 0 \<and> tl_width win \<noteq> ww_width want then False
      else if ww_height want \<noteq> 0 \<and> tl_height win \<noteq> ww_height want then False
      else (case ww_state want of Some v \<Rightarrow> tl_state win = v | None \<Rightarrow> True))"

definition observe_window :: "window_want \<Rightarrow> 'w observer \<Rightarrow> 'w observation" where
  "observe_window want ob out w =
     (case ob_snapshot ob w of
        (Inl err, w1) \<Rightarrow> ((out, Inl err), w1)
      | (Inr st, w1) \<Rightarrow>
          ((out\<lparr>wr_revision := ws_revision st, wr_state := Some st\<rparr>,
            Inr (list_ex (\<lambda>win. window_matches win want) (ws_toplevels st))), w1))"

definition wait_window_state where
  "wait_window_state deps ctx_err want timeout w =
     wait_observations kind_window_state deps ctx_err (observe_window want) timeout w"

section \<open>A clock that keeps time\<close>

text \<open>
  \<open>time\<close> is the reading of the world's monotonic clock. Reading the clock returns it,
  time never runs backwards, and a timer fires no earlier than asked.
\<close>

locale steady_clock =
  fixes ck :: "'w clock" and time :: "'w \<Rightarrow> int"
  assumes now_reads: "ck_now ck w = (t, w') \<Longrightarrow> t = time w' \<and> time w \<le> time w'"
    and await_fires: "ck_await ck d w = (None, w') \<Longrightarrow> time w + d \<le> time w'"
    and await_steady: "ck_await ck d w = (r, w') \<Longrightarrow> time w \<le> time w'"
begin

lemma wait_until_returns:
  "\<exists>r w'. wait_until ck deadline w = Some (r, w') \<and> time w \<le> time w' \<and> (r = None \<longrightarrow> deadline \<le> time w')"
proof -
  obtain now w1 where now: "ck_now ck w = (now, w1)" by fastforce
  then have t1: "now = time w1" "time w \<le> time w1" using now_reads by auto
  obtain a w2 where await: "ck_await ck (deadline - now) w1 = (a, w2)" by fastforce
  obtain now2 w3 where now2: "ck_now ck w2 = (now2, w3)" by fastforce
  then have t3: "now2 = time w3" "time w2 \<le> time w3" using now_reads by auto
  consider "\<not> now < deadline" | "now < deadline" "a = None" | err where "now < deadline" "a = Some err"
    by (cases a) auto
  then show ?thesis
  proof cases
    case 1
    then show ?thesis using now t1 by (subst wait_until.simps) simp
  next
    case 2
    then have late: "deadline \<le> time w2" using await_fires [of "deadline - now" w1 w2] await t1 by simp
    have "wait_until ck deadline w2 = Some (None, w3)"
      using now2 t3 late by (subst wait_until.simps) simp
    then show ?thesis
      using now await 2 late t1 t3 by (subst wait_until.simps) (auto split: option.splits)
  next
    case 3
    then show ?thesis
      using now await t1 await_steady [OF await] by (subst wait_until.simps) auto
  qed
qed

lemma poll_loop_returns:
  assumes "deadline \<le> start + int (n + k) * interval"
  shows "\<exists>r w'. poll_loop ck interval start deadline ended expired body n s w = Some (r, w')"
  using assms
proof (induction k arbitrary: n s w)
  case 0
  obtain r w1 where wt: "wait_until ck (earlier (start + int n * interval) deadline) w = Some (r, w1)"
    "r = None \<longrightarrow> deadline \<le> time w1"
    using wait_until_returns [of "earlier (start + int n * interval) deadline" w] 0
    by (auto simp: earlier_def split: if_splits)
  obtain t w2 where now: "ck_now ck w1 = (t, w2)" by fastforce
  have "\<not> t < deadline" if "r = None" using wt that now_reads [OF now] by simp
  then show ?case
    using wt now by (subst poll_loop.simps) (auto split: option.splits prod.splits)
next
  case (Suc k)
  obtain r w1 where wt: "wait_until ck (earlier (start + int n * interval) deadline) w = Some (r, w1)"
    using wait_until_returns by blast
  obtain t w2 where now: "ck_now ck w1 = (t, w2)" by fastforce
  have "\<exists>q w'. poll_loop ck interval start deadline ended expired body (Suc n) s' v = Some (q, w')" for s' v
    using Suc.IH [of "Suc n" s' v] Suc.prems by auto
  then show ?case
    using wt now by (subst poll_loop.simps) (auto split: option.splits prod.splits sum.splits)
qed

end


text \<open>
  The rule for the shared loop: \<open>I\<close> holds before every turn, \<open>R\<close> is what the schedule
  gives of a turn's number and requested offset, \<open>Q\<close> holds of every way the loop ends.
\<close>

lemma poll_loop_rule:
  assumes "poll_loop ck interval start deadline ended expired body n s w = Some (r, w')" and "I n s"
    and "\<And>n w w1 w2 now. wait_until ck (earlier (start + int n * interval) deadline) w = Some (None, w1) \<Longrightarrow>
      ck_now ck w1 = (now, w2) \<Longrightarrow> now < deadline \<Longrightarrow> R n (now - start)"
    and "\<And>n rq s w s' w'. I n s \<Longrightarrow> R n rq \<Longrightarrow>
      body (int n * interval) rq s w = (Inl s', w') \<Longrightarrow> I (Suc n) s'"
    and "\<And>n rq s w q w'. I n s \<Longrightarrow> R n rq \<Longrightarrow> body (int n * interval) rq s w = (Inr q, w') \<Longrightarrow> Q q"
    and "\<And>n d err s. I n s \<Longrightarrow> Q (ended d err s)"
    and "\<And>n s. I n s \<Longrightarrow> Q (expired s)"
  shows "Q r"
proof -
  let ?fixed = "(ck, interval, start, deadline, ended, expired, body)"
  have "(ck, interval, start, deadline, ended, expired, body) = ?fixed \<longrightarrow> I n s \<longrightarrow> Q (fst (r, w'))"
  proof (rule poll_loop.raw_induct [OF _ assms(1), where
      P = "\<lambda>a b c d e f g n s w y. (a, b, c, d, e, f, g) = ?fixed \<longrightarrow> I n s \<longrightarrow> Q (fst y)"], intro impI)
    fix loop a b c d e f g n s w y
    assume ih: "\<And>a b c d e f g n s w y. loop a b c d e f g n s w = Some y \<Longrightarrow>
        (a, b, c, d, e, f, g) = ?fixed \<longrightarrow> I n s \<longrightarrow> Q (fst y)"
      and eq: "(a, b, c, d, e, f, g) = ?fixed" and inv: "I n s"
      and run: "(case wait_until a (earlier (c + int n * b) d) w of None \<Rightarrow> None
        | Some (None, w1) \<Rightarrow>
            (case ck_now a w1 of (now, w2) \<Rightarrow>
               if \<not> now < d then (case ck_now a w2 of (t, w3) \<Rightarrow> Some (f s, w3))
               else (case g (int n * b) (now - c) s w2 of
                       (Inl s', w3) \<Rightarrow> loop a b c d e f g (Suc n) s' w3
                     | (Inr r, w3) \<Rightarrow> Some (r, w3)))
        | Some (Some err, w1) \<Rightarrow> (case ck_now a w1 of (t, w2) \<Rightarrow> Some (e (t - c) err s, w2))) = Some y"
    have fixed: "a = ck" "b = interval" "c = start" "d = deadline" "e = ended" "f = expired" "g = body"
      using eq by simp_all
    obtain res w1 where wt: "wait_until ck (earlier (start + int n * interval) deadline) w = Some (res, w1)"
      using run unfolding fixed by (cases "wait_until ck (earlier (start + int n * interval) deadline) w") auto
    obtain now w2 where now: "ck_now ck w1 = (now, w2)" by fastforce
    show "Q (fst y)"
    proof (cases "res = None \<and> now < deadline")
      case False
      then show ?thesis
        using run wt now inv assms(6,7) unfolding fixed by (cases res) (auto split: prod.splits)
    next
      case True
      obtain out w3 where out: "body (int n * interval) (now - start) s w2 = (out, w3)" by fastforce
      have r: "R n (now - start)" using assms(3) wt now True by simp
      show ?thesis
        using run wt now True out ih [of ck interval start deadline ended expired body "Suc n" _ w3 y]
          assms(4) [OF inv r] assms(5) [OF inv r]
        unfolding fixed by (cases out) (auto split: prod.splits)
    qed
  qed
  then show ?thesis using assms(2) by simp
qed


section \<open>A stable picture was seen to hold still\<close>

definition probe_frame :: "probe \<Rightarrow> comparable option" where
  "probe_frame pb =
     (case pr_answer pb of
        Inl _ \<Rightarrow> None
      | Inr cap \<Rightarrow>
          (case parse_digest (fr_digest (cp_frame cap)) of
             Inl _ \<Rightarrow> None | Inr d \<Rightarrow> Some (comparable_frame cap d)))"

definition on_time :: "probe \<Rightarrow> probe \<Rightarrow> bool" where
  "on_time a b \<longleftrightarrow> pr_completed a \<le> pr_scheduled b"

definition same_run :: "comparable \<Rightarrow> probe list \<Rightarrow> bool" where
  "same_run f run \<longleftrightarrow> list_all (\<lambda>pb. probe_frame pb = Some f) run \<and> successively on_time run"

definition held_still :: "int \<Rightarrow> probe list \<Rightarrow> wait_result \<Rightarrow> bool" where
  "held_still stable_for seen out \<longleftrightarrow>
     (\<exists>pre run f. seen = pre @ run \<and> 2 \<le> length run \<and> same_run f run \<and>
        stable_for \<le> pr_requested (last run) - pr_requested (hd run) \<and>
        wr_observations out = length run \<and> wr_duration out = pr_completed (last run) \<and>
        wr_revision out = cm_revision f \<and> map_option sm_digest (wr_last out) = Some (cm_digest f))"

definition stable_inv :: "stable_run \<times> probe list \<Rightarrow> bool" where
  "stable_inv = (\<lambda>(r, seen).
     sr_completed r = (if seen = [] then None else Some (pr_completed (last seen))) \<and>
     wr_probes (sr_out r) = length seen \<and> wr_observations (sr_out r) = sr_identical r \<and>
     (case sr_current r of
        None \<Rightarrow> sr_identical r = 0
      | Some f \<Rightarrow> \<exists>pre run. seen = pre @ run \<and> run \<noteq> [] \<and> length run = sr_identical r \<and>
          same_run f run \<and> sr_since r = pr_requested (hd run)))"

lemma same_run_snoc:
  "run \<noteq> [] \<Longrightarrow> same_run f run \<Longrightarrow> probe_frame pb = Some f \<Longrightarrow> on_time (last run) pb \<Longrightarrow>
   same_run f (run @ [pb])"
  by (simp add: same_run_def successively_append_iff)

lemma run_reset_sel [simp]:
  "sr_current (run_reset r) = None" "sr_identical (run_reset r) = 0"
  "sr_completed (run_reset r) = sr_completed r" "wr_observations (sr_out (run_reset r)) = 0"
  "wr_probes (sr_out (run_reset r)) = wr_probes (sr_out r)"
  by (simp_all add: run_reset_def)

lemma note_probe_sel [simp]:
  "sr_current (note_probe t r) = sr_current r" "sr_identical (note_probe t r) = sr_identical r"
  "sr_since (note_probe t r) = sr_since r" "sr_completed (note_probe t r) = Some t"
  "wr_observations (sr_out (note_probe t r)) = wr_observations (sr_out r)"
  "wr_probes (sr_out (note_probe t r)) = Suc (wr_probes (sr_out r))"
  by (simp_all add: note_probe_def)

lemma note_missed_inv:
  assumes "stable_inv (r, seen)"
  shows "stable_inv (note_missed sch r, seen) \<and>
    (sr_current (note_missed sch r) \<noteq> None \<longrightarrow> pr_completed (last seen) \<le> sch)"
  using assms by (auto simp: stable_inv_def note_missed_def split: option.splits if_splits)

lemma note_answer_inv:
  assumes inv: "stable_inv (r, seen)"
    and timely: "sr_current r \<noteq> None \<longrightarrow> pr_completed (last seen) \<le> pr_scheduled pb"
    and noted: "note_answer sf pb (note_probe (pr_completed pb) r) = (r', fin)"
  shows "stable_inv (r', seen @ [pb]) \<and> (fin \<longrightarrow> held_still sf (seen @ [pb]) (sr_out r'))"
proof (cases "pr_answer pb")
  case (Inl a)
  then show ?thesis using inv noted by (auto simp: note_answer_def stable_inv_def)
next
  case (Inr cap)
  note cap = Inr
  show ?thesis
  proof (cases "parse_digest (fr_digest (cp_frame cap))")
    case (Inl a)
    then show ?thesis
      using inv noted cap by (auto simp: note_answer_def stable_inv_def Let_def)
  next
    case (Inr d)
    define f where "f = comparable_frame cap d"
    have frame: "probe_frame pb = Some f" using cap Inr by (simp add: probe_frame_def f_def)
    have f_sel: "cm_revision f = cp_revision cap" "cm_digest f = d"
      by (simp_all add: f_def comparable_frame_def)
    have dig: "sm_digest (sample_of cap a b c st) = d" for a b c st
      using Inr by (simp add: sample_of_def)
    show ?thesis
    proof (cases "sr_current r = Some f")
      case True
      obtain pre run where run: "seen = pre @ run" "run \<noteq> []" "length run = sr_identical r"
          "same_run f run" "sr_since r = pr_requested (hd run)"
        using inv True by (auto simp: stable_inv_def)
      have "on_time (last run) pb" using timely True run by (simp add: on_time_def)
      then have longer: "same_run f (run @ [pb])" using run frame by (simp add: same_run_snoc)
      have parts: "seen @ [pb] = pre @ (run @ [pb])" "hd (run @ [pb]) = hd run"
          "length (run @ [pb]) = Suc (sr_identical r)" "run @ [pb] \<noteq> []" using run by simp_all
      have cur: "sr_current r' = Some f" "sr_identical r' = Suc (sr_identical r)"
          "sr_since r' = sr_since r" "sr_completed r' = Some (pr_completed pb)"
          "wr_observations (sr_out r') = Suc (sr_identical r)"
          "wr_probes (sr_out r') = Suc (wr_probes (sr_out r))"
          "wr_revision (sr_out r') = cm_revision f"
          "map_option sm_digest (wr_last (sr_out r')) = Some d"
        using noted cap Inr True f_sel dig
        by (auto simp: note_answer_def Let_def f_def [symmetric] split: if_splits)
      have "\<exists>pre' run'. seen @ [pb] = pre' @ run' \<and> run' \<noteq> [] \<and> length run' = sr_identical r' \<and>
          same_run f run' \<and> sr_since r' = pr_requested (hd run')"
        using cur longer run parts by (intro exI [of _ pre] exI [of _ "run @ [pb]"]) simp
      moreover have "wr_probes (sr_out r) = length seen" using inv by (simp add: stable_inv_def)
      ultimately have "stable_inv (r', seen @ [pb])"
        using cur by (simp add: stable_inv_def)
      moreover have "held_still sf (seen @ [pb]) (sr_out r')" if fin
      proof -
        have "2 \<le> Suc (sr_identical r)" "sf \<le> pr_requested pb - sr_since r"
            "wr_duration (sr_out r') = pr_completed pb"
          using that noted cap Inr True
          by (auto simp: note_answer_def Let_def f_def [symmetric] split: if_splits)
        then show ?thesis
          unfolding held_still_def
          using longer cur run parts f_sel
          by (intro exI [of _ pre] exI [of _ "run @ [pb]"] exI [of _ f]) simp
      qed
      ultimately show ?thesis by simp
    next
      case False
      have "same_run f [pb]" using frame by (simp add: same_run_def)
      moreover have cur: "sr_current r' = Some f" "sr_identical r' = 1"
          "sr_since r' = pr_requested pb" "sr_completed r' = Some (pr_completed pb)"
          "wr_observations (sr_out r') = 1" "wr_probes (sr_out r') = Suc (wr_probes (sr_out r))" "\<not> fin"
        using noted cap Inr False
        by (auto simp: note_answer_def Let_def f_def [symmetric] split: if_splits)
      moreover have "wr_probes (sr_out r) = length seen" using inv by (simp add: stable_inv_def)
      ultimately show ?thesis by (auto simp: stable_inv_def intro: exI [of _ seen] exI [of _ "[pb]"])
    qed
  qed
qed

lemma stable_inv_fresh: "stable_inv (fresh_run kind, [])"
  by (simp add: stable_inv_def fresh_run_def no_result_def)

definition stable_verdict :: "int \<Rightarrow> wait_result \<times> goerr option \<times> probe list \<Rightarrow> bool" where
  "stable_verdict sf = (\<lambda>(out, err, seen).
     wr_probes out = length seen \<and> (err = None \<longrightarrow> held_still sf seen out))"

lemma stable_body_inv:
  assumes "stable_inv st" and "stable_body ck capture ctx_err start sf sch rq st w = (res, w')"
  shows "case res of Inl st' \<Rightarrow> stable_inv st' | Inr q \<Rightarrow> stable_verdict sf q"
proof -
  obtain r seen where st: "st = (r, seen)" by fastforce
  obtain answer w1 where cap: "capture w = (answer, w1)" by fastforce
  obtain t w2 where now: "ck_now ck w1 = (t, w2)" by fastforce
  define r1 where "r1 = note_missed sch r"
  define pb where "pb = \<lparr>pr_scheduled = sch, pr_requested = rq, pr_completed = t - start, pr_answer = answer\<rparr>"
  obtain r3 fin where noted: "note_answer sf pb (note_probe (t - start) r1) = (r3, fin)" by fastforce
  have r1: "stable_inv (r1, seen)" "sr_current r1 \<noteq> None \<longrightarrow> pr_completed (last seen) \<le> sch"
    using note_missed_inv [of r seen sch] assms(1) by (simp_all add: st r1_def)
  have step: "stable_inv (r3, seen @ [pb]) \<and> (fin \<longrightarrow> held_still sf (seen @ [pb]) (sr_out r3))"
    using note_answer_inv [of r1 seen pb sf r3 fin] r1 noted by (simp add: pb_def)
  have "wr_probes (sr_out r1) = length seen" using r1 by (simp add: stable_inv_def)
  moreover have "wr_probes (sr_out r3) = Suc (length seen)" using step by (simp add: stable_inv_def)
  moreover have "(res, w') = (case (answer, ctx_err w2) of
      (Inl _, Some err) \<Rightarrow>
        (Inr ((sr_out (note_probe (t - start) r1))\<lparr>wr_duration := t - start\<rparr>,
              Some (PlainErr err), seen @ [pb]), w2)
    | _ \<Rightarrow> (if fin then (Inr (sr_out r3, None, seen @ [pb]), w2) else (Inl (r3, seen @ [pb]), w2)))"
    using assms(2) noted unfolding stable_body_def st r1_def pb_def
    by (cases answer; cases "ctx_err w2"; cases fin) (simp_all add: cap now Let_def)
  ultimately show ?thesis
    using step by (auto simp: stable_verdict_def split: sum.splits option.splits if_splits)
qed

lemma poll_stable_verdict:
  assumes "poll_loop ck interval start deadline
      (\<lambda>d err (r, seen). ((sr_out r)\<lparr>wr_duration := d\<rparr>, Some (PlainErr err), seen))
      (\<lambda>(r, seen). (sr_out r, Some (timeout_failure kind_stable (sr_out r)), seen))
      (stable_body ck capture ctx_err start sf) n st w = Some (res, w')"
    and "stable_inv st"
  shows "stable_verdict sf res"
  using assms
proof (rule poll_loop_rule [where I = "\<lambda>n. stable_inv" and R = "\<lambda>n rq. True"])
  fix n rq s w s' w'
  assume "stable_inv s" "stable_body ck capture ctx_err start sf (int n * interval) rq s w = (Inl s', w')"
  then show "stable_inv s'" using stable_body_inv by fastforce
next
  fix n rq s w q w'
  assume "stable_inv s" "stable_body ck capture ctx_err start sf (int n * interval) rq s w = (Inr q, w')"
  then show "stable_verdict sf q" using stable_body_inv by fastforce
qed (auto simp: stable_verdict_def stable_inv_def)

lemma wait_stable_Some:
  assumes "wait_stable deps ctx_err sf timeout w = Some (res, w')"
  obtains (refused) err where "res = (empty_result, Some err, [])"
  | (polled) ck capture start w1 where
      "wd_clock deps = Some ck" "wd_capturer deps = Some capture" "0 < sf" "0 < timeout"
      "poll_loop ck (probe_interval sf) start (start + timeout)
        (\<lambda>d err (r, seen). ((sr_out r)\<lparr>wr_duration := d\<rparr>, Some (PlainErr err), seen))
        (\<lambda>(r, seen). (sr_out r, Some (timeout_failure kind_stable (sr_out r)), seen))
        (stable_body ck capture ctx_err start sf) 0 (fresh_run kind_stable, []) w1 = Some (res, w')"
  using assms
  by (simp add: wait_stable_def check_wait_timeout_def not_le
      split: option.splits if_splits prod.splits) blast+

lemma wait_stable_verdict:
  assumes "wait_stable deps ctx_err sf timeout w = Some (res, w')"
  shows "stable_verdict sf res"
  using assms
proof (cases rule: wait_stable_Some)
  case refused
  then show ?thesis by (simp add: stable_verdict_def empty_result_def no_result_def)
next
  case (polled ck capture start w1)
  then show ?thesis by (intro poll_stable_verdict [OF polled(5)] stable_inv_fresh)
qed


section \<open>The waits end\<close>

context steady_clock
begin

lemma turn_in_time:
  assumes "wait_until ck (earlier (start + int n * interval) deadline) w = Some (None, w1)"
    and "ck_now ck w1 = (now, w2)" and "now < deadline"
  shows "int n * interval \<le> now - start \<and> now < deadline"
proof -
  have "earlier (start + int n * interval) deadline \<le> time w1"
    using wait_until_returns [of "earlier (start + int n * interval) deadline" w] assms(1) by auto
  then show ?thesis using now_reads [OF assms(2)] assms(3) by (auto simp: earlier_def split: if_splits)
qed

lemma poll_stable_bounded:
  assumes "poll_loop ck interval start deadline
      (\<lambda>d err (r, seen). ((sr_out r)\<lparr>wr_duration := d\<rparr>, Some (PlainErr err), seen))
      (\<lambda>(r, seen). (sr_out r, Some (timeout_failure kind_stable (sr_out r)), seen))
      (stable_body ck capture ctx_err start sf) 0 (r, []) w = Some (res, w')"
    and "0 \<le> interval" and "start < deadline"
  shows "(int (length (snd (snd res))) - 1) * interval < deadline - start"
  using assms(1)
proof (rule poll_loop_rule [where I = "\<lambda>n st. length (snd st) = n \<and> (int n - 1) * interval < deadline - start"
      and R = "\<lambda>n rq. int n * interval < deadline - start"])
  show "length (snd (r, [])) = 0 \<and> (int 0 - 1) * interval < deadline - start"
    using assms(2,3) by simp
next
  fix n w w1 w2 now
  assume "wait_until ck (earlier (start + int n * interval) deadline) w = Some (None, w1)"
    "ck_now ck w1 = (now, w2)" "now < deadline"
  then have "int n * interval \<le> now - start" "now < deadline" using turn_in_time by blast+
  then show "int n * interval < deadline - start" by linarith
qed (auto simp: stable_body_def Let_def split: prod.splits sum.splits option.splits bool.splits)

lemma wait_stable_ends:
  assumes "wd_clock deps = Some ck"
  shows "\<exists>out err seen w'. wait_stable deps ctx_err sf timeout w = Some ((out, err, seen), w') \<and>
    (int (length seen) - 1) * probe_interval sf < max timeout 1"
proof -
  have pos: "0 < probe_interval sf"
    by (simp add: probe_interval_def Let_def interval_defs)
  obtain start w1 where now: "ck_now ck w = (start, w1)" by fastforce
  show ?thesis
  proof (cases "check_wait_deps deps True False = None \<and> 0 < timeout \<and> 0 < sf")
    case True
    then obtain capture where cap: "wd_capturer deps = Some capture"
      by (auto simp: check_wait_deps_def split: if_splits)
    have "1 \<le> probe_interval sf" using pos by simp
    then have "timeout * 1 \<le> timeout * probe_interval sf" using True by (intro mult_left_mono) auto
    then have "start + timeout \<le> start + int (0 + nat timeout) * probe_interval sf" using True by simp
    then have "\<exists>res w'. poll_loop ck (probe_interval sf) start (start + timeout)
        (\<lambda>d err (r, seen). ((sr_out r)\<lparr>wr_duration := d\<rparr>, Some (PlainErr err), seen))
        (\<lambda>(r, seen). (sr_out r, Some (timeout_failure kind_stable (sr_out r)), seen))
        (stable_body ck capture ctx_err start sf) 0 (fresh_run kind_stable, []) w1 = Some (res, w')"
      by (rule poll_loop_returns)
    then obtain res w' where
      run: "poll_loop ck (probe_interval sf) start (start + timeout)
        (\<lambda>d err (r, seen). ((sr_out r)\<lparr>wr_duration := d\<rparr>, Some (PlainErr err), seen))
        (\<lambda>(r, seen). (sr_out r, Some (timeout_failure kind_stable (sr_out r)), seen))
        (stable_body ck capture ctx_err start sf) 0 (fresh_run kind_stable, []) w1 = Some (res, w')"
      by blast
    have "(int (length (snd (snd res))) - 1) * probe_interval sf < start + timeout - start"
      using pos True by (intro poll_stable_bounded [OF run]) auto
    moreover have "wait_stable deps ctx_err sf timeout w = Some (res, w')"
      using run True cap now assms by (simp add: wait_stable_def check_wait_timeout_def)
    ultimately show ?thesis using True by (cases res) auto
  next
    case False
    then show ?thesis
      using pos assms
      by (auto simp: wait_stable_def check_wait_timeout_def split: option.splits)
  qed
qed

lemma poll_ends:
  assumes "0 < timeout"
  shows "\<exists>y. poll_loop ck wait_poll_interval start (start + timeout) ended expired body 0 s w = Some y"
proof -
  have "start + timeout \<le> start + int (0 + nat timeout) * wait_poll_interval"
    using assms by (simp add: interval_defs)
  from poll_loop_returns [OF this] show ?thesis by fast
qed

lemma new_frame_ends:
  assumes "wd_clock deps = Some ck"
  shows "\<exists>y. wait_new_frame deps ctx_err after timeout w = Some y"
  using assms
  by (auto intro!: poll_ends simp: wait_new_frame_def check_wait_timeout_def check_wait_deps_def
      simp del: split_paired_Ex split: option.splits prod.splits)

lemma observations_end:
  assumes "wd_clock deps = Some ck"
  shows "\<exists>y. wait_observations kind deps ctx_err observe timeout w = Some y"
  using assms
  by (auto intro!: poll_ends simp: wait_observations_def check_wait_timeout_def check_wait_deps_def
      simp del: split_paired_Ex split: option.splits prod.splits)

lemma exited_ends:
  assumes "wd_clock deps = Some ck"
  shows "\<exists>y. wait_exited deps ctx_err timeout w = Some y"
  using assms observations_end [OF assms] by (auto simp: wait_exited_def simp del: split_paired_Ex split: prod.splits)

end

text \<open>
  The process clock: every reading may come some time after the one before, a timer fires
  when its time has passed or later, and the context may end before it does.
\<close>

record ticks =
  tk_time :: int
  tk_lags :: "nat list"
  tk_cancel :: "int option"

definition pass :: "int \<Rightarrow> 'a ticks_scheme \<Rightarrow> 'a ticks_scheme" where
  "pass d tk =
     (case tk_lags tk of
        [] \<Rightarrow> tk\<lparr>tk_time := tk_time tk + d\<rparr>
      | l # ls \<Rightarrow> tk\<lparr>tk_time := tk_time tk + d + int l, tk_lags := ls\<rparr>)"

definition real_now :: "'a ticks_scheme \<Rightarrow> int \<times> 'a ticks_scheme" where
  "real_now tk = (let tk' = pass 0 tk in (tk_time tk', tk'))"

definition real_await :: "int \<Rightarrow> 'a ticks_scheme \<Rightarrow> string option \<times> 'a ticks_scheme" where
  "real_await d tk =
     (case tk_cancel tk of
        Some c \<Rightarrow> if c < tk_time tk + d
                  then (Some ''context canceled'', tk\<lparr>tk_time := max c (tk_time tk)\<rparr>)
                  else (None, pass (max d 0) tk)
      | None \<Rightarrow> (None, pass (max d 0) tk))"

definition real_clock :: "'a ticks_scheme clock" where
  "real_clock = \<lparr>ck_now = real_now, ck_await = real_await\<rparr>"

definition ticks_ctx_err :: "'a ticks_scheme \<Rightarrow> string option" where
  "ticks_ctx_err tk =
     (case tk_cancel tk of
        Some c \<Rightarrow> if c \<le> tk_time tk then Some ''context canceled'' else None
      | None \<Rightarrow> None)"

interpretation process_clock: steady_clock real_clock tk_time
proof
  fix t :: int and w w' :: "'a ticks_scheme"
  show "ck_now real_clock w = (t, w') \<Longrightarrow> t = tk_time w' \<and> tk_time w \<le> tk_time w'"
    by (auto simp: real_clock_def real_now_def pass_def Let_def split: list.splits)
next
  fix d :: int and w w' :: "'a ticks_scheme"
  show "ck_await real_clock d w = (None, w') \<Longrightarrow> tk_time w + d \<le> tk_time w'"
    by (auto simp: real_clock_def real_await_def pass_def split: list.splits option.splits if_splits)
next
  fix d :: int and w w' :: "'a ticks_scheme" and r
  show "ck_await real_clock d w = (r, w') \<Longrightarrow> tk_time w \<le> tk_time w'"
    by (auto simp: real_clock_def real_await_def pass_def split: list.splits option.splits if_splits)
qed

text \<open>
  C25. When a stable wait returns without an error, the last probes it made are a run of at
  least two captures that all answered with the same digest, dimensions, format and
  session revision, none of them failed and none asked for while an earlier one was still
  in flight, and the first and the last were asked for at least the stable duration
  apart. The result counts that run, its duration is the last capture's and every probe
  is counted, whatever the clock and the capturer did.
\<close>

theorem wait_stable_held_still:
  assumes "wait_stable deps ctx_err stable_for timeout w = Some ((out, None, seen), w')"
  shows "held_still stable_for seen out \<and> wr_probes out = length seen"
  using wait_stable_verdict [OF assms] by (simp add: stable_verdict_def)



definition demo_frame :: captured where
  "demo_frame =
     \<lparr>cp_frame = \<lparr>fr_path = ''/run/wlvision/export/scratch/frame.png'',
        fr_digest = digest_text (replicate 32 (CHR ''d'')),
        fr_width = 640, fr_height = 480, fr_format = ''xrgb8888'', fr_sequence = 7,
        fr_capture_request_id = 3\<rparr>,
      cp_revision = 5\<rparr>"

definition demo_capture :: "int \<Rightarrow> 'a ticks_scheme capturer" where
  "demo_capture d tk = (Inr demo_frame, tk\<lparr>tk_time := tk_time tk + d\<rparr>)"

definition demo_ticks :: ticks where
  "demo_ticks = \<lparr>tk_time = 1000, tk_lags = [], tk_cancel = None\<rparr>"

definition demo_deps :: "int \<Rightarrow> ticks wait_deps" where
  "demo_deps d = \<lparr>wd_clock = Some real_clock, wd_capturer = Some (demo_capture d), wd_observer = None\<rparr>"

definition demo_probe :: "int \<Rightarrow> probe" where
  "demo_probe t =
     \<lparr>pr_scheduled = t * millisecond, pr_requested = t * millisecond,
      pr_completed = (t + 1) * millisecond, pr_answer = Inr demo_frame\<rparr>"

lemma demo_digest: "parse_digest (fr_digest (cp_frame demo_frame)) = Inr (replicate 32 (CHR ''d''))"
  by (simp add: demo_frame_def digest_text_roundtrip digest_length_def)

lemmas demo_wait_simps = wait_stable_def check_wait_deps_def check_wait_timeout_def demo_deps_def
  probe_interval_def half_def interval_defs real_clock_def real_now_def real_await_def pass_def
  demo_ticks_def poll_loop.simps wait_until.simps earlier_def stable_body_def note_missed_def
  note_probe_def note_answer_def demo_capture_def demo_digest fresh_run_def no_result_def Let_def

lemma demo_wait:
  "map_option (\<lambda>((out, err, seen), w'). (wr_observations out, wr_duration out, err, seen))
     (wait_stable (demo_deps millisecond) ticks_ctx_err (32 * millisecond) (100 * millisecond) demo_ticks) =
   Some (3, 33 * millisecond, None, map demo_probe [0, 16, 32])"
  by (simp add: demo_wait_simps demo_probe_def)

theorem wait_stable_held_still_witness:
  "\<exists>out w'. wait_stable (demo_deps millisecond) ticks_ctx_err (32 * millisecond) (100 * millisecond) demo_ticks =
     Some ((out, None, map demo_probe [0, 16, 32]), w') \<and>
     held_still (32 * millisecond) (map demo_probe [0, 16, 32]) out \<and> wr_probes out = 3"
proof -
  obtain out w' where run: "wait_stable (demo_deps millisecond) ticks_ctx_err (32 * millisecond)
      (100 * millisecond) demo_ticks = Some ((out, None, map demo_probe [0, 16, 32]), w')"
    using demo_wait by auto
  show ?thesis using run wait_stable_held_still [OF run] by auto
qed

text \<open>
  The duration of a result is documented as how long the wait took. A wait that runs into
  its timeout leaves it at zero, although the clock has moved on.
\<close>

lemma timeout_without_duration:
  "map_option (\<lambda>((out, err, seen), w'). (wr_duration out, map_option err_code err, tk_time w' - tk_time demo_ticks))
     (wait_stable (demo_deps (90 * millisecond)) ticks_ctx_err (200 * millisecond) (100 * millisecond) demo_ticks) =
   Some (0, Some (Some WaitTimeout), 100 * millisecond)"
  by (simp add: demo_wait_simps timeout_failure_def err_code_def)

end
