(* ===== verification/Capture_Sheet.thy ===== *)
theory Capture_Sheet
  imports Complex_Main Capture_Frame
begin

text \<open>
  Contact sheets (\<open>internal/capture/contactsheet.go\<close>): the grid of cells, what is drawn in
  a cell, the embedded font. A picture is a rectangle of the plane and a colour at every
  point; \<open>draw.Draw\<close> with \<open>draw.Src\<close> is \<open>draw_uniform\<close> and \<open>draw_image\<close>. The PNG decoder is
  the parameter \<open>png\<close>. The labels are the ASCII texts of \<open>sheetLabel\<close>, so a byte is a
  glyph. The theorem says that a cell shows its own frame and nothing of its neighbours.
\<close>

section \<open>Pictures and drawing\<close>

datatype colour = RGBA nat nat nat nat

record rect =
  rc_x0 :: int
  rc_y0 :: int
  rc_x1 :: int
  rc_y1 :: int

definition rect_of :: "int \<Rightarrow> int \<Rightarrow> int \<Rightarrow> int \<Rightarrow> rect" where
  "rect_of x0 y0 x1 y1 = \<lparr>rc_x0 = x0, rc_y0 = y0, rc_x1 = x1, rc_y1 = y1\<rparr>"

definition in_rect :: "int \<times> int \<Rightarrow> rect \<Rightarrow> bool" where
  "in_rect p r \<longleftrightarrow> rc_x0 r \<le> fst p \<and> fst p < rc_x1 r \<and> rc_y0 r \<le> snd p \<and> snd p < rc_y1 r"

definition rect_empty :: "rect \<Rightarrow> bool" where
  "rect_empty r \<longleftrightarrow> rc_x1 r \<le> rc_x0 r \<or> rc_y1 r \<le> rc_y0 r"

definition rect_inter :: "rect \<Rightarrow> rect \<Rightarrow> rect" where
  "rect_inter a b =
     rect_of (max (rc_x0 a) (rc_x0 b)) (max (rc_y0 a) (rc_y0 b))
             (min (rc_x1 a) (rc_x1 b)) (min (rc_y1 a) (rc_y1 b))"

lemma in_rect_of [simp]:
  "in_rect (x, y) (rect_of x0 y0 x1 y1) \<longleftrightarrow> x0 \<le> x \<and> x < x1 \<and> y0 \<le> y \<and> y < y1"
  by (simp add: in_rect_def rect_of_def)

lemma in_rect_inter [simp]: "in_rect p (rect_inter a b) \<longleftrightarrow> in_rect p a \<and> in_rect p b"
  by (auto simp: in_rect_def rect_inter_def rect_of_def)

record picture =
  pc_bounds :: rect
  pc_at :: "int \<times> int \<Rightarrow> colour"

definition draw_uniform :: "picture \<Rightarrow> rect \<Rightarrow> colour \<Rightarrow> picture" where
  "draw_uniform dst r c =
     dst\<lparr>pc_at := (\<lambda>p. if in_rect p r \<and> in_rect p (pc_bounds dst) then c else pc_at dst p)\<rparr>"

text \<open>The point of the source that maps onto the first point of the rectangle is its own.\<close>

definition draw_image :: "picture \<Rightarrow> rect \<Rightarrow> picture \<Rightarrow> picture" where
  "draw_image dst r src =
     dst\<lparr>pc_at := (\<lambda>p.
       let q = (fst p - rc_x0 r + rc_x0 (pc_bounds src), snd p - rc_y0 r + rc_y0 (pc_bounds src))
       in if in_rect p r \<and> in_rect p (pc_bounds dst) \<and> in_rect q (pc_bounds src)
          then pc_at src q else pc_at dst p)\<rparr>"

section \<open>Geometry, colours and the font\<close>

definition sheet_columns :: int where "sheet_columns = 5"
definition sheet_cell_width :: int where "sheet_cell_width = 320"
definition sheet_cell_height :: int where "sheet_cell_height = 240"
definition sheet_label_scale :: int where "sheet_label_scale = 2"

definition sheet_background :: colour where "sheet_background = RGBA 0x18 0x18 0x20 0xff"
definition sheet_placeholder :: colour where "sheet_placeholder = RGBA 0x50 0x14 0x14 0xff"
definition sheet_label_colour :: colour where "sheet_label_colour = RGBA 0xf0 0xf0 0xf0 0xff"

definition glyph_table :: "(char \<times> nat list) list" where
  "glyph_table =
     [(CHR ''0'', [7, 5, 5, 5, 7]), (CHR ''1'', [2, 6, 2, 2, 7]), (CHR ''2'', [7, 1, 7, 4, 7]),
      (CHR ''3'', [7, 1, 7, 1, 7]), (CHR ''4'', [5, 5, 7, 1, 1]), (CHR ''5'', [7, 4, 7, 1, 7]),
      (CHR ''6'', [7, 4, 7, 5, 7]), (CHR ''7'', [7, 1, 2, 2, 2]), (CHR ''8'', [7, 5, 7, 5, 7]),
      (CHR ''9'', [7, 5, 7, 1, 7]), (CHR ''A'', [2, 5, 7, 5, 5]), (CHR ''B'', [6, 5, 6, 5, 6]),
      (CHR ''C'', [3, 4, 4, 4, 3]), (CHR ''D'', [6, 5, 5, 5, 6]), (CHR ''E'', [7, 4, 6, 4, 7]),
      (CHR ''F'', [7, 4, 6, 4, 4]), (CHR ''G'', [3, 4, 5, 5, 3]), (CHR ''H'', [5, 5, 7, 5, 5]),
      (CHR ''I'', [7, 2, 2, 2, 7]), (CHR ''J'', [1, 1, 1, 5, 2]), (CHR ''K'', [5, 5, 6, 5, 5]),
      (CHR ''L'', [4, 4, 4, 4, 7]), (CHR ''M'', [5, 7, 7, 5, 5]), (CHR ''N'', [5, 7, 5, 5, 5]),
      (CHR ''O'', [2, 5, 5, 5, 2]), (CHR ''P'', [6, 5, 6, 4, 4]), (CHR ''Q'', [2, 5, 5, 6, 3]),
      (CHR ''R'', [6, 5, 6, 5, 5]), (CHR ''S'', [3, 4, 2, 1, 6]), (CHR ''T'', [7, 2, 2, 2, 2]),
      (CHR ''U'', [5, 5, 5, 5, 7]), (CHR ''V'', [5, 5, 5, 5, 2]), (CHR ''W'', [5, 5, 7, 7, 5]),
      (CHR ''X'', [5, 5, 2, 5, 5]), (CHR ''Y'', [5, 5, 2, 2, 2]), (CHR ''Z'', [7, 1, 2, 4, 7]),
      (CHR ''-'', [0, 0, 7, 0, 0]), (CHR ''.'', [0, 0, 0, 0, 2]), (CHR ''/'', [1, 1, 2, 4, 4]),
      (CHR ''_'', [0, 0, 0, 0, 7]), (CHR '':'', [0, 2, 0, 2, 0]), (CHR '' '', [0, 0, 0, 0, 0])]"

definition sheet_glyph :: "char \<Rightarrow> nat list" where
  "sheet_glyph c = (case map_of glyph_table c of Some rows \<Rightarrow> rows | None \<Rightarrow> [6, 1, 2, 0, 2])"

definition to_upper :: "char \<Rightarrow> char" where
  "to_upper c = (if is_lower c then char_of (of_char c - 32 :: nat) else c)"

section \<open>One cell\<close>

text \<open>The points of one glyph, in the order the code draws them.\<close>

definition glyph_points :: "nat list \<Rightarrow> (int \<times> int) list" where
  "glyph_points rows =
     [(int column, int row). row \<leftarrow> [0..<5], column \<leftarrow> [0..<3],
        bit (rows ! row) (2 - column)]"

definition draw_point :: "rect \<Rightarrow> int \<Rightarrow> int \<Rightarrow> picture \<Rightarrow> int \<times> int \<Rightarrow> picture" where
  "draw_point cell x y sheet q =
     (let px = x + fst q * sheet_label_scale;
          py = y + snd q * sheet_label_scale;
          pixel = rect_inter (rect_of px py (px + sheet_label_scale) (py + sheet_label_scale)) cell
      in if rect_empty pixel then sheet else draw_uniform sheet pixel sheet_label_colour)"

definition draw_glyph :: "rect \<Rightarrow> int \<Rightarrow> int \<Rightarrow> nat list \<Rightarrow> picture \<Rightarrow> picture" where
  "draw_glyph cell x y rows sheet = foldl (draw_point cell x y) sheet (glyph_points rows)"

fun draw_glyphs :: "rect \<Rightarrow> int \<Rightarrow> int \<Rightarrow> string \<Rightarrow> picture \<Rightarrow> picture" where
  "draw_glyphs cell x y [] sheet = sheet"
| "draw_glyphs cell x y (c # cs) sheet =
     (let sheet1 = draw_glyph cell x y (sheet_glyph c) sheet;
          x1 = x + 4 * sheet_label_scale
      in if x1 + 3 * sheet_label_scale > rc_x1 cell - 4 then sheet1
         else draw_glyphs cell x1 y cs sheet1)"

definition draw_sheet_label :: "rect \<Rightarrow> string \<Rightarrow> picture \<Rightarrow> picture" where
  "draw_sheet_label cell label sheet =
     (if label = [] then sheet
      else
        let line_height = 5 * sheet_label_scale;
            band = rect_of (rc_x0 cell) (rc_y1 cell - (line_height + 4)) (rc_x1 cell) (rc_y1 cell)
        in draw_glyphs cell (rc_x0 cell + 4) (rc_y0 band + 2) (map to_upper label)
             (draw_uniform sheet band sheet_background))"

record sheet_frame =
  sf_label :: string
  sf_png :: string
  sf_image :: "picture option"

definition decode_sheet_png :: "(string \<Rightarrow> string + picture) \<Rightarrow> string \<Rightarrow> string + picture" where
  "decode_sheet_png png payload =
     (if payload = [] then Inl ''capture: frame has no png''
      else case png payload of
             Inl err \<Rightarrow> Inl (''capture: frame png: '' @ err)
           | Inr decoded \<Rightarrow> Inr decoded)"

definition draw_sheet_cell :: "(string \<Rightarrow> string + picture) \<Rightarrow> rect \<Rightarrow> sheet_frame \<Rightarrow> picture \<Rightarrow> picture" where
  "draw_sheet_cell png cell frame sheet =
     (case (case sf_image frame of Some im \<Rightarrow> Inr im | None \<Rightarrow> decode_sheet_png png (sf_png frame)) of
        Inl _ \<Rightarrow> draw_sheet_label cell (sf_label frame) (draw_uniform sheet cell sheet_placeholder)
      | Inr pixels \<Rightarrow>
          draw_sheet_label cell (sf_label frame)
            (draw_image (draw_uniform sheet cell sheet_background) cell pixels))"

definition transparent :: colour where
  "transparent = RGBA 0 0 0 0"

definition new_picture :: "int \<Rightarrow> int \<Rightarrow> picture" where
  "new_picture w h = \<lparr>pc_bounds = rect_of 0 0 w h, pc_at = (\<lambda>p. transparent)\<rparr>"

definition sheet_cell_image :: "(string \<Rightarrow> string + picture) \<Rightarrow> string \<Rightarrow> string + picture" where
  "sheet_cell_image png payload =
     (case decode_sheet_png png payload of
        Inl err \<Rightarrow> Inl err
      | Inr decoded \<Rightarrow>
          let cell = new_picture sheet_cell_width sheet_cell_height
          in Inr (draw_image (draw_uniform cell (pc_bounds cell) sheet_background) (pc_bounds cell) decoded))"

section \<open>The sheet\<close>

definition sheet_cell :: "int \<Rightarrow> int \<Rightarrow> rect" where
  "sheet_cell columns i =
     (let column = i mod columns; row = i div columns
      in rect_of (column * sheet_cell_width) (row * sheet_cell_height)
           ((column + 1) * sheet_cell_width) ((row + 1) * sheet_cell_height))"

fun draw_cells :: "(string \<Rightarrow> string + picture) \<Rightarrow> int \<Rightarrow> int \<Rightarrow> sheet_frame list \<Rightarrow> picture \<Rightarrow> picture" where
  "draw_cells png columns i [] sheet = sheet"
| "draw_cells png columns i (f # fs) sheet =
     draw_cells png columns (i + 1) fs (draw_sheet_cell png (sheet_cell columns i) f sheet)"

definition sheet_canvas :: "int \<Rightarrow> int \<Rightarrow> picture" where
  "sheet_canvas columns n =
     (let rows = (n + columns - 1) div columns;
          rows1 = (if rows < 1 then 1 else rows);
          sheet = new_picture (columns * sheet_cell_width) (rows1 * sheet_cell_height)
      in draw_uniform sheet (pc_bounds sheet) sheet_background)"

definition contact_sheet :: "(string \<Rightarrow> string + picture) \<Rightarrow> sheet_frame list \<Rightarrow> int \<Rightarrow> string + picture" where
  "contact_sheet png frames columns =
     (let cols = (if columns \<le> 0 then sheet_columns else columns)
      in if frames = [] then Inl ''capture: a contact sheet needs at least one frame''
         else
           Inr (draw_cells png cols 0 frames (sheet_canvas cols (int (length frames)))))"

section \<open>A cell shows its own frame only\<close>

text \<open>Drawing that stays inside a rectangle, and drawing that does not look at what is there.\<close>

definition local_to :: "rect \<Rightarrow> (picture \<Rightarrow> picture) \<Rightarrow> bool" where
  "local_to r f \<longleftrightarrow>
     (\<forall>s. pc_bounds (f s) = pc_bounds s \<and> (\<forall>p. \<not> in_rect p r \<longrightarrow> pc_at (f s) p = pc_at s p))"

definition agree :: "rect \<Rightarrow> picture \<Rightarrow> picture \<Rightarrow> bool" where
  "agree r s t \<longleftrightarrow> pc_bounds s = pc_bounds t \<and>
     (\<forall>p. in_rect p r \<and> in_rect p (pc_bounds s) \<longrightarrow> pc_at s p = pc_at t p)"

lemma local_to_uniform:
  assumes "\<And>p. in_rect p q \<Longrightarrow> in_rect p r"
  shows "local_to r (\<lambda>s. draw_uniform s q c)"
  using assms by (auto simp: local_to_def draw_uniform_def)

lemma local_to_image: "local_to r (\<lambda>s. draw_image s r im)"
  by (auto simp: local_to_def draw_image_def Let_def)

lemma local_to_comp: "local_to r f \<Longrightarrow> local_to r g \<Longrightarrow> local_to r (\<lambda>s. g (f s))"
  by (auto simp: local_to_def)

lemma local_to_foldl: "(\<And>q. local_to r (\<lambda>s. f s q)) \<Longrightarrow> local_to r (\<lambda>s. foldl f s qs)"
  by (induction qs rule: rev_induct) (auto simp: local_to_def)

lemma local_to_point: "local_to cell (\<lambda>s. draw_point cell x y s q)"
  by (auto simp: local_to_def draw_point_def draw_uniform_def Let_def)

lemma local_to_glyphs: "local_to cell (draw_glyphs cell x y cs)"
proof (induction cs arbitrary: x)
  case (Cons c cs)
  have glyph: "local_to cell (draw_glyph cell x y (sheet_glyph c))"
    unfolding draw_glyph_def by (intro local_to_foldl local_to_point)
  show ?case
    using glyph local_to_comp [OF glyph Cons] by (simp add: Let_def local_to_def)
qed (simp add: local_to_def)

definition tall_enough :: "rect \<Rightarrow> bool" where
  "tall_enough cell \<longleftrightarrow> rc_y0 cell + 14 \<le> rc_y1 cell"

lemma local_to_label:
  assumes "tall_enough cell"
  shows "local_to cell (draw_sheet_label cell label)"
proof (cases "label = []")
  case False
  have "local_to cell (\<lambda>s. draw_uniform s
      (rect_of (rc_x0 cell) (rc_y1 cell - (5 * sheet_label_scale + 4)) (rc_x1 cell) (rc_y1 cell))
      sheet_background)"
    using assms by (intro local_to_uniform)
      (auto simp: in_rect_def rect_of_def tall_enough_def sheet_label_scale_def)
  then have "local_to cell (\<lambda>s. draw_glyphs cell (rc_x0 cell + 4)
      (rc_y1 cell - (5 * sheet_label_scale + 4) + 2) (map to_upper label) (draw_uniform s
      (rect_of (rc_x0 cell) (rc_y1 cell - (5 * sheet_label_scale + 4)) (rc_x1 cell) (rc_y1 cell))
      sheet_background))"
    using local_to_glyphs by (rule local_to_comp)
  then show ?thesis using False by (simp add: draw_sheet_label_def [abs_def] Let_def rect_of_def)
qed (simp add: draw_sheet_label_def [abs_def] local_to_def)

lemma local_to_cell:
  assumes "tall_enough cell"
  shows "local_to cell (draw_sheet_cell png cell f)"
proof -
  have label: "local_to cell (draw_sheet_label cell (sf_label f))" by (rule local_to_label [OF assms])
  have fill: "local_to cell (\<lambda>s. draw_uniform s cell c)" for c by (rule local_to_uniform)
  have image: "local_to cell (\<lambda>s. draw_image (draw_uniform s cell c) cell im)" for c im
    using fill local_to_image by (rule local_to_comp)
  show ?thesis
    using local_to_comp [OF fill label] local_to_comp [OF image label]
    by (auto simp: local_to_def draw_sheet_cell_def split: sum.splits option.splits)
qed


lemma agree_uniform: "agree r s t \<Longrightarrow> agree r (draw_uniform s q c) (draw_uniform t q c)"
  by (auto simp: agree_def draw_uniform_def)

lemma agree_filled: "pc_bounds s = pc_bounds t \<Longrightarrow> agree r (draw_uniform s r c) (draw_uniform t r c)"
  by (auto simp: agree_def draw_uniform_def)

lemma agree_image: "agree r s t \<Longrightarrow> agree r (draw_image s q im) (draw_image t q im)"
  by (auto simp: agree_def draw_image_def Let_def)

lemma agree_point: "agree r s t \<Longrightarrow> agree r (draw_point cell x y s q) (draw_point cell x y t q)"
  by (auto simp: draw_point_def Let_def agree_uniform)

lemma agree_glyph: "agree r s t \<Longrightarrow> agree r (draw_glyph cell x y rows s) (draw_glyph cell x y rows t)"
proof -
  assume "agree r s t"
  then have "agree r (foldl (draw_point cell x y) s qs) (foldl (draw_point cell x y) t qs)" for qs
    by (induction qs arbitrary: s t) (auto simp: agree_point)
  then show ?thesis by (simp add: draw_glyph_def)
qed

lemma agree_glyphs: "agree r s t \<Longrightarrow> agree r (draw_glyphs cell x y cs s) (draw_glyphs cell x y cs t)"
  by (induction cs arbitrary: x s t) (auto simp: Let_def agree_glyph)

lemma agree_label: "agree r s t \<Longrightarrow> agree r (draw_sheet_label cell l s) (draw_sheet_label cell l t)"
  by (auto simp: draw_sheet_label_def Let_def agree_uniform agree_glyphs)

lemma agree_cell:
  "pc_bounds s = pc_bounds t \<Longrightarrow> agree cell (draw_sheet_cell png cell f s) (draw_sheet_cell png cell f t)"
  by (auto simp: draw_sheet_cell_def agree_label agree_image agree_filled split: sum.splits option.splits)

lemma sheet_cell_tall: "tall_enough (sheet_cell columns i)"
  by (simp add: tall_enough_def sheet_cell_def Let_def rect_of_def sheet_cell_height_def algebra_simps)

lemma grid_index: "a * k \<le> (x::int) \<Longrightarrow> x < (a + 1) * k \<Longrightarrow> b * k \<le> x \<Longrightarrow> x < (b + 1) * k \<Longrightarrow> a = b"
proof (rule ccontr)
  assume b: "a * k \<le> x" "x < (a + 1) * k" "b * k \<le> x" "x < (b + 1) * k" and "a \<noteq> b"
  have "(a + 1) * k = a * k + k" by (simp add: algebra_simps)
  then have "a * k < (b + 1) * k" "b * k < (a + 1) * k" "0 < k" using b by linarith+
  then have "a < b + 1" "b < a + 1" by simp_all
  with \<open>a \<noteq> b\<close> show False by simp
qed

lemma sheet_cells_disjoint:
  assumes "in_rect p (sheet_cell columns i)" and "in_rect p (sheet_cell columns j)"
  shows "i = j"
proof -
  have "i mod columns = j mod columns"
    using assms by (cases p) (auto simp: sheet_cell_def Let_def intro: grid_index)
  moreover have "i div columns = j div columns"
    using assms by (cases p) (auto simp: sheet_cell_def Let_def intro: grid_index)
  ultimately show ?thesis by (metis div_mult_mod_eq)
qed

lemma draw_cells_elsewhere:
  assumes "\<forall>j. i \<le> j \<and> j < i + int (length fs) \<longrightarrow> \<not> in_rect p (sheet_cell columns j)"
  shows "pc_bounds (draw_cells png columns i fs s) = pc_bounds s \<and>
    pc_at (draw_cells png columns i fs s) p = pc_at s p"
  using assms
proof (induction fs arbitrary: i s)
  case (Cons f fs)
  have away: "\<not> in_rect p (sheet_cell columns i)" using Cons.prems by simp
  have "pc_bounds (draw_sheet_cell png (sheet_cell columns i) f s) = pc_bounds s \<and>
      pc_at (draw_sheet_cell png (sheet_cell columns i) f s) p = pc_at s p"
    using local_to_cell [OF sheet_cell_tall, of columns i png f] away unfolding local_to_def by blast
  moreover have "\<forall>j. i + 1 \<le> j \<and> j < i + 1 + int (length fs) \<longrightarrow> \<not> in_rect p (sheet_cell columns j)"
    using Cons.prems by auto
  ultimately show ?case using Cons.IH [of "i + 1"] by simp
qed simp

lemma draw_cells_own:
  assumes "k < length fs" and "in_rect p (sheet_cell columns (i + int k))"
    and "in_rect p (pc_bounds s)" and "pc_bounds s = pc_bounds t"
  shows "pc_at (draw_cells png columns i fs s) p =
    pc_at (draw_sheet_cell png (sheet_cell columns (i + int k)) (fs ! k) t) p"
  using assms
proof (induction fs arbitrary: i k s)
  case (Cons f fs)
  define s1 where "s1 = draw_sheet_cell png (sheet_cell columns i) f s"
  have b1: "pc_bounds s1 = pc_bounds s"
    using local_to_cell [OF sheet_cell_tall, of columns i png f] by (simp add: local_to_def s1_def)
  show ?case
  proof (cases k)
    case 0
    have away: "\<forall>j. i + 1 \<le> j \<and> j < i + 1 + int (length fs) \<longrightarrow> \<not> in_rect p (sheet_cell columns j)"
    proof (intro allI impI notI)
      fix j
      assume "i + 1 \<le> j \<and> j < i + 1 + int (length fs)" "in_rect p (sheet_cell columns j)"
      then show False using sheet_cells_disjoint [of p columns i j] Cons.prems(2) 0 by simp
    qed
    have "pc_at (draw_cells png columns (i + 1) fs s1) p = pc_at s1 p"
      using draw_cells_elsewhere [OF away] by simp
    moreover have "agree (sheet_cell columns i) s1 (draw_sheet_cell png (sheet_cell columns i) f t)"
      unfolding s1_def using Cons.prems(4) by (rule agree_cell)
    moreover have "in_rect p (sheet_cell columns i)" "in_rect p (pc_bounds s1)"
      using Cons.prems(2,3) b1 0 by simp_all
    ultimately have "pc_at (draw_cells png columns (i + 1) fs s1) p =
        pc_at (draw_sheet_cell png (sheet_cell columns i) f t) p"
      unfolding agree_def by metis
    then show ?thesis using 0 by (simp add: s1_def)
  next
    case (Suc m)
    then show ?thesis
      using Cons.IH [of m "i + 1" s1] Cons.prems b1 by (simp add: s1_def add.assoc)
  qed
qed simp

lemma cell_inside_canvas:
  assumes "0 < columns" and "i < n" and "in_rect p (sheet_cell columns (int i))"
  shows "in_rect p (pc_bounds (sheet_canvas columns (int n)))"
proof -
  obtain x y where p: "p = (x, y)" by fastforce
  define c r where "c = int i mod columns" and "r = int i div columns"
  have c: "0 \<le> c" "c < columns" using assms(1) by (simp_all add: c_def)
  have r0: "0 \<le> r" using assms(1) by (simp add: r_def pos_imp_zdiv_nonneg_iff)
  have "r + 1 = (int i + columns) div columns" using assms(1) by (simp add: r_def)
  also have "\<dots> \<le> (int n + columns - 1) div columns"
    using assms(1,2) by (intro zdiv_mono1) auto
  finally have r: "r + 1 \<le> (int n + columns - 1) div columns" .
  have in_cell: "c * 320 \<le> x" "x < (c + 1) * 320" "r * 240 \<le> y" "y < (r + 1) * 240"
    using assms(3) by (simp_all add: p sheet_cell_def Let_def c_def r_def
        sheet_cell_width_def sheet_cell_height_def)
  have "(c + 1) * 320 \<le> columns * 320" using c by simp
  moreover have "(r + 1) * 240 \<le> (int n + columns - 1) div columns * 240" using r by simp
  ultimately have "0 \<le> x" "x < columns * 320" "0 \<le> y" "y < (int n + columns - 1) div columns * 240"
    using in_cell c(1) r0 by linarith+
  moreover have "\<not> (int n + columns - 1) div columns < 1" using r r0 by linarith
  ultimately show ?thesis
    by (simp add: p sheet_canvas_def Let_def new_picture_def draw_uniform_def
        sheet_cell_width_def sheet_cell_height_def)
qed

text \<open>
  Every cell of a contact sheet lies on the sheet and shows exactly what drawing its
  own frame there alone shows: whatever the other frames are, a missed or failed sample
  never borrows a neighbour's pixels and no frame or label runs into another cell.
\<close>

lemma contact_sheet_cells:
  assumes "contact_sheet png frames columns = Inr sheet" and "0 < columns" and "i < length frames"
    and "in_rect p (sheet_cell columns (int i))"
  shows "in_rect p (pc_bounds sheet) \<and>
    pc_at sheet p = pc_at (draw_sheet_cell png (sheet_cell columns (int i)) (frames ! i)
      (sheet_canvas columns (int (length frames)))) p"
proof -
  define canvas where "canvas = sheet_canvas columns (int (length frames))"
  have sheet: "sheet = draw_cells png columns 0 frames canvas"
    using assms(1,2,3) by (auto simp: contact_sheet_def Let_def canvas_def split: if_splits)
  have inside: "in_rect p (pc_bounds canvas)"
    unfolding canvas_def using assms(2-4) by (rule cell_inside_canvas)
  have "pc_bounds (draw_cells png columns j fs s) = pc_bounds s" for j fs s
  proof (induction fs arbitrary: j s)
    case (Cons f fs)
    then show ?case
      using local_to_cell [OF sheet_cell_tall, of columns j png f] by (simp add: local_to_def)
  qed simp
  then show ?thesis
    using draw_cells_own [of i frames p columns 0 canvas canvas png] assms(3,4) inside
    by (simp add: sheet canvas_def)
qed


definition demo_png :: "string \<Rightarrow> string + picture" where
  "demo_png payload = Inr \<lparr>pc_bounds = rect_of 0 0 2000 2000, pc_at = (\<lambda>p. RGBA 255 0 0 255)\<rparr>"

definition demo_sheet_frames :: "sheet_frame list" where
  "demo_sheet_frames =
     [\<lparr>sf_label = [], sf_png = ''PNG'', sf_image = None\<rparr>, \<lparr>sf_label = [], sf_png = [], sf_image = None\<rparr>]"

lemma contact_sheet_cells_witness:
  "\<exists>sheet. contact_sheet demo_png demo_sheet_frames 5 = Inr sheet \<and>
     in_rect (330, 10) (pc_bounds sheet) \<and> pc_at sheet (330, 10) = sheet_placeholder \<and>
     in_rect (319, 239) (pc_bounds sheet) \<and> pc_at sheet (319, 239) = RGBA 255 0 0 255"
proof -
  obtain sheet where sheet: "contact_sheet demo_png demo_sheet_frames 5 = Inr sheet"
    by (simp add: contact_sheet_def demo_sheet_frames_def)
  show ?thesis
    using sheet contact_sheet_cells [OF sheet, of 1 "(330, 10)"] contact_sheet_cells [OF sheet, of 0 "(319, 239)"]
    by (simp add: demo_sheet_frames_def sheet_cell_def sheet_cell_width_def sheet_cell_height_def
        draw_sheet_cell_def decode_sheet_png_def demo_png_def draw_sheet_label_def draw_uniform_def
        draw_image_def sheet_canvas_def new_picture_def rect_of_def in_rect_def sheet_placeholder_def)
qed

end
