(* ===== verification/Capture_Burst.thy ===== *)
theory Capture_Burst
  imports Complex_Main Capture_Wait Capture_Sheet
begin

text \<open>
  The bounded burst (\<open>internal/capture/burst.go\<close>) and its manifest
  (\<open>internal/capture/manifest.go\<close>). A burst runs against a clock, a capturer, a fetcher
  and a destination over a world; the world is kept together with the artifacts the burst
  asked the destination to store. SHA-256, the PNG codec and \<open>json.MarshalIndent\<close> are the
  parameters collected in \<open>codecs\<close>. The Go slice \<open>frames\<close> is filled from the front, so
  the index of the loop is the length of the list of samples so far.
\<close>

section \<open>Plans\<close>

record burst_plan =
  bp_interval :: int
  bp_duration :: int
  bp_max_frames :: int
  bp_prefix :: string
  bp_contact_sheet :: bool
  bp_bytes :: int

definition default_interval :: int where "default_interval = 100 * millisecond"
definition default_duration :: int where "default_duration = 2000 * millisecond"
definition default_max_frames :: int where "default_max_frames = 25"
definition min_interval :: int where "min_interval = 16 * millisecond"
definition max_duration :: int where "max_duration = 60000 * millisecond"
definition max_frames :: int where "max_frames = 120"
definition max_burst_bytes :: int where "max_burst_bytes = 268435456"

lemmas burst_bounds = default_interval_def default_duration_def default_max_frames_def
  min_interval_def max_duration_def max_frames_def max_burst_bytes_def millisecond_def

definition burst_manifest_name :: string where "burst_manifest_name = ''manifest.json''"
definition burst_contact_sheet_name :: string where "burst_contact_sheet_name = ''contact.png''"
definition default_burst_prefix :: string where "default_burst_prefix = ''frame''"
definition operation_burst :: string where "operation_burst = ''capture.burst''"
definition operation_manifest :: string where "operation_manifest = ''capture.manifest''"

definition burst_settings :: "burst_plan \<Rightarrow> goerr + burst_plan" where
  "burst_settings p =
     (if bp_interval p < 0 then Inl (usage operation_burst ''interval %s is negative'')
      else if bp_duration p < 0 then Inl (usage operation_burst ''duration %s is negative'')
      else if bp_max_frames p < 0 then Inl (usage operation_burst ''max frames %d is negative'')
      else if bp_interval p \<noteq> 0 \<and> bp_interval p < min_interval
      then Inl (usage operation_burst ''interval %s is shorter than the %s minimum'')
      else if bp_duration p > max_duration
      then Inl (usage operation_burst ''duration %s is longer than the %s maximum'')
      else if bp_max_frames p > max_frames
      then Inl (usage operation_burst ''max frames %d is above the %d maximum'')
      else Inr (p\<lparr>bp_interval := (if bp_interval p = 0 then default_interval else bp_interval p),
                  bp_duration := (if bp_duration p = 0 then default_duration else bp_duration p),
                  bp_max_frames := (if bp_max_frames p = 0 then default_max_frames else bp_max_frames p),
                  bp_prefix := (if bp_prefix p = [] then default_burst_prefix else bp_prefix p),
                  bp_bytes := (if bp_bytes p \<le> 0 then max_burst_bytes else bp_bytes p)\<rparr>))"

function burst_count :: "burst_plan \<Rightarrow> int \<Rightarrow> int" where
  "burst_count p count =
     (if count < bp_max_frames p \<and> count * bp_interval p < bp_duration p
      then burst_count p (count + 1) else count)"
  by auto
termination
  by (relation "measure (\<lambda>(p, count). nat (bp_max_frames p - count))") auto

declare burst_count.simps [simp del]

definition burst_frame_count :: "burst_plan \<Rightarrow> int" where
  "burst_frame_count p = burst_count p 0"

section \<open>What a burst runs against\<close>

record 'w bworld =
  bw_world :: 'w
  bw_log :: "(string \<times> string) list"

type_synonym 'w fetcher = "string \<Rightarrow> 'w \<Rightarrow> (goerr + string) \<times> 'w"
type_synonym 'w destination = "string \<Rightarrow> string \<Rightarrow> 'w \<Rightarrow> (goerr + string) \<times> 'w"

record 'w burst_deps =
  bd_clock :: "'w clock option"
  bd_capturer :: "'w capturer option"
  bd_fetcher :: "'w fetcher option"
  bd_destination :: "'w destination option"

definition check_burst_deps :: "'w burst_deps \<Rightarrow> goerr option" where
  "check_burst_deps deps =
     (if bd_clock deps = None then Some (usage operation_burst ''a clock is required'')
      else if bd_capturer deps = None then Some (usage operation_burst ''a capturer is required'')
      else if bd_fetcher deps = None then Some (usage operation_burst ''a fetcher is required'')
      else if bd_destination deps = None then Some (usage operation_burst ''a destination is required'')
      else None)"

definition inside :: "('w \<Rightarrow> 'a \<times> 'w) \<Rightarrow> 'w bworld \<Rightarrow> 'a \<times> 'w bworld" where
  "inside f bw = (case f (bw_world bw) of (a, w) \<Rightarrow> (a, bw\<lparr>bw_world := w\<rparr>))"

definition store_in :: "'w destination \<Rightarrow> string \<Rightarrow> string \<Rightarrow> 'w bworld \<Rightarrow> (goerr + string) \<times> 'w bworld" where
  "store_in dest name payload bw =
     (case dest name payload (bw_world bw) of
        (r, w) \<Rightarrow> (r, \<lparr>bw_world = w, bw_log = bw_log bw @ [(name, payload)]\<rparr>))"

section \<open>One sample\<close>

record burst_state =
  bu_stored :: int
  bu_digest :: string
  bu_has_digest :: bool
  bu_path :: string
  bu_cell :: "picture option"

definition empty_state :: burst_state where
  "empty_state = \<lparr>bu_stored = 0, bu_digest = zero_digest, bu_has_digest = False, bu_path = [], bu_cell = None\<rparr>"

definition due_sample :: "int \<Rightarrow> int \<Rightarrow> status \<Rightarrow> sample" where
  "due_sample scheduled requested st =
     \<lparr>sm_scheduled = scheduled, sm_requested = requested, sm_completed = 0, sm_request_id = 0,
      sm_frame_seq = 0, sm_digest = zero_digest, sm_status = st, sm_path = [], sm_revision = 0,
      sm_error = []\<rparr>"

definition pad_left :: "nat \<Rightarrow> string \<Rightarrow> string" where
  "pad_left n s = replicate (n - length s) (CHR ''0'') @ s"

definition frame_name :: "string \<Rightarrow> nat \<Rightarrow> string" where
  "frame_name prefix index = prefix @ ''-'' @ pad_left 4 (dec_nat (index + 1)) @ ''.png''"

definition sheet_label :: "nat \<Rightarrow> sample \<Rightarrow> string" where
  "sheet_label index s =
     ''s'' @ pad_left 2 (dec_nat (index + 1)) @ '' '' @
     (if sm_status s = StatusDeduplicated then ''dup'' else status_string (sm_status s))"

record burst_sample =
  bo_sample :: sample
  bo_state :: burst_state
  bo_truncated :: bool
  bo_reason :: string

record codecs =
  cd_sha :: "string \<Rightarrow> string"
  cd_decode_png :: "string \<Rightarrow> string + picture"
  cd_encode_png :: "picture \<Rightarrow> string + string"

text \<open>The sample of \<open>fail\<close>: what is known of it so far, with the status and the text.\<close>

definition failed_with :: "string \<Rightarrow> sample \<Rightarrow> sample" where
  "failed_with text s = s\<lparr>sm_status := StatusFailed, sm_error := text\<rparr>"

definition store_sample ::
  "codecs \<Rightarrow> 'w destination \<Rightarrow> burst_plan \<Rightarrow> nat \<Rightarrow> string \<Rightarrow> burst_state \<Rightarrow> sample \<Rightarrow>
   'w bworld \<Rightarrow> burst_sample \<times> 'w bworld" where
  "store_sample cd dest plan index payload previous s bw =
     (let out = \<lparr>bo_sample = s, bo_state = previous, bo_truncated = False, bo_reason = []\<rparr>
      in if bu_has_digest previous \<and> sm_digest s = bu_digest previous
         then (out\<lparr>bo_sample := s\<lparr>sm_status := StatusDeduplicated, sm_path := bu_path previous\<rparr>\<rparr>, bw)
         else if bu_stored previous + int (length payload) > bp_bytes plan
         then (out\<lparr>bo_sample := failed_with ''capture at %s: %s'' s, bo_truncated := True,
                  bo_reason := ''storing %s would exceed the %d byte burst limit''\<rparr>, bw)
         else
           (case store_in dest (frame_name (bp_prefix plan) index) payload bw of
              (Inl _, bw1) \<Rightarrow> (out\<lparr>bo_sample := failed_with ''capture at %s: store %s: %v'' s\<rparr>, bw1)
            | (Inr path, bw1) \<Rightarrow>
                (out\<lparr>bo_sample := s\<lparr>sm_status := StatusCaptured, sm_path := path\<rparr>,
                     bo_state :=
                       \<lparr>bu_stored = bu_stored previous + int (length payload), bu_digest = sm_digest s,
                        bu_has_digest = True, bu_path = path,
                        bu_cell =
                          (if bp_contact_sheet plan
                           then (case sheet_cell_image (cd_decode_png cd) payload of
                                   Inr cell \<Rightarrow> Some cell | Inl _ \<Rightarrow> None)
                           else bu_cell previous)\<rparr>\<rparr>, bw1)))"

definition capture_sample ::
  "codecs \<Rightarrow> 'w capturer \<Rightarrow> 'w fetcher \<Rightarrow> 'w destination \<Rightarrow> ('w \<Rightarrow> string option) \<Rightarrow> burst_plan \<Rightarrow>
   nat \<Rightarrow> int \<Rightarrow> int \<Rightarrow> burst_state \<Rightarrow> 'w bworld \<Rightarrow> (goerr + burst_sample) \<times> 'w bworld" where
  "capture_sample cd capture fetch dest ctx_err plan index scheduled requested previous bw =
     (let s0 = due_sample scheduled requested StatusFailed;
          fail = (\<lambda>text s. Inr \<lparr>bo_sample = failed_with text s, bo_state = previous,
                              bo_truncated = False, bo_reason = []\<rparr>)
      in case inside capture bw of
           (Inl _, bw1) \<Rightarrow>
             (case ctx_err (bw_world bw1) of
                Some err \<Rightarrow> (Inl (PlainErr err), bw1)
              | None \<Rightarrow> (fail ''capture at %s: %v'' s0, bw1))
         | (Inr cap, bw1) \<Rightarrow>
             let s1 = s0\<lparr>sm_request_id := fr_capture_request_id (cp_frame cap),
                         sm_frame_seq := fr_sequence (cp_frame cap), sm_revision := cp_revision cap\<rparr>
             in case parse_digest (fr_digest (cp_frame cap)) of
                  Inl _ \<Rightarrow> (fail ''capture at %s: %v'' s1, bw1)
                | Inr d \<Rightarrow>
                    let s2 = s1\<lparr>sm_digest := d\<rparr>
                    in case inside (fetch (fr_path (cp_frame cap))) bw1 of
                         (Inl _, bw2) \<Rightarrow>
                           (case ctx_err (bw_world bw2) of
                              Some err \<Rightarrow> (Inl (PlainErr err), bw2)
                            | None \<Rightarrow> (fail ''capture at %s: fetch %s: %v'' s2, bw2))
                       | (Inr payload, bw2) \<Rightarrow>
                           if cd_sha cd payload \<noteq> d
                           then (fail ''capture at %s: %s hashes to %s but the controller reported %s'' s2, bw2)
                           else (case store_sample cd dest plan index payload previous s2 bw2 of
                                   (out, bw3) \<Rightarrow> (Inr out, bw3)))"

section \<open>The loop\<close>

fun missed_samples :: "int \<Rightarrow> int \<Rightarrow> nat \<Rightarrow> nat \<Rightarrow> sample list" where
  "missed_samples interval elapsed index 0 = []"
| "missed_samples interval elapsed index (Suc k) =
     (if int index * interval < elapsed
      then due_sample (int index * interval) 0 StatusMissed #
           missed_samples interval elapsed (Suc index) k
      else [])"

definition sheet_cell_of :: "burst_sample \<Rightarrow> picture option" where
  "sheet_cell_of out =
     (case sm_status (bo_sample out) of
        StatusCaptured \<Rightarrow> bu_cell (bo_state out)
      | StatusDeduplicated \<Rightarrow> bu_cell (bo_state out)
      | _ \<Rightarrow> None)"

definition sheet_frame_of :: "nat \<Rightarrow> sample \<Rightarrow> picture option \<Rightarrow> sheet_frame" where
  "sheet_frame_of index s cell = \<lparr>sf_label = sheet_label index s, sf_png = [], sf_image = cell\<rparr>"

record burst_run =
  br_frames :: "sample list"
  br_state :: burst_state
  br_sheet :: "sheet_frame list"
  br_truncated :: "string option"

definition take_sample :: "burst_plan \<Rightarrow> int \<Rightarrow> burst_sample \<Rightarrow> burst_run \<Rightarrow> burst_run" where
  "take_sample plan completed out run =
     run\<lparr>br_frames := br_frames run @ [(bo_sample out)\<lparr>sm_completed := completed\<rparr>],
         br_state := bo_state out,
         br_sheet := (if bp_contact_sheet plan
           then br_sheet run @ [sheet_frame_of (length (br_frames run)) (bo_sample out) (sheet_cell_of out)]
           else br_sheet run),
         br_truncated := (if bo_truncated out then Some (bo_reason out) else br_truncated run)\<rparr>"

definition skip_missed :: "burst_plan \<Rightarrow> nat \<Rightarrow> int \<Rightarrow> burst_run \<Rightarrow> burst_run" where
  "skip_missed plan due elapsed run =
     (let n = length (br_frames run);
          missed = missed_samples (bp_interval plan) elapsed n (due - n)
      in run\<lparr>br_frames := br_frames run @ missed,
             br_sheet := (if bp_contact_sheet plan
               then br_sheet run @ map2 (\<lambda>i s. sheet_frame_of i s None) [n..<n + length missed] missed
               else br_sheet run)\<rparr>)"

lemma skip_missed_longer: "length (br_frames run) \<le> length (br_frames (skip_missed plan due elapsed run))"
  by (simp add: skip_missed_def Let_def)

lemma take_sample_longer [simp]:
  "length (br_frames (take_sample plan t out run)) = Suc (length (br_frames run))"
  by (simp add: take_sample_def)

lemma burst_advances:
  assumes "length (br_frames run) < due"
  shows "due - length (br_frames (skip_missed plan due elapsed (take_sample plan t out run))) <
    due - length (br_frames run)"
  using assms skip_missed_longer [of "take_sample plan t out run" plan due elapsed] by simp

function burst_loop ::
  "codecs \<Rightarrow> 'w clock \<Rightarrow> 'w capturer \<Rightarrow> 'w fetcher \<Rightarrow> 'w destination \<Rightarrow> ('w \<Rightarrow> string option) \<Rightarrow>
   burst_plan \<Rightarrow> int \<Rightarrow> nat \<Rightarrow> burst_run \<Rightarrow> 'w bworld \<Rightarrow>
   ((burst_run \<times> goerr option) \<times> 'w bworld) option" where
  "burst_loop cd ck capture fetch dest ctx_err plan start due run bw =
     (let index = length (br_frames run)
      in if \<not> index < due then Some ((run, None), bw)
         else
           let scheduled = int index * bp_interval plan
           in case wait_until ck (start + scheduled) (bw_world bw) of
                None \<Rightarrow> None
              | Some (Some err, w1) \<Rightarrow> Some ((run, Some (PlainErr err)), bw\<lparr>bw_world := w1\<rparr>)
              | Some (None, w1) \<Rightarrow>
                  (case inside (ck_now ck) (bw\<lparr>bw_world := w1\<rparr>) of
                     (now, bw2) \<Rightarrow>
                       (case capture_sample cd capture fetch dest ctx_err plan index scheduled
                               (now - start) (br_state run) bw2 of
                          (Inl err, bw3) \<Rightarrow> Some ((run, Some err), bw3)
                        | (Inr out, bw3) \<Rightarrow>
                            (case inside (ck_now ck) bw3 of
                               (t, bw4) \<Rightarrow>
                                 let run1 = take_sample plan (t - start) out run
                                 in if bo_truncated out then Some ((run1, None), bw4)
                                    else (case inside (ck_now ck) bw4 of
                                            (t2, bw5) \<Rightarrow>
                                              burst_loop cd ck capture fetch dest ctx_err plan start due
                                                (skip_missed plan due (t2 - start) run1) bw5)))))"
  by pat_completeness auto
termination
  by (relation "measure (\<lambda>(cd, ck, capture, fetch, dest, ctx_err, plan, start, due, run, bw).
      due - length (br_frames run))") (simp_all add: burst_advances)

declare burst_loop.simps [simp del]


section \<open>The manifest\<close>

record burst_report =
  rpt_manifest :: string
  rpt_contact_sheet :: string
  rpt_interval :: int
  rpt_duration :: int
  rpt_frames :: "sample list"
  rpt_captured :: nat
  rpt_deduplicated :: nat
  rpt_missed :: nat
  rpt_failed :: nat
  rpt_bytes :: int
  rpt_truncated :: bool
  rpt_reason :: string

definition manifest_schema :: string where "manifest_schema = ''wlvision/burst/v1''"

record manifest =
  mf_schema :: string
  mf_interval :: int
  mf_duration :: int
  mf_bytes :: int
  mf_captured :: nat
  mf_deduplicated :: nat
  mf_missed :: nat
  mf_failed :: nat
  mf_truncated :: bool
  mf_reason :: string
  mf_frames :: "sample list"

definition build_manifest :: "burst_report \<Rightarrow> manifest" where
  "build_manifest r =
     \<lparr>mf_schema = manifest_schema, mf_interval = rpt_interval r, mf_duration = rpt_duration r,
      mf_bytes = rpt_bytes r, mf_captured = rpt_captured r, mf_deduplicated = rpt_deduplicated r,
      mf_missed = rpt_missed r, mf_failed = rpt_failed r, mf_truncated = rpt_truncated r,
      mf_reason = rpt_reason r, mf_frames = rpt_frames r\<rparr>"

record sample_json =
  sj_scheduled_ns :: int
  sj_requested_ns :: int
  sj_completed_ns :: int
  sj_request_id :: u64
  sj_frame_seq :: u64
  sj_digest :: string
  sj_status :: status
  sj_path :: string
  sj_revision :: u64
  sj_error :: string

record manifest_document =
  md_schema :: string
  md_interval_ns :: int
  md_duration_ns :: int
  md_bytes :: int
  md_captured :: nat
  md_deduplicated :: nat
  md_missed :: nat
  md_failed :: nat
  md_truncated :: bool
  md_reason :: string
  md_frames :: "sample_json list"

definition sample_document :: "sample \<Rightarrow> sample_json" where
  "sample_document s =
     \<lparr>sj_scheduled_ns = sm_scheduled s, sj_requested_ns = sm_requested s,
      sj_completed_ns = sm_completed s, sj_request_id = sm_request_id s,
      sj_frame_seq = sm_frame_seq s,
      sj_digest = (case sm_status s of
          StatusCaptured \<Rightarrow> digest_text (sm_digest s)
        | StatusDeduplicated \<Rightarrow> digest_text (sm_digest s)
        | _ \<Rightarrow> []),
      sj_status = sm_status s, sj_path = sm_path s, sj_revision = sm_revision s,
      sj_error = sm_error s\<rparr>"

definition manifest_document_of :: "manifest \<Rightarrow> manifest_document" where
  "manifest_document_of m =
     \<lparr>md_schema = mf_schema m, md_interval_ns = mf_interval m, md_duration_ns = mf_duration m,
      md_bytes = mf_bytes m, md_captured = mf_captured m, md_deduplicated = mf_deduplicated m,
      md_missed = mf_missed m, md_failed = mf_failed m, md_truncated = mf_truncated m,
      md_reason = mf_reason m, md_frames = map sample_document (mf_frames m)\<rparr>"

definition render_manifest :: "(manifest_document \<Rightarrow> string + string) \<Rightarrow> manifest \<Rightarrow> goerr + string" where
  "render_manifest marshal m =
     (case marshal (manifest_document_of m) of
        Inl err \<Rightarrow> Inl (PlainErr (''capture: rendering manifest: '' @ err))
      | Inr encoded \<Rightarrow> Inr (encoded @ newline))"

definition write_manifest ::
  "(manifest_document \<Rightarrow> string + string) \<Rightarrow> 'w destination option \<Rightarrow> manifest \<Rightarrow> 'w bworld \<Rightarrow>
   (goerr + string) \<times> 'w bworld" where
  "write_manifest marshal dest m bw =
     (case dest of
        None \<Rightarrow> (Inl (usage operation_manifest ''a destination is required''), bw)
      | Some d \<Rightarrow>
          (case render_manifest marshal m of
             Inl err \<Rightarrow> (Inl err, bw)
           | Inr encoded \<Rightarrow>
               (case store_in d burst_manifest_name encoded bw of
                  (Inl _, bw1) \<Rightarrow> (Inl (PlainErr ''capture: storing manifest: %w''), bw1)
                | (Inr path, bw1) \<Rightarrow> (Inr path, bw1))))"

section \<open>The burst\<close>

definition count_status :: "status \<Rightarrow> sample list \<Rightarrow> nat" where
  "count_status st frames = length (filter (\<lambda>s. sm_status s = st) frames)"

definition finalise :: "burst_plan \<Rightarrow> burst_run \<Rightarrow> burst_report" where
  "finalise plan run =
     \<lparr>rpt_manifest = [], rpt_contact_sheet = [], rpt_interval = bp_interval plan,
      rpt_duration = bp_duration plan, rpt_frames = br_frames run,
      rpt_captured = count_status StatusCaptured (br_frames run),
      rpt_deduplicated = count_status StatusDeduplicated (br_frames run),
      rpt_missed = count_status StatusMissed (br_frames run),
      rpt_failed = count_status StatusFailed (br_frames run),
      rpt_bytes = bu_stored (br_state run),
      rpt_truncated = (br_truncated run \<noteq> None),
      rpt_reason = (case br_truncated run of Some reason \<Rightarrow> reason | None \<Rightarrow> [])\<rparr>"

definition no_report :: burst_report where
  "no_report =
     \<lparr>rpt_manifest = [], rpt_contact_sheet = [], rpt_interval = 0, rpt_duration = 0, rpt_frames = [],
      rpt_captured = 0, rpt_deduplicated = 0, rpt_missed = 0, rpt_failed = 0, rpt_bytes = 0,
      rpt_truncated = False, rpt_reason = []\<rparr>"

definition store_sheet ::
  "codecs \<Rightarrow> 'w destination \<Rightarrow> burst_plan \<Rightarrow> sheet_frame list \<Rightarrow> 'w bworld \<Rightarrow>
   (goerr + string option) \<times> 'w bworld" where
  "store_sheet cd dest plan cells bw =
     (if cells \<noteq> [] \<and> bp_contact_sheet plan
      then (case contact_sheet (cd_decode_png cd) cells sheet_columns of
              Inl err \<Rightarrow> (Inl (PlainErr err), bw)
            | Inr sheet \<Rightarrow>
                (case cd_encode_png cd sheet of
                   Inl err \<Rightarrow> (Inl (PlainErr (''encode png: '' @ err)), bw)
                 | Inr encoded \<Rightarrow>
                     (case store_in dest burst_contact_sheet_name encoded bw of
                        (Inl err, bw1) \<Rightarrow> (Inl err, bw1)
                      | (Inr path, bw1) \<Rightarrow> (Inr (Some path), bw1))))
      else (Inr None, bw))"

definition publish_burst ::
  "codecs \<Rightarrow> (manifest_document \<Rightarrow> string + string) \<Rightarrow> 'w destination \<Rightarrow> burst_plan \<Rightarrow> burst_run \<Rightarrow>
   'w bworld \<Rightarrow> (burst_report \<times> goerr option) \<times> 'w bworld" where
  "publish_burst cd marshal dest plan run bw =
     (let report = finalise plan run
      in case store_sheet cd dest plan (br_sheet run) bw of
           (Inl err, bw1) \<Rightarrow> ((report, Some err), bw1)
         | (Inr sheet, bw1) \<Rightarrow>
             let report1 = (case sheet of Some path \<Rightarrow> report\<lparr>rpt_contact_sheet := path\<rparr> | None \<Rightarrow> report)
             in case write_manifest marshal (Some dest) (build_manifest report1) bw1 of
                  (Inl err, bw2) \<Rightarrow> ((report1, Some err), bw2)
                | (Inr path, bw2) \<Rightarrow> ((report1\<lparr>rpt_manifest := path\<rparr>, None), bw2))"

definition first_run :: burst_run where
  "first_run = \<lparr>br_frames = [], br_state = empty_state, br_sheet = [], br_truncated = None\<rparr>"

definition burst ::
  "codecs \<Rightarrow> (manifest_document \<Rightarrow> string + string) \<Rightarrow> ('w \<Rightarrow> string option) \<Rightarrow> burst_plan \<Rightarrow>
   'w burst_deps \<Rightarrow> 'w bworld \<Rightarrow> ((burst_report \<times> goerr option) \<times> 'w bworld) option" where
  "burst cd marshal ctx_err plan deps bw =
     (case burst_settings plan of
        Inl err \<Rightarrow> Some ((no_report, Some err), bw)
      | Inr settings \<Rightarrow>
          (case check_burst_deps deps of
             Some err \<Rightarrow> Some ((no_report, Some err), bw)
           | None \<Rightarrow>
               (case (bd_clock deps, bd_capturer deps, bd_fetcher deps, bd_destination deps) of
                  (Some ck, Some capture, Some fetch, Some dest) \<Rightarrow>
                    (case inside (ck_now ck) bw of
                       (start, bw1) \<Rightarrow>
                         (case burst_loop cd ck capture fetch dest ctx_err settings start
                                 (nat (burst_frame_count settings)) first_run bw1 of
                            None \<Rightarrow> None
                          | Some ((run, Some err), bw2) \<Rightarrow> Some ((finalise settings run, Some err), bw2)
                          | Some ((run, None), bw2) \<Rightarrow>
                              Some (publish_burst cd marshal dest settings run bw2)))
                | _ \<Rightarrow> None)))"

section \<open>The bounds of a plan\<close>

definition plan_ok :: "burst_plan \<Rightarrow> bool" where
  "plan_ok p \<longleftrightarrow> min_interval \<le> bp_interval p \<and> 0 < bp_duration p \<and> bp_duration p \<le> max_duration \<and>
     0 < bp_max_frames p \<and> bp_max_frames p \<le> max_frames \<and> 0 < bp_bytes p \<and> bp_prefix p \<noteq> []"

lemma burst_settings_ok:
  "burst_settings p = Inr s \<Longrightarrow> plan_ok s \<and> (bp_bytes p \<le> 0 \<longrightarrow> bp_bytes s = max_burst_bytes)"
  by (auto simp: burst_settings_def plan_ok_def burst_bounds default_burst_prefix_def split: if_splits)

lemma burst_count_bounds:
  assumes "count \<le> bp_max_frames p"
    and "0 < count \<Longrightarrow> (count - 1) * bp_interval p < bp_duration p"
  shows "count \<le> burst_count p count \<and> burst_count p count \<le> bp_max_frames p \<and>
    (0 < burst_count p count \<longrightarrow> (burst_count p count - 1) * bp_interval p < bp_duration p) \<and>
    (burst_count p count < bp_max_frames p \<longrightarrow> bp_duration p \<le> burst_count p count * bp_interval p)"
  using assms
proof (induction p count rule: burst_count.induct)
  case (1 p count)
  show ?case
  proof (cases "count < bp_max_frames p \<and> count * bp_interval p < bp_duration p")
    case True
    then show ?thesis using 1 by (subst (1 2 3 4 5 6) burst_count.simps) auto
  next
    case False
    then have "burst_count p count = count" by (subst burst_count.simps) auto
    then show ?thesis using False 1 by auto
  qed
qed

text \<open>As many samples as fit: within the cap, due before the end, and no fewer.\<close>

lemma burst_frame_count_spec:
  assumes "plan_ok p"
  shows "0 < burst_frame_count p" and "burst_frame_count p \<le> bp_max_frames p"
    and "(burst_frame_count p - 1) * bp_interval p < bp_duration p"
    and "burst_frame_count p < bp_max_frames p \<Longrightarrow> bp_duration p \<le> burst_frame_count p * bp_interval p"
proof -
  have first: "burst_count p 0 = burst_count p 1"
    using assms by (subst burst_count.simps) (simp add: plan_ok_def)
  have "1 \<le> burst_count p 1 \<and> burst_count p 1 \<le> bp_max_frames p \<and>
    (0 < burst_count p 1 \<longrightarrow> (burst_count p 1 - 1) * bp_interval p < bp_duration p) \<and>
    (burst_count p 1 < bp_max_frames p \<longrightarrow> bp_duration p \<le> burst_count p 1 * bp_interval p)"
    using assms by (intro burst_count_bounds) (auto simp: plan_ok_def)
  then show "0 < burst_frame_count p" "burst_frame_count p \<le> bp_max_frames p"
    "(burst_frame_count p - 1) * bp_interval p < bp_duration p"
    "burst_frame_count p < bp_max_frames p \<Longrightarrow> bp_duration p \<le> burst_frame_count p * bp_interval p"
    by (auto simp: burst_frame_count_def first)
qed


section \<open>What a burst records\<close>

lemma inside_log [simp]: "inside f bw = (a, bw') \<Longrightarrow> bw_log bw' = bw_log bw"
  by (auto simp: inside_def split: prod.splits)

lemma store_in_log: "store_in d n p bw = (r, bw') \<Longrightarrow> bw_log bw' = bw_log bw @ [(n, p)]"
  by (auto simp: store_in_def split: prod.splits)

lemma failed_with_sel [simp]:
  "sm_status (failed_with t s) = StatusFailed" "sm_scheduled (failed_with t s) = sm_scheduled s"
  by (simp_all add: failed_with_def)

lemma due_sample_sel [simp]:
  "sm_scheduled (due_sample a b st) = a" "sm_status (due_sample a b st) = st"
  by (simp_all add: due_sample_def)

text \<open>The outcome of one sample, by its status.\<close>

definition sample_outcome ::
  "codecs \<Rightarrow> burst_plan \<Rightarrow> nat \<Rightarrow> burst_state \<Rightarrow> (string \<times> string) list \<Rightarrow> (string \<times> string) list \<Rightarrow>
   burst_sample \<Rightarrow> bool" where
  "sample_outcome cd plan index previous lg lg' out \<longleftrightarrow>
     (case sm_status (bo_sample out) of
        StatusMissed \<Rightarrow> False
      | StatusFailed \<Rightarrow> bo_state out = previous
      | StatusDeduplicated \<Rightarrow>
          bo_state out = previous \<and> bu_has_digest previous \<and> sm_path (bo_sample out) = bu_path previous \<and>
          sm_digest (bo_sample out) = bu_digest previous
      | StatusCaptured \<Rightarrow>
          (\<exists>payload. lg' = lg @ [(frame_name (bp_prefix plan) index, payload)] \<and>
             cd_sha cd payload = sm_digest (bo_sample out) \<and>
             bu_stored (bo_state out) = bu_stored previous + int (length payload) \<and>
             bu_stored (bo_state out) \<le> bp_bytes plan) \<and>
          bu_has_digest (bo_state out) \<and> bu_path (bo_state out) = sm_path (bo_sample out) \<and>
          bu_digest (bo_state out) = sm_digest (bo_sample out)) \<and>
     (lg' = lg \<or> (\<exists>payload. lg' = lg @ [(frame_name (bp_prefix plan) index, payload)]))"

lemma store_sample_outcome:
  assumes "store_sample cd dest plan index payload previous s bw = (out, bw')"
    and "cd_sha cd payload = sm_digest s"
  shows "sample_outcome cd plan index previous (bw_log bw) (bw_log bw') out \<and>
    sm_scheduled (bo_sample out) = sm_scheduled s"
proof -
  consider "bu_has_digest previous \<and> sm_digest s = bu_digest previous"
    | "\<not> (bu_has_digest previous \<and> sm_digest s = bu_digest previous)"
      "bu_stored previous + int (length payload) > bp_bytes plan"
    | "\<not> (bu_has_digest previous \<and> sm_digest s = bu_digest previous)"
      "\<not> bu_stored previous + int (length payload) > bp_bytes plan"
    by blast
  then show ?thesis
  proof cases
    case 3
    then show ?thesis
      using assms
      by (auto simp: store_sample_def Let_def sample_outcome_def split: prod.splits sum.splits
          dest!: store_in_log)
  qed (use assms in \<open>auto simp: store_sample_def Let_def sample_outcome_def\<close>)
qed

lemma failed_outcome:
  "sample_outcome cd plan index previous lg lg
     \<lparr>bo_sample = failed_with t s, bo_state = previous, bo_truncated = b, bo_reason = r\<rparr>"
  by (simp add: sample_outcome_def)

lemma capture_sample_outcome:
  assumes "capture_sample cd capture fetch dest ctx_err plan index scheduled requested previous bw =
    (Inr out, bw')"
  shows "sample_outcome cd plan index previous (bw_log bw) (bw_log bw') out \<and>
    sm_scheduled (bo_sample out) = scheduled"
proof -
  obtain answer bw1 where cap: "inside capture bw = (answer, bw1)" by fastforce
  then have log1: "bw_log bw1 = bw_log bw" by (rule inside_log)
  show ?thesis
  proof (cases answer)
    case (Inl err)
    then show ?thesis
      using assms cap log1
      by (auto simp: capture_sample_def Let_def failed_outcome split: option.splits)
  next
    case (Inr c)
    note answer = Inr
    show ?thesis
    proof (cases "parse_digest (fr_digest (cp_frame c))")
      case (Inl err)
      then show ?thesis
        using assms cap log1 answer by (auto simp: capture_sample_def Let_def failed_outcome)
    next
      case (Inr d)
      obtain got bw2 where got: "inside (fetch (fr_path (cp_frame c))) bw1 = (got, bw2)" by fastforce
      then have log2: "bw_log bw2 = bw_log bw" using log1 inside_log by metis
      show ?thesis
      proof (cases "\<exists>payload. got = Inr payload \<and> cd_sha cd payload = d")
        case False
        then show ?thesis
          using assms cap got log2 answer Inr
          by (cases got) (auto simp: capture_sample_def Let_def failed_outcome split: option.splits)
      next
        case True
        then obtain payload where payload: "got = Inr payload" "cd_sha cd payload = d" by blast
        let ?s = "(due_sample scheduled requested StatusFailed)
            \<lparr>sm_request_id := fr_capture_request_id (cp_frame c), sm_frame_seq := fr_sequence (cp_frame c),
             sm_revision := cp_revision c, sm_digest := d\<rparr>"
        have "store_sample cd dest plan index payload previous ?s bw2 = (out, bw')"
          using assms cap got answer Inr payload
          by (auto simp: capture_sample_def Let_def split: prod.splits)
        from store_sample_outcome [OF this] show ?thesis using payload log2 by simp
      qed
    qed
  qed
qed

lemma capture_sample_fatal:
  assumes "capture_sample cd capture fetch dest ctx_err plan index scheduled requested previous bw =
    (Inl err, bw')"
  shows "bw_log bw' = bw_log bw"
  using assms
  by (auto simp: capture_sample_def Let_def split: prod.splits sum.splits option.splits if_splits
      dest!: inside_log)

section \<open>The invariant of the loop\<close>

definition frame_ok ::
  "codecs \<Rightarrow> burst_plan \<Rightarrow> (string \<times> string) list \<Rightarrow> sample list \<Rightarrow> nat \<Rightarrow> bool" where
  "frame_ok cd plan lg frames i \<longleftrightarrow>
     sm_scheduled (frames ! i) = int i * bp_interval plan \<and>
     (case sm_status (frames ! i) of
        StatusCaptured \<Rightarrow> \<exists>payload. (frame_name (bp_prefix plan) i, payload) \<in> set lg \<and>
          cd_sha cd payload = sm_digest (frames ! i)
      | StatusDeduplicated \<Rightarrow> \<exists>j < i. sm_status (frames ! j) = StatusCaptured \<and>
          sm_path (frames ! i) = sm_path (frames ! j) \<and> sm_digest (frames ! i) = sm_digest (frames ! j)
      | _ \<Rightarrow> True)"

definition state_ok :: "burst_plan \<Rightarrow> sample list \<Rightarrow> burst_state \<Rightarrow> bool" where
  "state_ok plan frames st \<longleftrightarrow>
     bu_stored st \<le> bp_bytes plan \<and>
     (bu_has_digest st \<longrightarrow> (\<exists>j < length frames. sm_status (frames ! j) = StatusCaptured \<and>
        bu_path st = sm_path (frames ! j) \<and> bu_digest st = sm_digest (frames ! j)))"

definition burst_inv :: "codecs \<Rightarrow> burst_plan \<Rightarrow> nat \<Rightarrow> burst_run \<Rightarrow> (string \<times> string) list \<Rightarrow> bool" where
  "burst_inv cd plan due run lg \<longleftrightarrow>
     length (br_frames run) \<le> due \<and>
     (\<forall>i < length (br_frames run). frame_ok cd plan lg (br_frames run) i) \<and>
     state_ok plan (br_frames run) (br_state run) \<and>
     fst ` set lg \<subseteq> range (frame_name (bp_prefix plan))"

lemma frame_ok_mono:
  assumes "frame_ok cd plan lg frames i" and "i < length frames" and "set lg \<subseteq> set lg'"
  shows "frame_ok cd plan lg' (frames @ later) i"
  using assms by (fastforce simp: frame_ok_def nth_append split: status.splits)

lemma state_ok_append: "state_ok plan frames st \<Longrightarrow> state_ok plan (frames @ later) st"
  unfolding state_ok_def by (metis length_append nth_append trans_less_add1)

lemma take_sample_inv:
  assumes inv: "burst_inv cd plan due run lg" and room: "length (br_frames run) < due"
    and out: "sample_outcome cd plan (length (br_frames run)) (br_state run) lg lg' out"
    and sch: "sm_scheduled (bo_sample out) = int (length (br_frames run)) * bp_interval plan"
  shows "burst_inv cd plan due (take_sample plan t out run) lg'"
proof -
  let ?n = "length (br_frames run)"
  let ?s = "(bo_sample out)\<lparr>sm_completed := t\<rparr>"
  have frames: "br_frames (take_sample plan t out run) = br_frames run @ [?s]"
    by (simp add: take_sample_def)
  have state: "br_state (take_sample plan t out run) = bo_state out" by (simp add: take_sample_def)
  have sub: "set lg \<subseteq> set lg'" using out by (auto simp: sample_outcome_def)
  have stored: "state_ok plan (br_frames run) (br_state run)" using inv by (simp add: burst_inv_def)
  have "frame_ok cd plan lg' (br_frames run @ [?s]) i" if "i < Suc ?n" for i
  proof (cases "i < ?n")
    case True
    then show ?thesis
      using inv sub by (intro frame_ok_mono [where lg = lg]) (simp_all add: burst_inv_def)
  next
    case False
    then have i: "i = ?n" using that by simp
    show ?thesis
    proof (cases "sm_status (bo_sample out)")
      case StatusCaptured
      then show ?thesis using out sch by (auto simp: frame_ok_def i sample_outcome_def)
    next
      case StatusDeduplicated
      then obtain j where "j < ?n" "sm_status (br_frames run ! j) = StatusCaptured"
          "sm_path (bo_sample out) = sm_path (br_frames run ! j)"
          "sm_digest (bo_sample out) = sm_digest (br_frames run ! j)"
        using out stored by (auto simp: sample_outcome_def state_ok_def)
      then show ?thesis
        using StatusDeduplicated sch by (auto simp: frame_ok_def i nth_append intro!: exI [of _ j])
    qed (use sch in \<open>simp_all add: frame_ok_def i\<close>)
  qed
  moreover have "state_ok plan (br_frames run @ [?s]) (bo_state out)"
  proof (cases "sm_status (bo_sample out) = StatusCaptured")
    case True
    then show ?thesis
      using out by (auto simp: sample_outcome_def state_ok_def intro!: exI [of _ ?n])
  next
    case False
    then have "bo_state out = br_state run"
      using out by (auto simp: sample_outcome_def split: status.splits)
    then show ?thesis using state_ok_append [OF stored] by simp
  qed
  moreover have "fst ` set lg' \<subseteq> range (frame_name (bp_prefix plan))"
  proof -
    have "lg' = lg \<or> (\<exists>payload. lg' = lg @ [(frame_name (bp_prefix plan) ?n, payload)])"
      using out by (simp add: sample_outcome_def)
    then show ?thesis using inv by (elim disjE exE) (simp_all add: burst_inv_def)
  qed
  ultimately show ?thesis using room by (simp add: burst_inv_def frames state)
qed

lemma missed_samples_spec:
  "length (missed_samples iv elapsed n k) \<le> k \<and>
   (\<forall>i < length (missed_samples iv elapsed n k).
      missed_samples iv elapsed n k ! i = due_sample (int (n + i) * iv) 0 StatusMissed)"
proof (induction k arbitrary: n)
  case (Suc k)
  show ?case
    using Suc [of "Suc n"] by (auto simp: nth_Cons' algebra_simps)
qed simp

lemma skip_missed_inv:
  assumes "burst_inv cd plan due run lg"
  shows "burst_inv cd plan due (skip_missed plan due elapsed run) lg"
proof -
  let ?n = "length (br_frames run)"
  define missed where "missed = missed_samples (bp_interval plan) elapsed ?n (due - ?n)"
  have frames: "br_frames (skip_missed plan due elapsed run) = br_frames run @ missed"
    "br_state (skip_missed plan due elapsed run) = br_state run"
    by (simp_all add: skip_missed_def Let_def missed_def)
  have len: "length missed \<le> due - ?n"
    and at: "\<And>i. i < length missed \<Longrightarrow> missed ! i = due_sample (int (?n + i) * bp_interval plan) 0 StatusMissed"
    using missed_samples_spec [of "bp_interval plan" elapsed ?n "due - ?n"] by (simp_all add: missed_def)
  have "frame_ok cd plan lg (br_frames run @ missed) i" if "i < ?n + length missed" for i
  proof (cases "i < ?n")
    case True
    then show ?thesis
      using assms by (intro frame_ok_mono [where lg = lg]) (simp_all add: burst_inv_def)
  next
    case False
    then show ?thesis using at [of "i - ?n"] that by (simp add: frame_ok_def nth_append)
  qed
  then show ?thesis
    using assms len state_ok_append by (auto simp: burst_inv_def frames)
qed

lemma burst_loop_inv:
  assumes "burst_loop cd ck capture fetch dest ctx_err plan start due run bw = Some ((run', err), bw')"
    and "burst_inv cd plan due run (bw_log bw)"
  shows "burst_inv cd plan due run' (bw_log bw')"
  using assms
proof (induction cd ck capture fetch dest ctx_err plan start due run bw rule: burst_loop.induct)
  case (1 cd ck capture fetch dest ctx_err plan start due run bw)
  show ?case
  proof (cases "length (br_frames run) < due")
    case False
    then show ?thesis using "1.prems" by (subst (asm) burst_loop.simps) simp
  next
    case True
    let ?sch = "int (length (br_frames run)) * bp_interval plan"
    obtain res w1 where wt: "wait_until ck (start + ?sch) (bw_world bw) = Some (res, w1)"
      using "1.prems"(1) True
      by (subst (asm) burst_loop.simps, cases "wait_until ck (start + ?sch) (bw_world bw)")
        (auto simp: Let_def)
    show ?thesis
    proof (cases res)
      case (Some e)
      then show ?thesis using "1.prems" True wt by (subst (asm) burst_loop.simps) auto
    next
      case None
      obtain now bw2 where now: "inside (ck_now ck) (bw\<lparr>bw_world := w1\<rparr>) = (now, bw2)" by fastforce
      then have log2: "bw_log bw2 = bw_log bw" using inside_log by fastforce
      obtain r bw3 where cap: "capture_sample cd capture fetch dest ctx_err plan (length (br_frames run)) ?sch
          (now - start) (br_state run) bw2 = (r, bw3)" by fastforce
      show ?thesis
      proof (cases r)
        case (Inl e)
        then have "bw_log bw3 = bw_log bw2" using cap by (auto dest: capture_sample_fatal)
        then show ?thesis
          using "1.prems" True wt None now cap Inl log2
          by (subst (asm) burst_loop.simps) (auto simp: Let_def)
      next
        case (Inr out)
        obtain t bw4 where t: "inside (ck_now ck) bw3 = (t, bw4)" by fastforce
        obtain t2 bw5 where t2: "inside (ck_now ck) bw4 = (t2, bw5)" by fastforce
        have lg: "bw_log bw4 = bw_log bw3" "bw_log bw5 = bw_log bw3"
          using inside_log t t2 by metis+
        have "sample_outcome cd plan (length (br_frames run)) (br_state run) (bw_log bw) (bw_log bw3) out \<and>
            sm_scheduled (bo_sample out) = ?sch"
          using capture_sample_outcome [of cd capture fetch dest ctx_err plan _ ?sch] cap Inr log2 by metis
        then have step: "burst_inv cd plan due (take_sample plan (t - start) out run) (bw_log bw3)"
          using "1.prems"(2) True by (intro take_sample_inv) auto
        show ?thesis
        proof (cases "bo_truncated out")
          case True
          with step show ?thesis
            using "1.prems"(1) \<open>length (br_frames run) < due\<close> wt None now cap Inr t lg
            by (subst (asm) burst_loop.simps) (auto simp: Let_def)
        next
          case False
          have "burst_loop cd ck capture fetch dest ctx_err plan start due
              (skip_missed plan due (t2 - start) (take_sample plan (t - start) out run)) bw5 =
              Some ((run', err), bw')"
            using "1.prems"(1) True wt None now cap Inr t t2 False
            by (subst (asm) burst_loop.simps) (simp add: Let_def)
          moreover have "burst_inv cd plan due
              (skip_missed plan due (t2 - start) (take_sample plan (t - start) out run)) (bw_log bw5)"
            using skip_missed_inv [OF step] lg by simp
          ultimately show ?thesis
            using "1.IH" True wt None now cap Inr t t2 False by fastforce
        qed
      qed
    qed
  qed
qed


section \<open>What a burst returns\<close>

lemma count_status_total:
  "count_status StatusCaptured xs + count_status StatusDeduplicated xs + count_status StatusMissed xs +
   count_status StatusFailed xs = length xs"
proof (induction xs)
  case (Cons x xs)
  then show ?case by (cases "sm_status x") (simp_all add: count_status_def)
qed (simp add: count_status_def)

lemma burst_inv_first:
  assumes "plan_ok plan" and "bw_log bw = []"
  shows "burst_inv cd plan due first_run (bw_log bw)"
  using assms by (simp add: burst_inv_def first_run_def empty_state_def state_ok_def plan_ok_def)

lemma store_sheet_log:
  assumes "store_sheet cd dest plan cells bw = (r, bw')"
  shows "bw_log bw' = bw_log bw \<or> (\<exists>png. bw_log bw' = bw_log bw @ [(burst_contact_sheet_name, png)])"
  using assms
  by (auto simp: store_sheet_def split: if_splits sum.splits prod.splits dest!: store_in_log)

lemma write_manifest_log:
  assumes "write_manifest marshal (Some dest) m bw = (r, bw')"
  shows "(case r of
      Inr _ \<Rightarrow> \<exists>encoded. render_manifest marshal m = Inr encoded \<and>
        bw_log bw' = bw_log bw @ [(burst_manifest_name, encoded)]
    | Inl _ \<Rightarrow> bw_log bw' = bw_log bw \<or> (\<exists>encoded. render_manifest marshal m = Inr encoded \<and>
        bw_log bw' = bw_log bw @ [(burst_manifest_name, encoded)]))"
  using assms
  by (auto simp: write_manifest_def split: sum.splits prod.splits dest!: store_in_log)

text \<open>A log in which the manifest, if it is there at all, comes last and is the report's.\<close>

definition manifest_last ::
  "(manifest_document \<Rightarrow> string + string) \<Rightarrow> burst_report \<Rightarrow> goerr option \<Rightarrow> (string \<times> string) list \<Rightarrow> bool" where
  "manifest_last marshal report err lg \<longleftrightarrow>
     (\<exists>front back. lg = front @ back \<and> burst_manifest_name \<notin> fst ` set front \<and>
        (back = [] \<or> (\<exists>encoded. back = [(burst_manifest_name, encoded)] \<and>
           render_manifest marshal (build_manifest report) = Inr encoded)) \<and>
        (err = None \<longrightarrow> back \<noteq> []))"

lemma manifest_last_none:
  "burst_manifest_name \<notin> fst ` set lg \<Longrightarrow> err \<noteq> None \<Longrightarrow> manifest_last marshal report err lg"
  unfolding manifest_last_def by (intro exI [of _ lg] exI [of _ "[]"]) auto

lemma manifest_last_some:
  "burst_manifest_name \<notin> fst ` set lg \<Longrightarrow> render_manifest marshal (build_manifest report) = Inr enc \<Longrightarrow>
   manifest_last marshal report err (lg @ [(burst_manifest_name, enc)])"
  unfolding manifest_last_def by (intro exI [of _ lg] exI [of _ "[(burst_manifest_name, enc)]"]) auto

lemma frame_name_not_manifest: "burst_manifest_name \<notin> range (frame_name prefix)"
proof
  assume "burst_manifest_name \<in> range (frame_name prefix)"
  then obtain i where "burst_manifest_name = frame_name prefix i" by blast
  then have "last burst_manifest_name = last (frame_name prefix i)" by simp
  then show False by (simp add: burst_manifest_name_def frame_name_def)
qed

lemma build_manifest_paths [simp]:
  "build_manifest (r\<lparr>rpt_manifest := p\<rparr>) = build_manifest r"
  "build_manifest (r\<lparr>rpt_contact_sheet := p\<rparr>) = build_manifest r"
  by (simp_all add: build_manifest_def)

text \<open>The parts of a report that are fixed once the loop has ended.\<close>

definition same_account :: "burst_report \<Rightarrow> burst_report \<Rightarrow> bool" where
  "same_account r q \<longleftrightarrow> rpt_frames r = rpt_frames q \<and> rpt_bytes r = rpt_bytes q \<and>
     rpt_captured r = rpt_captured q \<and> rpt_deduplicated r = rpt_deduplicated q \<and>
     rpt_missed r = rpt_missed q \<and> rpt_failed r = rpt_failed q"

lemma publish_burst_log:
  assumes "publish_burst cd marshal dest plan run bw = ((report, err), bw')"
    and "fst ` set (bw_log bw) \<subseteq> range (frame_name prefix)"
  shows "same_account report (finalise plan run)" and "set (bw_log bw) \<subseteq> set (bw_log bw')"
    and "manifest_last marshal report err (bw_log bw')"
proof -
  obtain sheet bw1 where sheet: "store_sheet cd dest plan (br_sheet run) bw = (sheet, bw1)" by fastforce
  have log1: "bw_log bw1 = bw_log bw \<or> (\<exists>png. bw_log bw1 = bw_log bw @ [(burst_contact_sheet_name, png)])"
    using store_sheet_log [OF sheet] .
  have "burst_manifest_name \<notin> fst ` set (bw_log bw)"
    using assms(2) frame_name_not_manifest by blast
  then have front: "burst_manifest_name \<notin> fst ` set (bw_log bw1)"
    using log1 by (auto simp: burst_manifest_name_def burst_contact_sheet_name_def)
  have sub: "set (bw_log bw) \<subseteq> set (bw_log bw1)" using log1 by auto
  have "same_account report (finalise plan run) \<and> set (bw_log bw) \<subseteq> set (bw_log bw') \<and>
      manifest_last marshal report err (bw_log bw')"
  proof (cases sheet)
    case (Inl e)
    then show ?thesis
      using assms(1) sheet front sub
      by (auto simp: publish_burst_def Let_def same_account_def intro: manifest_last_none)
  next
    case (Inr s)
    define report1 where "report1 = (case s of
        Some path \<Rightarrow> (finalise plan run)\<lparr>rpt_contact_sheet := path\<rparr> | None \<Rightarrow> finalise plan run)"
    obtain r bw2 where wr: "write_manifest marshal (Some dest) (build_manifest report1) bw1 = (r, bw2)"
      by fastforce
    have acc: "same_account report1 (finalise plan run)"
      by (auto simp: report1_def same_account_def split: option.splits)
    have out: "bw' = bw2" "(\<exists>e. r = Inl e \<and> report = report1 \<and> err = Some e) \<or>
        (\<exists>path. r = Inr path \<and> report = report1\<lparr>rpt_manifest := path\<rparr> \<and> err = None)"
      using assms(1) sheet Inr wr
      by (auto simp: publish_burst_def Let_def report1_def split: sum.splits)
    have "bw_log bw2 = bw_log bw1 \<and> err \<noteq> None \<or>
        (\<exists>enc. render_manifest marshal (build_manifest report1) = Inr enc \<and>
          bw_log bw2 = bw_log bw1 @ [(burst_manifest_name, enc)])"
      using write_manifest_log [OF wr] out by (cases r) auto
    moreover have "build_manifest report = build_manifest report1" using out by auto
    ultimately have "manifest_last marshal report err (bw_log bw2) \<and> set (bw_log bw1) \<subseteq> set (bw_log bw2)"
      using manifest_last_none [OF front] manifest_last_some [OF front] by (elim disjE exE) auto
    moreover have "same_account report (finalise plan run)" using out acc by (auto simp: same_account_def)
    ultimately show ?thesis using out sub by auto
  qed
  then show "same_account report (finalise plan run)" "set (bw_log bw) \<subseteq> set (bw_log bw')"
    "manifest_last marshal report err (bw_log bw')" by blast+
qed

lemma burst_cases:
  assumes "burst cd marshal ctx_err plan deps bw = Some ((report, err), bw')"
    and "bw_log bw = []" and "burst_settings plan = Inr settings"
  obtains (refused) "report = no_report" "err \<noteq> None" "bw_log bw' = []"
  | (ran) run lg where "burst_inv cd settings (nat (burst_frame_count settings)) run lg"
      "same_account report (finalise settings run)" "set lg \<subseteq> set (bw_log bw')"
      "manifest_last marshal report err (bw_log bw')"
proof (cases "check_burst_deps deps")
  case (Some e)
  then have "err = Some e \<and> report = no_report \<and> bw' = bw" using assms by (simp add: burst_def)
  then show thesis using assms(2) by (intro refused) simp_all
next
  case None
  obtain ck capture fetch dest where deps: "bd_clock deps = Some ck" "bd_capturer deps = Some capture"
      "bd_fetcher deps = Some fetch" "bd_destination deps = Some dest"
    using None by (auto simp: check_burst_deps_def split: if_splits)
  obtain start bw1 where start: "inside (ck_now ck) bw = (start, bw1)" by fastforce
  have log1: "bw_log bw1 = []" using start assms(2) by (auto dest: inside_log)
  obtain run e bw2 where loop: "burst_loop cd ck capture fetch dest ctx_err settings start
      (nat (burst_frame_count settings)) first_run bw1 = Some ((run, e), bw2)"
    using assms(1,3) None deps start
    by (auto simp: burst_def split: option.splits prod.splits)
  have inv: "burst_inv cd settings (nat (burst_frame_count settings)) run (bw_log bw2)"
    using burst_settings_ok [OF assms(3)] log1
    by (intro burst_loop_inv [OF loop] burst_inv_first) auto
  have front: "fst ` set (bw_log bw2) \<subseteq> range (frame_name (bp_prefix settings))"
    using inv by (simp add: burst_inv_def)
  show thesis
  proof (cases e)
    case (Some x)
    then have "report = finalise settings run" "err = Some x" "bw' = bw2"
      using assms(1,3) None deps start loop by (auto simp: burst_def)
    moreover have "burst_manifest_name \<notin> fst ` set (bw_log bw2)"
      using front frame_name_not_manifest by blast
    ultimately show thesis
      by (intro ran [OF inv]) (auto simp: same_account_def intro: manifest_last_none)
  next
    case None
    then have "publish_burst cd marshal dest settings run bw2 = ((report, err), bw')"
      using assms(1,3) \<open>check_burst_deps deps = None\<close> deps start loop by (auto simp: burst_def)
    from publish_burst_log [OF this front] show thesis by (intro ran [OF inv]) auto
  qed
qed

lemma burst_inv_account:
  assumes "burst_inv cd settings (nat (burst_frame_count settings)) run lg" and "plan_ok settings"
    and "same_account report (finalise settings run)" and "set lg \<subseteq> set lg'"
  shows "length (rpt_frames report) \<le> 120 \<and>
    rpt_captured report + rpt_deduplicated report + rpt_missed report + rpt_failed report =
      length (rpt_frames report) \<and>
    rpt_bytes report \<le> bp_bytes settings \<and>
    (\<forall>i < length (rpt_frames report). frame_ok cd settings lg' (rpt_frames report) i \<and>
       sm_scheduled (rpt_frames report ! i) < bp_duration settings)"
proof -
  have frames: "rpt_frames report = br_frames run" "rpt_bytes report = bu_stored (br_state run)"
    using assms(3) by (simp_all add: same_account_def finalise_def)
  have counts: "rpt_captured report + rpt_deduplicated report + rpt_missed report + rpt_failed report =
      length (br_frames run)"
    using assms(3) count_status_total [of "br_frames run"] by (simp add: same_account_def finalise_def)
  have n: "length (br_frames run) \<le> nat (burst_frame_count settings)"
    using assms(1) by (simp add: burst_inv_def)
  have count: "burst_frame_count settings \<le> bp_max_frames settings" "bp_max_frames settings \<le> 120"
    using burst_frame_count_spec(2) [OF assms(2)] assms(2) by (simp_all add: plan_ok_def max_frames_def)
  have ok: "frame_ok cd settings lg' (br_frames run) i" if "i < length (br_frames run)" for i
    using assms(1,4) that frame_ok_mono [of cd settings lg "br_frames run" i lg' "[]"]
    by (simp add: burst_inv_def)
  have due: "sm_scheduled (br_frames run ! i) < bp_duration settings" if "i < length (br_frames run)" for i
  proof -
    have "int i \<le> burst_frame_count settings - 1" using that n by linarith
    then have "int i * bp_interval settings \<le> (burst_frame_count settings - 1) * bp_interval settings"
      using assms(2) by (intro mult_right_mono) (auto simp: plan_ok_def burst_bounds)
    then show ?thesis
      using burst_frame_count_spec(3) [OF assms(2)] ok [OF that] by (simp add: frame_ok_def)
  qed
  have stored: "bu_stored (br_state run) \<le> bp_bytes settings"
    using assms(1) by (simp add: burst_inv_def state_ok_def)
  show ?thesis using counts n count ok due stored by (simp add: frames)
qed




definition demo_codecs :: codecs where
  "demo_codecs = \<lparr>cd_sha = (\<lambda>_. replicate 32 (CHR ''d'')), cd_decode_png = demo_png,
     cd_encode_png = (\<lambda>_. Inr ''sheet'')\<rparr>"

definition demo_burst_deps :: "int \<Rightarrow> ticks burst_deps" where
  "demo_burst_deps d =
     \<lparr>bd_clock = Some real_clock, bd_capturer = Some (demo_capture d),
      bd_fetcher = Some (\<lambda>name w. (Inr ''png'', w)),
      bd_destination = Some (\<lambda>name payload w. (Inr (''/host/'' @ name), w))\<rparr>"

definition demo_plan :: burst_plan where
  "demo_plan = \<lparr>bp_interval = 20 * millisecond, bp_duration = 100 * millisecond, bp_max_frames = 0,
     bp_prefix = [], bp_contact_sheet = False, bp_bytes = 0\<rparr>"

definition demo_marshal :: "manifest_document \<Rightarrow> string + string" where
  "demo_marshal doc = Inr ''{}''"


text \<open>A burst of five samples over a session that takes 30 milliseconds to answer.\<close>

definition tick :: "int \<Rightarrow> ticks" where
  "tick t = \<lparr>tk_time = t, tk_lags = [], tk_cancel = None\<rparr>"

lemma tick_now [simp]: "ck_now real_clock (tick t) = (t, tick t)"
  by (simp add: tick_def real_clock_def real_now_def pass_def Let_def)

lemma tick_wait [simp]: "wait_until real_clock d (tick t) = Some (None, tick (max d t))"
  by (subst wait_until.simps) (auto simp: wait_until.simps [of _ _ "tick d"] tick_def real_clock_def
      real_now_def real_await_def pass_def Let_def max_def wait_until.simps)

lemma tick_capture [simp]: "demo_capture d (tick t) = (Inr demo_frame, tick (t + d))"
  by (simp add: demo_capture_def tick_def)

definition demo_settings :: burst_plan where
  "demo_settings = \<lparr>bp_interval = 20000000, bp_duration = 100000000, bp_max_frames = 25,
     bp_prefix = ''frame'', bp_contact_sheet = False, bp_bytes = max_burst_bytes\<rparr>"

lemma demo_settings: "burst_settings demo_plan = Inr demo_settings"
  by (simp add: burst_settings_def demo_plan_def burst_bounds default_burst_prefix_def demo_settings_def)

lemma demo_settings_count: "burst_frame_count demo_settings = 5"
  by (simp add: burst_frame_count_def burst_count.simps demo_settings_def)

lemma demo_name: "frame_name ''frame'' 0 = ''frame-0001.png''"
  by code_simp

lemma demo_frame_sel [simp]:
  "fr_capture_request_id (cp_frame demo_frame) = 3" "fr_sequence (cp_frame demo_frame) = 7"
  "cp_revision demo_frame = 5"
  by (simp_all add: demo_frame_def)

abbreviation demo_loop :: "burst_run \<Rightarrow> ticks bworld \<Rightarrow> ((burst_run \<times> goerr option) \<times> ticks bworld) option" where
  "demo_loop \<equiv> burst_loop demo_codecs real_clock (demo_capture 30000000) (\<lambda>name w. (Inr ''png'', w))
     (\<lambda>name payload w. (Inr (''/host/'' @ name), w)) ticks_ctx_err demo_settings 1000 5"

definition demo_sample :: "nat \<Rightarrow> status \<Rightarrow> sample" where
  "demo_sample i st =
     \<lparr>sm_scheduled = int i * 20000000, sm_requested = int i * 20000000,
      sm_completed = int i * 20000000 + 30000000,
      sm_request_id = 3, sm_frame_seq = 7, sm_digest = replicate 32 (CHR ''d''), sm_status = st,
      sm_path = ''/host/frame-0001.png'', sm_revision = 5, sm_error = []\<rparr>"

definition demo_state :: burst_state where
  "demo_state = \<lparr>bu_stored = 3, bu_digest = replicate 32 (CHR ''d''), bu_has_digest = True,
     bu_path = ''/host/frame-0001.png'', bu_cell = None\<rparr>"

definition demo_run :: "sample list \<Rightarrow> burst_run" where
  "demo_run frames = \<lparr>br_frames = frames, br_state = demo_state, br_sheet = [], br_truncated = None\<rparr>"

definition demo_world :: "int \<Rightarrow> ticks bworld" where
  "demo_world t = \<lparr>bw_world = tick t, bw_log = [(''frame-0001.png'', ''png'')]\<rparr>"

lemmas demo_turn_simps = inside_def capture_sample_def store_sample_def store_in_def demo_digest
  demo_codecs_def due_sample_def demo_name take_sample_def skip_missed_def Let_def demo_settings_def
  max_burst_bytes_def demo_run_def demo_state_def demo_world_def demo_sample_def numeral_eq_Suc

lemma demo_turn_0:
  "demo_loop first_run \<lparr>bw_world = tick 1000, bw_log = []\<rparr> =
   demo_loop (demo_run [demo_sample 0 StatusCaptured, due_sample 20000000 0 StatusMissed])
     (demo_world 30001000)"
  by (subst burst_loop.simps) (simp add: demo_turn_simps first_run_def empty_state_def)


abbreviation demo_frames :: "sample list" where
  "demo_frames \<equiv>
     [demo_sample 0 StatusCaptured, due_sample 20000000 0 StatusMissed,
      demo_sample 2 StatusDeduplicated, due_sample 60000000 0 StatusMissed,
      demo_sample 4 StatusDeduplicated]"

lemma demo_turn_2:
  "demo_loop (demo_run (take 2 demo_frames)) (demo_world 30001000) =
   demo_loop (demo_run (take 4 demo_frames)) (demo_world 70001000)"
  by (subst burst_loop.simps) (simp add: demo_turn_simps)

lemma demo_turn_4:
  "demo_loop (demo_run (take 4 demo_frames)) (demo_world 70001000) =
   Some ((demo_run demo_frames, None), demo_world 110001000)"
  by (subst burst_loop.simps) (simp add: demo_turn_simps burst_loop.simps)

lemma demo_burst:
  "\<exists>report bw. burst demo_codecs demo_marshal ticks_ctx_err demo_plan (demo_burst_deps 30000000)
     \<lparr>bw_world = tick 1000, bw_log = []\<rparr> = Some ((report, None), bw) \<and>
     rpt_frames report = demo_frames \<and> rpt_bytes report = 3 \<and>
     map fst (bw_log bw) = [''frame-0001.png'', ''manifest.json'']"
proof -
  have "demo_loop first_run \<lparr>bw_world = tick 1000, bw_log = []\<rparr> =
      Some ((demo_run demo_frames, None), demo_world 110001000)"
    using demo_turn_0 demo_turn_2 demo_turn_4 by (simp add: numeral_eq_Suc)
  moreover have "\<not> bp_contact_sheet demo_settings" by (simp add: demo_settings_def)
  ultimately show ?thesis
    by (simp add: burst_def demo_settings check_burst_deps_def demo_burst_deps_def inside_def
        demo_settings_count publish_burst_def store_sheet_def write_manifest_def
        render_manifest_def demo_marshal_def store_in_def finalise_def demo_run_def demo_state_def
        demo_world_def burst_manifest_name_def Let_def)
qed



end
