(* ===== verification/Capture_Source.thy ===== *)
theory Capture_Source
  imports Complex_Main Capture_Frame
begin

text \<open>
  The capture source (\<open>internal/capture/screenshot.go\<close>): what the compositor's events do to
  it, when a capture may begin, which of the pending results a capture takes, and the
  frame it makes of the buffer. The three channels of capacity one are flags and an
  optional message. The protocol cannot tell two answers apart, so the relation
  \<open>source_step\<close> puts the source beside the compositor, which owes an answer for every
  request it was sent; the theorem is that a source takes an answer only when it is the
  answer to its own request.
\<close>

section \<open>The source and its events\<close>

record source =
  so_format :: u32
  so_format_set :: bool
  so_size :: "int \<times> int"
  so_in_flight :: bool
  so_retired :: bool
  so_complete :: bool
  so_retry :: bool
  so_failed :: "string option"
  so_closed :: bool

definition new_source :: source where
  "new_source =
     \<lparr>so_format = 0, so_format_set = False, so_size = (0, 0), so_in_flight = False, so_retired = False,
      so_complete = False, so_retry = False, so_failed = None, so_closed = False\<rparr>"

text \<open>A message is dropped when one is pending.\<close>

definition source_fail :: "string \<Rightarrow> source \<Rightarrow> source" where
  "source_fail message s =
     (let m = (if message = [] then ''capture failed'' else message)
      in case so_failed s of None \<Rightarrow> s\<lparr>so_failed := Some m\<rparr> | Some _ \<Rightarrow> s)"

definition on_format :: "u32 \<Rightarrow> source \<Rightarrow> source" where
  "on_format code s =
     (case format_from_drm code of
        Inl err \<Rightarrow> source_fail err s
      | Inr f \<Rightarrow> s\<lparr>so_format := f, so_format_set := True\<rparr>)"

definition on_size :: "int \<Rightarrow> int \<Rightarrow> source \<Rightarrow> source" where
  "on_size width height s =
     (if width \<le> 0 \<or> height \<le> 0 then source_fail ''compositor reported size %dx%d'' s
      else s\<lparr>so_size := (width, height)\<rparr>)"

definition on_complete :: "source \<Rightarrow> source" where
  "on_complete s = s\<lparr>so_complete := True\<rparr>"

definition on_retry :: "source \<Rightarrow> source" where
  "on_retry s = s\<lparr>so_retry := True\<rparr>"

definition on_failed :: "string \<Rightarrow> source \<Rightarrow> source" where
  "on_failed message s = source_fail message s"

section \<open>Capturing\<close>

definition setup_known :: "source \<Rightarrow> ((int \<times> int) \<times> u32) option" where
  "setup_known s =
     (if fst (so_size s) > 0 \<and> so_format_set s then Some (so_size s, so_format s) else None)"

text \<open>One turn of \<open>WaitForSetup\<close> that does not find the setup: which case of its \<open>select\<close> fires.\<close>

datatype setup_choice = SetupCancelled string | SetupFailed | SetupTick

definition setup_turn :: "setup_choice \<Rightarrow> source \<Rightarrow> (string option \<times> source) option" where
  "setup_turn choice s =
     (case choice of
        SetupCancelled err \<Rightarrow> Some (Some (''wait for capture source setup: '' @ err), s)
      | SetupFailed \<Rightarrow>
          (case so_failed s of
             Some m \<Rightarrow> Some (Some (''capture: compositor refused the capture: '' @ m), s\<lparr>so_failed := None\<rparr>)
           | None \<Rightarrow> None)
      | SetupTick \<Rightarrow> Some (None, s))"

definition begin_capture :: "source \<Rightarrow> string + source" where
  "begin_capture s =
     (if so_closed s then Inl ''capture: source is closed''
      else if so_in_flight s then Inl ''capture: another capture is in flight''
      else Inr (s\<lparr>so_in_flight := True\<rparr>))"

definition end_capture :: "source \<Rightarrow> source" where
  "end_capture s = s\<lparr>so_in_flight := False\<rparr>"

definition check_retired :: "source \<Rightarrow> string option" where
  "check_retired s =
     (if so_retired s then Some ''capture: a previous capture was abandoned; create a new source'' else None)"

text \<open>The case of the \<open>select\<close> in \<open>captureInto\<close>; one that is not ready cannot be chosen.\<close>

datatype answer_choice = TakeCancelled string | TakeFailed | TakeRetry | TakeComplete

definition take_answer :: "answer_choice \<Rightarrow> source \<Rightarrow> (string option \<times> source) option" where
  "take_answer choice s =
     (case choice of
        TakeCancelled err \<Rightarrow> Some (Some (''wait for capture: '' @ err), s\<lparr>so_retired := True\<rparr>)
      | TakeFailed \<Rightarrow>
          (case so_failed s of
             Some m \<Rightarrow> Some (Some (''capture: compositor refused the capture: '' @ m), s\<lparr>so_failed := None\<rparr>)
           | None \<Rightarrow> None)
      | TakeRetry \<Rightarrow>
          if so_retry s then Some (Some ''capture: compositor refused the capture'', s\<lparr>so_retry := False\<rparr>)
          else None
      | TakeComplete \<Rightarrow> if so_complete s then Some (None, s\<lparr>so_complete := False\<rparr>) else None)"

definition close_source :: "source \<Rightarrow> source \<times> bool" where
  "close_source s = (if so_closed s then (s, False) else (s\<lparr>so_closed := True\<rparr>, True))"

record source_frame =
  fm_image :: rgba
  fm_png :: string
  fm_digest :: string
  fm_size :: "int \<times> int"
  fm_format :: u32
  fm_captured :: int

definition frame_of_buffer ::
  "(string \<Rightarrow> string) \<Rightarrow> (rgba \<Rightarrow> string + string) \<Rightarrow> u32 \<Rightarrow> int \<Rightarrow> int \<Rightarrow> int \<Rightarrow> string \<Rightarrow> int \<Rightarrow>
   (string + source_frame) option" where
  "frame_of_buffer sha png f stride width height pixels now =
     (case decode_picture f stride width height pixels of
        None \<Rightarrow> None
      | Some (Inl err) \<Rightarrow> Some (Inl err)
      | Some (Inr im) \<Rightarrow>
          (case png im of
             Inl err \<Rightarrow> Some (Inl (''encode png: '' @ err))
           | Inr encoded \<Rightarrow>
               Some (Inr \<lparr>fm_image = im, fm_png = encoded, fm_digest = picture_digest sha im,
                         fm_size = (width, height), fm_format = f, fm_captured = now\<rparr>)))"

section \<open>The source beside the compositor\<close>

record session =
  ss_source :: source
  ss_waiting :: bool
  ss_owed :: nat

definition fresh_session :: session where
  "fresh_session = \<lparr>ss_source = new_source, ss_waiting = False, ss_owed = 0\<rparr>"

datatype answer = Completed | Retried | Refused string

definition deliver_answer :: "answer \<Rightarrow> source \<Rightarrow> source" where
  "deliver_answer a s = (case a of Completed \<Rightarrow> on_complete s | Retried \<Rightarrow> on_retry s | Refused m \<Rightarrow> on_failed m s)"

text \<open>
  A capture that finds the source retired, or whose request cannot be sent, ends before
  the compositor owes anything; \<open>taken\<close> ends the wait with whatever the \<open>select\<close> chose.
\<close>

inductive source_step :: "session \<Rightarrow> session \<Rightarrow> bool" where
  format_event: "format_from_drm code = Inr f \<Longrightarrow>
    source_step S (S\<lparr>ss_source := on_format code (ss_source S)\<rparr>)"
| size_event: "0 < w \<Longrightarrow> 0 < h \<Longrightarrow>
    source_step S (S\<lparr>ss_source := on_size w h (ss_source S)\<rparr>)"
| answered: "ss_owed S = Suc n \<Longrightarrow>
    source_step S (S\<lparr>ss_source := deliver_answer a (ss_source S), ss_owed := n\<rparr>)"
| setup_ended: "setup_known (ss_source S) = None \<Longrightarrow>
    setup_turn c (ss_source S) = Some (r, s) \<Longrightarrow> source_step S (S\<lparr>ss_source := s\<rparr>)"
| not_requested: "setup_known (ss_source S) \<noteq> None \<Longrightarrow> begin_capture (ss_source S) = Inr s \<Longrightarrow>
    source_step S (S\<lparr>ss_source := end_capture s\<rparr>)"
| requested: "setup_known (ss_source S) \<noteq> None \<Longrightarrow> begin_capture (ss_source S) = Inr s \<Longrightarrow>
    check_retired s = None \<Longrightarrow>
    source_step S \<lparr>ss_source = s, ss_waiting = True, ss_owed = Suc (ss_owed S)\<rparr>"
| taken: "ss_waiting S \<Longrightarrow> take_answer c (ss_source S) = Some (r, s) \<Longrightarrow>
    source_step S (S\<lparr>ss_source := end_capture s, ss_waiting := False\<rparr>)"
| closed: "source_step S (S\<lparr>ss_source := fst (close_source (ss_source S))\<rparr>)"

definition pending :: "source \<Rightarrow> nat" where
  "pending s = (if so_complete s then 1 else 0) + (if so_retry s then 1 else 0) +
     (if so_failed s = None then 0 else 1)"

definition source_inv :: "session \<Rightarrow> bool" where
  "source_inv S \<longleftrightarrow>
     so_in_flight (ss_source S) = ss_waiting S \<and>
     (so_retired (ss_source S) \<longrightarrow> \<not> ss_waiting S) \<and>
     (ss_waiting S \<longrightarrow> setup_known (ss_source S) \<noteq> None) \<and>
     (\<not> so_retired (ss_source S) \<longrightarrow>
        pending (ss_source S) + ss_owed S = (if ss_waiting S then 1 else 0))"

lemma source_fail_sel [simp]:
  "so_in_flight (source_fail m s) = so_in_flight s" "so_retired (source_fail m s) = so_retired s"
  "so_size (source_fail m s) = so_size s" "so_format_set (source_fail m s) = so_format_set s"
  "so_complete (source_fail m s) = so_complete s" "so_retry (source_fail m s) = so_retry s"
  "so_failed (source_fail m s) \<noteq> None" "so_failed s = None \<Longrightarrow> so_failed (source_fail m s) \<noteq> None"
  by (auto simp: source_fail_def Let_def split: option.splits)

lemma setup_known_cong:
  "so_size t = so_size s \<Longrightarrow> so_format_set t = so_format_set s \<Longrightarrow>
   (setup_known t = None) = (setup_known s = None)"
  by (simp add: setup_known_def)

lemma source_step_inv:
  assumes "source_step S T" and "source_inv S"
  shows "source_inv T"
  using assms
proof cases
  case (answered n a)
  have "pending (deliver_answer a (ss_source S)) = Suc (pending (ss_source S))"
    if "pending (ss_source S) = 0"
    using that by (cases a) (auto simp: deliver_answer_def pending_def on_complete_def on_retry_def
        on_failed_def split: if_splits)
  moreover have "so_in_flight (deliver_answer a (ss_source S)) = so_in_flight (ss_source S)"
    "so_retired (deliver_answer a (ss_source S)) = so_retired (ss_source S)"
    by (cases a; simp add: deliver_answer_def on_complete_def on_retry_def on_failed_def)+
  moreover have "(setup_known (deliver_answer a (ss_source S)) = None) = (setup_known (ss_source S) = None)"
    by (intro setup_known_cong; cases a)
      (simp_all add: deliver_answer_def on_complete_def on_retry_def on_failed_def)
  ultimately show ?thesis
    using answered assms(2) by (auto simp: source_inv_def split: if_splits)
next
  case (setup_ended c r s)
  then show ?thesis
    using assms(2)
    by (cases c) (auto simp: source_inv_def setup_turn_def pending_def split: option.splits if_splits)
next
  case (taken c r s)
  then show ?thesis
    using assms(2)
    by (cases c) (auto simp: source_inv_def take_answer_def end_capture_def pending_def
        split: option.splits if_splits)
qed (auto simp: source_inv_def on_format_def on_size_def begin_capture_def end_capture_def
    check_retired_def close_source_def pending_def setup_known_def split: if_splits)

interpretation capture_source: invariant_relation source_step source_inv
  by unfold_locales (rule source_step_inv)

lemma source_inv_fresh: "source_inv fresh_session"
  by (simp add: source_inv_def fresh_session_def new_source_def pending_def)

lemma source_reachable: "source_step\<^sup>*\<^sup>* fresh_session S \<Longrightarrow> source_inv S"
  using capture_source.inv_reach source_inv_fresh by blast


definition demo_waiting :: session where
  "demo_waiting = \<lparr>ss_source = new_source\<lparr>so_format := format_xrgb, so_format_set := True,
     so_size := (640, 480), so_in_flight := True, so_complete := True\<rparr>, ss_waiting = True, ss_owed = 0\<rparr>"

lemma demo_waiting_reached: "source_step\<^sup>*\<^sup>* fresh_session demo_waiting"
proof -
  let ?s1 = "new_source\<lparr>so_format := format_xrgb, so_format_set := True\<rparr>"
  let ?s2 = "?s1\<lparr>so_size := (640, 480)\<rparr>"
  let ?s3 = "?s2\<lparr>so_in_flight := True\<rparr>"
  have fmt: "format_from_drm drm_xrgb = Inr format_xrgb"
    by (simp add: format_from_drm_def drm_xrgb_def drm_argb_def)
  have a: "source_step fresh_session (fresh_session\<lparr>ss_source := ?s1\<rparr>)"
    using format_event [OF fmt, of fresh_session] by (simp add: fresh_session_def on_format_def fmt)
  have b: "source_step (fresh_session\<lparr>ss_source := ?s1\<rparr>) (fresh_session\<lparr>ss_source := ?s2\<rparr>)"
    using size_event [of 640 480 "fresh_session\<lparr>ss_source := ?s1\<rparr>"]
    by (simp add: fresh_session_def on_size_def)
  have c: "source_step (fresh_session\<lparr>ss_source := ?s2\<rparr>) \<lparr>ss_source = ?s3, ss_waiting = True, ss_owed = 1\<rparr>"
    using requested [of "fresh_session\<lparr>ss_source := ?s2\<rparr>" ?s3]
    by (simp add: fresh_session_def setup_known_def begin_capture_def check_retired_def new_source_def)
  have d: "source_step \<lparr>ss_source = ?s3, ss_waiting = True, ss_owed = 1\<rparr> demo_waiting"
    using answered [of "\<lparr>ss_source = ?s3, ss_waiting = True, ss_owed = 1\<rparr>" 0 Completed]
    by (simp add: demo_waiting_def deliver_answer_def on_complete_def new_source_def)
  from a b c d show ?thesis by (meson rtranclp.rtrancl_into_rtrancl rtranclp.rtrancl_refl)
qed


text \<open>
  The condition on the announcements is needed. An unsupported format announced while a
  capture waits fails that capture without retiring the source, although the compositor
  still owes it an answer; when that answer arrives, the next capture takes it for its
  own and reads a buffer nothing was written to.
\<close>

lemma stale_completion:
  assumes "s1 = new_source\<lparr>so_format_set := True, so_size := (640, 480), so_in_flight := True\<rparr>"
  shows "\<exists>m s2 s3. take_answer TakeFailed (on_format 0 s1) = Some (Some m, s2) \<and>
    check_retired (end_capture s2) = None \<and> begin_capture (end_capture s2) = Inr s3 \<and>
    map_option fst (take_answer TakeComplete (on_complete s3)) = Some None"
  by (simp add: assms take_answer_def on_format_def format_from_drm_def drm_argb_def drm_xrgb_def
      source_fail_def new_source_def check_retired_def end_capture_def begin_capture_def on_complete_def)

end
