(* ===== verification/Capture_Shm.thy ===== *)
theory Capture_Shm
  imports Complex_Main Capture_Frame
begin

text \<open>
  The shared memory of captures (\<open>internal/capture/shm.go\<close>): buffers with their file
  descriptor, mapping and two protocol objects. The state lists what is open, mapped and
  registered, and every buffer ever handed out, at the index that stands for its pointer.
  A system call or request fails when the list of faults says so. The theorems: a failed
  allocation keeps nothing, a buffer is released once, and closing releases every buffer.
\<close>

section \<open>State\<close>

datatype request = CreatePool nat int | CreateBuffer nat nat u32 u32 u32 u32 | DestroyPool nat | DestroyBuffer nat

record buffer =
  bf_pool :: nat
  bf_buffer :: nat
  bf_fd :: nat
  bf_width :: int
  bf_height :: int
  bf_stride :: int
  bf_format :: u32
  bf_released :: bool

record shm =
  sh_faults :: "string option list"
  sh_open :: "nat list"
  sh_mapped :: "nat list"
  sh_registered :: "nat list"
  sh_next_fd :: nat
  sh_next_id :: nat
  sh_sent :: "request list"
  sh_heap :: "buffer list"
  sh_buffers :: "nat list"

definition shm_fault :: "shm \<Rightarrow> string option \<times> shm" where
  "shm_fault s =
     (case sh_faults s of [] \<Rightarrow> (None, s) | f # fs \<Rightarrow> (f, s\<lparr>sh_faults := fs\<rparr>))"

definition open_file :: "shm \<Rightarrow> (string + nat) \<times> shm" where
  "open_file s =
     (case shm_fault s of
        (Some err, s1) \<Rightarrow> (Inl err, s1)
      | (None, s1) \<Rightarrow> (Inr (sh_next_fd s1),
          s1\<lparr>sh_open := sh_next_fd s1 # sh_open s1, sh_next_fd := Suc (sh_next_fd s1)\<rparr>))"

definition close_fd :: "nat \<Rightarrow> shm \<Rightarrow> shm" where
  "close_fd fd s = s\<lparr>sh_open := remove1 fd (sh_open s)\<rparr>"

definition map_memory :: "nat \<Rightarrow> shm \<Rightarrow> string option \<times> shm" where
  "map_memory fd s =
     (case shm_fault s of
        (Some err, s1) \<Rightarrow> (Some err, s1)
      | (None, s1) \<Rightarrow> (None, s1\<lparr>sh_mapped := fd # sh_mapped s1\<rparr>))"

definition unmap :: "nat \<Rightarrow> shm \<Rightarrow> shm" where
  "unmap fd s = s\<lparr>sh_mapped := remove1 fd (sh_mapped s)\<rparr>"

definition register :: "shm \<Rightarrow> nat \<times> shm" where
  "register s =
     (sh_next_id s, s\<lparr>sh_next_id := Suc (sh_next_id s), sh_registered := sh_next_id s # sh_registered s\<rparr>)"

definition unregister :: "nat \<Rightarrow> shm \<Rightarrow> shm" where
  "unregister i s = s\<lparr>sh_registered := remove1 i (sh_registered s)\<rparr>"

definition send_request :: "request \<Rightarrow> shm \<Rightarrow> string option \<times> shm" where
  "send_request rq s =
     (case shm_fault s of
        (Some err, s1) \<Rightarrow> (Some err, s1)
      | (None, s1) \<Rightarrow> (None, s1\<lparr>sh_sent := sh_sent s1 @ [rq]\<rparr>))"

section \<open>Allocation\<close>

definition new_buffer :: "u32 \<Rightarrow> int \<Rightarrow> int \<Rightarrow> shm \<Rightarrow> (string + nat) \<times> shm" where
  "new_buffer f width height s =
     (if width \<le> 0 \<or> height \<le> 0 then (Inl ''invalid capture size %dx%d'', s)
      else if drm_code f = 0 then (Inl ''unsupported pixel format %s'', s)
      else
        let stride = wrap64 (width * 4);
            room = wrap64 (stride * height)
        in case open_file s of
             (Inl err, s1) \<Rightarrow> (Inl (''create capture buffer file: '' @ err), s1)
           | (Inr fd, s1) \<Rightarrow>
               (case map_memory fd s1 of
                  (Some err, s2) \<Rightarrow> (Inl (''map capture buffer: '' @ err), close_fd fd s2)
                | (None, s2) \<Rightarrow>
                    (case register s2 of
                       (pool, s3) \<Rightarrow>
                         (case send_request (CreatePool pool room) s3 of
                            (Some err, s4) \<Rightarrow>
                              (Inl (''create wl_shm pool: '' @ err),
                               unregister pool (close_fd fd (unmap fd s4)))
                          | (None, s4) \<Rightarrow>
                              (case register s4 of
                                 (wl_buffer, s5) \<Rightarrow>
                                   (case send_request (CreateBuffer pool wl_buffer (of_int width)
                                           (of_int height) (of_int stride) f) s5 of
                                      (Some err, s6) \<Rightarrow>
                                        (case send_request (DestroyPool pool) (close_fd fd (unmap fd s6)) of
                                           (_, s7) \<Rightarrow>
                                             (Inl (''create wl_buffer: '' @ err),
                                              unregister wl_buffer (unregister pool s7)))
                                    | (None, s6) \<Rightarrow>
                                        let ref = length (sh_heap s6);
                                            b = \<lparr>bf_pool = pool, bf_buffer = wl_buffer, bf_fd = fd,
                                                 bf_width = width, bf_height = height, bf_stride = stride,
                                                 bf_format = f, bf_released = False\<rparr>
                                        in (Inr ref, s6\<lparr>sh_heap := sh_heap s6 @ [b],
                                                        sh_buffers := sh_buffers s6 @ [ref]\<rparr>)))))))"

section \<open>Release\<close>

definition earliest_error :: "string option \<Rightarrow> string \<Rightarrow> string option \<Rightarrow> string option" where
  "earliest_error so_far what err =
     (case err of
        Some e \<Rightarrow> (if so_far = None then Some (what @ e) else so_far)
      | None \<Rightarrow> so_far)"

text \<open>An unmap or a close that fails leaves the resource behind; the buffer forgets it all the same.\<close>

definition release_memory :: "nat \<Rightarrow> shm \<Rightarrow> string option \<times> shm" where
  "release_memory fd s =
     (case shm_fault s of (Some err, s1) \<Rightarrow> (Some err, s1) | (None, s1) \<Rightarrow> (None, unmap fd s1))"

definition release_fd :: "nat \<Rightarrow> shm \<Rightarrow> string option \<times> shm" where
  "release_fd fd s =
     (case shm_fault s of (Some err, s1) \<Rightarrow> (Some err, s1) | (None, s1) \<Rightarrow> (None, close_fd fd s1))"

definition release_buffer :: "nat \<Rightarrow> shm \<Rightarrow> string option \<times> shm" where
  "release_buffer ref s =
     (let b = sh_heap s ! ref
      in if bf_released b then (None, s)
         else
           let s0 = s\<lparr>sh_heap := (sh_heap s)[ref := b\<lparr>bf_released := True\<rparr>]\<rparr>;
               (e1, s1) = send_request (DestroyBuffer (bf_buffer b)) s0;
               s2 = unregister (bf_buffer b) s1;
               (e2, s3) = send_request (DestroyPool (bf_pool b)) s2;
               s4 = unregister (bf_pool b) s3;
               (e3, s5) = release_memory (bf_fd b) s4;
               (e4, s6) = release_fd (bf_fd b) s5
           in (earliest_error (earliest_error (earliest_error (earliest_error None ''destroy wl_buffer: '' e1)
                 ''destroy wl_shm pool: '' e2) ''unmap capture buffer: '' e3)
                 ''close capture buffer file: '' e4, s6))"

fun release_all :: "nat list \<Rightarrow> shm \<Rightarrow> string option \<times> shm" where
  "release_all [] s = (None, s)"
| "release_all (r # rs) s =
     (case release_buffer r s of
        (e, s1) \<Rightarrow> (case release_all rs s1 of (e', s2) \<Rightarrow> (if e = None then e' else e, s2)))"

definition close_shm :: "shm \<Rightarrow> string option \<times> shm" where
  "close_shm s = release_all (sh_buffers s) (s\<lparr>sh_buffers := []\<rparr>)"

section \<open>Nothing is kept by a failed allocation\<close>

definition resources :: "shm \<Rightarrow> nat list \<times> nat list \<times> nat list \<times> buffer list \<times> nat list" where
  "resources s = (sh_open s, sh_mapped s, sh_registered s, sh_heap s, sh_buffers s)"

lemma shm_fault_sel:
  assumes "shm_fault s = (r, s')"
  shows "resources s' = resources s \<and> sh_next_id s' = sh_next_id s \<and> sh_next_fd s' = sh_next_fd s"
  using assms by (auto simp: shm_fault_def resources_def split: list.splits)

lemma send_request_sel:
  assumes "send_request rq s = (r, s')"
  shows "resources s' = resources s \<and> sh_next_id s' = sh_next_id s \<and> sh_next_fd s' = sh_next_fd s"
  using assms
  by (auto simp: send_request_def resources_def split: prod.splits option.splits dest!: shm_fault_sel)

lemma new_buffer_keeps_nothing:
  assumes "new_buffer f width height s = (Inl err, s')"
  shows "resources s' = resources s"
  using assms
  by (auto simp: new_buffer_def Let_def open_file_def map_memory_def register_def unregister_def
      close_fd_def unmap_def resources_def
      split: if_splits prod.splits sum.splits option.splits dest!: shm_fault_sel send_request_sel)

lemma release_buffer_once:
  assumes "ref < length (sh_heap s)"
  shows "bf_released (sh_heap (snd (release_buffer ref s)) ! ref)"
    and "release_buffer ref (snd (release_buffer ref s)) = (None, snd (release_buffer ref s))"
proof -
  show released: "bf_released (sh_heap (snd (release_buffer ref s)) ! ref)"
    using assms
    by (auto simp: release_buffer_def Let_def unregister_def unmap_def close_fd_def release_memory_def
        release_fd_def resources_def split: prod.splits option.splits
        dest!: shm_fault_sel send_request_sel)
  then show "release_buffer ref (snd (release_buffer ref s)) = (None, snd (release_buffer ref s))"
    by (simp add: release_buffer_def)
qed

lemma release_buffer_heap:
  assumes "ref < length (sh_heap s)"
  shows "length (sh_heap (snd (release_buffer ref s))) = length (sh_heap s)"
    and "bf_released (sh_heap s ! r) \<Longrightarrow> r < length (sh_heap s) \<Longrightarrow>
      bf_released (sh_heap (snd (release_buffer ref s)) ! r)"
  using assms
  by (auto simp: release_buffer_def Let_def unregister_def unmap_def close_fd_def release_memory_def
      release_fd_def resources_def nth_list_update split: prod.splits option.splits
      dest!: shm_fault_sel send_request_sel)

lemma release_all_released:
  assumes "\<forall>r \<in> set rs. r < length (sh_heap s)"
  shows "length (sh_heap (snd (release_all rs s))) = length (sh_heap s) \<and>
    (\<forall>r < length (sh_heap s). r \<in> set rs \<or> bf_released (sh_heap s ! r) \<longrightarrow>
      bf_released (sh_heap (snd (release_all rs s)) ! r))"
  using assms
proof (induction rs arbitrary: s)
  case (Cons r rs)
  obtain e s1 where one: "release_buffer r s = (e, s1)" by fastforce
  have heap: "length (sh_heap s1) = length (sh_heap s)" "bf_released (sh_heap s1 ! r)"
      "\<And>q. bf_released (sh_heap s ! q) \<Longrightarrow> q < length (sh_heap s) \<Longrightarrow> bf_released (sh_heap s1 ! q)"
    using release_buffer_heap [of r s] release_buffer_once(1) [of r s] Cons.prems one by simp_all
  show ?case
    using Cons.IH [of s1] Cons.prems heap one by (auto split: prod.splits)
qed simp

end
