(* ===== verification/Capture_Session.thy ===== *)
theory Capture_Session
  imports Complex_Main Capture_Burst Session_Model
begin

text \<open>
  A session as the capture services see it (\<open>cmd/wlvision/vision.go\<close>) and the two capture
  commands of the outer CLI (\<open>cmd/wlvision/capture.go\<close>) after their arguments are read. The
  session service and the export tree are parameters: \<open>call\<close> performs one operation of the
  controller, \<open>fetch\<close> and \<open>store\<close> move bytes; their own theories say what they promise.
\<close>

section \<open>Adapters\<close>

definition scratch_capture :: string where
  "scratch_capture = ''scratch/frame.png''"

definition export_dir :: string where
  "export_dir = ''/run/wlvision/export''"

type_synonym 'w service_call = "string \<Rightarrow> params \<Rightarrow> 'w \<Rightarrow> (goerr + reply) \<times> 'w"

definition no_frame :: "string \<Rightarrow> goerr" where
  "no_frame operation =
     Typed (new_failure CaptureFailed operation ''the session's controller reported no frame'')"

definition session_capture :: "'w service_call \<Rightarrow> 'w capturer" where
  "session_capture call w =
     (case call op_capture (no_params\<lparr>p_path := scratch_capture\<rparr>) w of
        (Inl err, w1) \<Rightarrow> (Inl err, w1)
      | (Inr rep, w1) \<Rightarrow>
          (case rp_frame rep of
             None \<Rightarrow> (Inl (no_frame ''capture.screenshot''), w1)
           | Some f \<Rightarrow> (Inr \<lparr>cp_frame = f, cp_revision = rp_revision rep\<rparr>, w1)))"

text \<open>The name is relative to the export directory, or absolute and inside it.\<close>

definition export_name_from_path :: "string \<Rightarrow> string option" where
  "export_name_from_path stored =
     (if \<not> is_abs stored then (if stored \<noteq> [] then Some stored else None)
      else if \<not> has_prefix stored (export_dir @ ''/'') then None
      else
        let name = drop (length (export_dir @ ''/'')) stored
        in if name \<noteq> [] then Some name else None)"

definition session_fetch :: "(string \<Rightarrow> 'w \<Rightarrow> (goerr option \<times> string) \<times> 'w) \<Rightarrow> 'w fetcher" where
  "session_fetch fetch stored w =
     (case export_name_from_path stored of
        None \<Rightarrow>
          (Inl (usage ''capture.fetch''
            ''the session reported the capture %q, which is not inside its export directory''), w)
      | Some name \<Rightarrow>
          (case fetch name w of
             ((Some err, _), w1) \<Rightarrow> (Inl err, w1)
           | ((None, payload), w1) \<Rightarrow> (Inr payload, w1)))"

definition export_destination :: "string \<Rightarrow> 'w destination \<Rightarrow> 'w destination" where
  "export_destination prefix store name payload w =
     (if prefix = [] then store name payload w else store (path_join prefix name) payload w)"

definition session_snapshot :: "'w service_call \<Rightarrow> 'w \<Rightarrow> (goerr + wstate) \<times> 'w" where
  "session_snapshot call w =
     (case call op_snapshot no_params w of
        (Inl err, w1) \<Rightarrow> (Inl err, w1)
      | (Inr rep, w1) \<Rightarrow>
          (case rp_state rep of
             None \<Rightarrow> (Inl (Typed (new_failure SessionNotReady ''wait.windows''
                        ''the session's controller reported no window state'')), w1)
           | Some st \<Rightarrow> (Inr st, w1)))"

definition session_exited ::
  "('w \<Rightarrow> (goerr + sess_record) \<times> 'w) \<Rightarrow> int \<Rightarrow> 'w \<Rightarrow> (goerr + bool \<times> int) \<times> 'w" where
  "session_exited record_of since w =
     (case record_of w of
        (Inl err, w1) \<Rightarrow> (Inl err, w1)
      | (Inr r, w1) \<Rightarrow>
          (case r_process r of
             None \<Rightarrow> (Inr (False, 0), w1)
           | Some p \<Rightarrow> if px_at p < since then (Inr (False, 0), w1) else (Inr (True, px_code p), w1)))"

section \<open>One screenshot\<close>

definition verify_digest :: "(string \<Rightarrow> string) \<Rightarrow> string \<Rightarrow> string \<Rightarrow> goerr option" where
  "verify_digest sha reported payload =
     (if reported = [] then
        Some (Typed (new_failure CaptureFailed ''screenshot''
          ''the session reported no digest for the capture''))
      else if digest_text (sha payload) \<noteq> reported then
        Some (Typed (new_failure CaptureFailed ''screenshot''
          ''the stored capture hashes to %s, but the session reported %s''))
      else None)"

record capture_result =
  cr_path :: string
  cr_digest :: string
  cr_width :: int
  cr_height :: int
  cr_format :: string
  cr_frame_seq :: u64
  cr_revision :: u64

text \<open>
  The result comes with the revision the envelope carries; an error comes with the code the
  command falls back to when the error has none of its own.
\<close>

definition screenshot ::
  "(string \<Rightarrow> string) \<Rightarrow> (string \<Rightarrow> goerr + string) \<Rightarrow> 'w service_call \<Rightarrow>
   (string \<Rightarrow> 'w \<Rightarrow> (goerr option \<times> string) \<times> 'w) \<Rightarrow> 'w destination \<Rightarrow> string \<Rightarrow> 'w bworld \<Rightarrow>
   (goerr \<times> code + u64 \<times> capture_result) \<times> 'w bworld" where
  "screenshot sha tree call fetch store output bw =
     (case tree output of
        Inl err \<Rightarrow> (Inl (err, UsageError), bw)
      | Inr _ \<Rightarrow>
          (case inside (call op_capture (no_params\<lparr>p_path := output\<rparr>)) bw of
             (Inl err, bw1) \<Rightarrow> (Inl (err, SessionNotReady), bw1)
           | (Inr rep, bw1) \<Rightarrow>
               (case rp_frame rep of
                  None \<Rightarrow> (Inl (no_frame ''screenshot'', CaptureFailed), bw1)
                | Some f \<Rightarrow>
                    (case inside (fetch output) bw1 of
                       ((Some err, _), bw2) \<Rightarrow> (Inl (err, CaptureFailed), bw2)
                     | ((None, payload), bw2) \<Rightarrow>
                         (case store_in store output payload bw2 of
                            (Inl err, bw3) \<Rightarrow> (Inl (err, CaptureFailed), bw3)
                          | (Inr stored, bw3) \<Rightarrow>
                              (case verify_digest sha (fr_digest f) payload of
                                 Some err \<Rightarrow> (Inl (err, CaptureFailed), bw3)
                               | None \<Rightarrow>
                                   (Inr (fr_sequence f,
                                      \<lparr>cr_path = stored, cr_digest = fr_digest f, cr_width = fr_width f,
                                       cr_height = fr_height f, cr_format = fr_format f,
                                       cr_frame_seq = fr_sequence f, cr_revision = rp_revision rep\<rparr>),
                                    bw3)))))))"

section \<open>What the burst command prints\<close>

record burst_frame =
  bf_scheduled :: int
  bf_requested :: int
  bf_completed :: int
  bf_request_id :: u64
  bf_frame_seq :: u64
  bf_digest :: string
  bf_status :: string
  bf_path :: string
  bf_error :: string

definition burst_frame_view :: "sample \<Rightarrow> burst_frame" where
  "burst_frame_view s =
     \<lparr>bf_scheduled = sm_scheduled s, bf_requested = sm_requested s, bf_completed = sm_completed s,
      bf_request_id = sm_request_id s, bf_frame_seq = sm_frame_seq s, bf_digest = digest_text (sm_digest s),
      bf_status = status_string (sm_status s), bf_path = sm_path s, bf_error = sm_error s\<rparr>"

record burst_view =
  bv_manifest :: string
  bv_contact_sheet :: string
  bv_interval :: int
  bv_duration :: int
  bv_bytes :: int
  bv_captured :: nat
  bv_deduplicated :: nat
  bv_missed :: nat
  bv_failed :: nat
  bv_truncated :: bool
  bv_reason :: string
  bv_frames :: "burst_frame list"

definition burst_view_of :: "burst_report \<Rightarrow> burst_view" where
  "burst_view_of r =
     \<lparr>bv_manifest = rpt_manifest r, bv_contact_sheet = rpt_contact_sheet r, bv_interval = rpt_interval r,
      bv_duration = rpt_duration r, bv_bytes = rpt_bytes r, bv_captured = rpt_captured r,
      bv_deduplicated = rpt_deduplicated r, bv_missed = rpt_missed r, bv_failed = rpt_failed r,
      bv_truncated = rpt_truncated r, bv_reason = rpt_reason r,
      bv_frames = map burst_frame_view (rpt_frames r)\<rparr>"

record frame_summary =
  fs_path :: string
  fs_digest :: string
  fs_frame_seq :: u64
  fs_status :: string

definition summarize :: "sample option \<Rightarrow> frame_summary option" where
  "summarize = map_option (\<lambda>s. \<lparr>fs_path = sm_path s, fs_digest = digest_text (sm_digest s),
     fs_frame_seq = sm_frame_seq s, fs_status = status_string (sm_status s)\<rparr>)"

section \<open>Facts\<close>

lemma export_name_inside:
  assumes "export_name_from_path stored = Some name"
  shows "if is_abs stored then stored = export_dir @ ''/'' @ name else stored = name"
  using assms
  by (auto simp: export_name_from_path_def Let_def has_prefix_append split: if_splits)

text \<open>
  A screenshot that succeeds stored exactly one artifact, under the name it was asked for,
  and the bytes it stored are those that hash to the digest the session reported.
\<close>

lemma screenshot_evidence:
  assumes "screenshot sha tree call fetch store output bw = (Inr (rv, res), bw')"
  shows "\<exists>payload. bw_log bw' = bw_log bw @ [(output, payload)] \<and> cr_digest res = digest_text (sha payload) \<and>
    (\<exists>target. tree output = Inr target)"
  using assms
  by (auto simp: screenshot_def verify_digest_def split: sum.splits prod.splits option.splits if_splits
      dest!: inside_log store_in_log)

text \<open>
  The bytes are stored before their digest is compared, so a capture that was refused as
  evidence stays on the host under the name that was asked for.
\<close>

definition forged :: "reply" where
  "forged = \<lparr>rp_revision = 1, rp_state = None, rp_resize = None,
     rp_frame = Some \<lparr>fr_path = [], fr_digest = ''sha256:00'', fr_width = 1, fr_height = 1, fr_format = [],
       fr_sequence = 9, fr_capture_request_id = 1\<rparr>, rp_capture_request_id = 1\<rparr>"

lemma mismatch_stored:
  "case screenshot (\<lambda>_. []) Inr (\<lambda>op ps w. (Inr forged, w)) (\<lambda>n w. ((None, ''bytes''), w))
      (\<lambda>n p w. (Inr n, w)) ''a.png'' \<lparr>bw_world = (), bw_log = []\<rparr> of
     (r, bw) \<Rightarrow> (\<exists>err. r = Inl err) \<and> bw_log bw = [(''a.png'', ''bytes'')]"
  by (simp add: screenshot_def inside_def store_in_def forged_def verify_digest_def digest_text_def
      digest_prefix_def hex_encode_def)

text \<open>The envelope's revision is the frame's sequence number, not the session's revision.\<close>

lemma screenshot_revision:
  assumes "screenshot sha tree call fetch store output bw = (Inr (rv, res), bw')"
  shows "rv = cr_frame_seq res"
  using assms
  by (auto simp: screenshot_def split: sum.splits prod.splits option.splits)

text \<open>
  The manifest leaves the digest of a missed or failed sample empty; the command prints
  the digest of 32 zero bytes for it.
\<close>

lemma fabricated_digest:
  "sj_digest (sample_document (due_sample t 0 StatusMissed)) = []"
  "bf_digest (burst_frame_view (due_sample t 0 StatusMissed)) = digest_text zero_digest"
  "digest_text zero_digest \<noteq> []"
  by (simp_all add: sample_document_def burst_frame_view_def due_sample_def digest_text_def digest_prefix_def)

end
