(* ===== verification/Capture_Conserved.thy ===== *)
theory Capture_Conserved
  imports Complex_Main Capture_Burst
begin

text \<open>
  What a wait or a burst leaves alone. The services of \<open>internal/capture\<close> touch the world
  only through their dependencies; so whatever part of it the dependencies conserve is
  conserved by a whole wait and by a whole burst. The part is a view \<open>v\<close> of the world; each
  locale names the dependencies one service has. The command line interprets them on the
  adapters of one session, with the stored records as the view.
\<close>

locale conserved_clock =
  fixes v :: "'w \<Rightarrow> 'v" and ck :: "'w clock"
  assumes now_keeps: "v (snd (ck_now ck w)) = v w"
    and await_keeps: "v (snd (ck_await ck d w)) = v w"
begin

lemma now_kept: "ck_now ck w = (t, w') \<Longrightarrow> v w' = v w"
  using now_keeps [of w] by simp

lemma await_kept: "ck_await ck d w = (r, w') \<Longrightarrow> v w' = v w"
  using await_keeps [of d w] by simp

lemma wait_until_kept:
  assumes "wait_until ck deadline w = Some (r, w')"
  shows "v w' = v w"
proof -
  have "ck = ck \<longrightarrow> v (snd (r, w')) = v w"
    by (rule wait_until.raw_induct [OF _ assms, where P = "\<lambda>a d w y. a = ck \<longrightarrow> v (snd y) = v w"])
      (fastforce dest: now_kept await_kept split: prod.splits if_splits option.splits)
  then show ?thesis by simp
qed

lemma poll_loop_kept:
  assumes "poll_loop ck interval start deadline ended expired body n s w = Some (r, w')"
    and "\<And>a b s w x w'. body a b s w = (x, w') \<Longrightarrow> v w' = v w"
  shows "v w' = v w"
proof -
  have "ck = ck \<longrightarrow> body = body \<longrightarrow> v (snd (r, w')) = v w"
  proof (rule poll_loop.raw_induct [OF _ assms(1), where
      P = "\<lambda>a b c d e f g n s w y. a = ck \<longrightarrow> g = body \<longrightarrow> v (snd y) = v w"], intro impI)
    fix loop a b c d e f g n s w y
    assume ih: "\<And>a b c d e f g n s w y. loop a b c d e f g n s w = Some y \<Longrightarrow>
        a = ck \<longrightarrow> g = body \<longrightarrow> v (snd y) = v w"
      and fixed: "a = ck" "g = body"
      and run: "(case wait_until a (earlier (c + int n * b) d) w of None \<Rightarrow> None
        | Some (None, w1) \<Rightarrow>
            (case ck_now a w1 of (now, w2) \<Rightarrow>
               if \<not> now < d then (case ck_now a w2 of (t, w3) \<Rightarrow> Some (f s, w3))
               else (case g (int n * b) (now - c) s w2 of
                       (Inl s', w3) \<Rightarrow> loop a b c d e f g (Suc n) s' w3
                     | (Inr r, w3) \<Rightarrow> Some (r, w3)))
        | Some (Some err, w1) \<Rightarrow> (case ck_now a w1 of (t, w2) \<Rightarrow> Some (e (t - c) err s, w2))) = Some y"
    show "v (snd y) = v w"
      using run fixed
      by (auto dest!: wait_until_kept now_kept assms(2) ih [rule_format]
          split: option.splits prod.splits if_splits sum.splits)
  qed
  then show ?thesis by simp
qed

end

locale conserved_capture = conserved_clock v ck
  for v :: "'w \<Rightarrow> 'v" and ck :: "'w clock" +
  fixes capture :: "'w capturer"
  assumes capture_keeps: "v (snd (capture w)) = v w"
begin

lemma capture_kept: "capture w = (r, w') \<Longrightarrow> v w' = v w"
  using capture_keeps [of w] by simp

lemma stable_body_kept:
  "stable_body ck capture ctx_err start stable_for a b st w = (x, w') \<Longrightarrow> v w' = v w"
  by (auto simp: stable_body_def Let_def dest!: capture_kept now_kept
      split: prod.splits sum.splits option.splits bool.splits)

lemma new_frame_body_kept:
  "new_frame_body ck capture ctx_err start after a b out w = (x, w') \<Longrightarrow> v w' = v w"
  by (auto simp: new_frame_body_def Let_def dest!: capture_kept now_kept
      split: prod.splits sum.splits option.splits if_splits)

lemma wait_stable_kept:
  assumes "wait_stable deps ctx_err stable_for timeout w = Some (x, w')"
    and "wd_clock deps = Some ck" and "wd_capturer deps = Some capture"
  shows "v w' = v w"
  using assms
  by (cases x) (auto simp: wait_stable_def dest!: now_kept
      dest: poll_loop_kept [OF _ stable_body_kept] split: option.splits if_splits prod.splits)

lemma wait_new_frame_kept:
  assumes "wait_new_frame deps ctx_err after timeout w = Some (x, w')"
    and "wd_clock deps = Some ck" and "wd_capturer deps = Some capture"
  shows "v w' = v w"
  using assms
  by (cases x) (auto simp: wait_new_frame_def dest!: now_kept
      dest: poll_loop_kept [OF _ new_frame_body_kept] split: option.splits if_splits prod.splits)

end

locale conserved_observer = conserved_clock v ck
  for v :: "'w \<Rightarrow> 'v" and ck :: "'w clock" +
  fixes ob :: "'w observer"
  assumes snapshot_keeps: "v (snd (ob_snapshot ob w)) = v w"
    and exited_keeps: "v (snd (ob_exited ob since w)) = v w"
begin

lemma snapshot_kept: "ob_snapshot ob w = (r, w') \<Longrightarrow> v w' = v w"
  using snapshot_keeps [of w] by simp

lemma exited_kept: "ob_exited ob since w = (r, w') \<Longrightarrow> v w' = v w"
  using exited_keeps [of since w] by simp

lemma wait_observations_kept:
  assumes "wait_observations kind deps ctx_err obs timeout w = Some (x, w')"
    and "wd_clock deps = Some ck" and "wd_observer deps = Some ob"
    and obs: "\<And>out w y w'. obs ob out w = (y, w') \<Longrightarrow> v w' = v w"
  shows "v w' = v w"
proof -
  have body: "v w' = v w" if "observe_body ck (obs ob) ctx_err start a b out w = (y, w')" for start a b out w y w'
    using that
    by (auto simp: observe_body_def dest!: obs now_kept split: prod.splits sum.splits option.splits bool.splits)
  show ?thesis
    using assms(1,2,3)
    by (cases x) (auto simp: wait_observations_def dest!: now_kept
        dest: poll_loop_kept [OF _ body] split: option.splits if_splits prod.splits)
qed

lemma observed_waits_kept:
  assumes "wd_clock deps = Some ck" and "wd_observer deps = Some ob"
  shows "wait_window_count deps ctx_err want timeout w = Some (x, w') \<Longrightarrow> v w' = v w"
    and "wait_window_state deps ctx_err window timeout w = Some (x, w') \<Longrightarrow> v w' = v w"
    and "wait_exited deps ctx_err timeout w = Some (x, w') \<Longrightarrow> v w' = v w"
proof -
  have count: "observe_count want ob out w = (y, w') \<Longrightarrow> v w' = v w" for out w y w'
    by (auto simp: observe_count_def Let_def dest!: snapshot_kept split: prod.splits sum.splits)
  show "wait_window_count deps ctx_err want timeout w = Some (x, w') \<Longrightarrow> v w' = v w"
    unfolding wait_window_count_def by (rule wait_observations_kept [OF _ assms count])
  have state: "observe_window window ob out w = (y, w') \<Longrightarrow> v w' = v w" for out w y w'
    by (auto simp: observe_window_def Let_def dest!: snapshot_kept split: prod.splits sum.splits)
  show "wait_window_state deps ctx_err window timeout w = Some (x, w') \<Longrightarrow> v w' = v w"
    unfolding wait_window_state_def by (rule wait_observations_kept [OF _ assms state])
  have exited: "observe_exited since ob out w = (y, w') \<Longrightarrow> v w' = v w" for since out w y w'
    by (auto simp: observe_exited_def Let_def dest!: exited_kept split: prod.splits sum.splits)
  show "wait_exited deps ctx_err timeout w = Some (x, w') \<Longrightarrow> v w' = v w"
    using wait_observations_kept [OF _ assms exited] assms(1) now_keeps [of w]
    by (auto simp: wait_exited_def split: prod.splits)
qed

end

locale conserved_burst = conserved_capture v ck capture
  for v :: "'w \<Rightarrow> 'v" and ck :: "'w clock" and capture :: "'w capturer" +
  fixes fetch :: "'w fetcher" and dest :: "'w destination"
  assumes fetch_keeps: "v (snd (fetch name w)) = v w"
    and dest_keeps: "v (snd (dest name payload w)) = v w"
begin

abbreviation seen :: "'w bworld \<Rightarrow> 'v" where
  "seen bw \<equiv> v (bw_world bw)"

lemma inside_kept:
  assumes "inside f bw = (r, bw')" and "\<And>w. v (snd (f w)) = v w"
  shows "seen bw' = seen bw"
proof -
  obtain a w where "f (bw_world bw) = (a, w)" by fastforce
  with assms(1) assms(2) [of "bw_world bw"] show ?thesis by (auto simp: inside_def)
qed

lemma inside_world_kept:
  "inside (ck_now ck) bw = (t, bw') \<Longrightarrow> seen bw' = seen bw"
  "inside capture bw = (r, bw') \<Longrightarrow> seen bw' = seen bw"
  "inside (fetch name) bw = (f, bw') \<Longrightarrow> seen bw' = seen bw"
  by (erule inside_kept, simp add: now_keeps capture_keeps fetch_keeps)+

lemma store_in_kept: "store_in dest name payload bw = (r, bw') \<Longrightarrow> seen bw' = seen bw"
  using dest_keeps [of name payload "bw_world bw"] by (auto simp: store_in_def split: prod.splits)

lemma store_sample_kept: "store_sample cd dest plan index payload previous s bw = (r, bw') \<Longrightarrow> seen bw' = seen bw"
  by (auto simp: store_sample_def Let_def dest!: store_in_kept split: if_splits prod.splits sum.splits)

lemma capture_sample_kept:
  "capture_sample cd capture fetch dest ctx_err plan index a b previous bw = (r, bw') \<Longrightarrow> seen bw' = seen bw"
  by (auto simp: capture_sample_def Let_def dest!: inside_world_kept store_sample_kept
      split: if_splits prod.splits sum.splits option.splits)

lemma burst_loop_kept:
  "burst_loop cd ck capture fetch dest ctx_err plan start due run bw = Some (x, bw') \<Longrightarrow> seen bw' = seen bw"
proof (induction "due - length (br_frames run)" arbitrary: run bw rule: less_induct)
  case less
  have rest: "burst_loop cd ck capture fetch dest ctx_err plan start due
      (skip_missed plan due e (take_sample plan t out run)) bw1 = Some (x, bw') \<Longrightarrow>
      length (br_frames run) < due \<Longrightarrow> seen bw' = seen bw1" for e t out bw1
    by (rule less.hyps [OF burst_advances])
  show ?case
    using less.prems
    by (subst (asm) burst_loop.simps)
      (auto simp: Let_def dest!: wait_until_kept inside_world_kept capture_sample_kept rest
        split: if_splits option.splits prod.splits sum.splits)
qed

lemma burst_kept:
  assumes "burst cd marshal ctx_err plan deps bw = Some (x, bw')"
    and "bd_clock deps = Some ck" and "bd_capturer deps = Some capture"
    and "bd_fetcher deps = Some fetch" and "bd_destination deps = Some dest"
  shows "seen bw' = seen bw"
proof -
  have sheet: "store_sheet cd dest plan cells bw = (r, bw') \<Longrightarrow> seen bw' = seen bw" for plan cells bw r bw'
    by (auto simp: store_sheet_def dest!: store_in_kept split: if_splits sum.splits prod.splits)
  have manifest: "write_manifest marshal (Some dest) m bw = (r, bw') \<Longrightarrow> seen bw' = seen bw" for m bw r bw'
    by (auto simp: write_manifest_def dest!: store_in_kept split: sum.splits prod.splits)
  have publish: "publish_burst cd marshal dest plan run bw = (r, bw') \<Longrightarrow> seen bw' = seen bw" for plan run bw r bw'
    by (auto simp: publish_burst_def Let_def dest!: sheet manifest split: sum.splits prod.splits option.splits)
  show ?thesis
    using assms
    by (auto simp: burst_def dest!: inside_world_kept burst_loop_kept publish
        split: sum.splits option.splits prod.splits)
qed

end

end
