(* ===== verification/Wayland_Wire.thy ===== *)
theory Wayland_Wire
  imports Complex_Main "HOL-Library.AList" Rpc
begin

text \<open>
  The Wayland wire format as the protocol server of the tests has it
  (\<open>internal/controltest/server.go\<close>): arguments, framed messages, the accessors that read a
  request by offset, and the server, which records what it receives and answers the core
  handshake. The connection is the stream and the wire of the control transport.
\<close>

section \<open>Arguments\<close>

type_synonym u16 = "16 word"

definition header_size :: nat where
  "header_size = 8"

definition max_message_size :: nat where
  "max_message_size = 2 ^ 20"

text \<open>\<open>binary.LittleEndian\<close> on 32 bits.\<close>

definition le_bytes :: "u32 \<Rightarrow> string" where
  "le_bytes w = map (\<lambda>k. char_of (unat (drop_bit k w AND 255))) [0, 8, 16, 24]"

definition le_word :: "string \<Rightarrow> u32" where
  "le_word bs = foldr (\<lambda>c w. push_bit 8 w OR of_nat (of_char c)) bs 0"

text \<open>
  What \<open>SendEvent\<close> takes: \<open>uint32\<close>, \<open>int32\<close> and \<open>int\<close>, \<open>wl.Fixed\<close>, a string, or a value of
  any other type, of which only the name matters. An \<open>int\<close> is cut to 32 bits.
\<close>

datatype arg = ArgUint u32 | ArgInt int | ArgFixed int | ArgText string | ArgOther string

definition pad4 :: "string \<Rightarrow> string" where
  "pad4 bs = bs @ replicate ((4 - length bs mod 4) mod 4) (CHR 0x00)"

definition marshal_text :: "string \<Rightarrow> string" where
  "marshal_text t = le_bytes (of_nat (length t + 1)) @ t @ [CHR 0x00]"

fun marshal_onto :: "string \<Rightarrow> arg list \<Rightarrow> string + string" where
  "marshal_onto body [] = Inr body"
| "marshal_onto body (ArgUint v # as) = marshal_onto (body @ le_bytes v) as"
| "marshal_onto body (ArgInt v # as) = marshal_onto (body @ le_bytes (word_of_int v)) as"
| "marshal_onto body (ArgFixed v # as) = marshal_onto (body @ le_bytes (word_of_int v)) as"
| "marshal_onto body (ArgText t # as) = marshal_onto (pad4 (body @ marshal_text t)) as"
| "marshal_onto body (ArgOther type_name # as) = Inl (''controltest: unsupported argument type '' @ type_name)"

definition marshal :: "arg list \<Rightarrow> string + string" where
  "marshal = marshal_onto []"

section \<open>Messages\<close>

definition size_opcode :: "nat \<Rightarrow> u16 \<Rightarrow> u32" where
  "size_opcode n opcode = push_bit 16 (of_nat n) OR ucast opcode"

definition wire_message :: "u32 \<Rightarrow> u16 \<Rightarrow> string \<Rightarrow> string" where
  "wire_message object opcode body =
     le_bytes object @ le_bytes (size_opcode (header_size + length body) opcode) @ body"

datatype message_err = MalformedHeader u32 u16 nat | MessageEnded read_end

definition read_wire :: "stream \<Rightarrow> (message_err + u32 \<times> u16 \<times> string) \<times> stream" where
  "read_wire s =
     (case read_full header_size s of
        (Inl e, s1) \<Rightarrow> (Inl (MessageEnded e), s1)
      | (Inr hdr, s1) \<Rightarrow>
          let object = le_word (take 4 hdr);
              word = le_word (drop 4 hdr);
              size = unat (drop_bit 16 word);
              opcode = ucast (word AND 0xffff)
          in if size < header_size \<or> size mod 4 \<noteq> 0 \<or> max_message_size < size
             then (Inl (MalformedHeader object opcode size), s1)
             else if size = header_size then (Inr (object, opcode, []), s1)
             else (case read_full (size - header_size) s1 of
                     (Inl e, s2) \<Rightarrow> (Inl (MessageEnded e), s2)
                   | (Inr body, s2) \<Rightarrow> (Inr (object, opcode, body), s2)))"

section \<open>Reading a request\<close>

definition body_uint :: "string \<Rightarrow> int \<Rightarrow> u32" where
  "body_uint body offset =
     (if offset < 0 \<or> int (length body) < offset + 4 then 0
      else le_word (take 4 (drop (nat offset) body)))"

definition body_int :: "string \<Rightarrow> int \<Rightarrow> int" where
  "body_int body offset = sint (body_uint body offset)"

definition body_fixed :: "string \<Rightarrow> int \<Rightarrow> int" where
  "body_fixed body offset = body_int body offset"

text \<open>The string at an offset and the bytes it takes, the terminator and the padding included.\<close>

definition body_text :: "string \<Rightarrow> int \<Rightarrow> string \<times> int" where
  "body_text body offset =
     (if offset < 0 \<or> int (length body) < offset + 4 then ([], 0)
      else
        let len = int (unat (le_word (take 4 (drop (nat offset) body))))
        in if len \<le> 0 \<or> int (length body) < offset + 4 + len then ([], 0)
           else
             (take (nat len - 1) (drop (nat offset + 4) body),
              let consumed = 4 + len; pad = consumed mod 4
              in if pad \<noteq> 0 then consumed + (4 - pad) else consumed))"

section \<open>The server\<close>

record global_entry =
  gb_name :: u32
  gb_interface :: string
  gb_version :: u32

datatype server_err = BadMessage message_err | BadWrite string | BadArgument string

record dserver =
  ds_conn :: "wire option"
  ds_conn_closed :: bool
  ds_requests :: "(u32 \<times> u16 \<times> string) list"
  ds_ids :: "(string \<times> u32) list"
  ds_names :: "(u32 \<times> string) list"
  ds_globals :: "global_entry list"
  ds_registry :: u32
  ds_err :: "server_err option"
  ds_closed :: bool
  ds_socket :: bool

definition manager_interface :: string where
  "manager_interface = ''wlvision_control_v1''"

definition controller_interface :: string where
  "controller_interface = ''wlvision_controller_v1''"

definition start_server :: "global_entry list \<Rightarrow> dserver" where
  "start_server globals =
     \<lparr>ds_conn = None, ds_conn_closed = False, ds_requests = [], ds_ids = [], ds_names = [],
      ds_globals = (if globals = [] then [\<lparr>gb_name = 1, gb_interface = manager_interface, gb_version = 1\<rparr>]
                    else globals),
      ds_registry = 0, ds_err = None, ds_closed = False, ds_socket = True\<rparr>"

definition object_id :: "string \<Rightarrow> dserver \<Rightarrow> u32" where
  "object_id iface s = (case map_of (ds_ids s) iface of None \<Rightarrow> 0 | Some i \<Rightarrow> i)"

definition interface_for :: "u32 \<Rightarrow> dserver \<Rightarrow> string" where
  "interface_for i s = (case map_of (ds_names s) i of None \<Rightarrow> [] | Some n \<Rightarrow> n)"

text \<open>A write without a connection succeeds and goes nowhere; one on a closed connection fails.\<close>

definition send_bytes :: "string \<Rightarrow> dserver \<Rightarrow> server_err option \<times> dserver" where
  "send_bytes msg s =
     (case ds_conn s of
        None \<Rightarrow> (None, s)
      | Some w \<Rightarrow>
          if ds_conn_closed s then (Some (BadWrite ''use of closed network connection''), s)
          else (case wire_write msg w of (e, w1) \<Rightarrow> (map_option BadWrite e, s\<lparr>ds_conn := Some w1\<rparr>)))"

definition send_event :: "u32 \<Rightarrow> u16 \<Rightarrow> arg list \<Rightarrow> dserver \<Rightarrow> server_err option \<times> dserver" where
  "send_event object opcode as s =
     (case marshal as of
        Inl e \<Rightarrow> (Some (BadArgument e), s)
      | Inr body \<Rightarrow> send_bytes (wire_message object opcode body) s)"

definition send_display_error :: "u32 \<Rightarrow> u32 \<Rightarrow> string \<Rightarrow> dserver \<Rightarrow> server_err option \<times> dserver" where
  "send_display_error object code message = send_event 1 0 [ArgUint object, ArgUint code, ArgText message]"

fun announce :: "u32 \<Rightarrow> global_entry list \<Rightarrow> dserver \<Rightarrow> server_err option \<times> dserver" where
  "announce i [] s = (None, s)"
| "announce i (g # gs) s =
     (case send_event i 0 [ArgUint (gb_name g), ArgText (gb_interface g), ArgUint (gb_version g)] s of
        (Some e, s1) \<Rightarrow> (Some e, s1)
      | (None, s1) \<Rightarrow> announce i gs s1)"

definition bind_id :: "string \<Rightarrow> u32 \<Rightarrow> dserver \<Rightarrow> dserver" where
  "bind_id iface i s =
     s\<lparr>ds_ids := AList.update iface i (ds_ids s), ds_names := AList.update i iface (ds_names s)\<rparr>"

definition handle_message ::
  "u32 \<Rightarrow> u16 \<Rightarrow> string \<Rightarrow> u32 \<Rightarrow> u32 \<Rightarrow> dserver \<Rightarrow> server_err option \<times> dserver" where
  "handle_message object opcode body registry manager s =
     (if object = 1 \<and> opcode = 0 then
        let callback = body_uint body 0
        in (case send_event callback 0 [ArgUint 1] s of
              (Some e, s1) \<Rightarrow> (Some e, s1)
            | (None, s1) \<Rightarrow> send_event 1 1 [ArgUint callback] s1)
      else if object = 1 \<and> opcode = 1 then
        let i = body_uint body 0 in announce i (ds_globals s) (s\<lparr>ds_registry := i\<rparr>)
      else if registry \<noteq> 0 \<and> object = registry \<and> opcode = 0 then
        (case body_text body 4 of
           (iface, consumed) \<Rightarrow> (None, bind_id iface (body_uint body (8 + consumed)) s))
      else if manager \<noteq> 0 \<and> object = manager \<and> opcode = 0 then
        (None, bind_id controller_interface (body_uint body 0) s)
      else (None, s))"

definition set_server_err :: "server_err \<Rightarrow> dserver \<Rightarrow> dserver" where
  "set_server_err e s = (case ds_err s of None \<Rightarrow> s\<lparr>ds_err := Some e\<rparr> | Some _ \<Rightarrow> s)"

text \<open>
  The ordinary ends of a connection; a stream that ends with anything else is an error. A
  connection the server itself closed reads as \<open>EndOther ''closed''\<close>.
\<close>

definition is_connection_end :: "message_err \<Rightarrow> bool" where
  "is_connection_end e = (e \<in> {MessageEnded EndEOF, MessageEnded EndUnexpectedEOF, MessageEnded (EndOther ''closed'')})"

text \<open>Every message read is recorded before it is handled; the loop ends with the stream.\<close>

lemma read_full_shorter:
  "read_full n s = (Inr bs, s1) \<Longrightarrow> length (in_bytes s1) + n = length (in_bytes s)"
  by (auto simp: read_full_def split: if_splits)

lemma read_wire_shorter: "read_wire s = (Inr m, s1) \<Longrightarrow> length (in_bytes s1) < length (in_bytes s)"
  by (auto simp: read_wire_def Let_def header_size_def split: prod.splits sum.splits if_splits dest!: read_full_shorter)

function serve_requests :: "stream \<Rightarrow> dserver \<Rightarrow> dserver" where
  "serve_requests st s =
     (case read_wire st of
        (Inl e, _) \<Rightarrow> if is_connection_end e then s else set_server_err (BadMessage e) s
      | (Inr (object, opcode, body), st1) \<Rightarrow>
          (case handle_message object opcode body (ds_registry s) (object_id manager_interface s)
                  (s\<lparr>ds_requests := ds_requests s @ [(object, opcode, body)]\<rparr>) of
             (Some e, s1) \<Rightarrow> set_server_err e s1
           | (None, s1) \<Rightarrow> serve_requests st1 s1))"
  by pat_completeness auto
termination
  by (relation "measure (\<lambda>(st, s). length (in_bytes st))") (auto dest: read_wire_shorter [OF sym])

declare serve_requests.simps [simp del]

definition stop_server :: "dserver \<Rightarrow> dserver" where
  "stop_server s =
     (if ds_closed s then s
      else s\<lparr>ds_closed := True, ds_conn_closed := (ds_conn s \<noteq> None), ds_socket := False\<rparr>)"

definition accept_conn :: "wire \<Rightarrow> dserver \<Rightarrow> dserver" where
  "accept_conn w s = s\<lparr>ds_conn := Some w\<rparr>"

section \<open>What is written is read back\<close>

lemma le_bytes_length [simp]: "length (le_bytes w) = 4"
  by (simp add: le_bytes_def)

lemma le_word_bytes [simp]: "le_word (le_bytes w) = w"
proof (rule bit_word_eqI)
  fix n
  assume n: "n < LENGTH(32)"
  have m: "(255::u32) = mask 8" by (simp add: mask_eq_exp_minus_1)
  show "bit (le_word (le_bytes w)) n = bit w n"
    unfolding le_word_def le_bytes_def using n
    by (simp only: list.map foldr.simps o_apply id_apply byte_back)
      (cases "n < 8"; cases "n < 16"; cases "n < 24"; auto simp: m bit_simps)
qed

lemma size_opcode_split:
  assumes "n < 2 ^ 16"
  shows "unat (drop_bit 16 (size_opcode n opcode)) = n" "ucast (size_opcode n opcode AND 0xffff) = opcode"
proof -
  have m: "(0xffff::u32) = mask 16" by (simp add: mask_eq_exp_minus_1)
  have n: "(of_nat n :: u32) = take_bit 16 (of_nat n)"
    using assms by (simp add: take_bit_of_nat take_bit_nat_eq_self)
  have "drop_bit 16 (size_opcode n opcode) = of_nat n"
    unfolding size_opcode_def
    by (subst (2) n, rule bit_word_eqI) (auto simp: bit_simps dest: bit_imp_le_length)
  then show "unat (drop_bit 16 (size_opcode n opcode)) = n"
    using assms by (simp add: unat_of_nat)
  show "ucast (size_opcode n opcode AND 0xffff) = opcode"
    unfolding size_opcode_def m by (rule bit_word_eqI) (auto simp: bit_simps)
qed

lemma read_wire_message:
  assumes "length body mod 4 = 0" and "header_size + length body < 2 ^ 16"
  shows "read_wire \<lparr>in_bytes = wire_message object opcode body @ rest, in_end = e\<rparr> =
    (Inr (object, opcode, body), \<lparr>in_bytes = rest, in_end = e\<rparr>)"
  using assms size_opcode_split [OF assms(2), of opcode]
  by (auto simp: read_wire_def read_full_def wire_message_def Let_def header_size_def max_message_size_def
      mod_add_eq [of 8 4])

text \<open>The block of bytes of one argument, and which values fit their type.\<close>

fun arg_bytes :: "arg \<Rightarrow> string" where
  "arg_bytes (ArgUint v) = le_bytes v"
| "arg_bytes (ArgInt v) = le_bytes (word_of_int v)"
| "arg_bytes (ArgFixed v) = le_bytes (word_of_int v)"
| "arg_bytes (ArgText t) = pad4 (marshal_text t)"
| "arg_bytes (ArgOther _) = []"

fun arg_ok :: "arg \<Rightarrow> bool" where
  "arg_ok (ArgUint v) = True"
| "arg_ok (ArgInt v) = (- (2 ^ 31) \<le> v \<and> v < 2 ^ 31)"
| "arg_ok (ArgFixed v) = (- (2 ^ 31) \<le> v \<and> v < 2 ^ 31)"
| "arg_ok (ArgText t) = (length t + 1 < 2 ^ 32)"
| "arg_ok (ArgOther _) = False"

lemma pos_mod_bound_four: "n mod 4 < 4" for n :: nat
  by simp

lemma padding: "(4 - n mod 4) mod 4 = (if n mod 4 = 0 then 0 else 4 - n mod 4)" for n :: nat
  by (cases "n mod 4 = 0") (simp_all add: mod_less)

lemma padded: "(n + (4 - n mod 4) mod 4) mod 4 = (0 :: nat)"
proof -
  have "r < 4 \<Longrightarrow> r \<noteq> 0 \<Longrightarrow> (4 * q + r) + (4 - r) = 4 * Suc q" for q r :: nat
    by simp
  from this [OF pos_mod_bound_four, of n "n div 4", unfolded mult_div_mod_eq]
  have "n mod 4 \<noteq> 0 \<Longrightarrow> n + (4 - n mod 4) = 4 * Suc (n div 4)"
    by blast
  then show ?thesis unfolding padding by (metis add_0_right mod_mult_self1_is_0)
qed

lemma pad4_length [simp]: "length (pad4 bs) mod 4 = 0"
  by (simp add: pad4_def padded)

lemma pad4_append: "length a mod 4 = 0 \<Longrightarrow> pad4 (a @ b) = a @ pad4 b"
  by (simp add: pad4_def mod_add_eq [symmetric])

lemma arg_bytes_length [simp]: "length (arg_bytes a) mod 4 = 0"
  by (cases a) simp_all

lemma marshal_onto_blocks:
  "list_all arg_ok as \<Longrightarrow> length body mod 4 = 0 \<Longrightarrow>
    marshal_onto body as = Inr (body @ concat (map arg_bytes as))"
proof (induction as arbitrary: body)
  case (Cons a as)
  then have "length (body @ arg_bytes a) mod 4 = 0" by (simp add: mod_add_eq [symmetric])
  from Cons.IH [OF _ this] show ?case
    using Cons.prems by (cases a) (simp_all add: pad4_append)
qed simp

lemma marshal_blocks: "list_all arg_ok as \<Longrightarrow> marshal as = Inr (concat (map arg_bytes as))"
  by (simp add: marshal_def marshal_onto_blocks)

lemma blocks_length: "length (concat (map arg_bytes as)) mod 4 = 0"
  by (induction as) (simp_all add: mod_add_eq [symmetric])

text \<open>Reading arguments one after another, each where the one before ended.\<close>

datatype arg_kind = KindUint | KindInt | KindFixed | KindText

fun kind_of :: "arg \<Rightarrow> arg_kind" where
  "kind_of (ArgUint _) = KindUint"
| "kind_of (ArgInt _) = KindInt"
| "kind_of (ArgFixed _) = KindFixed"
| "kind_of (ArgText _) = KindText"
| "kind_of (ArgOther _) = KindText"

fun read_arg :: "arg_kind \<Rightarrow> string \<Rightarrow> int \<Rightarrow> arg \<times> int" where
  "read_arg KindUint body off = (ArgUint (body_uint body off), off + 4)"
| "read_arg KindInt body off = (ArgInt (body_int body off), off + 4)"
| "read_arg KindFixed body off = (ArgFixed (body_fixed body off), off + 4)"
| "read_arg KindText body off = (case body_text body off of (t, n) \<Rightarrow> (ArgText t, off + n))"

fun read_args :: "arg_kind list \<Rightarrow> string \<Rightarrow> int \<Rightarrow> arg list" where
  "read_args [] body off = []"
| "read_args (k # ks) body off = (case read_arg k body off of (a, next) \<Rightarrow> a # read_args ks body next)"

lemma body_uint_block: "body_uint (pre @ le_bytes v @ post) (int (length pre)) = v"
  by (simp add: body_uint_def)

lemma body_int_block:
  "- (2 ^ 31) \<le> v \<Longrightarrow> v < 2 ^ 31 \<Longrightarrow> body_int (pre @ le_bytes (word_of_int v) @ post) (int (length pre)) = v"
  by (simp add: body_int_def body_uint_block signed_of_int signed_take_bit_int_eq_self)

lemma pad4_marshal_length:
  "int (length (pad4 (marshal_text t))) =
     (let consumed = 4 + (int (length t) + 1); pad = consumed mod 4
      in if pad \<noteq> 0 then consumed + (4 - pad) else consumed)"
proof -
  have c: "int n mod 4 = int (n mod 4)" for n
    by (simp add: zmod_int)
  have "r < 4 \<Longrightarrow> int (n + (if r = 0 then 0 else 4 - r)) = (if int r \<noteq> 0 then int n + (4 - int r) else int n)" for n r
    by auto
  from this [OF pos_mod_bound_four]
  have "int (n + (4 - n mod 4) mod 4) = (if int n mod 4 \<noteq> 0 then int n + (4 - int n mod 4) else int n)" for n
    unfolding padding c .
  from this [of "4 + (length t + 1)"] show ?thesis
    by (simp add: pad4_def marshal_text_def Let_def add.assoc)
qed

lemma body_text_block:
  assumes "length t + 1 < 2 ^ 32"
  shows "body_text (pre @ pad4 (marshal_text t) @ post) (int (length pre)) = (t, int (length (pad4 (marshal_text t))))"
proof -
  have n: "unat (of_nat (length t + 1) :: u32) = length t + 1"
    using assms by (simp only: unat_of_nat) simp
  have "take 4 (pad4 (marshal_text t) @ post) = le_bytes (of_nat (length t + 1))"
    by (simp add: pad4_def marshal_text_def)
  then have w: "unat (le_word (take 4 (pad4 (marshal_text t) @ post))) = length t + 1"
    by (simp only: le_word_bytes n)
  have "drop 4 (pad4 (marshal_text t) @ post) = t @ drop (4 + length t) (pad4 (marshal_text t) @ post)"
    by (simp add: pad4_def marshal_text_def)
  then have t: "take (length t) (drop 4 (pad4 (marshal_text t) @ post)) = t"
    by (metis append_eq_conv_conj)
  have l: "4 + (int (length t) + 1) \<le> int (length (pad4 (marshal_text t)))"
    by (simp add: pad4_def marshal_text_def)
  have d: "drop (nat (int (length pre))) (pre @ xs) = xs" "drop (nat (int (length pre)) + 4) (pre @ xs) = drop 4 xs" for xs
    by simp_all
  let ?body = "pre @ pad4 (marshal_text t) @ post"
  have i: "\<not> (int (length pre) < 0 \<or> int (length ?body) < int (length pre) + 4)"
    and j: "\<not> (int (length t + 1) \<le> 0 \<or> int (length ?body) < int (length pre) + 4 + int (length t + 1))"
    using l by simp_all
  show ?thesis
    unfolding body_text_def if_not_P [OF i] d w Let_def if_not_P [OF j]
    by (simp add: pad4_marshal_length t Let_def nat_add_distrib del: take_append drop_append)
qed

lemma read_arg_block:
  assumes "arg_ok a"
  shows "read_arg (kind_of a) (pre @ arg_bytes a @ post) (int (length pre)) =
    (a, int (length (pre @ arg_bytes a)))"
  using assms by (cases a) (simp_all add: body_uint_block body_int_block body_fixed_def body_text_block)

lemma read_args_blocks:
  "list_all arg_ok as \<Longrightarrow>
    read_args (map kind_of as) (pre @ concat (map arg_bytes as) @ post) (int (length pre)) = as"
proof (induction as arbitrary: pre)
  case (Cons a as)
  have "read_args (map kind_of as) ((pre @ arg_bytes a) @ concat (map arg_bytes as) @ post)
      (int (length (pre @ arg_bytes a))) = as"
    using Cons by (intro Cons.IH) simp
  then show ?case
    using Cons.prems read_arg_block [of a pre "concat (map arg_bytes as) @ post"] by simp
qed simp

text \<open>
  Any list of arguments that fit their types is written and read back: the message is
  framed so that a reader gets its object, its opcode and its body and nothing of what
  follows, and reading the body argument by argument, each at the offset where the one
  before ended, gives the arguments, strings with their terminator and padding included.
\<close>

lemma wire_roundtrip:
  assumes "list_all arg_ok as" and "marshal as = Inr body" and "header_size + length body < 2 ^ 16"
  shows "read_wire \<lparr>in_bytes = wire_message object opcode body @ rest, in_end = e\<rparr> =
      (Inr (object, opcode, body), \<lparr>in_bytes = rest, in_end = e\<rparr>) \<and>
    read_args (map kind_of as) body 0 = as"
proof -
  have b: "body = concat (map arg_bytes as)" using assms(1,2) by (simp add: marshal_blocks)
  have "length body mod 4 = 0" unfolding b by (rule blocks_length)
  then show ?thesis
    using read_wire_message [OF _ assms(3)] read_args_blocks [OF assms(1), of "[]" "[]"] b by simp
qed

lemma wire_roundtrip_witness:
  "\<exists>body. marshal [ArgUint 7, ArgText ''w1'', ArgInt (- 3)] = Inr body \<and>
     read_args [KindUint, KindText, KindInt] body 0 = [ArgUint 7, ArgText ''w1'', ArgInt (- 3)]"
proof -
  let ?as = "[ArgUint 7, ArgText ''w1'', ArgInt (- 3)]"
  have ok: "list_all arg_ok ?as" by simp
  obtain body where b: "marshal ?as = Inr body" and "body = concat (map arg_bytes ?as)"
    using marshal_blocks [OF ok] by blast
  then have "length body = 16" by (simp add: pad4_def marshal_text_def)
  then have "header_size + length body < 2 ^ 16" by (simp add: header_size_def)
  from wire_roundtrip [OF ok b this] show ?thesis using b by simp
qed

text \<open>
  The size of a message has 16 bits. A body that needs more is framed with the low bits of
  its size: one byte too long, and the reader sees a message of size 0. The limit of 2^20
  bytes on what is read is never reached.
\<close>

lemma oversized_message_misread:
  assumes "header_size + length body = 2 ^ 16"
  shows "fst (read_wire \<lparr>in_bytes = wire_message object opcode body, in_end = e\<rparr>) =
    Inl (MalformedHeader object opcode 0)"
proof -
  have m: "(0xffff::u32) = mask 16" by (simp add: mask_eq_exp_minus_1)
  have eight: "8 + length body = 65536" using assms by (simp add: header_size_def)
  have "push_bit 16 (of_nat (2 ^ 16)) = (0 :: u32)" by (simp add: push_bit_eq_mult)
  then have s: "size_opcode (2 ^ 16) opcode = ucast opcode" unfolding size_opcode_def by (simp only: or.left_neutral)
  have "drop_bit 16 (ucast opcode :: u32) = 0" "ucast (ucast opcode AND 0xffff :: u32) = opcode"
    unfolding m by (rule bit_word_eqI; auto simp: bit_simps dest: bit_imp_le_length)+
  then show ?thesis
    using s by (simp add: read_wire_def read_full_def wire_message_def Let_def header_size_def eight)
qed

lemma message_size_bound: "unat (drop_bit 16 (w :: u32)) < max_message_size"
proof -
  have "unat (drop_bit 16 w) = unat w div 2 ^ 16" by (simp add: drop_bit_eq_div unat_div)
  moreover have "unat w < 2 ^ 32" using unsigned_less [of w, where ?'a = nat] by simp
  ultimately show ?thesis by (simp add: max_message_size_def less_mult_imp_div_less)
qed

text \<open>Closing the server twice is closing it once.\<close>

lemma stop_server_idempotent: "stop_server (stop_server s) = stop_server s"
  by (simp add: stop_server_def)

end
