(* ===== verification/Bindings.thy ===== *)
theory Bindings
  imports Complex_Main Control_Requests Wayland_Wire Capture_Source
begin

text \<open>
  The generated bindings of the two protocols
  (\<open>internal/control/generated/wlvision_control.go\<close> and
  \<open>internal/capture/generated/weston_output_capture.go\<close>): the opcode and the arguments of
  every request, the objects that requests create and destroy, the decoding of every event
  and the handlers it reaches. The client library is outside: allocating, registering and
  sending are the parameter \<open>display\<close>, reading an argument of an event the parameter
  \<open>reader\<close>.
\<close>

section \<open>Objects\<close>

text \<open>A request argument on its way out: a value, a new object or an object that may be nil.\<close>

datatype out_arg = Plain arg | NewId u32 | ObjectRef "u32 option"

record 'c display =
  dp_allocate :: "'c \<Rightarrow> u32 \<times> 'c"
  dp_register :: "u32 \<Rightarrow> 'c \<Rightarrow> 'c"
  dp_unregister :: "u32 \<Rightarrow> 'c \<Rightarrow> 'c"
  dp_send :: "u32 \<Rightarrow> u16 \<Rightarrow> out_arg list \<Rightarrow> 'c \<Rightarrow> string option \<times> 'c"

text \<open>A request that creates an object registers it first and takes it back when sending fails.\<close>

definition create_child ::
  "'c display \<Rightarrow> u32 \<Rightarrow> u16 \<Rightarrow> (u32 \<Rightarrow> out_arg list) \<Rightarrow> 'c \<Rightarrow> (string + u32) \<times> 'c" where
  "create_child dp object opcode args c =
     (case dp_allocate dp c of
        (i, c1) \<Rightarrow>
          (case dp_send dp object opcode (args i) (dp_register dp i c1) of
             (Some e, c2) \<Rightarrow> (Inl e, dp_unregister dp i c2)
           | (None, c2) \<Rightarrow> (Inr i, c2)))"

definition create_controller :: "'c display \<Rightarrow> u32 \<Rightarrow> 'c \<Rightarrow> (string + u32) \<times> 'c" where
  "create_controller dp manager = create_child dp manager 0 (\<lambda>i. [NewId i])"

definition create_capture_source ::
  "'c display \<Rightarrow> u32 \<Rightarrow> u32 option \<Rightarrow> u32 \<Rightarrow> 'c \<Rightarrow> (string + u32) \<times> 'c" where
  "create_capture_source dp capture wl_output source =
     create_child dp capture 1 (\<lambda>i. [ObjectRef wl_output, Plain (ArgUint source), NewId i])"

definition destroy_object :: "'c display \<Rightarrow> u32 \<Rightarrow> u16 \<Rightarrow> 'c \<Rightarrow> string option \<times> 'c" where
  "destroy_object dp object opcode c =
     (case dp_send dp object opcode [] c of
        (Some e, c1) \<Rightarrow> (Some e, c1)
      | (None, c1) \<Rightarrow> (None, dp_unregister dp object c1))"

definition destroy_manager :: "'c display \<Rightarrow> u32 \<Rightarrow> 'c \<Rightarrow> string option \<times> 'c" where
  "destroy_manager dp object = destroy_object dp object 1"

definition destroy_controller :: "'c display \<Rightarrow> u32 \<Rightarrow> 'c \<Rightarrow> string option \<times> 'c" where
  "destroy_controller dp object = destroy_object dp object 10"

definition destroy_capture :: "'c display \<Rightarrow> u32 \<Rightarrow> 'c \<Rightarrow> string option \<times> 'c" where
  "destroy_capture dp object = destroy_object dp object 0"

definition destroy_capture_source :: "'c display \<Rightarrow> u32 \<Rightarrow> 'c \<Rightarrow> string option \<times> 'c" where
  "destroy_capture_source dp object = destroy_object dp object 0"

definition capture_into :: "'c display \<Rightarrow> u32 \<Rightarrow> u32 option \<Rightarrow> 'c \<Rightarrow> string option \<times> 'c" where
  "capture_into dp object buffer = dp_send dp object 1 [ObjectRef buffer]"

section \<open>Requests of the controller\<close>

fun controller_request :: "ctl_request \<Rightarrow> u16 \<times> arg list" where
  "controller_request (SnapshotRequest i) = (0, [ArgUint i])"
| "controller_request (ActivateRequest i h hi lo) = (1, [ArgUint i, ArgText h, ArgUint hi, ArgUint lo])"
| "controller_request (MoveRequest i h hi lo x y) =
     (2, [ArgUint i, ArgText h, ArgUint hi, ArgUint lo, ArgInt x, ArgInt y])"
| "controller_request (ResizeRequest i h hi lo w t) =
     (3, [ArgUint i, ArgText h, ArgUint hi, ArgUint lo, ArgUint w, ArgUint t])"
| "controller_request (CloseRequest i h hi lo) = (4, [ArgUint i, ArgText h, ArgUint hi, ArgUint lo])"
| "controller_request (MotionRequest i x y) = (5, [ArgUint i, ArgFixed x, ArgFixed y])"
| "controller_request (ButtonRequest i b st) = (6, [ArgUint i, ArgUint b, ArgUint st])"
| "controller_request (AxisRequest i a v) = (7, [ArgUint i, ArgUint a, ArgFixed v])"
| "controller_request (KeyRequest i k st) = (8, [ArgUint i, ArgUint k, ArgUint st])"
| "controller_request (CaptureRequest i) = (9, [ArgUint i])"

definition send_controller :: "'c display \<Rightarrow> u32 \<Rightarrow> ctl_request \<Rightarrow> 'c \<Rightarrow> string option \<times> 'c" where
  "send_controller dp object rq =
     (case controller_request rq of (opcode, as) \<Rightarrow> dp_send dp object opcode (map Plain as))"

section \<open>Events of the controller\<close>

text \<open>
  Handlers are what they do to a state. Registering appends; dispatching runs the handlers
  registered when it starts, in order.
\<close>

record 's ctl_handlers =
  bh_snapshot :: "(u32 \<Rightarrow> u32 \<Rightarrow> 's \<Rightarrow> 's) list"
  bh_changed :: "(string \<Rightarrow> string \<Rightarrow> string \<Rightarrow> int \<Rightarrow> int \<Rightarrow> u32 \<Rightarrow> u32 \<Rightarrow> u32 \<Rightarrow> u32 \<Rightarrow> u32 \<Rightarrow> 's \<Rightarrow> 's) list"
  bh_removed :: "(string \<Rightarrow> 's \<Rightarrow> 's) list"
  bh_done :: "(u32 \<Rightarrow> u32 \<Rightarrow> u32 \<Rightarrow> 's \<Rightarrow> 's) list"
  bh_failed :: "(u32 \<Rightarrow> u32 \<Rightarrow> string \<Rightarrow> 's \<Rightarrow> 's) list"
  bh_frame :: "(u32 \<Rightarrow> u32 \<Rightarrow> 's \<Rightarrow> 's) list"
  bh_authorized :: "(u32 \<Rightarrow> 's \<Rightarrow> 's) list"
  bh_configured :: "(u32 \<Rightarrow> int \<Rightarrow> int \<Rightarrow> 's \<Rightarrow> 's) list"
  bh_resized :: "(u32 \<Rightarrow> int \<Rightarrow> int \<Rightarrow> int \<Rightarrow> int \<Rightarrow> int \<Rightarrow> int \<Rightarrow> u32 \<Rightarrow> u32 \<Rightarrow> 's \<Rightarrow> 's) list"

definition no_handlers :: "'s ctl_handlers" where
  "no_handlers = \<lparr>bh_snapshot = [], bh_changed = [], bh_removed = [], bh_done = [], bh_failed = [],
     bh_frame = [], bh_authorized = [], bh_configured = [], bh_resized = []\<rparr>"

definition on_snapshot_event :: "(u32 \<Rightarrow> u32 \<Rightarrow> 's \<Rightarrow> 's) \<Rightarrow> 's ctl_handlers \<Rightarrow> 's ctl_handlers" where
  "on_snapshot_event f hs = hs\<lparr>bh_snapshot := bh_snapshot hs @ [f]\<rparr>"

definition on_changed_event ::
  "(string \<Rightarrow> string \<Rightarrow> string \<Rightarrow> int \<Rightarrow> int \<Rightarrow> u32 \<Rightarrow> u32 \<Rightarrow> u32 \<Rightarrow> u32 \<Rightarrow> u32 \<Rightarrow> 's \<Rightarrow> 's) \<Rightarrow>
    's ctl_handlers \<Rightarrow> 's ctl_handlers" where
  "on_changed_event f hs = hs\<lparr>bh_changed := bh_changed hs @ [f]\<rparr>"

definition on_removed_event :: "(string \<Rightarrow> 's \<Rightarrow> 's) \<Rightarrow> 's ctl_handlers \<Rightarrow> 's ctl_handlers" where
  "on_removed_event f hs = hs\<lparr>bh_removed := bh_removed hs @ [f]\<rparr>"

definition on_done_event :: "(u32 \<Rightarrow> u32 \<Rightarrow> u32 \<Rightarrow> 's \<Rightarrow> 's) \<Rightarrow> 's ctl_handlers \<Rightarrow> 's ctl_handlers" where
  "on_done_event f hs = hs\<lparr>bh_done := bh_done hs @ [f]\<rparr>"

definition on_failed_event :: "(u32 \<Rightarrow> u32 \<Rightarrow> string \<Rightarrow> 's \<Rightarrow> 's) \<Rightarrow> 's ctl_handlers \<Rightarrow> 's ctl_handlers" where
  "on_failed_event f hs = hs\<lparr>bh_failed := bh_failed hs @ [f]\<rparr>"

definition on_frame_event :: "(u32 \<Rightarrow> u32 \<Rightarrow> 's \<Rightarrow> 's) \<Rightarrow> 's ctl_handlers \<Rightarrow> 's ctl_handlers" where
  "on_frame_event f hs = hs\<lparr>bh_frame := bh_frame hs @ [f]\<rparr>"

definition on_authorized_event :: "(u32 \<Rightarrow> 's \<Rightarrow> 's) \<Rightarrow> 's ctl_handlers \<Rightarrow> 's ctl_handlers" where
  "on_authorized_event f hs = hs\<lparr>bh_authorized := bh_authorized hs @ [f]\<rparr>"

definition on_configured_event :: "(u32 \<Rightarrow> int \<Rightarrow> int \<Rightarrow> 's \<Rightarrow> 's) \<Rightarrow> 's ctl_handlers \<Rightarrow> 's ctl_handlers" where
  "on_configured_event f hs = hs\<lparr>bh_configured := bh_configured hs @ [f]\<rparr>"

definition on_resized_event ::
  "(u32 \<Rightarrow> int \<Rightarrow> int \<Rightarrow> int \<Rightarrow> int \<Rightarrow> int \<Rightarrow> int \<Rightarrow> u32 \<Rightarrow> u32 \<Rightarrow> 's \<Rightarrow> 's) \<Rightarrow> 's ctl_handlers \<Rightarrow> 's ctl_handlers" where
  "on_resized_event f hs = hs\<lparr>bh_resized := bh_resized hs @ [f]\<rparr>"

record 'e reader =
  rd_uint :: "'e \<Rightarrow> u32 \<times> 'e"
  rd_int :: "'e \<Rightarrow> int \<times> 'e"
  rd_text :: "'e \<Rightarrow> string \<times> 'e"

definition run_all :: "('s \<Rightarrow> 's) list \<Rightarrow> 's \<Rightarrow> 's" where
  "run_all fs = fold (\<lambda>f. f) fs"

definition controller_dispatch :: "'e reader \<Rightarrow> 's ctl_handlers \<Rightarrow> u16 \<Rightarrow> 'e \<Rightarrow> 's \<Rightarrow> 's" where
  "controller_dispatch rd hs opcode e0 s =
     (if opcode = 0 then
        let (hi, e1) = rd_uint rd e0; (lo, e2) = rd_uint rd e1
        in run_all (map (\<lambda>f. f hi lo) (bh_snapshot hs)) s
      else if opcode = 1 then
        let (h, e1) = rd_text rd e0; (title, e2) = rd_text rd e1; (app, e3) = rd_text rd e2;
            (x, e4) = rd_int rd e3; (y, e5) = rd_int rd e4; (w, e6) = rd_uint rd e5;
            (t, e7) = rd_uint rd e6; (st, e8) = rd_uint rd e7; (hi, e9) = rd_uint rd e8;
            (lo, e10) = rd_uint rd e9
        in run_all (map (\<lambda>f. f h title app x y w t st hi lo) (bh_changed hs)) s
      else if opcode = 2 then
        let (h, e1) = rd_text rd e0 in run_all (map (\<lambda>f. f h) (bh_removed hs)) s
      else if opcode = 3 then
        let (i, e1) = rd_uint rd e0; (hi, e2) = rd_uint rd e1; (lo, e3) = rd_uint rd e2
        in run_all (map (\<lambda>f. f i hi lo) (bh_done hs)) s
      else if opcode = 4 then
        let (i, e1) = rd_uint rd e0; (code, e2) = rd_uint rd e1; (m, e3) = rd_text rd e2
        in run_all (map (\<lambda>f. f i code m) (bh_failed hs)) s
      else if opcode = 5 then
        let (i, e1) = rd_uint rd e0; (n, e2) = rd_uint rd e1
        in run_all (map (\<lambda>f. f i n) (bh_frame hs)) s
      else if opcode = 6 then
        let (i, e1) = rd_uint rd e0 in run_all (map (\<lambda>f. f i) (bh_authorized hs)) s
      else if opcode = 7 then
        let (i, e1) = rd_uint rd e0; (w, e2) = rd_int rd e1; (t, e3) = rd_int rd e2
        in run_all (map (\<lambda>f. f i w t) (bh_configured hs)) s
      else if opcode = 8 then
        let (i, e1) = rd_uint rd e0; (w1, e2) = rd_int rd e1; (t1, e3) = rd_int rd e2;
            (w2, e4) = rd_int rd e3; (t2, e5) = rd_int rd e4; (w3, e6) = rd_int rd e5;
            (t3, e7) = rd_int rd e6; (hi, e8) = rd_uint rd e7; (lo, e9) = rd_uint rd e8
        in run_all (map (\<lambda>f. f i w1 t1 w2 t2 w3 t3 hi lo) (bh_resized hs)) s
      else s)"

section \<open>What the client registers\<close>

definition register_handlers ::
  "(client \<times> frame list) ctl_handlers \<Rightarrow> (client \<times> frame list) ctl_handlers" where
  "register_handlers hs =
     on_authorized_event (\<lambda>i. apfst (on_capture_authorized i))
      (on_frame_event (\<lambda>i n. apsnd (push_frame i n))
      (on_resized_event (\<lambda>i w1 t1 w2 t2 w3 t3 hi lo. apfst (on_resize_done i
           \<lparr>rrp_configured = size_from_int32 w1 t1, rrp_committed = size_from_int32 w2 t2,
            rrp_visible = size_from_int32 w3 t3, rrp_revision = revision_from_words hi lo\<rparr>))
      (on_configured_event (\<lambda>i w t. apfst (on_resize_configured i w t))
      (on_failed_event (\<lambda>i code m. apfst (on_request_failed i code m))
      (on_done_event (\<lambda>i hi lo. apfst (on_request_done i hi lo))
      (on_removed_event (\<lambda>h. apfst (on_toplevel_removed h))
      (on_changed_event (\<lambda>h title app x y w t st hi lo. apfst (on_toplevel_changed
           \<lparr>wn_handle = h, wn_title = title, wn_app_id = app, wn_x = x, wn_y = y,
            wn_size = \<lparr>sz_width = w, sz_height = t\<rparr>, wn_state = st,
            wn_revision = revision_from_words hi lo\<rparr>))
      (on_snapshot_event (\<lambda>hi lo. apfst (on_snapshot hi lo)) hs))))))))"

lemmas handler_defs = on_authorized_event_def on_frame_event_def on_resized_event_def
  on_configured_event_def on_failed_event_def on_done_event_def on_removed_event_def
  on_changed_event_def on_snapshot_event_def no_handlers_def

text \<open>The events of the protocol, with the arguments its XML file declares, and what each is to the client.\<close>

datatype server_event =
    SnapshotEvent u32 u32
  | ChangedEvent string string string int int u32 u32 u32 u32 u32
  | RemovedEvent string
  | DoneEvent u32 u32 u32
  | FailedEvent u32 u32 string
  | FrameEvent u32 u32
  | AuthorizedEvent u32
  | ConfiguredEvent u32 int int
  | ResizedEvent u32 int int int int int int u32 u32

fun event_out :: "server_event \<Rightarrow> u16 \<times> arg list" where
  "event_out (SnapshotEvent hi lo) = (0, [ArgUint hi, ArgUint lo])"
| "event_out (ChangedEvent h title app x y w t st hi lo) =
     (1, [ArgText h, ArgText title, ArgText app, ArgInt x, ArgInt y, ArgUint w, ArgUint t, ArgUint st,
          ArgUint hi, ArgUint lo])"
| "event_out (RemovedEvent h) = (2, [ArgText h])"
| "event_out (DoneEvent i hi lo) = (3, [ArgUint i, ArgUint hi, ArgUint lo])"
| "event_out (FailedEvent i code m) = (4, [ArgUint i, ArgUint code, ArgText m])"
| "event_out (FrameEvent i n) = (5, [ArgUint i, ArgUint n])"
| "event_out (AuthorizedEvent i) = (6, [ArgUint i])"
| "event_out (ConfiguredEvent i w t) = (7, [ArgUint i, ArgInt w, ArgInt t])"
| "event_out (ResizedEvent i w1 t1 w2 t2 w3 t3 hi lo) =
     (8, [ArgUint i, ArgInt w1, ArgInt t1, ArgInt w2, ArgInt t2, ArgInt w3, ArgInt t3, ArgUint hi, ArgUint lo])"

fun event_action :: "server_event \<Rightarrow> action option" where
  "event_action (SnapshotEvent hi lo) = Some (EvSnapshot hi lo)"
| "event_action (ChangedEvent h title app x y w t st hi lo) =
     Some (EvChanged \<lparr>wn_handle = h, wn_title = title, wn_app_id = app, wn_x = x, wn_y = y,
       wn_size = \<lparr>sz_width = w, sz_height = t\<rparr>, wn_state = st, wn_revision = revision_from_words hi lo\<rparr>)"
| "event_action (RemovedEvent h) = Some (EvRemoved h)"
| "event_action (DoneEvent i hi lo) = Some (EvDone i hi lo)"
| "event_action (FailedEvent i code m) = Some (EvFailed i code m)"
| "event_action (FrameEvent i n) = None"
| "event_action (AuthorizedEvent i) = Some (EvAuthorized i)"
| "event_action (ConfiguredEvent i w t) = Some (EvConfigured i w t)"
| "event_action (ResizedEvent i w1 t1 w2 t2 w3 t3 hi lo) =
     Some (EvResizeDone i \<lparr>rrp_configured = size_from_int32 w1 t1, rrp_committed = size_from_int32 w2 t2,
       rrp_visible = size_from_int32 w3 t3, rrp_revision = revision_from_words hi lo\<rparr>)"

definition event_ok :: "server_event \<Rightarrow> bool" where
  "event_ok ev = list_all arg_ok (snd (event_out ev))"

fun frames_after :: "server_event list \<Rightarrow> frame list \<Rightarrow> frame list" where
  "frames_after [] fs = fs"
| "frames_after (FrameEvent i n # evs) fs = frames_after evs (push_frame i n fs)"
| "frames_after (_ # evs) fs = frames_after evs fs"

lemma frames_after_bound: "length fs \<le> 64 \<Longrightarrow> length (frames_after evs fs) \<le> 64"
  by (induction evs fs rule: frames_after.induct) (simp_all add: push_frame_bound)

text \<open>
  The interface of a reader of events: reading takes the next argument off an encoded list.
  Inside it, one event dispatched over the registered handlers is one action of the client.
\<close>

locale event_reader =
  fixes rd :: "'e reader" and enc :: "arg list \<Rightarrow> 'e"
  assumes reads_uint: "rd_uint rd (enc (ArgUint v # as)) = (v, enc as)"
    and reads_int: "arg_ok (ArgInt z) \<Longrightarrow> rd_int rd (enc (ArgInt z # as)) = (z, enc as)"
    and reads_text: "arg_ok (ArgText t) \<Longrightarrow> rd_text rd (enc (ArgText t # as)) = (t, enc as)"
begin

lemma dispatched:
  assumes "event_ok ev"
  shows "controller_dispatch rd (register_handlers no_handlers) (fst (event_out ev)) (enc (snd (event_out ev))) (cl, fs) =
    (case event_action ev of None \<Rightarrow> (cl, frames_after [ev] fs) | Some a \<Rightarrow> (act cl a, fs))"
  using assms
  by (cases ev) (simp_all add: controller_dispatch_def event_ok_def register_handlers_def handler_defs
      run_all_def reads_uint reads_int reads_text)

lemma dispatched_all:
  "list_all event_ok evs \<Longrightarrow>
    fold (\<lambda>ev. controller_dispatch rd (register_handlers no_handlers) (fst (event_out ev)) (enc (snd (event_out ev))))
      evs (cl, fs) = (foldl act cl (List.map_filter event_action evs), frames_after evs fs)"
proof (induction evs arbitrary: cl fs)
  case (Cons ev evs)
  then show ?case
    by (cases ev) (simp_all add: dispatched List.map_filter_simps del: act.simps event_out.simps)
qed (simp add: List.map_filter_simps)

end

text \<open>The reader over the bytes the protocol server writes.\<close>

definition byte_reader :: "string reader" where
  "byte_reader = \<lparr>rd_uint = (\<lambda>bs. (body_uint bs 0, drop 4 bs)), rd_int = (\<lambda>bs. (body_int bs 0, drop 4 bs)),
     rd_text = (\<lambda>bs. case body_text bs 0 of (t, n) \<Rightarrow> (t, drop (nat n) bs))\<rparr>"

interpretation server_bytes: event_reader byte_reader "\<lambda>as. concat (map arg_bytes as)"
  by unfold_locales
    (use body_uint_block [of "[]"] body_int_block [where pre = "[]"] body_text_block [where pre = "[]"] in
      \<open>simp_all add: byte_reader_def\<close>)

section \<open>Requests on the server's side\<close>

text \<open>The signatures of the requests in the protocol's XML file, by opcode, and a request from its values.\<close>

definition request_kinds :: "u16 \<Rightarrow> arg_kind list" where
  "request_kinds opcode =
     (if opcode = 1 \<or> opcode = 4 then [KindUint, KindText, KindUint, KindUint]
      else if opcode = 2 then [KindUint, KindText, KindUint, KindUint, KindInt, KindInt]
      else if opcode = 3 then [KindUint, KindText, KindUint, KindUint, KindUint, KindUint]
      else if opcode = 5 then [KindUint, KindFixed, KindFixed]
      else if opcode = 6 \<or> opcode = 8 then [KindUint, KindUint, KindUint]
      else if opcode = 7 then [KindUint, KindUint, KindFixed]
      else if opcode = 0 \<or> opcode = 9 then [KindUint]
      else [])"

definition request_of :: "u16 \<Rightarrow> arg list \<Rightarrow> ctl_request option" where
  "request_of opcode as =
     (case as of
        [ArgUint i] \<Rightarrow>
          if opcode = 0 then Some (SnapshotRequest i) else if opcode = 9 then Some (CaptureRequest i) else None
      | [ArgUint i, ArgText h, ArgUint hi, ArgUint lo] \<Rightarrow>
          if opcode = 1 then Some (ActivateRequest i h hi lo)
          else if opcode = 4 then Some (CloseRequest i h hi lo) else None
      | [ArgUint i, ArgText h, ArgUint hi, ArgUint lo, ArgInt x, ArgInt y] \<Rightarrow> Some (MoveRequest i h hi lo x y)
      | [ArgUint i, ArgText h, ArgUint hi, ArgUint lo, ArgUint w, ArgUint t] \<Rightarrow> Some (ResizeRequest i h hi lo w t)
      | [ArgUint i, ArgFixed x, ArgFixed y] \<Rightarrow> Some (MotionRequest i x y)
      | [ArgUint i, ArgUint a, ArgFixed v] \<Rightarrow> Some (AxisRequest i a v)
      | [ArgUint i, ArgUint k, ArgUint st] \<Rightarrow>
          if opcode = 6 then Some (ButtonRequest i k st) else if opcode = 8 then Some (KeyRequest i k st) else None
      | _ \<Rightarrow> None)"

definition server_request :: "u16 \<Rightarrow> string \<Rightarrow> ctl_request option" where
  "server_request opcode body = request_of opcode (read_args (request_kinds opcode) body 0)"

definition request_ok :: "ctl_request \<Rightarrow> bool" where
  "request_ok rq = list_all arg_ok (snd (controller_request rq))"

lemma request_back: "request_of (fst (controller_request rq)) (snd (controller_request rq)) = Some rq"
  by (cases rq) (simp_all add: request_of_def)

lemma kinds_back: "map kind_of (snd (controller_request rq)) = request_kinds (fst (controller_request rq))"
  by (cases rq) (simp_all add: request_kinds_def)

lemma request_received:
  assumes "request_ok rq" and "marshal (snd (controller_request rq)) = Inr body"
  shows "server_request (fst (controller_request rq)) body = Some rq"
proof -
  have "body = concat (map arg_bytes (snd (controller_request rq)))"
    using assms by (simp add: request_ok_def marshal_blocks)
  then have "read_args (request_kinds (fst (controller_request rq))) body 0 = snd (controller_request rq)"
    using read_args_blocks [of "snd (controller_request rq)" "[]" "[]"] assms(1) kinds_back [of rq]
    by (simp add: request_ok_def)
  then show ?thesis by (simp add: server_request_def request_back)
qed

text \<open>
  C12. What the client asks is what arrives. A request the bindings write, framed and read
  message by message at the other end with the signatures of the protocol file, is the
  request the client made, for every request of the controller; one that names a window
  carries the very revision the caller gave, so the compositor judges staleness by it.
\<close>

theorem requests_arrive:
  assumes "request_ok rq" and "marshal (snd (controller_request rq)) = Inr body"
    and "header_size + length body < 2 ^ 16"
  shows "read_wire \<lparr>in_bytes = wire_message object (fst (controller_request rq)) body @ rest, in_end = e\<rparr> =
      (Inr (object, fst (controller_request rq), body), \<lparr>in_bytes = rest, in_end = e\<rparr>) \<and>
    server_request (fst (controller_request rq)) body = Some rq \<and>
    (rq \<in> {activate_request h v i, close_request h v i, move_request_on wild h v x y i, resize_request_on h z v i} \<longrightarrow>
      map_option request_revision (server_request (fst (controller_request rq)) body) = Some (Some v))"
proof -
  have "body = concat (map arg_bytes (snd (controller_request rq)))"
    using assms by (simp add: request_ok_def marshal_blocks)
  then have "length body mod 4 = 0" by (simp only: blocks_length)
  then show ?thesis
    using read_wire_message [OF _ assms(3)] request_received [OF assms(1,2)]
    by (auto simp: request_carries_revision)
qed

theorem requests_arrive_witness:
  "\<exists>body. server_request 1 body = Some (activate_request ''w'' 5 9) \<and>
     map_option request_revision (server_request 1 body) = Some (Some 5)"
proof -
  let ?rq = "activate_request ''w'' 5 9"
  have rq: "?rq = ActivateRequest 9 ''w'' 0 5"
    by (simp add: activate_request_def window_request_def revision_words_def)
  have ok: "request_ok ?rq" by (simp add: rq request_ok_def)
  have l: "list_all arg_ok (snd (controller_request ?rq))" using ok by (simp add: request_ok_def)
  obtain body where b: "marshal (snd (controller_request ?rq)) = Inr body"
    and "body = concat (map arg_bytes (snd (controller_request ?rq)))" using marshal_blocks [OF l] by blast
  then have "length body = 20" by (simp add: rq pad4_def marshal_text_def)
  then have "header_size + length body < 2 ^ 16" by (simp add: header_size_def)
  from requests_arrive [OF ok b this, where h = "''w''" and v = 5 and i = 9]
  have "server_request (fst (controller_request ?rq)) body = Some ?rq"
    "map_option request_revision (server_request (fst (controller_request ?rq)) body) = Some (Some 5)"
    by blast+
  then show ?thesis by (auto simp: rq)
qed



section \<open>Events of the capture source\<close>

record 's capture_handlers =
  qh_format :: "(u32 \<Rightarrow> 's \<Rightarrow> 's) list"
  qh_size :: "(int \<Rightarrow> int \<Rightarrow> 's \<Rightarrow> 's) list"
  qh_complete :: "('s \<Rightarrow> 's) list"
  qh_retry :: "('s \<Rightarrow> 's) list"
  qh_failed :: "(string \<Rightarrow> 's \<Rightarrow> 's) list"
  qh_formats_done :: "('s \<Rightarrow> 's) list"

definition no_capture_handlers :: "'s capture_handlers" where
  "no_capture_handlers = \<lparr>qh_format = [], qh_size = [], qh_complete = [], qh_retry = [], qh_failed = [],
     qh_formats_done = []\<rparr>"

definition on_format_event :: "(u32 \<Rightarrow> 's \<Rightarrow> 's) \<Rightarrow> 's capture_handlers \<Rightarrow> 's capture_handlers" where
  "on_format_event f hs = hs\<lparr>qh_format := qh_format hs @ [f]\<rparr>"

definition on_size_event :: "(int \<Rightarrow> int \<Rightarrow> 's \<Rightarrow> 's) \<Rightarrow> 's capture_handlers \<Rightarrow> 's capture_handlers" where
  "on_size_event f hs = hs\<lparr>qh_size := qh_size hs @ [f]\<rparr>"

definition on_complete_event :: "('s \<Rightarrow> 's) \<Rightarrow> 's capture_handlers \<Rightarrow> 's capture_handlers" where
  "on_complete_event f hs = hs\<lparr>qh_complete := qh_complete hs @ [f]\<rparr>"

definition on_retry_event :: "('s \<Rightarrow> 's) \<Rightarrow> 's capture_handlers \<Rightarrow> 's capture_handlers" where
  "on_retry_event f hs = hs\<lparr>qh_retry := qh_retry hs @ [f]\<rparr>"

definition on_capture_failed_event :: "(string \<Rightarrow> 's \<Rightarrow> 's) \<Rightarrow> 's capture_handlers \<Rightarrow> 's capture_handlers" where
  "on_capture_failed_event f hs = hs\<lparr>qh_failed := qh_failed hs @ [f]\<rparr>"

definition on_formats_done_event :: "('s \<Rightarrow> 's) \<Rightarrow> 's capture_handlers \<Rightarrow> 's capture_handlers" where
  "on_formats_done_event f hs = hs\<lparr>qh_formats_done := qh_formats_done hs @ [f]\<rparr>"

definition capture_dispatch :: "'e reader \<Rightarrow> 's capture_handlers \<Rightarrow> u16 \<Rightarrow> 'e \<Rightarrow> 's \<Rightarrow> 's" where
  "capture_dispatch rd hs opcode e0 s =
     (if opcode = 0 then let (code, e1) = rd_uint rd e0 in run_all (map (\<lambda>f. f code) (qh_format hs)) s
      else if opcode = 1 then
        let (w, e1) = rd_int rd e0; (t, e2) = rd_int rd e1 in run_all (map (\<lambda>f. f w t) (qh_size hs)) s
      else if opcode = 2 then run_all (qh_complete hs) s
      else if opcode = 3 then run_all (qh_retry hs) s
      else if opcode = 4 then let (m, e1) = rd_text rd e0 in run_all (map (\<lambda>f. f m) (qh_failed hs)) s
      else if opcode = 5 then run_all (qh_formats_done hs) s
      else s)"

text \<open>What a source registers: nothing for the end of the formats.\<close>

definition register_source :: "source capture_handlers \<Rightarrow> source capture_handlers" where
  "register_source hs =
     on_capture_failed_event on_failed (on_retry_event on_retry (on_complete_event on_complete
       (on_size_event on_size (on_format_event on_format hs))))"

lemmas capture_handler_defs = on_capture_failed_event_def on_retry_event_def on_complete_event_def
  on_size_event_def on_format_event_def on_formats_done_event_def no_capture_handlers_def

text \<open>Dispatching an event of the source is the handler of \<open>screenshot.go\<close>, and the other events are lost.\<close>

context event_reader
begin

lemma source_dispatched:
  "capture_dispatch rd (register_source no_capture_handlers) 0 (enc [ArgUint code]) s = on_format code s"
  "arg_ok (ArgInt w) \<Longrightarrow> arg_ok (ArgInt t) \<Longrightarrow>
    capture_dispatch rd (register_source no_capture_handlers) 1 (enc [ArgInt w, ArgInt t]) s = on_size w t s"
  "capture_dispatch rd (register_source no_capture_handlers) 2 (enc []) s = on_complete s"
  "capture_dispatch rd (register_source no_capture_handlers) 3 (enc []) s = on_retry s"
  "arg_ok (ArgText m) \<Longrightarrow>
    capture_dispatch rd (register_source no_capture_handlers) 4 (enc [ArgText m]) s = on_failed m s"
  "4 < opcode \<Longrightarrow> capture_dispatch rd (register_source no_capture_handlers) opcode ev s = s"
  by (auto simp: capture_dispatch_def register_source_def capture_handler_defs run_all_def
      reads_uint reads_int reads_text)

end

section \<open>Binding the capture protocol\<close>

text \<open>The registry of the client library: finding a global, a new object, and binding it.\<close>

record 'c registry =
  rg_find :: "string \<Rightarrow> (u32 \<times> u32) option"
  rg_new :: "'c \<Rightarrow> u32 \<times> 'c"
  rg_bind :: "u32 \<Rightarrow> string \<Rightarrow> u32 \<Rightarrow> u32 \<Rightarrow> 'c \<Rightarrow> string option \<times> 'c"

definition bind_capture :: "bool \<Rightarrow> 'c registry \<Rightarrow> 'c \<Rightarrow> (string + u32) \<times> 'c" where
  "bind_capture present rg c =
     (if \<not> present then (Inl ''bind capture: nil context or registry'', c)
      else case rg_find rg ''weston_capture_v1'' of
        None \<Rightarrow> (Inl ''compositor does not offer weston_capture_v1'', c)
      | Some (name, version) \<Rightarrow>
          (case rg_new rg c of
             (object, c1) \<Rightarrow>
               (case rg_bind rg name ''weston_capture_v1'' version object c1 of
                  (Some e, c2) \<Rightarrow> (Inl (''bind weston_capture_v1: '' @ e), c2)
                | (None, c2) \<Rightarrow> (Inr object, c2))))"

text \<open>The proxy of the shared memory is one that no context has given a number: zero.\<close>

definition bind_shm :: "bool \<Rightarrow> 'c registry \<Rightarrow> 'c \<Rightarrow> (string + unit) \<times> 'c" where
  "bind_shm present rg c =
     (if \<not> present then (Inl ''bind wl_shm: nil context or registry'', c)
      else case rg_find rg ''wl_shm'' of
        None \<Rightarrow> (Inl ''compositor does not offer wl_shm'', c)
      | Some (name, version) \<Rightarrow>
          (case rg_bind rg name ''wl_shm'' version 0 c of
             (Some e, c1) \<Rightarrow> (Inl (''bind wl_shm: '' @ e), c1)
           | (None, c1) \<Rightarrow> (Inr (), c1)))"

text \<open>A source starts with nothing known, its handlers registered.\<close>

definition create_source ::
  "'c display \<Rightarrow> u32 option \<Rightarrow> u32 option \<Rightarrow> u32 \<Rightarrow> 'c \<Rightarrow>
    (string + u32 \<times> source \<times> source capture_handlers) \<times> 'c" where
  "create_source dp capture wl_output kind c =
     (case capture of
        None \<Rightarrow> (Inl ''capture: nil capture object'', c)
      | Some object \<Rightarrow>
          if wl_output = None then (Inl ''capture: nil output'', c)
          else (case create_capture_source dp object wl_output kind c of
                  (Inl e, c1) \<Rightarrow> (Inl (''create capture source: '' @ e), c1)
                | (Inr i, c1) \<Rightarrow> (Inr (i, new_source, register_source no_capture_handlers), c1)))"

text \<open>
  A source just created knows nothing, and is set up once the compositor's announcements of
  a format it reads and of a size that is not empty have been dispatched to it.
\<close>

lemma created_source_sets_up:
  assumes "create_source dp capture wl_output kind c = (Inr (i, s, hs), c')"
    and "format_from_drm code = Inr f" and "0 < w" and "0 < t" and "w < 2 ^ 31" and "t < 2 ^ 31"
  shows "setup_known s = None"
    "setup_known (capture_dispatch byte_reader hs 1 (concat (map arg_bytes [ArgInt w, ArgInt t]))
       (capture_dispatch byte_reader hs 0 (concat (map arg_bytes [ArgUint code])) s)) = Some ((w, t), f)"
proof -
  have s: "s = new_source" "hs = register_source no_capture_handlers"
    using assms(1) by (auto simp: create_source_def split: option.splits if_splits prod.splits sum.splits)
  show "setup_known s = None" by (simp add: s setup_known_def new_source_def)
  have "arg_ok (ArgInt w)" "arg_ok (ArgInt t)" using assms(3-6) by simp_all
  note d = server_bytes.source_dispatched(1) server_bytes.source_dispatched(2) [OF this]
  show "setup_known (capture_dispatch byte_reader hs 1 (concat (map arg_bytes [ArgInt w, ArgInt t]))
       (capture_dispatch byte_reader hs 0 (concat (map arg_bytes [ArgUint code])) s)) = Some ((w, t), f)"
    unfolding s d using assms(2-4) by (simp add: on_format_def on_size_def setup_known_def new_source_def)
qed

end
