(* ===== verification/Image_Manifest.thy ===== *)
theory Image_Manifest
  imports Complex_Main Results Paths Numbers
begin

text \<open>
  The image manifest (\<open>internal/manifest/model.go\<close>): its sections, the rules every section
  is checked against, and loading. The host is a record of functions: what
  \<open>filepath.EvalSymlinks\<close> makes of a path (an error says whether the path does not exist),
  what \<open>lstat\<close> and \<open>stat\<close> see, how a path becomes absolute and how a file is read. TOML
  decoding is the parameter \<open>toml\<close>, with the keys it did not decode. File names are ASCII
  where their case is folded.
\<close>

section \<open>The sections\<close>

record base_section =
  ba_image :: string
  ba_digest :: string
  ba_packages :: "string list"
  ba_allow_network :: bool

record application =
  ap_command :: "string list"
  ap_workdir :: string
  ap_env :: "string list"
  ap_writable :: "string list"

record source_decl =
  sc_from :: string
  sc_to :: string
  sc_mode :: string

record copy_section =
  co_sources :: "source_decl list"
  co_modules :: "string list"

record image_manifest =
  mn_schema :: string
  mn_base :: base_section
  mn_application :: application
  mn_copy :: copy_section
  mn_dir :: string
  mn_real_dir :: string
  mn_file :: string
  mn_source :: string

definition schema_v1 :: string where
  "schema_v1 = ''wlvision-manifest/v1''"

section \<open>The host\<close>

datatype file_kind = KRegular u32 | KDirectory | KSymlink | KSocket | KFifo | KDevice | KOther

datatype resolve_error = DoesNotExist | CannotResolve string

record host =
  ho_abs :: "string \<Rightarrow> string + string"
  ho_read :: "string \<Rightarrow> string + string"
  ho_eval :: "string \<Rightarrow> resolve_error + string"
  ho_lstat :: "string \<Rightarrow> string + file_kind"
  ho_stat :: "string \<Rightarrow> string + file_kind"

fun describe_mode :: "file_kind \<Rightarrow> string" where
  "describe_mode KSocket = ''socket''"
| "describe_mode KFifo = ''FIFO''"
| "describe_mode KDevice = ''device''"
| "describe_mode KSymlink = ''symbolic link''"
| "describe_mode _ = ''special file''"

fun regular :: "file_kind \<Rightarrow> bool" where
  "regular (KRegular _) = True"
| "regular _ = False"

section \<open>Rules on text\<close>

definition field_error :: "string \<Rightarrow> string \<Rightarrow> goerr" where
  "field_error field message = usage ''manifest'' (field @ '': '' @ message)"

definition indexed :: "string \<Rightarrow> nat \<Rightarrow> string" where
  "indexed field i = field @ ''['' @ dec_nat i @ '']''"

definition hex_lower :: "char \<Rightarrow> bool" where
  "hex_lower c \<longleftrightarrow> is_digit c \<or> (97::nat) \<le> of_char c \<and> of_char c \<le> (102::nat)"

definition digest_pattern :: "string \<Rightarrow> bool" where
  "digest_pattern s \<longleftrightarrow> length s = 64 \<and> list_all hex_lower s"

definition local_digest_pattern :: "string \<Rightarrow> bool" where
  "local_digest_pattern s \<longleftrightarrow> has_prefix s ''sha256:'' \<and> digest_pattern (drop 7 s)"

definition last_index :: "string \<Rightarrow> string \<Rightarrow> nat option" where
  "last_index s p = find (\<lambda>i. has_prefix (drop i s) p) (rev [0..<Suc (length s)])"

definition parse_mode :: "string \<Rightarrow> string + u32" where
  "parse_mode v =
     (case parse_octal v of
        None \<Rightarrow> Inl ''strconv.ParseUint: %v''
      | Some n \<Rightarrow> if n > 4095 then Inl ''%s is larger than 07777'' else Inr n)"

section \<open>Credentials\<close>

definition credential_directories :: "string list" where
  "credential_directories = [''.ssh'', ''.gnupg'', ''.aws'', ''.docker'', ''.kube'']"

definition credential_names :: "string list" where
  "credential_names = [''id_rsa'', ''id_ed25519'', ''.netrc'', ''authorized_keys'', ''credentials'']"

definition credential_suffixes :: "string list" where
  "credential_suffixes = [''.pem'', ''.key'', ''.sock'']"

definition lower_char :: "char \<Rightarrow> char" where
  "lower_char c = (if is_upper c then char_of (of_char c + 32 :: nat) else c)"

definition credential_element :: "string \<Rightarrow> string option" where
  "credential_element e =
     (if e \<in> set credential_directories then Some ''is under the %q directory''
      else
        let name = map lower_char e
        in if name \<in> set credential_names then Some ''names the credential file %q''
           else if list_ex (has_suffix name) credential_suffixes
           then Some ''names the credential file %q''
           else None)"

fun first_credential :: "string list \<Rightarrow> string option" where
  "first_credential [] = None"
| "first_credential (e # es) =
     (case credential_element e of Some why \<Rightarrow> Some why | None \<Rightarrow> first_credential es)"

definition credential :: "string \<Rightarrow> string option" where
  "credential relative = first_credential (split_on slash relative)"

section \<open>The base and the application\<close>

fun check_packages :: "nat \<Rightarrow> string list \<Rightarrow> goerr option" where
  "check_packages i [] = None"
| "check_packages i (n # ns) =
     (if n = [] then Some (field_error (indexed ''base.packages'' i) ''a package name must not be empty'')
      else check_packages (Suc i) ns)"

definition validate_base :: "base_section \<Rightarrow> goerr option" where
  "validate_base b =
     (let refused =
        (case last_index (ba_image b) ''@sha256:'' of
           Some i \<Rightarrow>
             if i = 0 then Some (field_error ''base.image'' ''%q has no image name before the digest'')
             else if \<not> digest_pattern (drop (i + 8) (ba_image b))
             then Some (field_error ''base.image'' ''the digest in %q is not 64 lowercase hexadecimal digits'')
             else if ba_digest b \<noteq> []
             then Some (field_error ''base.digest''
                    ''base.digest must be absent when base.image already carries a digest'')
             else None
         | None \<Rightarrow>
             if ba_image b = [] then Some (field_error ''base.image'' ''an image reference is required'')
             else if has_prefix (ba_image b) ''-''
             then Some (field_error ''base.image'' ''%q must not begin with a dash'')
             else if ba_digest b = []
             then Some (field_error ''base.image''
                    ''%q carries neither its own @sha256: digest nor a base.digest'')
             else if \<not> local_digest_pattern (ba_digest b)
             then Some (field_error ''base.digest''
                    ''%q is not sha256: followed by 64 lowercase hexadecimal digits'')
             else None)
      in case refused of Some err \<Rightarrow> Some err | None \<Rightarrow> check_packages 0 (ba_packages b))"

fun check_env :: "nat \<Rightarrow> string list \<Rightarrow> goerr option" where
  "check_env i [] = None"
| "check_env i (entry # es) =
     (if CHR ''='' \<notin> set entry \<or> takeWhile (\<lambda>c. c \<noteq> CHR ''='') entry = []
      then Some (field_error (indexed ''application.env'' i) ''%q is not KEY=VALUE with a non-empty key'')
      else if char_of (0::nat) \<in> set entry
      then Some (field_error (indexed ''application.env'' i) ''%q contains a NUL byte'')
      else check_env (Suc i) es)"

fun check_writable :: "nat \<Rightarrow> string list \<Rightarrow> string list \<Rightarrow> goerr option" where
  "check_writable i seen [] = None"
| "check_writable i seen (p # ps) =
     (let field = indexed ''application.writable'' i; clean = path_clean p
      in if \<not> is_abs p then Some (field_error field ''%q is not an absolute path'')
         else if clean = ''/'' then Some (field_error field ''the image root cannot be declared writable'')
         else if path_within ''/run'' clean
         then Some (field_error field ''%q is under /run, which wlvision mounts itself'')
         else if clean \<in> set seen then Some (field_error field ''%q is declared twice'')
         else check_writable (Suc i) (clean # seen) ps)"

definition validate_application :: "application \<Rightarrow> goerr option" where
  "validate_application a =
     (case ap_command a of
        [] \<Rightarrow> Some (field_error ''application.command'' ''a command is required'')
      | c # cs \<Rightarrow>
          if \<not> is_abs c
          then Some (field_error ''application.command'' ''the first element %q is not an absolute path'')
          else (case check_env 0 (ap_env a) of
                  Some err \<Rightarrow> Some err
                | None \<Rightarrow> check_writable 0 [] (ap_writable a)))"

section \<open>The copied files\<close>

definition validate_source :: "host \<Rightarrow> image_manifest \<Rightarrow> string \<Rightarrow> source_decl \<Rightarrow> goerr option" where
  "validate_source h m field s =
     (let refuse = (\<lambda>what text. Some (field_error (field @ what) text))
      in if sc_from s = [] then refuse ''.from'' ''a source path is required''
         else if is_abs (sc_from s)
         then refuse ''.from'' ''%q is absolute; a source path is relative to the manifest directory''
         else
           (case ho_eval h (path_join (mn_dir m) (sc_from s)) of
              Inl DoesNotExist \<Rightarrow> refuse ''.from'' ''%q does not exist under %s''
            | Inl (CannotResolve err) \<Rightarrow> refuse ''.from'' ''cannot resolve %q: %v''
            | Inr resolved \<Rightarrow>
                if \<not> path_within (mn_real_dir m) resolved
                then refuse ''.from'' ''%q resolves to %s, outside the manifest directory %s''
                else
                  (case ho_lstat h resolved of
                     Inl err \<Rightarrow> refuse ''.from'' ''cannot inspect %q: %v''
                   | Inr kind \<Rightarrow>
                       if kind \<noteq> KDirectory \<and> \<not> regular kind
                       then refuse ''.from'' (''%q is a '' @ describe_mode kind @
                              '', not a regular file or a directory tree'')
                       else if credential (rel_path (mn_real_dir m) resolved) \<noteq> None
                       then refuse ''.from'' ''%q %s and is never copied into an image''
                       else if sc_to s = [] then refuse ''.to'' ''a target path is required''
                       else if \<not> is_abs (sc_to s) then refuse ''.to'' ''%q is not an absolute path''
                       else if sc_mode s \<noteq> []
                       then (case parse_mode (sc_mode s) of
                               Inl err \<Rightarrow> refuse ''.mode'' ''%q is not an octal file mode: %v''
                             | Inr _ \<Rightarrow> None)
                       else None)))"

definition reserved_roots :: "string list" where
  "reserved_roots = [''/run'', ''/proc'', ''/sys'', ''/dev'']"

fun check_sources ::
  "host \<Rightarrow> image_manifest \<Rightarrow> nat \<Rightarrow> (string \<times> nat) list \<Rightarrow> source_decl list \<Rightarrow> goerr option" where
  "check_sources h m i targets [] = None"
| "check_sources h m i targets (s # ss) =
     (let field = indexed ''copy.sources'' i; clean = path_clean (sc_to s)
      in case validate_source h m field s of
           Some err \<Rightarrow> Some err
         | None \<Rightarrow>
             if list_ex (\<lambda>w. path_within (path_clean w) clean) (ap_writable (mn_application m))
             then Some (field_error (field @ ''.to'') ''%q is inside the declared writable path %q'')
             else if list_ex (\<lambda>r. path_within r clean) reserved_roots
             then Some (field_error (field @ ''.to'') ''%q is under %s, which a session owns'')
             else (case map_of targets clean of
                     Some previous \<Rightarrow>
                       Some (field_error (field @ ''.to'') ''%q duplicates the target of copy.sources[%d]'')
                   | None \<Rightarrow> check_sources h m (Suc i) ((clean, i) # targets) ss))"

text \<open>
  The walk from a directory up to the nearest one that holds a \<open>go.mod\<close>. Each step up an
  absolute path shortens it, so as many steps as the path has bytes are enough.
\<close>

fun module_root_from :: "host \<Rightarrow> string \<Rightarrow> nat \<Rightarrow> string \<Rightarrow> string" where
  "module_root_from h top_dir 0 dir = top_dir"
| "module_root_from h top_dir (Suc n) dir =
     (if (case ho_stat h (path_join dir ''go.mod'') of Inr kind \<Rightarrow> regular kind | Inl _ \<Rightarrow> False)
      then dir
      else if path_dir dir = dir then top_dir
      else module_root_from h top_dir n (path_dir dir))"

text \<open>The fuel is enough: more of it changes nothing.\<close>

lemma abs_path_dir:
  assumes "is_abs d"
  shows "is_abs (path_dir d)"
proof -
  from assms obtain x where d: "d = slash # x" by (auto simp: is_abs_def has_prefix_append)
  have s: "split_on slash d = [] # split_on slash x" by (simp add: d)
  have "is_abs (join_with slash (butlast (split_on slash d)) @ ''/'')"
    using split_on_nonempty [of slash x] unfolding s
    by (cases "butlast (split_on slash x)") (auto simp: is_abs_def has_prefix_append)
  moreover have "1 < length (split_on slash d)" using split_on_nonempty [of slash x] by (simp add: s)
  ultimately show ?thesis by (simp add: path_dir_def path_clean_def is_abs_def has_prefix_append)
qed

lemma module_root_enough:
  "is_abs d \<Longrightarrow> length d \<le> n \<Longrightarrow> module_root_from h t (Suc n + k) d = module_root_from h t (Suc n) d"
proof (induction n arbitrary: d)
  case 0
  then show ?case by (simp add: is_abs_def has_prefix_def)
next
  case (Suc n)
  show ?case
  proof (cases "path_dir d = d")
    case False
    have top: "path_dir ''/'' = ''/''" by code_simp
    have "length (path_dir d) \<le> n"
    proof (cases "path_dir d = ''/''")
      case True
      obtain c x where "d = c # x" "c = slash" using Suc.prems(1) by (auto simp: is_abs_def has_prefix_append)
      moreover have "d \<noteq> ''/''" using False top by auto
      ultimately show ?thesis using True Suc.prems(2) by (cases x) auto
    next
      case no_top: False
      have "d \<noteq> ''.''" "path_dir d \<noteq> ''.''" "d \<noteq> ''/''"
        using Suc.prems(1) abs_path_dir [OF Suc.prems(1)] False top by (auto simp: is_abs_def has_prefix_def)
      then show ?thesis using path_dir_shorter [of d] no_top Suc.prems(2) by simp
    qed
    from Suc.IH [OF abs_path_dir [OF Suc.prems(1)] this] show ?thesis using False by simp
  qed simp
qed

definition module_root :: "host \<Rightarrow> image_manifest \<Rightarrow> string" where
  "module_root h m = module_root_from h (mn_real_dir m) (Suc (length (mn_real_dir m))) (mn_real_dir m)"

definition validate_module :: "host \<Rightarrow> image_manifest \<Rightarrow> string \<Rightarrow> string \<Rightarrow> goerr option" where
  "validate_module h m field modname =
     (if modname = [] then Some (field_error field ''a module path is required'')
      else if is_abs modname
      then Some (field_error field ''%q is absolute; a module is relative to the manifest directory'')
      else
        (case ho_eval h (path_join (mn_dir m) modname) of
           Inl DoesNotExist \<Rightarrow> Some (field_error field ''%q does not exist under %s'')
         | Inl (CannotResolve err) \<Rightarrow> Some (field_error field ''cannot resolve %q: %v'')
         | Inr resolved \<Rightarrow>
             if ho_stat h resolved \<noteq> Inr KDirectory then Some (field_error field ''%q is not a directory'')
             else if \<not> (case ho_stat h (path_join resolved ''go.mod'') of
                          Inr kind \<Rightarrow> regular kind | Inl _ \<Rightarrow> False)
             then Some (field_error field ''%q has no go.mod, so it is not a Go module'')
             else if \<not> path_within (path_dir (module_root h m)) resolved
             then Some (field_error field ''%q resolves to %s, outside %s, the parent of the module root'')
             else None))"

fun check_modules :: "host \<Rightarrow> image_manifest \<Rightarrow> nat \<Rightarrow> string list \<Rightarrow> goerr option" where
  "check_modules h m i [] = None"
| "check_modules h m i (n # ns) =
     (case validate_module h m (indexed ''copy.modules'' i) n of
        Some err \<Rightarrow> Some err
      | None \<Rightarrow> check_modules h m (Suc i) ns)"

definition validate_copy :: "host \<Rightarrow> image_manifest \<Rightarrow> goerr option" where
  "validate_copy h m =
     (case check_sources h m 0 [] (co_sources (mn_copy m)) of
        Some err \<Rightarrow> Some err
      | None \<Rightarrow> check_modules h m 0 (co_modules (mn_copy m)))"

definition validate_manifest :: "host \<Rightarrow> image_manifest \<Rightarrow> goerr option" where
  "validate_manifest h m =
     (if mn_schema m \<noteq> schema_v1 then Some (field_error ''schema'' ''schema is %q, want %q'')
      else (case validate_base (mn_base m) of
              Some err \<Rightarrow> Some err
            | None \<Rightarrow>
                (case validate_application (mn_application m) of
                   Some err \<Rightarrow> Some err
                 | None \<Rightarrow> validate_copy h m)))"

section \<open>Loading\<close>

definition load_manifest ::
  "host \<Rightarrow> (string \<Rightarrow> string + (image_manifest \<times> string list)) \<Rightarrow> string \<Rightarrow> goerr + image_manifest" where
  "load_manifest h toml p =
     (if trim_space p = [] then Inl (field_error ''path'' ''a manifest path is required'')
      else
        (case ho_abs h p of
           Inl err \<Rightarrow> Inl (field_error ''path'' ''cannot resolve %q: %v'')
         | Inr absolute \<Rightarrow>
             (case ho_read h absolute of
                Inl err \<Rightarrow> Inl (field_error ''path'' ''cannot read the manifest %q: %v'')
              | Inr payload \<Rightarrow>
                  (case toml payload of
                     Inl err \<Rightarrow> Inl (field_error ''manifest'' ''%s is not valid TOML: %v'')
                   | Inr (decoded, undecoded) \<Rightarrow>
                       if undecoded \<noteq> []
                       then Inl (field_error (join_with (CHR '','') (sort undecoded))
                              ''unknown key %s: the %s schema has no such field'')
                       else
                         let dir = path_dir absolute;
                             m = decoded\<lparr>mn_dir := dir, mn_file := absolute, mn_source := payload,
                                   mn_real_dir := (case ho_eval h dir of Inr top_dir \<Rightarrow> top_dir | Inl _ \<Rightarrow> dir)\<rparr>
                         in (case validate_manifest h m of Some err \<Rightarrow> Inl err | None \<Rightarrow> Inr m)))))"

section \<open>What a loaded manifest is\<close>

definition pinned_base :: "base_section \<Rightarrow> bool" where
  "pinned_base b \<longleftrightarrow>
     (\<exists>name d. ba_image b = name @ ''@sha256:'' @ d \<and> name \<noteq> [] \<and> digest_pattern d \<and> ba_digest b = []) \<or>
     (ba_image b \<noteq> [] \<and> \<not> has_prefix (ba_image b) ''-'' \<and>
      (\<nexists>name d. ba_image b = name @ ''@sha256:'' @ d) \<and>
      (\<exists>d. ba_digest b = ''sha256:'' @ d \<and> digest_pattern d))"

definition good_application :: "application \<Rightarrow> bool" where
  "good_application a \<longleftrightarrow>
     ap_command a \<noteq> [] \<and> is_abs (hd (ap_command a)) \<and>
     (\<forall>entry \<in> set (ap_env a). \<exists>key v. entry = key @ ''='' @ v \<and> key \<noteq> [] \<and> CHR ''='' \<notin> set key \<and>
        char_of (0::nat) \<notin> set entry) \<and>
     distinct (map path_clean (ap_writable a)) \<and>
     (\<forall>p \<in> set (ap_writable a). is_abs p \<and> path_clean p \<noteq> ''/'' \<and> \<not> path_within ''/run'' (path_clean p))"

definition good_source :: "host \<Rightarrow> image_manifest \<Rightarrow> source_decl \<Rightarrow> bool" where
  "good_source h m s \<longleftrightarrow>
     (\<exists>resolved kind. ho_eval h (path_join (mn_dir m) (sc_from s)) = Inr resolved \<and>
        path_within (mn_real_dir m) resolved \<and> ho_lstat h resolved = Inr kind \<and>
        (kind = KDirectory \<or> regular kind) \<and> credential (rel_path (mn_real_dir m) resolved) = None) \<and>
     sc_from s \<noteq> [] \<and> \<not> is_abs (sc_from s) \<and> is_abs (sc_to s) \<and> (sc_mode s \<noteq> [] \<longrightarrow> (\<exists>n. parse_mode (sc_mode s) = Inr n)) \<and>
     (\<forall>w \<in> set (ap_writable (mn_application m)). \<not> path_within (path_clean w) (path_clean (sc_to s))) \<and>
     (\<forall>r \<in> set reserved_roots. \<not> path_within r (path_clean (sc_to s)))"

definition good_module :: "host \<Rightarrow> image_manifest \<Rightarrow> string \<Rightarrow> bool" where
  "good_module h m modname \<longleftrightarrow>
     modname \<noteq> [] \<and> \<not> is_abs modname \<and>
     (\<exists>resolved kind. ho_eval h (path_join (mn_dir m) modname) = Inr resolved \<and>
        ho_stat h resolved = Inr KDirectory \<and> ho_stat h (path_join resolved ''go.mod'') = Inr kind \<and>
        regular kind \<and> path_within (path_dir (module_root h m)) resolved)"

definition good_manifest :: "host \<Rightarrow> image_manifest \<Rightarrow> bool" where
  "good_manifest h m \<longleftrightarrow>
     mn_schema m = schema_v1 \<and> pinned_base (mn_base m) \<and> [] \<notin> set (ba_packages (mn_base m)) \<and>
     good_application (mn_application m) \<and>
     (\<forall>s \<in> set (co_sources (mn_copy m)). good_source h m s) \<and>
     distinct (map (\<lambda>s. path_clean (sc_to s)) (co_sources (mn_copy m))) \<and>
     (\<forall>n \<in> set (co_modules (mn_copy m)). good_module h m n)"


section \<open>Validation is exact\<close>

lemma first_error_None:
  "(case x of Some err \<Rightarrow> Some err | None \<Rightarrow> y) = None \<longleftrightarrow> x = None \<and> y = None"
  by (cases x) auto

lemma check_packages_None: "check_packages i ns = None \<longleftrightarrow> [] \<notin> set ns"
  by (induction ns arbitrary: i) auto

lemma last_index_Some:
  assumes "last_index s p = Some i"
  shows "i \<le> length s" and "\<exists>r. s = take i s @ p @ r"
proof -
  have i: "i \<in> set [0..<Suc (length s)]" "has_prefix (drop i s) p"
    using assms nth_mem [of _ "rev [0..<Suc (length s)]"]
    by (auto simp: last_index_def find_Some_iff simp del: upt_Suc)
  from i(1) show "i \<le> length s" by auto
  from i(2) obtain r where "drop i s = p @ r" unfolding has_prefix_append by blast
  then have "s = take i s @ p @ r" by (metis append_take_drop_id)
  then show "\<exists>r. s = take i s @ p @ r" ..
qed

lemma last_index_None: "last_index s p = None \<longleftrightarrow> (\<nexists>a r. s = a @ p @ r)"
proof -
  have "last_index s p = None \<longleftrightarrow> (\<forall>i \<le> length s. \<not> has_prefix (drop i s) p)"
    by (auto simp: last_index_def find_None_iff simp del: upt_Suc)
  also have "\<dots> \<longleftrightarrow> (\<nexists>a r. s = a @ p @ r)"
  proof (intro iffI allI impI notI)
    assume none: "\<forall>i \<le> length s. \<not> has_prefix (drop i s) p" and "\<exists>a r. s = a @ p @ r"
    then obtain a r where s: "s = a @ p @ r" by blast
    then have "has_prefix (drop (length a) s) p" and "length a \<le> length s" by simp_all
    then show False using none by blast
  next
    fix i
    assume "\<nexists>a r. s = a @ p @ r" and "has_prefix (drop i s) p"
    then show False unfolding has_prefix_append by (metis append_take_drop_id)
  qed
  finally show ?thesis .
qed

lemma last_index_only:
  assumes "p = c # q" and "c \<notin> set (q @ r)"
  shows "last_index (a @ p @ r) p = Some (length a)"
proof -
  obtain i where i: "last_index (a @ p @ r) p = Some i"
    using last_index_None [of "a @ p @ r" p] by fastforce
  have at: "has_prefix (drop (length a) (a @ p @ r)) p" by simp
  have after: "\<not> has_prefix (drop j (a @ p @ r)) p" if "length a < j" for j
  proof
    assume h: "has_prefix (drop j (a @ p @ r)) p"
    have eq1: "drop j (a @ p @ r) = drop (j - Suc (length a)) (q @ r)"
    proof -
      have "drop j (a @ p @ r) = drop (j - length a) (c # (q @ r))" using that assms(1) by simp
      also have "j - length a = Suc (j - Suc (length a))" using that by simp
      also have "drop (Suc (j - Suc (length a))) (c # (q @ r)) = drop (j - Suc (length a)) (q @ r)"
        by (rule drop_Suc_Cons)
      finally show ?thesis .
    qed
    obtain t where eq2: "drop j (a @ p @ r) = p @ t" using h unfolding has_prefix_append by blast
    have "drop (j - Suc (length a)) (q @ r) = c # (q @ t)"
      by (rule trans [OF trans [OF eq1 [symmetric] eq2]]) (simp add: assms(1))
    then have "c \<in> set (drop (j - Suc (length a)) (q @ r))" by simp
    then show False using assms(2) by (auto dest: in_set_dropD simp del: drop_append)
  qed
  have "find (\<lambda>i. has_prefix (drop i (a @ p @ r)) p) (rev [0..<Suc n]) = Some (length a)"
    if "length a \<le> n" for n
    using that
  proof (induction n)
    case (Suc n)
    show ?case
    proof (cases "length a = Suc n")
      case True
      then show ?thesis using at by simp
    next
      case False
      then show ?thesis using Suc after [of "Suc n"] by (simp del: append_assoc)
    qed
  qed (use at in simp)
  then show ?thesis by (simp add: last_index_def del: upt_Suc)
qed

lemma hex_lower_not_at: "hex_lower c \<Longrightarrow> c \<noteq> CHR ''@''"
  by (auto simp: hex_lower_def is_digit_def)

lemma validate_base_None: "validate_base b = None \<longleftrightarrow> pinned_base b \<and> [] \<notin> set (ba_packages b)"
proof (cases "last_index (ba_image b) ''@sha256:''")
  case None
  then have "\<nexists>a r. ba_image b = a @ ''@sha256:'' @ r" using last_index_None by blast
  moreover have "local_digest_pattern d \<longleftrightarrow> (\<exists>x. d = ''sha256:'' @ x \<and> digest_pattern x)" for d
    unfolding local_digest_pattern_def has_prefix_append by auto
  ultimately show ?thesis
    using None by (auto simp: validate_base_def pinned_base_def Let_def check_packages_None)
next
  case (Some i)
  obtain r where image: "ba_image b = take i (ba_image b) @ ''@sha256:'' @ r"
    using last_index_Some(2) [OF Some] by blast
  have i: "i \<le> length (ba_image b)" using last_index_Some(1) [OF Some] .
  then have drop: "drop (i + 8) (ba_image b) = r" by (subst image) simp
  have "pinned_base b \<longleftrightarrow> i \<noteq> 0 \<and> digest_pattern r \<and> ba_digest b = []"
  proof
    assume "pinned_base b"
    then obtain name d where nd: "ba_image b = name @ ''@sha256:'' @ d" "name \<noteq> []"
        "digest_pattern d" "ba_digest b = []"
      using image by (auto simp: pinned_base_def)
    have "CHR ''@'' \<notin> set d" using nd(3) hex_lower_not_at by (auto simp: digest_pattern_def list_all_iff)
    then have "last_index (name @ ''@sha256:'' @ d) ''@sha256:'' = Some (length name)"
      by (intro last_index_only [of _ "CHR ''@''" "''sha256:''"]) auto
    then have "i = length name" using Some nd(1) by simp
    then show "i \<noteq> 0 \<and> digest_pattern r \<and> ba_digest b = []" using nd drop by simp
  next
    assume "i \<noteq> 0 \<and> digest_pattern r \<and> ba_digest b = []"
    moreover have "take i (ba_image b) \<noteq> []" if "i \<noteq> 0" using that i image by auto
    ultimately show "pinned_base b" using image unfolding pinned_base_def by blast
  qed
  then show ?thesis
    using Some drop by (auto simp: validate_base_def Let_def check_packages_None)
qed

lemma env_entry_cut:
  "CHR ''='' \<notin> set entry \<or> takeWhile (\<lambda>c. c \<noteq> CHR ''='') entry = [] \<longleftrightarrow>
   (\<nexists>key v. entry = key @ ''='' @ v \<and> key \<noteq> [] \<and> CHR ''='' \<notin> set key)"
proof (cases "CHR ''='' \<in> set entry")
  case True
  then obtain key v where kv: "entry = key @ CHR ''='' # v" "CHR ''='' \<notin> set key"
    using split_list_first by fastforce
  then have tw: "takeWhile (\<lambda>c. c \<noteq> CHR ''='') entry = key"
    unfolding kv(1) by (subst takeWhile_append2) auto
  have "key' = key" if "entry = key' @ ''='' @ v'" "CHR ''='' \<notin> set key'" for key' v'
  proof -
    have "takeWhile (\<lambda>c. c \<noteq> CHR ''='') (key' @ CHR ''='' # v') = key'"
      using that(2) by (subst takeWhile_append2) auto
    then show ?thesis using tw that(1) by simp
  qed
  then show ?thesis using True tw kv by auto
qed auto

lemma check_env_None:
  "check_env i es = None \<longleftrightarrow> (\<forall>entry \<in> set es.
     \<exists>key v. entry = key @ ''='' @ v \<and> key \<noteq> [] \<and> CHR ''='' \<notin> set key \<and> char_of (0::nat) \<notin> set entry)"
proof (induction es arbitrary: i)
  case (Cons e es)
  show ?case using Cons env_entry_cut [of e] by auto
qed simp

lemma check_writable_None:
  "check_writable i seen ps = None \<longleftrightarrow>
     distinct (map path_clean ps) \<and> set (map path_clean ps) \<inter> set seen = {} \<and>
     (\<forall>p \<in> set ps. is_abs p \<and> path_clean p \<noteq> ''/'' \<and> \<not> path_within ''/run'' (path_clean p))"
  by (induction ps arbitrary: i seen) (auto simp: Let_def)

lemma env_entries:
  "(\<forall>entry \<in> set es. \<exists>key v. entry = key @ ''='' @ v \<and> key \<noteq> [] \<and> CHR ''='' \<notin> set key \<and>
      char_of (0::nat) \<notin> set entry) \<longleftrightarrow> check_env i es = None"
  by (simp add: check_env_None)

lemma validate_application_None: "validate_application a = None \<longleftrightarrow> good_application a"
  unfolding good_application_def env_entries [where i = 0]
  by (cases "ap_command a") (simp_all add: validate_application_def check_writable_None first_error_None)

lemma validate_source_None:
  "validate_source h m field s = None \<longleftrightarrow>
     (\<exists>resolved kind. ho_eval h (path_join (mn_dir m) (sc_from s)) = Inr resolved \<and>
        path_within (mn_real_dir m) resolved \<and> ho_lstat h resolved = Inr kind \<and>
        (kind = KDirectory \<or> regular kind) \<and> credential (rel_path (mn_real_dir m) resolved) = None) \<and>
     sc_from s \<noteq> [] \<and> \<not> is_abs (sc_from s) \<and> is_abs (sc_to s) \<and>
     (sc_mode s \<noteq> [] \<longrightarrow> (\<exists>n. parse_mode (sc_mode s) = Inr n))"
  by (auto simp: validate_source_def Let_def is_abs_def has_prefix_def
      split: sum.splits resolve_error.splits if_splits)

lemma check_sources_None:
  "check_sources h m i targets ss = None \<longleftrightarrow>
     (\<forall>s \<in> set ss. good_source h m s) \<and> distinct (map (\<lambda>s. path_clean (sc_to s)) ss) \<and>
     set (map (\<lambda>s. path_clean (sc_to s)) ss) \<inter> fst ` set targets = {}"
proof (induction ss arbitrary: i targets)
  case (Cons s ss)
  have fresh: "(map_of targets k = None) = (k \<notin> fst ` set targets)" for k
    by (simp add: map_of_eq_None_iff)
  have good: "good_source h m s \<longleftrightarrow> validate_source h m field s = None \<and>
      \<not> list_ex (\<lambda>w. path_within (path_clean w) (path_clean (sc_to s))) (ap_writable (mn_application m)) \<and>
      \<not> list_ex (\<lambda>r. path_within r (path_clean (sc_to s))) reserved_roots" for field
    by (auto simp: good_source_def validate_source_None list_ex_iff)
  show ?case
    using Cons good [of "indexed ''copy.sources'' i"] fresh [of "path_clean (sc_to s)"]
    by (auto simp: Let_def split: option.splits)
qed simp

lemma validate_module_None: "validate_module h m field modname = None \<longleftrightarrow> good_module h m modname"
  by (auto simp: validate_module_def good_module_def split: sum.splits resolve_error.splits if_splits)

lemma check_modules_None: "check_modules h m i ns = None \<longleftrightarrow> (\<forall>n \<in> set ns. good_module h m n)"
  by (induction ns arbitrary: i) (auto simp: validate_module_None first_error_None)

lemma validate_manifest_None: "validate_manifest h m = None \<longleftrightarrow> good_manifest h m"
  by (simp add: validate_manifest_def good_manifest_def validate_base_None validate_application_None
      validate_copy_def check_sources_None check_modules_None first_error_None conj_ac)



definition demo_toml :: "string \<Rightarrow> string + (image_manifest \<times> string list)" where
  "demo_toml payload =
     Inr (\<lparr>mn_schema = schema_v1,
       mn_base = \<lparr>ba_image = ''arch@sha256:'' @ replicate 64 (CHR ''a''), ba_digest = [],
                 ba_packages = [''weston''], ba_allow_network = False\<rparr>,
       mn_application = \<lparr>ap_command = [''/usr/bin/app''], ap_workdir = [], ap_env = [''A=1''],
                        ap_writable = [''/var/cache'']\<rparr>,
       mn_copy = \<lparr>co_sources = [\<lparr>sc_from = ''bin'', sc_to = ''/opt/bin'', sc_mode = []\<rparr>],
                 co_modules = []\<rparr>,
       mn_dir = [], mn_real_dir = [], mn_file = [], mn_source = []\<rparr>, [])"

definition demo_host :: host where
  "demo_host =
     \<lparr>ho_abs = Inr, ho_read = (\<lambda>p. Inr ''toml''), ho_eval = Inr,
      ho_lstat = (\<lambda>p. Inr KDirectory), ho_stat = (\<lambda>p. Inl ''absent'')\<rparr>"

definition demo_manifest :: image_manifest where
  "demo_manifest = (fst (projr (demo_toml [])))
     \<lparr>mn_dir := ''/w'', mn_real_dir := ''/w'', mn_file := ''/w/m.toml'', mn_source := ''toml''\<rparr>"

lemma demo_load: "load_manifest demo_host demo_toml ''/w/m.toml'' = Inr demo_manifest"
  by code_simp


end
