(* ===== verification/Image_Plan.thy ===== *)
theory Image_Plan
  imports Complex_Main Image_Manifest Engine
begin

text \<open>
  Planning an image build (the first half of \<open>internal/manifest/build.go\<close>): a loaded
  manifest resolved against the host, the build recipe, the canonical text behind the tag,
  and the rules for a tag given by the caller. \<open>json.Marshal\<close> of the command,
  \<open>strconv.Quote\<close> and the hexadecimal SHA-256 are the parameters \<open>json\<close>, \<open>quote\<close> and \<open>sha\<close>.
\<close>

section \<open>The plan\<close>

record planned_source =
  ps_host_path :: string
  ps_context_path :: string
  ps_target :: string
  ps_mode :: u32
  ps_directory :: bool

record planned_module =
  pm_host_path :: string
  pm_context_path :: string
  pm_name :: string
  pm_target :: string

record build_plan =
  pl_manifest_dir :: string
  pl_image :: string
  pl_digest :: string
  pl_tag :: string
  pl_allow_network :: bool
  pl_packages :: "string list"
  pl_command :: "string list"
  pl_workdir :: string
  pl_env :: "string list"
  pl_writable :: "string list"
  pl_sources :: "planned_source list"
  pl_modules :: "planned_module list"
  pl_containerfile :: string
  pl_manifest_toml :: string

definition tag_prefix :: string where "tag_prefix = ''wlvision-build:''"
definition tag_digest_length :: nat where "tag_digest_length = 12"

text \<open>\<open>path.Join\<close> of three elements, the middle one a number.\<close>

definition context_path :: "string \<Rightarrow> nat \<Rightarrow> string \<Rightarrow> string" where
  "context_path area i name = path_join (path_join area (dec_nat i)) name"

definition plan_source :: "host \<Rightarrow> image_manifest \<Rightarrow> nat \<Rightarrow> source_decl \<Rightarrow> goerr + planned_source" where
  "plan_source h m i s =
     (case ho_eval h (path_join (mn_dir m) (sc_from s)) of
        Inl err \<Rightarrow> Inl (field_error (indexed ''copy.sources'' i @ ''.from'') ''cannot resolve %q: %v'')
      | Inr resolved \<Rightarrow>
          (case ho_lstat h resolved of
             Inl err \<Rightarrow> Inl (field_error (indexed ''copy.sources'' i @ ''.from'') ''cannot inspect %q: %v'')
           | Inr kind \<Rightarrow>
               (case (if sc_mode s \<noteq> [] then parse_mode (sc_mode s) else Inr 0) of
                  Inl err \<Rightarrow> Inl (field_error (indexed ''copy.sources'' i @ ''.mode'')
                               ''%q is not an octal file mode: %v'')
                | Inr mode \<Rightarrow>
                    Inr \<lparr>ps_host_path = resolved,
                         ps_context_path = context_path ''src'' i (path_base (sc_from s)),
                         ps_target = path_clean (sc_to s), ps_mode = mode,
                         ps_directory = (kind = KDirectory)\<rparr>)))"

definition plan_module :: "host \<Rightarrow> image_manifest \<Rightarrow> nat \<Rightarrow> string \<Rightarrow> goerr + planned_module" where
  "plan_module h m i modname =
     (case ho_eval h (path_join (mn_dir m) modname) of
        Inl err \<Rightarrow> Inl (field_error (indexed ''copy.modules'' i) ''cannot resolve %q: %v'')
      | Inr resolved \<Rightarrow>
          let name = path_base resolved
          in Inr \<lparr>pm_host_path = resolved, pm_context_path = context_path ''modules'' i name,
                  pm_name = name, pm_target = path_join ''/src'' name\<rparr>)"

fun plan_all :: "(nat \<Rightarrow> 'a \<Rightarrow> goerr + 'b) \<Rightarrow> nat \<Rightarrow> 'a list \<Rightarrow> goerr + 'b list" where
  "plan_all f i [] = Inr []"
| "plan_all f i (x # xs) =
     (case f i x of
        Inl err \<Rightarrow> Inl err
      | Inr y \<Rightarrow> (case plan_all f (Suc i) xs of Inl err \<Rightarrow> Inl err | Inr ys \<Rightarrow> Inr (y # ys)))"

section \<open>The recipe\<close>

fun octal_nat :: "nat \<Rightarrow> string" where
  "octal_nat n = (if n < 8 then [char_of (48 + n)] else octal_nat (n div 8) @ [char_of (48 + n mod 8)])"

declare octal_nat.simps [simp del]

definition copy_line :: "planned_source \<Rightarrow> string" where
  "copy_line s =
     (let reference = ps_context_path s @ (if ps_directory s then ''/'' else []);
          target = ps_target s @ (if ps_directory s then ''/'' else [])
      in ''COPY'' @ (if ps_mode s \<noteq> 0 then '' --chmod=0'' @ octal_nat (unat (ps_mode s)) else []) @
         '' '' @ reference @ '' '' @ target)"

definition recipe_lines :: "(string list \<Rightarrow> string option) \<Rightarrow> build_plan \<Rightarrow> string list" where
  "recipe_lines json p =
     [''# Generated by wlvision from a wlvision-manifest/v1 manifest. Do not edit.'',
      ''# The base is digest-pinned so the image cannot move under a session.'',
      ''FROM '' @ pl_image p] @
     (if pl_packages p \<noteq> [] then
        [[], ''# One transaction, so the image never holds a partial installation.'',
         ''RUN pacman -Sy --noconfirm '' @ join_with (CHR '' '') (pl_packages p)]
      else []) @
     concat (map (\<lambda>s. [[], copy_line s]) (pl_sources p)) @
     concat (map (\<lambda>m. [[], ''COPY '' @ pm_context_path m @ ''/ '' @ pm_target m @ ''/'']) (pl_modules p)) @
     concat (map (\<lambda>entry. [[], ''ENV '' @ entry]) (pl_env p)) @
     (if pl_workdir p \<noteq> [] then [[], ''WORKDIR '' @ pl_workdir p] else []) @
     [[], ''CMD '' @ (case json (pl_command p) of Some text \<Rightarrow> text | None \<Rightarrow> ''[]''), []]"

definition render_containerfile :: "(string list \<Rightarrow> string option) \<Rightarrow> build_plan \<Rightarrow> string" where
  "render_containerfile json p = join_with (char_of (10::nat)) (recipe_lines json p)"

section \<open>The tag\<close>

definition canonical_line :: "(string \<Rightarrow> string) \<Rightarrow> string \<Rightarrow> string list \<Rightarrow> string" where
  "canonical_line quote name vs =
     name @ ''='' @ concat (map (\<lambda>v. quote v @ [char_of (31::nat)]) vs) @ newline"

definition canonical :: "(string \<Rightarrow> string) \<Rightarrow> image_manifest \<Rightarrow> string" where
  "canonical quote m =
     concat
       ([canonical_line quote ''schema'' [mn_schema m],
         canonical_line quote ''base.image'' [ba_image (mn_base m)],
         canonical_line quote ''base.allow_network''
           [if ba_allow_network (mn_base m) then ''true'' else ''false''],
         canonical_line quote ''base.packages'' (sort (ba_packages (mn_base m))),
         canonical_line quote ''application.command'' (ap_command (mn_application m)),
         canonical_line quote ''application.workdir'' [ap_workdir (mn_application m)],
         canonical_line quote ''application.env'' (ap_env (mn_application m)),
         canonical_line quote ''application.writable'' (ap_writable (mn_application m))] @
        map (\<lambda>s. canonical_line quote ''copy.sources'' [sc_from s, sc_to s, sc_mode s])
          (co_sources (mn_copy m)) @
        [canonical_line quote ''copy.modules'' (co_modules (mn_copy m))])"

definition short_digest :: "(string \<Rightarrow> string) \<Rightarrow> (string \<Rightarrow> string) \<Rightarrow> image_manifest \<Rightarrow> string" where
  "short_digest sha quote m = take tag_digest_length (sha (canonical quote m))"

definition tag_char :: "char \<Rightarrow> bool" where
  "tag_char c \<longleftrightarrow> is_lower c \<or> is_upper c \<or> is_digit c \<or> c \<in> set ''._-:/@''"

definition validate_tag :: "string \<Rightarrow> goerr option" where
  "validate_tag tag =
     (let trimmed = trim_space tag
      in if trimmed = [] then Some (field_error ''tag'' ''an image tag is required'')
         else if trimmed \<noteq> tag
         then Some (field_error ''tag'' ''an image tag must not have surrounding whitespace'')
         else if has_prefix trimmed ''-'' then Some (field_error ''tag'' ''%q must not begin with a dash'')
         else if length trimmed > 255
         then Some (field_error ''tag'' ''an image tag is longer than 255 characters'')
         else if \<not> list_all tag_char trimmed
         then Some (field_error ''tag'' ''%q contains %q, which an image tag cannot carry'')
         else if CHR ''@'' \<in> set trimmed
         then Some (field_error ''tag'' ''%q looks like a digest pin, not a tag'')
         else None)"

section \<open>Planning\<close>

definition plan_build ::
  "host \<Rightarrow> (string list \<Rightarrow> string option) \<Rightarrow> (string \<Rightarrow> string) \<Rightarrow> (string \<Rightarrow> string) \<Rightarrow>
   image_manifest \<Rightarrow> goerr + build_plan" where
  "plan_build h json sha quote m =
     (if mn_dir m = [] then Inl (PlainErr ''manifest: Plan needs a manifest loaded with Load'')
      else
        (case plan_all (plan_source h m) 0 (co_sources (mn_copy m)) of
           Inl err \<Rightarrow> Inl err
         | Inr sources \<Rightarrow>
             (case plan_all (plan_module h m) 0 (co_modules (mn_copy m)) of
                Inl err \<Rightarrow> Inl err
              | Inr mods \<Rightarrow>
                  let p = \<lparr>pl_manifest_dir = mn_real_dir m, pl_image = ba_image (mn_base m),
                           pl_digest = ba_digest (mn_base m), pl_tag = [],
                           pl_allow_network = ba_allow_network (mn_base m),
                           pl_packages = sort (ba_packages (mn_base m)),
                           pl_command = ap_command (mn_application m),
                           pl_workdir = ap_workdir (mn_application m),
                           pl_env = ap_env (mn_application m),
                           pl_writable = ap_writable (mn_application m),
                           pl_sources = sources, pl_modules = mods, pl_containerfile = [],
                           pl_manifest_toml = mn_source m\<rparr>
                  in Inr (p\<lparr>pl_containerfile := render_containerfile json p,
                           pl_tag := tag_prefix @ short_digest sha quote m\<rparr>))))"

section \<open>Facts\<close>

lemma plan_all_Inr:
  assumes "plan_all f i xs = Inr ys"
  shows "length ys = length xs \<and> (\<forall>k < length xs. f (i + k) (xs ! k) = Inr (ys ! k))"
  using assms
proof (induction xs arbitrary: i ys)
  case (Cons x xs)
  then obtain y zs where ys: "ys = y # zs" "f i x = Inr y" "plan_all f (Suc i) xs = Inr zs"
    by (auto split: sum.splits)
  note later = Cons.IH [OF ys(3)]
  have "f (i + k) ((x # xs) ! k) = Inr (ys ! k)" if "k < length (x # xs)" for k
    using that later ys(1,2) by (cases k) auto
  then show ?case using later ys(1) by simp
qed simp

lemma plan_all_defined:
  assumes "\<forall>i. \<forall>x \<in> set xs. \<exists>y. f i x = Inr y"
  shows "\<exists>ys. plan_all f i xs = Inr ys"
  using assms
proof (induction xs arbitrary: i)
  case (Cons x xs)
  obtain y where "f i x = Inr y" using Cons.prems by (meson list.set_intros(1))
  moreover obtain ys where "plan_all f (Suc i) xs = Inr ys"
    using Cons.IH [of "Suc i"] Cons.prems by (meson list.set_intros(2))
  ultimately show ?case by simp
qed simp

text \<open>A manifest that was accepted can be planned as long as the host answers as it did.\<close>

lemma accepted_plans:
  assumes "good_manifest h m" and "mn_dir m \<noteq> []"
  shows "\<exists>p. plan_build h json sha quote m = Inr p"
proof -
  have "\<forall>i. \<forall>s \<in> set (co_sources (mn_copy m)). \<exists>y. plan_source h m i s = Inr y"
    using assms(1) by (fastforce simp: good_manifest_def good_source_def plan_source_def)
  then obtain sources where "plan_all (plan_source h m) 0 (co_sources (mn_copy m)) = Inr sources"
    using plan_all_defined by blast
  moreover have "\<forall>i. \<forall>n \<in> set (co_modules (mn_copy m)). \<exists>y. plan_module h m i n = Inr y"
    using assms(1) by (fastforce simp: good_manifest_def good_module_def plan_module_def Let_def)
  then obtain mods where "plan_all (plan_module h m) 0 (co_modules (mn_copy m)) = Inr mods"
    using plan_all_defined by blast
  ultimately show ?thesis using assms(2) by (simp add: plan_build_def Let_def)
qed

text \<open>
  The tag covers what the manifest declares except \<open>base.digest\<close>: two manifests that pin
  different local images under one name build under the same tag.
\<close>

lemma tag_ignores_digest:
  "canonical quote (m\<lparr>mn_base := (mn_base m)\<lparr>ba_digest := d\<rparr>\<rparr>) = canonical quote m"
  by (simp add: canonical_def)

text \<open>An environment entry with a line break is accepted and becomes an instruction of its own.\<close>

lemma env_injects_instruction:
  "check_env 0 [''A=1'' @ newline @ ''RUN id''] = None \<and>
   ''ENV '' @ ''A=1'' @ newline @ ''RUN id'' \<in>
     set (recipe_lines json (p\<lparr>pl_env := [''A=1'' @ newline @ ''RUN id'']\<rparr>))"
proof -
  have "check_env 0 [''A=1'' @ newline @ ''RUN id''] = None" by code_simp
  then show ?thesis by (simp add: recipe_lines_def)
qed

text \<open>The comment of \<open>ValidateTag\<close> promises that a tag has no scheme.\<close>

lemma scheme_accepted: "validate_tag ''http://host/image'' = None"
  by (simp add: validate_tag_def trim_space_def is_space_def Let_def has_prefix_def tag_char_def
      is_lower_def is_upper_def is_digit_def)

end
