(* ===== verification/Image_Stage.thy ===== *)
theory Image_Stage
  imports Complex_Main Path_Below Image_Plan
begin

text \<open>
  Staging and building (the second half of \<open>internal/manifest/build.go\<close>). What is read is a
  tree that does not change while it is copied; what is written goes to the host as a
  sequence of calls, each of which may fail depending on the calls before it. A function
  here returns the calls made so far beside its error, so that a theorem can speak about
  every file that was opened and every name that was written, whatever call failed.
\<close>

section \<open>Calls\<close>

datatype build_call =
    Lstat string
  | ResolveLink string
  | ListDir string
  | OpenSource string
  | MakeDirs string
  | MakeTemp string
  | WriteTemp string string
  | ChmodTemp string u32
  | CloseTemp string
  | RemoveTemp string
  | Publish string string

type_synonym calls = "build_call list"

record build_env =
  be_ctx :: "calls \<Rightarrow> string option"
  be_lstat :: "string \<Rightarrow> string + file_kind"
  be_resolve :: "string \<Rightarrow> string + string"
  be_entries :: "string \<Rightarrow> string + (string \<times> bool) list"
  be_open :: "string \<Rightarrow> string option"
  be_content :: "string \<Rightarrow> string \<times> string option"
  be_fault :: "calls \<Rightarrow> build_call \<Rightarrow> string option"
  be_random :: "calls \<Rightarrow> string"

definition did :: "build_env \<Rightarrow> build_call \<Rightarrow> calls \<Rightarrow> string option \<times> calls" where
  "did env c h = (be_fault env h c, h @ [c])"

definition containerfile_name :: string where "containerfile_name = ''Containerfile''"
definition manifest_copy_name :: string where "manifest_copy_name = ''manifest.toml''"

section \<open>Writing one file\<close>

definition staged_path :: "string \<Rightarrow> string \<Rightarrow> string + string" where
  "staged_path base relative =
     (if relative = [] \<or> is_abs relative
      then Inl ''manifest: %q is not a relative build-context path''
      else
        let target = path_join base relative
        in if path_within base target then Inr target
           else Inl ''manifest: %q escapes the staging directory'')"

text \<open>\<open>os.CreateTemp\<close> replaces the star of its pattern; \<open>os.File.Chmod\<close> sets the permission bits.\<close>

definition temp_prefix :: string where "temp_prefix = ''.wlvision-''"

definition temp_path :: "string \<Rightarrow> string \<Rightarrow> string" where
  "temp_path dir r = (if has_suffix dir ''/'' then dir else dir @ [slash]) @ temp_prefix @ r"

definition chmod_bits :: "u32 \<Rightarrow> u32" where
  "chmod_bits mode = mode AND 511"

definition abandon_temp :: "build_env \<Rightarrow> string \<Rightarrow> calls \<Rightarrow> calls" where
  "abandon_temp env name h = snd (did env (RemoveTemp name) (snd (did env (CloseTemp name) h)))"

text \<open>
  The sequence both writers share: a temporary file beside the target, the bytes, the mode,
  and the rename. \<open>bytes\<close> is what can be read of the source and how reading it ended.
\<close>

definition publish_temp ::
  "build_env \<Rightarrow> string \<times> string option \<Rightarrow> string \<Rightarrow> string \<Rightarrow> u32 \<Rightarrow> calls \<Rightarrow> string option \<times> calls" where
  "publish_temp env bytes name target mode h =
     (case did env (WriteTemp name (fst bytes)) h of
        (wrote, h1) \<Rightarrow>
          (case (if wrote = None then snd bytes else wrote) of
             Some err \<Rightarrow> (Some (''manifest: cannot write %s: '' @ err), abandon_temp env name h1)
           | None \<Rightarrow>
               (case did env (ChmodTemp name (chmod_bits mode)) h1 of
                  (Some err, h2) \<Rightarrow>
                    (Some (''manifest: cannot set the mode of %s: '' @ err), abandon_temp env name h2)
                | (None, h2) \<Rightarrow>
                    (case did env (CloseTemp name) h2 of
                       (Some err, h3) \<Rightarrow>
                         (Some (''manifest: cannot close %s: '' @ err), snd (did env (RemoveTemp name) h3))
                     | (None, h3) \<Rightarrow>
                         (case did env (Publish name target) h3 of
                            (Some err, h4) \<Rightarrow>
                              (Some (''manifest: cannot publish %s: '' @ err),
                               snd (did env (RemoveTemp name) h4))
                          | (None, h4) \<Rightarrow> (None, h4))))))"

definition place_file ::
  "build_env \<Rightarrow> string \<times> string option \<Rightarrow> string \<Rightarrow> u32 \<Rightarrow> calls \<Rightarrow> string option \<times> calls" where
  "place_file env bytes target mode h =
     (case did env (MakeDirs (path_dir target)) h of
        (Some err, h1) \<Rightarrow> (Some (''manifest: cannot create %s: '' @ err), h1)
      | (None, h1) \<Rightarrow>
          (case did env (MakeTemp (path_dir target)) h1 of
             (Some err, h2) \<Rightarrow> (Some (''manifest: cannot stage %s: '' @ err), h2)
           | (None, h2) \<Rightarrow>
               publish_temp env bytes (temp_path (path_dir target) (be_random env h2)) target mode h2))"

definition write_staged ::
  "build_env \<Rightarrow> string \<Rightarrow> string \<Rightarrow> string \<Rightarrow> u32 \<Rightarrow> calls \<Rightarrow> string option \<times> calls" where
  "write_staged env base relative payload mode h =
     (case staged_path base relative of
        Inl err \<Rightarrow> (Some err, h)
      | Inr target \<Rightarrow> place_file env (payload, None) target mode h)"

definition copy_file ::
  "build_env \<Rightarrow> string \<Rightarrow> string \<Rightarrow> u32 \<Rightarrow> calls \<Rightarrow> string option \<times> calls" where
  "copy_file env source target mode h =
     (let h1 = h @ [OpenSource source]
      in case be_open env source of
           Some err \<Rightarrow> (Some (''manifest: cannot read %s: '' @ err), h1)
         | None \<Rightarrow> place_file env (be_content env source) target mode h1)"

section \<open>Copying a tree\<close>

definition git_name :: string where "git_name = ''.git''"

definition file_mode :: "u32 \<Rightarrow> u32 \<Rightarrow> u32" where
  "file_mode mode perm =
     (let m = (if mode \<noteq> 0 then mode else perm AND 511) in if m = 0 then 420 else m)"

text \<open>
  \<open>walk\<close> of \<open>copyTree\<close>, with fuel for the depth of the recursion. \<open>ancestors\<close> is the set of
  resolved directories in use, which the deferred \<open>delete\<close> restores on the way back.
\<close>

function walk_tree ::
    "build_env \<Rightarrow> string \<Rightarrow> u32 \<Rightarrow> nat \<Rightarrow> string list \<Rightarrow> string \<Rightarrow> string \<Rightarrow> calls \<Rightarrow>
     (string option \<times> calls) option"
  and walk_entries ::
    "build_env \<Rightarrow> string \<Rightarrow> u32 \<Rightarrow> nat \<Rightarrow> string list \<Rightarrow> string \<Rightarrow> string \<Rightarrow> (string \<times> bool) list \<Rightarrow> calls \<Rightarrow>
     (string option \<times> calls) option"
where
  "walk_tree env source mode 0 ancestors start to h = None"
| "walk_tree env source mode (Suc n) ancestors start to h =
     (case be_ctx env h of
        Some err \<Rightarrow> Some (Some err, h)
      | None \<Rightarrow>
          let h1 = h @ [Lstat start]
          in case be_lstat env start of
               Inl err \<Rightarrow> Some (Some (''manifest: cannot read %s: '' @ err), h1)
             | Inr KSymlink \<Rightarrow>
                 let h2 = h1 @ [ResolveLink start]
                 in (case be_resolve env start of
                       Inl err \<Rightarrow> Some (Some (''manifest: cannot resolve the symbolic link %s: '' @ err), h2)
                     | Inr resolved \<Rightarrow>
                         if \<not> path_within source resolved
                         then Some (Some ''manifest: the symbolic link %s points to %s, outside %s; a source never follows a link out of its own tree'', h2)
                         else if resolved \<in> set ancestors
                         then Some (Some ''manifest: the symbolic link %s forms a cycle through %s'', h2)
                         else walk_tree env source mode n (resolved # ancestors) resolved to h2)
             | Inr KDirectory \<Rightarrow>
                 (case did env (MakeDirs to) h1 of
                    (Some err, h2) \<Rightarrow> Some (Some (''manifest: cannot create %s: '' @ err), h2)
                  | (None, h2) \<Rightarrow>
                      let h3 = h2 @ [ListDir start]
                      in (case be_entries env start of
                            Inl err \<Rightarrow> Some (Some (''manifest: cannot read %s: '' @ err), h3)
                          | Inr es \<Rightarrow> walk_entries env source mode n ancestors start to es h3))
             | Inr (KRegular perm) \<Rightarrow> Some (copy_file env start to (file_mode mode perm) h1)
             | Inr kind \<Rightarrow> Some (Some (''manifest: %s is a '' @ describe_mode kind @ '', not a regular file''), h1))"
| "walk_entries env source mode n ancestors start to [] h = Some (None, h)"
| "walk_entries env source mode n ancestors start to ((name, directory) # es) h =
     (if directory \<and> name = git_name then walk_entries env source mode n ancestors start to es h
      else (case walk_tree env source mode n ancestors (path_join start name) (path_join to name) h of
              None \<Rightarrow> None
            | Some (Some err, h1) \<Rightarrow> Some (Some err, h1)
            | Some (None, h1) \<Rightarrow> walk_entries env source mode n ancestors start to es h1))"
  by pat_completeness auto
termination
  by (relation "measures
       [\<lambda>x. case x of Inl (_, _, _, n, _) \<Rightarrow> n | Inr (_, _, _, n, _) \<Rightarrow> n,
        \<lambda>x. case x of Inl _ \<Rightarrow> 0 | Inr (_, _, _, _, _, _, _, es, _) \<Rightarrow> Suc (length es)]") auto

definition copy_tree ::
  "build_env \<Rightarrow> nat \<Rightarrow> string \<Rightarrow> string \<Rightarrow> u32 \<Rightarrow> calls \<Rightarrow> (string option \<times> calls) option" where
  "copy_tree env fuel source target mode h = walk_tree env source mode fuel [] source target h"

section \<open>Staging\<close>

fun stage_sources ::
  "build_env \<Rightarrow> nat \<Rightarrow> string \<Rightarrow> nat \<Rightarrow> planned_source list \<Rightarrow> calls \<Rightarrow> (string option \<times> calls) option" where
  "stage_sources env fuel base i [] h = Some (None, h)"
| "stage_sources env fuel base i (s # ss) h =
     (case be_ctx env h of
        Some err \<Rightarrow> Some (Some err, h)
      | None \<Rightarrow>
          (case staged_path base (ps_context_path s) of
             Inl err \<Rightarrow> Some (Some (indexed ''copy.sources'' i @ '': '' @ err), h)
           | Inr target \<Rightarrow>
               (case (if ps_directory s then copy_tree env fuel (ps_host_path s) target (ps_mode s) h
                      else Some (copy_file env (ps_host_path s) target
                             (if ps_mode s \<noteq> 0 then ps_mode s else 420) h)) of
                  None \<Rightarrow> None
                | Some (Some err, h1) \<Rightarrow> Some (Some (indexed ''copy.sources'' i @ ''.from: '' @ err), h1)
                | Some (None, h1) \<Rightarrow> stage_sources env fuel base (Suc i) ss h1)))"

fun stage_modules ::
  "build_env \<Rightarrow> nat \<Rightarrow> string \<Rightarrow> nat \<Rightarrow> planned_module list \<Rightarrow> calls \<Rightarrow> (string option \<times> calls) option" where
  "stage_modules env fuel base i [] h = Some (None, h)"
| "stage_modules env fuel base i (m # ms) h =
     (case be_ctx env h of
        Some err \<Rightarrow> Some (Some err, h)
      | None \<Rightarrow>
          (case staged_path base (pm_context_path m) of
             Inl err \<Rightarrow> Some (Some (indexed ''copy.modules'' i @ '': '' @ err), h)
           | Inr target \<Rightarrow>
               (case copy_tree env fuel (pm_host_path m) target 0 h of
                  None \<Rightarrow> None
                | Some (Some err, h1) \<Rightarrow> Some (Some (indexed ''copy.modules'' i @ '': '' @ err), h1)
                | Some (None, h1) \<Rightarrow> stage_modules env fuel base (Suc i) ms h1)))"

definition stage_generated :: "build_env \<Rightarrow> build_plan \<Rightarrow> string \<Rightarrow> calls \<Rightarrow> string option \<times> calls" where
  "stage_generated env p base h =
     (case write_staged env base containerfile_name (pl_containerfile p) 420 h of
        (Some err, h1) \<Rightarrow> (Some err, h1)
      | (None, h1) \<Rightarrow>
          if pl_manifest_toml p \<noteq> [] then write_staged env base manifest_copy_name (pl_manifest_toml p) 420 h1
          else (None, h1))"

definition stage ::
  "build_env \<Rightarrow> nat \<Rightarrow> build_plan \<Rightarrow> string \<Rightarrow> calls \<Rightarrow> (string option \<times> calls) option" where
  "stage env fuel p dir h =
     (if trim_space dir = [] \<or> \<not> is_abs dir
      then Some (Some ''manifest: the staging directory must be an absolute path'', h)
      else
        let base = path_clean dir
        in case did env (MakeDirs base) h of
             (Some err, h1) \<Rightarrow> Some (Some (''manifest: cannot create the staging directory: '' @ err), h1)
           | (None, h1) \<Rightarrow>
               (case stage_generated env p base h1 of
                  (Some err, h2) \<Rightarrow> Some (Some err, h2)
                | (None, h2) \<Rightarrow>
                    (case stage_sources env fuel base 0 (pl_sources p) h2 of
                       None \<Rightarrow> None
                     | Some (Some err, h3) \<Rightarrow> Some (Some err, h3)
                     | Some (None, h3) \<Rightarrow> stage_modules env fuel base 0 (pl_modules p) h3)))"

section \<open>Building\<close>

record build_result =
  brs_tag :: string
  brs_image_id :: string
  brs_output :: string

text \<open>What the build uses of an engine; a build also yields what both of its streams printed.\<close>

record build_engine =
  en_image_id :: "string \<Rightarrow> goerr + string"
  en_build :: "build_spec \<Rightarrow> (string + string) \<times> string"

definition build_output_tail :: nat where "build_output_tail = 4096"

definition output_tail :: "string \<Rightarrow> string" where
  "output_tail printed =
     (let text = trim_space printed
      in if length text \<le> build_output_tail then text
         else ''...'' @ drop (length text - build_output_tail) text)"

definition pin_error :: "goerr \<Rightarrow> goerr" where
  "pin_error err =
     (case err of PlainErr m \<Rightarrow> PlainErr (''manifest.build: cannot pin the base image %q: '' @ m) | _ \<Rightarrow> err)"

definition check_base :: "build_engine \<Rightarrow> build_plan \<Rightarrow> goerr option" where
  "check_base en p =
     (if pl_digest p = [] then None
      else (case en_image_id en (pl_image p) of
              Inl err \<Rightarrow> Some (pin_error err)
            | Inr i \<Rightarrow>
                if trim_space i \<noteq> pl_digest p
                then Some (Typed (new_failure ImageUnavailable ''manifest.build''
                       ''the base image %q has id %q, but the manifest pins %q''))
                else None))"

definition build_failed :: "string \<Rightarrow> goerr" where
  "build_failed printed =
     Typed (with_details (if output_tail printed \<noteq> [] then [(''build_output'', output_tail printed)] else [])
       (new_failure ImageUnavailable ''manifest.build'' ''the image build failed: %v''))"

text \<open>The result comes with the calls of the staging and the builds the engine was asked for.\<close>

definition build ::
  "build_env \<Rightarrow> nat \<Rightarrow> build_engine option \<Rightarrow> build_plan \<Rightarrow> string \<Rightarrow>
   ((goerr + build_result) \<times> calls \<times> build_spec list) option" where
  "build env fuel engine p dir =
     (case engine of
        None \<Rightarrow> Some (Inl (PlainErr ''manifest: an engine is required''), [], [])
      | Some en \<Rightarrow>
          if pl_tag p = []
          then Some (Inl (PlainErr ''manifest: the plan carries no image tag; call Plan first''), [], [])
          else
            (case check_base en p of
               Some err \<Rightarrow> Some (Inl err, [], [])
             | None \<Rightarrow>
                 (case stage env fuel p dir [] of
                    None \<Rightarrow> None
                  | Some (Some err, h) \<Rightarrow> Some (Inl (PlainErr err), h, [])
                  | Some (None, h) \<Rightarrow>
                      let spec = \<lparr>bs_context = path_clean dir, bs_containerfile = containerfile_name,
                                  bs_tag = pl_tag p, bs_network = pl_allow_network p\<rparr>
                      in (case en_build en spec of
                            (Inl err, printed) \<Rightarrow> Some (Inl (build_failed printed), h, [spec])
                          | (Inr built, printed) \<Rightarrow>
                              Some (Inr \<lparr>brs_tag = pl_tag p, brs_image_id = built, brs_output = printed\<rparr>,
                                    h, [spec])))))"

text \<open>
  The engine is asked for at most one build, and only when the base image has the pinned
  identifier and everything was staged; what a failure carries of the output is bounded.
\<close>

lemma build_asks_last:
  assumes "build env fuel engine p dir = Some (r, h, specs)" and "specs \<noteq> []"
  shows "\<exists>en spec. engine = Some en \<and> specs = [spec] \<and> bs_context spec = path_clean dir \<and>
    bs_tag spec = pl_tag p \<and> stage env fuel p dir [] = Some (None, h) \<and>
    (pl_digest p \<noteq> [] \<longrightarrow> (\<exists>i. en_image_id en (pl_image p) = Inr i \<and> trim_space i = pl_digest p))"
proof -
  obtain en where en: "engine = Some en" "check_base en p = None" "stage env fuel p dir [] = Some (None, h)"
      "length specs = 1" "\<forall>spec \<in> set specs. bs_context spec = path_clean dir \<and> bs_tag spec = pl_tag p"
    using assms by (auto simp: build_def Let_def split: option.splits if_splits prod.splits sum.splits)
  moreover obtain spec where "specs = [spec]" using en(4) by (cases specs) auto
  ultimately show ?thesis by (auto simp: check_base_def split: if_splits sum.splits)
qed

lemma output_tail_bounded: "length (output_tail printed) \<le> 3 + build_output_tail"
  by (simp add: output_tail_def Let_def)

section \<open>The copy of a tree ends\<close>

text \<open>
  The directories of a tree are ranked by depth, and its links lead to finitely many places.
\<close>

definition bounded_tree :: "build_env \<Rightarrow> string set \<Rightarrow> (string \<Rightarrow> nat) \<Rightarrow> nat \<Rightarrow> bool" where
  "bounded_tree env places rank depth \<longleftrightarrow>
     finite places \<and> (\<forall>p r. be_resolve env p = Inr r \<longrightarrow> r \<in> places) \<and> (\<forall>p. rank p \<le> depth) \<and>
     (\<forall>p es. be_lstat env p = Inr KDirectory \<longrightarrow> be_entries env p = Inr es \<longrightarrow>
        (\<forall>(name, _) \<in> set es. rank (path_join p name) < rank p))"

definition walk_need :: "string set \<Rightarrow> (string \<Rightarrow> nat) \<Rightarrow> nat \<Rightarrow> string list \<Rightarrow> string \<Rightarrow> nat" where
  "walk_need places rank depth ancestors p = card (places - set ancestors) * Suc depth + rank p"

lemma walk_need_link:
  assumes "finite places" and "r \<in> places" and "r \<notin> set anc" and "\<forall>p. rank p \<le> depth"
  shows "walk_need places rank depth (r # anc) r < walk_need places rank depth anc p"
proof -
  have "places - set anc = insert r (places - set (r # anc))" using assms(2,3) by auto
  then have "card (places - set anc) = Suc (card (places - set (r # anc)))"
    using assms(1) by (metis DiffE card_insert_disjoint finite_Diff list.set_intros(1))
  moreover have "rank r \<le> depth" using assms(4) by blast
  ultimately show ?thesis by (simp add: walk_need_def)
qed

lemma entries_return:
  assumes "\<forall>(name, _) \<in> set es. \<forall>h. \<exists>r.
      walk_tree env source mode n anc (path_join start name) (path_join to name) h = Some r"
  shows "\<exists>r. walk_entries env source mode n anc start to es h = Some r"
  using assms
proof (induction es arbitrary: h)
  case (Cons x es)
  obtain name directory where x: "x = (name, directory)" by (cases x)
  have rest: "\<exists>r. walk_entries env source mode n anc start to es h = Some r" for h
    using Cons by simp
  obtain e h1 where "walk_tree env source mode n anc (path_join start name) (path_join to name) h = Some (e, h1)"
    using Cons.prems x by fastforce
  then show ?case using rest x by (simp split: option.split)
qed simp

lemma walk_returns:
  assumes tree: "bounded_tree env places rank depth"
    and "walk_need places rank depth anc start < fuel"
  shows "\<exists>r. walk_tree env source mode fuel anc start to h = Some r"
  using assms(2)
proof (induction fuel arbitrary: anc start to h)
  case (Suc n)
  have links: "finite places" "\<And>p r. be_resolve env p = Inr r \<Longrightarrow> r \<in> places" "\<forall>p. rank p \<le> depth"
    and ranks: "\<And>p es. be_lstat env p = Inr KDirectory \<Longrightarrow> be_entries env p = Inr es \<Longrightarrow>
        \<forall>(name, _) \<in> set es. rank (path_join p name) < rank p"
    using tree by (auto simp: bounded_tree_def)
  have link: "\<exists>r. walk_tree env source mode n (p # anc) p to h' = Some r"
    if "be_resolve env start = Inr p" "p \<notin> set anc" for p h'
    using Suc.IH walk_need_link [OF links(1) links(2) [OF that(1)] that(2) links(3), of start] Suc.prems
    by simp
  have entries: "\<exists>r. walk_entries env source mode n anc start to es h' = Some r"
    if "be_lstat env start = Inr KDirectory" "be_entries env start = Inr es" for es h'
  proof (rule entries_return, clarify)
    fix name d h'' assume "(name, d) \<in> set es"
    then have "rank (path_join start name) < rank start" using ranks [OF that] by blast
    then have "walk_need places rank depth anc (path_join start name) < n"
      using Suc.prems by (simp add: walk_need_def)
    then show "\<exists>r. walk_tree env source mode n anc (path_join start name) (path_join to name) h'' = Some r"
      by (rule Suc.IH)
  qed
  show ?case
    using link entries
    by (auto simp: Let_def did_def split: option.split sum.split file_kind.split prod.split)
qed simp

section \<open>What a copy touches\<close>

fun writes_of :: "build_call \<Rightarrow> string list" where
  "writes_of (MakeDirs p) = [p]"
| "writes_of (MakeTemp d) = [d]"
| "writes_of (WriteTemp n _) = [n]"
| "writes_of (ChmodTemp n _) = [n]"
| "writes_of (RemoveTemp n) = [n]"
| "writes_of (Publish n t) = [n, t]"
| "writes_of _ = []"

fun reads_of :: "build_call \<Rightarrow> string list" where
  "reads_of (Lstat p) = [p]"
| "reads_of (ResolveLink p) = [p]"
| "reads_of (ListDir p) = [p]"
| "reads_of (OpenSource p) = [p]"
| "reads_of _ = []"

definition tame :: "(string \<Rightarrow> bool) \<Rightarrow> string \<Rightarrow> build_call \<Rightarrow> bool" where
  "tame readable base c \<longleftrightarrow>
     (\<forall>w \<in> set (writes_of c). path_within base w) \<and> (\<forall>r \<in> set (reads_of c). readable r)"

definition adds :: "(build_call \<Rightarrow> bool) \<Rightarrow> calls \<Rightarrow> calls \<Rightarrow> bool" where
  "adds ok h h' \<longleftrightarrow> (\<exists>g. h' = h @ g \<and> (\<forall>c \<in> set g. ok c))"

lemma adds_refl [simp]: "adds ok h h"
  by (simp add: adds_def)

lemma adds_trans: "adds ok h1 h2 \<Longrightarrow> adds ok h2 h3 \<Longrightarrow> adds ok h1 h3"
  by (fastforce simp: adds_def)

lemma adds_one [simp]: "ok c \<Longrightarrow> adds ok h (h @ [c])"
  by (simp add: adds_def)

lemma adds_more: "ok c \<Longrightarrow> adds ok (h @ [c]) h' \<Longrightarrow> adds ok h h'"
  by (fastforce simp: adds_def)

lemma adds_mono: "adds ok h h' \<Longrightarrow> (\<And>c. ok c \<Longrightarrow> ok' c) \<Longrightarrow> adds ok' h h'"
  by (auto simp: adds_def)

text \<open>A directory lists plain names, and the random part of a temporary name is one too.\<close>

definition plain_tree :: "build_env \<Rightarrow> bool" where
  "plain_tree env \<longleftrightarrow>
     (\<forall>p es. be_entries env p = Inr es \<longrightarrow> (\<forall>(name, _) \<in> set es. plain_elem name)) \<and>
     (\<forall>h. slash \<notin> set (be_random env h))"

lemma temp_path_within:
  assumes "is_abs base" and "path_within base d" and "slash \<notin> set r"
  shows "path_within base (temp_path d r)"
proof -
  have d: "is_abs d" using assms(1,2) by (simp add: path_within_def)
  have "plain_elem (temp_prefix @ r)" using assms(3) by (simp add: plain_elem_def temp_prefix_def)
  then have name: "split_on slash (temp_prefix @ r) = [temp_prefix @ r]"
    "\<forall>e \<in> set (split_on slash (temp_prefix @ r)). plain_elem e"
    by (simp_all add: split_on_single plain_elem_def del: set_append)
  have "is_abs (temp_path d r) \<and> path_elems (temp_path d r) = path_elems d @ [temp_prefix @ r]"
  proof (cases "has_suffix d ''/''")
    case False
    then have "temp_path d r = d @ slash # temp_prefix @ r" by (simp add: temp_path_def)
    then show ?thesis using path_elems_below [OF d name(2)] name(1) d by (auto simp: is_abs_def has_prefix_append)
  next
    case True
    then obtain d' where d': "d = d' @ slash # []"
      by (metis append_take_drop_id has_suffix_def)
    then have temp: "temp_path d r = d' @ slash # temp_prefix @ r" using True by (simp add: temp_path_def)
    then have abs: "is_abs (temp_path d r)" using d d' by (cases d') (auto simp: is_abs_def has_prefix_def)
    have "path_elems d = clean_elems True [] (split_on slash d')"
      using d clean_elems_skip by (simp add: path_elems_def d' split_on_join_slash)
    moreover have "path_elems (temp_path d r) = clean_elems True [] (split_on slash d' @ [temp_prefix @ r])"
      using abs name(1) by (simp add: path_elems_def temp split_on_join_slash)
    moreover have "clean_elems True es [temp_prefix @ r] = rev es @ [temp_prefix @ r]" for es
      using clean_elems_plain [of "[temp_prefix @ r]"] name by simp
    ultimately show ?thesis using abs by (simp add: clean_elems_append del: clean_elems.simps)
  qed
  then show ?thesis using assms(1,2) d by (auto simp: path_within_prefix)
qed

lemma adds_append [simp]: "adds ok h (h @ g) \<longleftrightarrow> (\<forall>c \<in> set g. ok c)"
  by (auto simp: adds_def)

lemma publish_temp_adds:
  assumes "path_within base name" and "path_within base target"
  shows "adds (tame readable base) h (snd (publish_temp env bytes name target mode h))"
  unfolding publish_temp_def did_def abandon_temp_def
  using assms by (simp add: tame_def del: append_Cons split: option.split)

lemma place_file_adds:
  assumes "is_abs base" and "path_below base target" and "plain_tree env"
    and "place_file env bytes target mode h = (e, h')"
  shows "adds (tame readable base) h h'"
proof -
  define d where "d = path_dir target"
  have dir: "path_within base d" using path_below_dir [OF assms(1,2)] by (simp add: d_def)
  have ok: "tame readable base (MakeDirs d)" "tame readable base (MakeTemp d)"
    using dir by (simp_all add: tame_def)
  have temp: "path_within base (temp_path d (be_random env k))" for k
    using temp_path_within [OF assms(1) dir] assms(3) by (simp add: plain_tree_def)
  define h2 where "h2 = h @ [MakeDirs d, MakeTemp d]"
  have first: "adds (tame readable base) h h2" using ok by (simp add: h2_def)
  have "adds (tame readable base) h2
      (snd (publish_temp env bytes (temp_path d (be_random env h2)) target mode h2))"
    by (rule publish_temp_adds [OF temp path_below_within [OF assms(1,2)]])
  with first have rest: "adds (tame readable base) h
      (snd (publish_temp env bytes (temp_path d (be_random env h2)) target mode h2))"
    by (rule adds_trans)
  have eq: "place_file env bytes target mode h =
      (case be_fault env h (MakeDirs d) of
         Some err \<Rightarrow> (Some (''manifest: cannot create %s: '' @ err), h @ [MakeDirs d])
       | None \<Rightarrow>
           (case be_fault env (h @ [MakeDirs d]) (MakeTemp d) of
              Some err \<Rightarrow> (Some (''manifest: cannot stage %s: '' @ err), h2)
            | None \<Rightarrow> publish_temp env bytes (temp_path d (be_random env h2)) target mode h2))"
    unfolding place_file_def did_def d_def h2_def prod.case append_assoc append.simps ..
  show ?thesis
  proof (cases "be_fault env h (MakeDirs d)")
    case (Some err)
    then have "h' = h @ [MakeDirs d]" using eq assms(4) by (simp del: append_Cons)
    then show ?thesis using ok by simp
  next
    case None
    show ?thesis
    proof (cases "be_fault env (h @ [MakeDirs d]) (MakeTemp d)")
      case (Some err)
      then have "h' = h2" using None eq assms(4) by (simp del: append_Cons)
      then show ?thesis using first by simp
    next
      case None': None
      then have "place_file env bytes target mode h =
          publish_temp env bytes (temp_path d (be_random env h2)) target mode h2"
        using None eq by (simp del: append_Cons)
      then show ?thesis using rest assms(4) by (metis snd_conv)
    qed
  qed
qed

lemma copy_file_adds:
  assumes "is_abs base" and "path_below base target" and "plain_tree env" and "readable source"
    and "copy_file env source target mode h = (e, h')"
  shows "adds (tame readable base) h h'"
proof (cases "be_open env source")
  case None
  then have "place_file env (be_content env source) target mode (h @ [OpenSource source]) = (e, h')"
    using assms(5) by (simp add: copy_file_def)
  from place_file_adds [OF assms(1-3) this] show ?thesis
    by (rule adds_more [rotated]) (use assms(4) in \<open>simp add: tame_def\<close>)
next
  case (Some err)
  then show ?thesis using assms(4,5) by (auto simp: copy_file_def tame_def)
qed

lemma entries_adds:
  assumes "\<forall>(name, _) \<in> set es. \<forall>h e h'.
      walk_tree env source mode n anc (path_join start name) (path_join to name) h = Some (e, h') \<longrightarrow> adds ok h h'"
    and "walk_entries env source mode n anc start to es h = Some (e, h')"
  shows "adds ok h h'"
  using assms
proof (induction es arbitrary: h)
  case (Cons x es)
  obtain name directory where x: "x = (name, directory)" by (cases x)
  have rest: "walk_entries env source mode n anc start to es k = Some (e, h') \<Longrightarrow> adds ok k h'" for k
    using Cons.IH Cons.prems(1) by simp
  have first: "walk_tree env source mode n anc (path_join start name) (path_join to name) h = Some (e1, h1) \<Longrightarrow>
      adds ok h h1" for e1 h1
    using Cons.prems(1) x by fastforce
  show ?case
    using Cons.prems(2) x rest first
    by (auto split: if_splits option.splits intro: adds_trans)
qed simp

lemma walk_adds:
  assumes env: "plain_tree env" "is_abs source" "is_abs base"
    and "path_within source start" and "path_below base to"
    and "walk_tree env source mode fuel anc start to h = Some (e, h')"
  shows "adds (tame (path_within source) base) h h'"
  using assms(4-6)
proof (induction fuel arbitrary: anc start to h e h')
  case (Suc n)
  let ?ok = "tame (path_within source) base"
  have ok: "?ok (Lstat start)" "?ok (ResolveLink start)" "?ok (ListDir start)" "?ok (MakeDirs to)"
    using Suc.prems(1,2) path_below_within [OF env(3)] by (simp_all add: tame_def)
  have link: "adds ?ok k h'"
    if "path_within source p" "walk_tree env source mode n (p # anc) p to k = Some (e, h')" for p k
    using Suc.IH [OF that(1) Suc.prems(2) that(2)] .
  have entries: "adds ?ok k h'"
    if "be_entries env start = Inr es" "walk_entries env source mode n anc start to es k = Some (e, h')" for es k
  proof (rule entries_adds [OF _ that(2)], clarify)
    fix name d k' e' k''
    assume "(name, d) \<in> set es"
      and walk: "walk_tree env source mode n anc (path_join start name) (path_join to name) k' = Some (e', k'')"
    then have name: "confined name" using env(1) that(1) plain_confined by (fastforce simp: plain_tree_def)
    show "adds ?ok k' k''"
      by (rule Suc.IH [OF path_within_join [OF env(2) Suc.prems(1) name]
            path_below_join_below [OF Suc.prems(2) name] walk])
  qed
  have copy: "adds ?ok k h'" if "copy_file env start to m k = (e, h')" for m k
    by (rule copy_file_adds [OF env(3) Suc.prems(2) env(1) _ that]) (rule Suc.prems(1))
  show ?case
  proof (cases "be_ctx env h")
    case (Some err)
    then show ?thesis using Suc.prems(3) by simp
  next
    case None
    show ?thesis
    proof (cases "be_lstat env start")
      case (Inl err)
      then show ?thesis using Suc.prems(3) None ok(1) by (auto simp: Let_def)
    next
      case (Inr kind)
      show ?thesis
      proof (cases kind)
        case (KRegular perm)
        then have "copy_file env start to (file_mode mode perm) (h @ [Lstat start]) = (e, h')"
          using Suc.prems(3) None Inr by (simp add: Let_def)
        from copy [OF this] show ?thesis by (rule adds_more [of ?ok, OF ok(1)])
      next
        case KSymlink
        then show ?thesis
          using Suc.prems(3) None Inr ok(1,2) link [of _ "h @ [Lstat start, ResolveLink start]"]
            adds_trans [of ?ok h "h @ [Lstat start, ResolveLink start]" h']
          by (auto simp: Let_def split: sum.splits if_splits)
      next
        case KDirectory
        then show ?thesis
          using Suc.prems(3) None Inr ok entries [of _ "h @ [Lstat start, MakeDirs to, ListDir start]"]
            adds_trans [of ?ok h "h @ [Lstat start, MakeDirs to, ListDir start]" h']
          by (auto simp: Let_def did_def split: sum.splits option.splits)
      qed (use Suc.prems(3) None Inr ok(1) in \<open>auto simp: Let_def\<close>)
    qed
  qed
qed simp

section \<open>Where a plan puts what it copies\<close>

lemma confined_elems:
  assumes "confined n"
  shows "path_elems n = split_on slash n" "path_clean n = n"
  using assms confined_props(2) [OF assms] clean_elems_plain [of "split_on slash n" False "[]"]
  by (simp_all add: path_elems_def path_clean_def confined_def)

lemma path_base_cases: "path_base s = ''.'' \<or> path_base s = ''..'' \<or> path_base s = ''/'' \<or> plain_elem (path_base s)"
proof (cases "s = [] \<or> filter (\<lambda>e. e \<noteq> []) (split_on slash s) = []")
  case True
  then show ?thesis by (auto simp: path_base_def)
next
  case False
  define es where "es = filter (\<lambda>e. e \<noteq> []) (split_on slash s)"
  have "path_base s = last es" using False by (simp add: path_base_def es_def split: list.split)
  moreover have "last es \<in> set es" using False unfolding es_def by (intro last_in_set) blast
  moreover have "\<forall>e \<in> set es. e \<in> set (split_on slash s) \<and> e \<noteq> []" by (simp add: es_def)
  ultimately have "path_base s \<in> set (split_on slash s)" "path_base s \<noteq> []" by metis+
  then show ?thesis using split_on_no_sep [of slash s] by (auto simp: plain_elem_def)
qed

lemma dec_nat_plain: "plain_elem (dec_nat i)"
proof -
  obtain v where v: "digits_value 10 0 (dec_nat i) = Some v" using digits_dec_nat by blast
  obtain c s where "dec_nat i = c # s" "(48::nat) \<le> of_char c" using dec_nat_head by blast
  moreover have "slash \<notin> set (dec_nat i)"
  proof (induction i rule: dec_nat.induct)
    case (1 n)
    have digit: "slash \<notin> set [char_of (48 + d)]" if "d < 10" for d :: nat
    proof
      assume "slash \<in> set [char_of (48 + d)]"
      then have "48 + d = of_char slash" using digit_char [OF that] by simp
      then show False by simp
    qed
    show ?case
    proof (cases "n < 10")
      case True
      then show ?thesis using digit [of n] by (subst dec_nat.simps) (simp only: if_True not_False_eq_True)
    next
      case False
      then have "dec_nat n = dec_nat (n div 10) @ [char_of (48 + n mod 10)]"
        by (subst dec_nat.simps) (simp only: if_False)
      then show ?thesis using 1 [OF False] digit [of "n mod 10"] by (simp only: set_append Un_iff) simp
    qed
  qed
  ultimately show ?thesis by (auto simp: plain_elem_def)
qed

lemma context_path_confined:
  assumes area: "plain_elem area"
    and name: "name = ''.'' \<or> name = ''..'' \<or> name = ''/'' \<or> plain_elem name"
  shows "confined (context_path area i name)"
proof -
  have no_slash: "slash \<notin> set area" "slash \<notin> set (dec_nat i)"
    using area dec_nat_plain [of i] by (simp_all add: plain_elem_def)
  let ?x = "area @ slash # dec_nat i"
  have split: "split_on slash ?x = [area, dec_nat i]"
    using no_slash by (simp add: split_on_join_slash split_on_single)
  then have x: "confined ?x" using area dec_nat_plain [of i] by (simp add: confined_def)
  have ne: "area \<noteq> []" "dec_nat i \<noteq> []" "name \<noteq> []" "?x \<noteq> []"
    using area dec_nat_plain [of i] name by (auto simp: plain_elem_def)
  then have "path_join area (dec_nat i) = ?x"
    using confined_elems(2) [OF x] by (simp add: path_join_def)
  then have eq: "context_path area i name = path_clean (?x @ slash # name)"
    using ne unfolding context_path_def path_join_def by simp
  have abs: "\<not> is_abs (?x @ slash # name)"
    using confined_props(2) [OF x] ne(1) by (cases area) (auto simp: is_abs_def has_prefix_def)
  have elems: "path_elems (?x @ slash # name) =
      clean_elems False [dec_nat i, area] (split_on slash name)"
  proof -
    have "path_elems (?x @ slash # name) = clean_elems False [] ([area, dec_nat i] @ split_on slash name)"
      unfolding path_elems_def split_on_join_slash [of slash ?x] split using abs by simp
    moreover have "clean_elems False [] [area, dec_nat i] = [area, dec_nat i]"
      using clean_elems_plain [of "[area, dec_nat i]" False "[]"] area dec_nat_plain [of i] by simp
    ultimately show ?thesis unfolding clean_elems_append by simp
  qed
  have "path_elems (?x @ slash # name) \<noteq> [] \<and> (\<forall>e \<in> set (path_elems (?x @ slash # name)). plain_elem e)"
    using name
  proof (elim disjE)
    assume "plain_elem name"
    then have "clean_elems False [dec_nat i, area] (split_on slash name) = [area, dec_nat i, name]"
      using clean_elems_plain [of "[name]" False "[dec_nat i, area]"]
      by (simp add: split_on_single plain_elem_def del: clean_elems.simps)
    then show ?thesis using elems area dec_nat_plain [of i] \<open>plain_elem name\<close> by simp
  qed (use elems area dec_nat_plain [of i] in \<open>auto simp: plain_elem_def\<close>)
  then show ?thesis using eq abs by (simp add: path_clean_def confined_join)
qed

definition plan_hosts :: "build_plan \<Rightarrow> string set" where
  "plan_hosts p = ps_host_path ` set (pl_sources p) \<union> pm_host_path ` set (pl_modules p)"

lemma planned:
  assumes "plan_build hst json sha quote m = Inr p"
  shows "\<forall>s \<in> set (pl_sources p). confined (ps_context_path s)"
    "\<forall>s \<in> set (pl_modules p). confined (pm_context_path s)"
    "\<forall>f \<in> plan_hosts p. \<exists>x. ho_eval hst x = Inr f"
proof -
  obtain sources mods where p: "plan_all (plan_source hst m) 0 (co_sources (mn_copy m)) = Inr sources"
      "plan_all (plan_module hst m) 0 (co_modules (mn_copy m)) = Inr mods"
      "pl_sources p = sources" "pl_modules p = mods"
    using assms by (auto simp: plan_build_def Let_def split: if_splits sum.splits)
  have src: "\<exists>i x. plan_source hst m i x = Inr s" if "s \<in> set sources" for s
    using that plan_all_Inr [OF p(1)] by (metis add_0 in_set_conv_nth)
  have md: "\<exists>i x. plan_module hst m i x = Inr s" if "s \<in> set mods" for s
    using that plan_all_Inr [OF p(2)] by (metis add_0 in_set_conv_nth)
  have "plain_elem ''src''" "plain_elem ''modules''" by (simp_all add: plain_elem_def)
  note inside = context_path_confined [OF this(1) path_base_cases] context_path_confined [OF this(2) path_base_cases]
  have srcs: "confined (ps_context_path s) \<and> (\<exists>x. ho_eval hst x = Inr (ps_host_path s))" if s: "s \<in> set sources" for s
  proof -
    obtain i x where "plan_source hst m i x = Inr s" using src [OF s] by blast
    then have "ps_context_path s = context_path ''src'' i (path_base (sc_from x))"
      "ho_eval hst (path_join (mn_dir m) (sc_from x)) = Inr (ps_host_path s)"
      by (auto simp: plan_source_def split: sum.splits if_splits)
    then show ?thesis using inside by auto
  qed
  have mds: "confined (pm_context_path s) \<and> (\<exists>x. ho_eval hst x = Inr (pm_host_path s))" if s: "s \<in> set mods" for s
  proof -
    obtain i x where "plan_module hst m i x = Inr s" using md [OF s] by blast
    then have "pm_context_path s = context_path ''modules'' i (path_base (pm_host_path s))"
      "ho_eval hst (path_join (mn_dir m) x) = Inr (pm_host_path s)"
      by (auto simp: plan_module_def Let_def split: sum.splits)
    then show ?thesis using inside by auto
  qed
  show "\<forall>s \<in> set (pl_sources p). confined (ps_context_path s)"
    "\<forall>s \<in> set (pl_modules p). confined (pm_context_path s)"
    "\<forall>f \<in> plan_hosts p. \<exists>x. ho_eval hst x = Inr f"
    using srcs mds p(3,4) by (auto simp: plan_hosts_def)
qed

section \<open>Staging stays where it may\<close>

definition read_from :: "string set \<Rightarrow> string \<Rightarrow> bool" where
  "read_from hosts r \<longleftrightarrow> (\<exists>f \<in> hosts. path_within f r)"

lemma staged_path_below:
  "is_abs base \<Longrightarrow> confined relative \<Longrightarrow> staged_path base relative = Inr target \<Longrightarrow> path_below base target"
  using path_below_join [of base relative] by (auto simp: staged_path_def Let_def split: if_splits)

lemma tame_mono: "tame readable base c \<Longrightarrow> (\<And>r. readable r \<Longrightarrow> readable' r) \<Longrightarrow> tame readable' base c"
  by (auto simp: tame_def)

lemma copy_tree_adds:
  assumes "plain_tree env" and "is_abs base" and "is_abs f" and "f \<in> hosts" and "path_below base target"
    and "copy_tree env fuel f target mode h = Some (e, h')"
  shows "adds (tame (read_from hosts) base) h h'"
proof (rule adds_mono)
  show "adds (tame (path_within f) base) h h'"
    using walk_adds [OF assms(1,3,2) path_within_refl [OF assms(3)] assms(5)] assms(6)
    by (simp add: copy_tree_def)
qed (use assms(4) in \<open>auto simp: read_from_def elim!: tame_mono\<close>)

lemma write_staged_adds:
  assumes "plain_tree env" and "is_abs base" and "confined relative"
    and "write_staged env base relative payload mode h = (e, h')"
  shows "adds (tame readable base) h h'"
  using assms(4) staged_path_below [OF assms(2,3)] place_file_adds [OF assms(2) _ assms(1)]
  by (auto simp: write_staged_def split: sum.splits)

lemma stage_sources_adds:
  assumes env: "plain_tree env" "is_abs base"
    and "\<forall>s \<in> set ss. confined (ps_context_path s) \<and> is_abs (ps_host_path s) \<and> ps_host_path s \<in> hosts"
    and "stage_sources env fuel base i ss h = Some (e, h')"
  shows "adds (tame (read_from hosts) base) h h'"
  using assms(3,4)
proof (induction ss arbitrary: i h)
  case (Cons s ss)
  let ?ok = "tame (read_from hosts) base"
  show ?case
  proof (cases "be_ctx env h")
    case (Some err)
    then show ?thesis using Cons.prems(2) by simp
  next
    case None
    show ?thesis
    proof (cases "staged_path base (ps_context_path s)")
      case (Inl err)
      then show ?thesis using Cons.prems(2) None by simp
    next
      case (Inr target)
      have below: "path_below base target" using staged_path_below [OF env(2) _ Inr] Cons.prems(1) by simp
      define first where "first = (if ps_directory s then copy_tree env fuel (ps_host_path s) target (ps_mode s) h
        else Some (copy_file env (ps_host_path s) target (if ps_mode s \<noteq> 0 then ps_mode s else 420) h))"
      have step: "adds ?ok h k" if "first = Some (r, k)" for r k
      proof (cases "ps_directory s")
        case True
        then show ?thesis
          using copy_tree_adds [OF env _ _ below, of "ps_host_path s" hosts] that Cons.prems(1)
          by (simp add: first_def)
      next
        case False
        have "read_from hosts (ps_host_path s)"
          using Cons.prems(1) path_within_refl by (auto simp: read_from_def)
        moreover have "copy_file env (ps_host_path s) target (if ps_mode s \<noteq> 0 then ps_mode s else 420) h = (r, k)"
          using that False by (simp only: first_def if_False option.inject)
        ultimately show ?thesis using copy_file_adds [OF env(2) below env(1)] by blast
      qed
      have "stage_sources env fuel base i (s # ss) h =
          (case first of None \<Rightarrow> None
           | Some (Some err, h1) \<Rightarrow> Some (Some (indexed ''copy.sources'' i @ ''.from: '' @ err), h1)
           | Some (None, h1) \<Rightarrow> stage_sources env fuel base (Suc i) ss h1)"
        unfolding first_def stage_sources.simps None Inr option.case sum.case ..
      then show ?thesis
        using Cons step by (auto split: option.splits intro: adds_trans)
    qed
  qed
qed simp

lemma stage_modules_adds:
  assumes env: "plain_tree env" "is_abs base"
    and "\<forall>m \<in> set ms. confined (pm_context_path m) \<and> is_abs (pm_host_path m) \<and> pm_host_path m \<in> hosts"
    and "stage_modules env fuel base i ms h = Some (e, h')"
  shows "adds (tame (read_from hosts) base) h h'"
  using assms(3,4)
proof (induction ms arbitrary: i h)
  case (Cons m ms)
  have rest: "stage_modules env fuel base j ms k = Some (e, h') \<Longrightarrow> adds (tame (read_from hosts) base) k h'" for j k
    using Cons by simp
  have step: "staged_path base (pm_context_path m) = Inr target \<Longrightarrow>
      copy_tree env fuel (pm_host_path m) target 0 h = Some (r, k) \<Longrightarrow>
      adds (tame (read_from hosts) base) h k" for target r k
    using copy_tree_adds [OF env _ _ staged_path_below [OF env(2)]] Cons.prems(1) by (metis list.set_intros(1))
  show ?case
    using Cons.prems(2) rest step
    by (auto split: option.splits sum.splits) (blast intro: adds_trans)+
qed simp

lemma stage_adds:
  assumes "plain_tree env"
    and "\<forall>s \<in> set (pl_sources p). confined (ps_context_path s)"
    and "\<forall>m \<in> set (pl_modules p). confined (pm_context_path m)"
    and "\<forall>f \<in> plan_hosts p. is_abs f"
    and "stage env fuel p dir h = Some (e, h')"
  shows "adds (tame (read_from (plan_hosts p)) (path_clean dir)) h h'"
proof (cases "trim_space dir = [] \<or> \<not> is_abs dir")
  case True
  then show ?thesis using assms(5) by (auto simp: stage_def)
next
  case False
  define base where "base = path_clean dir"
  let ?ok = "tame (read_from (plan_hosts p)) base"
  have abs: "is_abs base" using False by (simp add: base_def)
  have made: "?ok (MakeDirs base)" using path_within_refl [OF abs] by (simp add: tame_def)
  have names: "confined containerfile_name" "confined manifest_copy_name"
    by (simp_all add: containerfile_name_def manifest_copy_name_def confined_single)
  have gen: "adds ?ok k k'" if "stage_generated env p base k = (r, k')" for k r k'
    using that write_staged_adds [OF assms(1) abs names(1)] write_staged_adds [OF assms(1) abs names(2)]
    by (auto simp: stage_generated_def split: prod.splits option.splits if_splits) (blast intro: adds_trans)+
  have srcs: "adds ?ok k k'" if "stage_sources env fuel base 0 (pl_sources p) k = Some (r, k')" for k r k'
    by (rule stage_sources_adds [OF assms(1) abs _ that]) (use assms(2,4) in \<open>auto simp: plan_hosts_def\<close>)
  have mods: "adds ?ok k k'" if "stage_modules env fuel base 0 (pl_modules p) k = Some (r, k')" for k r k'
    by (rule stage_modules_adds [OF assms(1) abs _ that]) (use assms(3,4) in \<open>auto simp: plan_hosts_def\<close>)
  obtain r1 k1 where g: "stage_generated env p base (h @ [MakeDirs base]) = (r1, k1)" by fastforce
  have start: "adds ?ok h k1" by (rule adds_more [of ?ok, OF made gen [OF g]])
  have "adds ?ok h h'"
    using assms(5) False made g start srcs mods
    by (auto simp: stage_def did_def Let_def base_def [symmetric] simp del: append_Cons
        split: option.splits prod.splits) (blast intro: adds_trans)+
  then show ?thesis by (simp add: base_def)
qed

section \<open>What a copied tree consists of\<close>

text \<open>
  \<open>staged_at env f0 t0 f t\<close>: copying \<open>f0\<close> to \<open>t0\<close> comes to \<open>f\<close> and copies it to \<open>t\<close>. Entries
  are followed except directories named \<open>.git\<close>, links to wherever they resolve.
\<close>

inductive staged_at :: "build_env \<Rightarrow> string \<Rightarrow> string \<Rightarrow> string \<Rightarrow> string \<Rightarrow> bool" for env where
  here: "staged_at env f t f t"
| entry: "be_lstat env f0 = Inr KDirectory \<Longrightarrow> be_entries env f0 = Inr es \<Longrightarrow> (name, d) \<in> set es \<Longrightarrow>
    \<not> (d \<and> name = git_name) \<Longrightarrow> staged_at env (path_join f0 name) (path_join t0 name) f t \<Longrightarrow>
    staged_at env f0 t0 f t"
| link: "be_lstat env f0 = Inr KSymlink \<Longrightarrow> be_resolve env f0 = Inr r \<Longrightarrow> staged_at env r t0 f t \<Longrightarrow>
    staged_at env f0 t0 f t"

inductive_simps staged_at_start: "staged_at env f0 t0 f t"

definition regular_file :: "build_env \<Rightarrow> string \<Rightarrow> bool" where
  "regular_file env f \<longleftrightarrow> (\<exists>perm. be_lstat env f = Inr (KRegular perm))"

text \<open>The copies a sequence of calls completed: the source, the target and the bytes published.\<close>

fun copies :: "string option \<Rightarrow> string \<Rightarrow> calls \<Rightarrow> (string \<times> string \<times> string) list" where
  "copies q b [] = []"
| "copies q b (OpenSource f # cs) = copies (Some f) b cs"
| "copies q b (WriteTemp n x # cs) = copies q x cs"
| "copies q b (Publish n t # cs) = (case q of Some f \<Rightarrow> (f, t, b) # copies None [] cs | None \<Rightarrow> copies None [] cs)"
| "copies q b (_ # cs) = copies q b cs"

text \<open>A piece of the sequence that begins and ends between two copies.\<close>

definition yields :: "calls \<Rightarrow> (string \<times> string \<times> string) list \<Rightarrow> bool" where
  "yields g cs \<longleftrightarrow> (\<forall>rest. copies None [] (g @ rest) = cs @ copies None [] rest)"

definition copied :: "build_env \<Rightarrow> string \<Rightarrow> string \<Rightarrow> (string \<times> string \<times> string) set" where
  "copied env f0 t0 = {(f, t, b). staged_at env f0 t0 f t \<and> regular_file env f \<and> b = fst (be_content env f)}"

definition completes ::
  "build_env \<Rightarrow> calls \<Rightarrow> calls \<Rightarrow> (string \<times> string \<times> string) set \<Rightarrow> bool" where
  "completes env h h' C \<longleftrightarrow>
     (\<exists>g cs. h' = h @ g \<and> yields g cs \<and> set cs = C \<and> (\<forall>(f, t, b) \<in> C. be_content env f = (b, None)))"

lemma completes_empty: "(\<And>rest. copies None [] (g @ rest) = copies None [] rest) \<Longrightarrow> completes env h (h @ g) {}"
  by (auto simp: completes_def yields_def)

lemma completes_trans: "completes env h1 h2 C \<Longrightarrow> completes env h2 h3 D \<Longrightarrow> completes env h1 h3 (C \<union> D)"
proof -
  assume "completes env h1 h2 C" "completes env h2 h3 D"
  then obtain g1 c1 g2 c2 where
      "h2 = h1 @ g1" "yields g1 c1" "set c1 = C" "\<forall>(f, t, b) \<in> C. be_content env f = (b, None)"
      "h3 = h2 @ g2" "yields g2 c2" "set c2 = D" "\<forall>(f, t, b) \<in> D. be_content env f = (b, None)"
    unfolding completes_def by blast
  then show ?thesis
    unfolding completes_def yields_def by (intro exI [of _ "g1 @ g2"] exI [of _ "c1 @ c2"]) auto
qed

lemma place_file_done:
  assumes "place_file env bytes target mode h = (None, h')"
  shows "\<exists>name. snd bytes = None \<and> h' = h @ [MakeDirs (path_dir target), MakeTemp (path_dir target),
    WriteTemp name (fst bytes), ChmodTemp name (chmod_bits mode), CloseTemp name, Publish name target]"
  using assms by (auto simp: place_file_def publish_temp_def did_def split: option.splits if_splits)

lemma copy_file_done:
  assumes "copy_file env f t mode h = (None, h')"
  shows "completes env h h' {(f, t, fst (be_content env f))}"
proof -
  have "place_file env (be_content env f) t mode (h @ [OpenSource f]) = (None, h')"
    using assms by (auto simp: copy_file_def Let_def split: option.splits)
  from place_file_done [OF this] obtain name where
    n: "snd (be_content env f) = None" "h' = h @ [OpenSource f, MakeDirs (path_dir t), MakeTemp (path_dir t),
      WriteTemp name (fst (be_content env f)), ChmodTemp name (chmod_bits mode), CloseTemp name,
      Publish name t]"
    by auto
  then show ?thesis
    unfolding completes_def yields_def
    by (auto simp: prod_eq_iff intro!: exI [of _ "[(f, t, fst (be_content env f))]"])
qed

lemma entries_done:
  assumes "\<forall>(name, _) \<in> set es. \<forall>h h'.
      walk_tree env source mode n anc (path_join f name) (path_join t name) h = Some (None, h') \<longrightarrow>
      completes env h h' (copied env (path_join f name) (path_join t name))"
    and "walk_entries env source mode n anc f t es h = Some (None, h')"
  shows "completes env h h' (\<Union>(name, d) \<in> {x \<in> set es. \<not> (snd x \<and> fst x = git_name)}.
    copied env (path_join f name) (path_join t name))"
  using assms
proof (induction es arbitrary: h)
  case Nil
  then show ?case using completes_empty [of "[]" env h] by simp
next
  case (Cons x es)
  obtain name d where x: "x = (name, d)" by (cases x)
  let ?C = "\<lambda>xs. \<Union>(name, d) \<in> {x \<in> set xs. \<not> (snd x \<and> fst x = git_name)}.
    copied env (path_join f name) (path_join t name)"
  show ?case
  proof (cases "d \<and> name = git_name")
    case True
    then have "{y \<in> set (x # es). \<not> (snd y \<and> fst y = git_name)} = {y \<in> set es. \<not> (snd y \<and> fst y = git_name)}"
      using x by auto
    moreover have "walk_entries env source mode n anc f t es h = Some (None, h')"
      using Cons.prems(2) x True by simp
    ultimately show ?thesis using Cons.IH Cons.prems(1) by simp
  next
    case False
    then obtain h1 where w: "walk_tree env source mode n anc (path_join f name) (path_join t name) h = Some (None, h1)"
        "walk_entries env source mode n anc f t es h1 = Some (None, h')"
      using Cons.prems(2) x by (auto split: option.splits)
    have "completes env h h1 (copied env (path_join f name) (path_join t name))"
      using Cons.prems(1) x w(1) by fastforce
    moreover have "completes env h1 h' (?C es)" using Cons.IH [OF _ w(2)] Cons.prems(1) by simp
    ultimately have "completes env h h' (copied env (path_join f name) (path_join t name) \<union> ?C es)"
      by (rule completes_trans)
    moreover have "{y \<in> set (x # es). \<not> (snd y \<and> fst y = git_name)} =
        insert (name, d) {y \<in> set es. \<not> (snd y \<and> fst y = git_name)}"
      using x False by auto
    ultimately show ?thesis by simp
  qed
qed

lemma copied_start:
  "be_lstat env f = Inr (KRegular perm) \<Longrightarrow>
     copied env f t = {(f, t, fst (be_content env f))}"
  "be_lstat env f = Inr KSymlink \<Longrightarrow> be_resolve env f = Inr r \<Longrightarrow> copied env f t = copied env r t"
  "be_lstat env f = Inr KDirectory \<Longrightarrow> be_entries env f = Inr es \<Longrightarrow>
     copied env f t = (\<Union>(name, d) \<in> {x \<in> set es. \<not> (snd x \<and> fst x = git_name)}.
       copied env (path_join f name) (path_join t name))"
proof -
  show "copied env f t = {(f, t, fst (be_content env f))}"
    if "be_lstat env f = Inr (KRegular perm)"
    using that by (auto simp: copied_def staged_at_start [of env f] regular_file_def)
  show "copied env f t = copied env r t"
    if "be_lstat env f = Inr KSymlink" "be_resolve env f = Inr r"
    using that by (auto simp: copied_def regular_file_def staged_at_start [of env f])
  show "copied env f t = (\<Union>(name, d) \<in> {x \<in> set es. \<not> (snd x \<and> fst x = git_name)}.
       copied env (path_join f name) (path_join t name))"
    if "be_lstat env f = Inr KDirectory" "be_entries env f = Inr es"
    using that by (fastforce simp: copied_def regular_file_def staged_at_start [of env f t])
qed

lemma walk_done:
  "walk_tree env source mode fuel anc f t h = Some (None, h') \<Longrightarrow> completes env h h' (copied env f t)"
proof (induction fuel arbitrary: anc f t h h')
  case (Suc n)
  have ctx: "be_ctx env h = None" using Suc.prems by (auto split: option.splits)
  obtain kind where kind: "be_lstat env f = Inr kind" using Suc.prems ctx by (auto simp: Let_def split: sum.splits)
  show ?case
  proof (cases kind)
    case (KRegular perm)
    then have "copy_file env f t (file_mode mode perm) (h @ [Lstat f]) = (None, h')"
      using Suc.prems ctx kind by (simp add: Let_def)
    from copy_file_done [OF this] have "completes env (h @ [Lstat f]) h' (copied env f t)"
      using copied_start(1) kind KRegular by simp
    with completes_empty [of "[Lstat f]" env h] show ?thesis using completes_trans by fastforce
  next
    case KSymlink
    then obtain r where r: "be_resolve env f = Inr r"
        "walk_tree env source mode n (r # anc) r t (h @ [Lstat f, ResolveLink f]) = Some (None, h')"
      using Suc.prems ctx kind by (auto simp: Let_def split: sum.splits if_splits)
    have "completes env (h @ [Lstat f, ResolveLink f]) h' (copied env f t)"
      using Suc.IH [OF r(2)] copied_start(2) kind KSymlink r(1) by simp
    with completes_empty [of "[Lstat f, ResolveLink f]" env h] show ?thesis using completes_trans by fastforce
  next
    case KDirectory
    then obtain es where es: "be_entries env f = Inr es"
        "walk_entries env source mode n anc f t es (h @ [Lstat f, MakeDirs t, ListDir f]) = Some (None, h')"
      using Suc.prems ctx kind by (auto simp: Let_def did_def split: sum.splits option.splits)
    have "completes env (h @ [Lstat f, MakeDirs t, ListDir f]) h' (copied env f t)"
      unfolding copied_start(3) [OF kind [unfolded KDirectory] es(1)]
      by (rule entries_done [OF _ es(2)]) (use Suc.IH in blast)
    with completes_empty [of "[Lstat f, MakeDirs t, ListDir f]" env h] show ?thesis using completes_trans by fastforce
  qed (use Suc.prems ctx kind in \<open>auto simp: Let_def\<close>)
qed simp

lemma stage_all_return:
  assumes "\<And>source target mode h. \<exists>r. copy_tree env fuel source target mode h = Some r"
  shows "\<exists>r. stage_sources env fuel base i ss h = Some r"
    and "\<exists>r. stage_modules env fuel base i ms h = Some r"
proof -
  show "\<exists>r. stage_sources env fuel base i ss h = Some r"
  proof (induction ss arbitrary: i h)
    case (Cons s ss)
    show ?case
    proof (cases "be_ctx env h = None \<and> (\<exists>t. staged_path base (ps_context_path s) = Inr t)")
      case True
      then obtain target where t: "be_ctx env h = None" "staged_path base (ps_context_path s) = Inr target" by blast
      have "\<exists>e k. (if ps_directory s then copy_tree env fuel (ps_host_path s) target (ps_mode s) h
          else Some (copy_file env (ps_host_path s) target (if ps_mode s \<noteq> 0 then ps_mode s else 420) h)) =
          Some (e, k)"
        using assms by (metis surj_pair)
      then obtain e k where "(if ps_directory s then copy_tree env fuel (ps_host_path s) target (ps_mode s) h
          else Some (copy_file env (ps_host_path s) target (if ps_mode s \<noteq> 0 then ps_mode s else 420) h)) =
          Some (e, k)" by blast
      then have "stage_sources env fuel base i (s # ss) h =
          (case e of Some err \<Rightarrow> Some (Some (indexed ''copy.sources'' i @ ''.from: '' @ err), k)
           | None \<Rightarrow> stage_sources env fuel base (Suc i) ss k)"
        unfolding stage_sources.simps t option.case sum.case by (simp only: option.case prod.case split: option.split)
      then show ?thesis using Cons.IH by (simp split: option.split)
    next
      case False
      then show ?thesis by (auto split: option.split sum.split)
    qed
  qed simp
  show "\<exists>r. stage_modules env fuel base i ms h = Some r"
  proof (induction ms arbitrary: i h)
    case (Cons m ms)
    show ?case
    proof (cases "be_ctx env h = None \<and> (\<exists>t. staged_path base (pm_context_path m) = Inr t)")
      case True
      then obtain target where "be_ctx env h = None" "staged_path base (pm_context_path m) = Inr target" by blast
      moreover obtain e k where "copy_tree env fuel (pm_host_path m) target 0 h = Some (e, k)"
        using assms by (metis surj_pair)
      ultimately show ?thesis using Cons.IH by (simp split: option.split)
    next
      case False
      then show ?thesis by (auto split: option.split sum.split)
    qed
  qed simp
qed

section \<open>Properties\<close>

text \<open>
  C34. A build ends: when the directories have bounded depth and the links lead to finitely
  many places, the recursion of a copy is at most (places + 1) times (depth + 1) deep,
  cycles of links included, so staging and building return a result or an error.
\<close>

theorem build_ends:
  assumes "bounded_tree env places rank depth" and "Suc (card places) * Suc depth \<le> fuel"
  shows "\<exists>r. build env fuel engine p dir = Some r"
proof -
  have copy: "\<exists>r. copy_tree env fuel source target mode h = Some r" for source target mode h
  proof -
    have "rank source \<le> depth" using assms(1) by (simp add: bounded_tree_def)
    then have "walk_need places rank depth [] source < fuel" using assms(2) by (simp add: walk_need_def)
    then show ?thesis unfolding copy_tree_def by (rule walk_returns [OF assms(1)])
  qed
  have "\<exists>r. stage env fuel p dir h = Some r" for h
    using stage_all_return [OF copy] by (simp add: stage_def Let_def split: prod.split option.split) (metis not_None_eq)
  then obtain e h where "stage env fuel p dir [] = Some (e, h)" by (metis surj_pair)
  then show ?thesis by (auto simp: build_def Let_def split: option.split prod.split sum.split)
qed


text \<open>
  C33. A copy of a tree that succeeds is exact: the files it published are the regular files
  the tree leads to, through links and except directories named \<open>.git\<close>, each at its place
  below the target and with the bytes that were read of it to the end.
\<close>

theorem copy_tree_exact:
  assumes "copy_tree env fuel source target mode h = Some (None, h')"
  shows "\<exists>g. h' = h @ g \<and>
    set (copies None [] g) =
      {(f, t, b). staged_at env source target f t \<and> regular_file env f \<and> be_content env f = (b, None)} \<and>
    (\<forall>f t. staged_at env source target f t \<longrightarrow> regular_file env f \<longrightarrow> snd (be_content env f) = None)"
proof -
  have "completes env h h' (copied env source target)"
    using assms walk_done by (simp add: copy_tree_def)
  then obtain g cs where g: "h' = h @ g" "yields g cs" "set cs = copied env source target"
      "\<forall>(f, t, b) \<in> copied env source target. be_content env f = (b, None)"
    by (auto simp: completes_def)
  have "copies None [] g = cs" using g(2) unfolding yields_def by (metis append_Nil2 copies.simps(1))
  then have all: "set (copies None [] g) = copied env source target" using g(3) by simp
  have read: "be_content env f = (fst (be_content env f), None)"
    if "staged_at env source target f t" "regular_file env f" for f t
    using g(4) that by (auto simp: copied_def prod_eq_iff)
  have "copied env source target =
      {(f, t, b). staged_at env source target f t \<and> regular_file env f \<and> be_content env f = (b, None)}"
    unfolding copied_def using read by (auto simp: prod_eq_iff)
  then show ?thesis using g(1) all read by (metis snd_conv)
qed

section \<open>Witnesses\<close>

definition demo_tree :: build_env where
  "demo_tree =
     \<lparr>be_ctx = \<lambda>_. None,
      be_lstat = \<lambda>p. case map_of [(''/w/bin'', KDirectory), (''/w/bin/a'', KRegular 420), (''/w/bin/x'', KSymlink),
        (''/w/bin/.git'', KDirectory), (''/w/bin/.git/config'', KRegular 420), (''/w/bin/k'', KDirectory),
        (''/w/bin/k/id_rsa'', KRegular 384)] p of None \<Rightarrow> Inl ''no such file'' | Some k \<Rightarrow> Inr k,
      be_resolve = \<lambda>p. if p = ''/w/bin/x'' then Inr ''/w/bin/.git'' else Inl ''invalid argument'',
      be_entries = \<lambda>p. case map_of
        [(''/w/bin'', [(''.git'', True), (''a'', False), (''k'', True), (''x'', False)]),
         (''/w/bin/.git'', [(''config'', False)]), (''/w/bin/k'', [(''id_rsa'', False)])] p of
        None \<Rightarrow> Inl ''not a directory'' | Some es \<Rightarrow> Inr es,
      be_open = \<lambda>_. None,
      be_content = \<lambda>p. (''data'', None),
      be_fault = \<lambda>_ _. None,
      be_random = \<lambda>_. ''7''\<rparr>"

definition demo_rank :: "string \<Rightarrow> nat" where
  "demo_rank p = (if p = ''/w/bin'' then 2 else if p = ''/w/bin/.git'' \<or> p = ''/w/bin/k'' then 1 else 0)"

lemma demo_joins:
  "path_join ''/w/bin'' ''.git'' = ''/w/bin/.git''" "path_join ''/w/bin'' ''a'' = ''/w/bin/a''"
  "path_join ''/w/bin'' ''k'' = ''/w/bin/k''" "path_join ''/w/bin'' ''x'' = ''/w/bin/x''"
  "path_join ''/w/bin/.git'' ''config'' = ''/w/bin/.git/config''" "path_join ''/w/bin/k'' ''id_rsa'' = ''/w/bin/k/id_rsa''"
  by code_simp+

lemma demo_bounded: "bounded_tree demo_tree {''/w/bin/.git''} demo_rank 2"
proof -
  have "rank_ok" if "rank_ok = (\<forall>p es. be_lstat demo_tree p = Inr KDirectory \<longrightarrow> be_entries demo_tree p = Inr es \<longrightarrow>
        (\<forall>(name, _) \<in> set es. demo_rank (path_join p name) < demo_rank p))" for rank_ok
    unfolding that
    by (auto simp: demo_tree_def demo_joins split: if_splits) (simp_all add: demo_rank_def)
  then show ?thesis
    unfolding bounded_tree_def by (auto simp: demo_tree_def demo_rank_def split: if_splits)
qed

lemma demo_plain: "plain_tree demo_tree"
  by (auto simp: plain_tree_def demo_tree_def plain_elem_def split: if_splits)

definition careful_host :: host where
  "careful_host = demo_host\<lparr>ho_eval := \<lambda>p. if is_abs p then Inr p else Inl DoesNotExist\<rparr>"

text \<open>A build of the accepted manifest with an engine that builds.\<close>

definition demo_engine :: build_engine where
  "demo_engine = \<lparr>en_image_id = \<lambda>_. Inr ''id'', en_build = \<lambda>_. (Inr ''id'', ''ok'')\<rparr>"

definition demo_plan :: build_plan where
  "demo_plan = projr (plan_build careful_host (\<lambda>_. None) id id demo_manifest)"

lemma demo_planned: "plan_build careful_host (\<lambda>_. None) id id demo_manifest = Inr demo_plan"
proof -
  have "isl (plan_build careful_host (\<lambda>_. None) id id demo_manifest) = False" by code_simp
  then show ?thesis by (simp add: demo_plan_def)
qed

lemma demo_staged: "map_option fst (stage demo_tree 6 demo_plan ''/s'' []) = Some None"
  by code_simp

theorem build_ends_witness: "\<exists>r. build demo_tree 6 (Some demo_engine) demo_plan ''/s'' = Some r"
  using build_ends [OF demo_bounded, of 6 "Some demo_engine" demo_plan "''/s''"] by simp


lemma demo_copy: "map_option fst (copy_tree demo_tree 6 ''/w/bin'' ''/s/src/0/bin'' 0 []) = Some None"
  by code_simp

theorem copy_tree_exact_witness:
  "\<exists>h. copy_tree demo_tree 6 ''/w/bin'' ''/s/src/0/bin'' 0 [] = Some (None, h) \<and>
     set (copies None [] h) =
       {(f, t, b). staged_at demo_tree ''/w/bin'' ''/s/src/0/bin'' f t \<and> regular_file demo_tree f \<and>
          be_content demo_tree f = (b, None)}"
proof -
  obtain h where h: "copy_tree demo_tree 6 ''/w/bin'' ''/s/src/0/bin'' 0 [] = Some (None, h)"
    using demo_copy by auto
  show ?thesis using h copy_tree_exact [OF h] by (intro exI [of _ h]) simp
qed

text \<open>
  Two things a tree copy lets through: a directory named \<open>.git\<close> that a link leads to, and the
  names a declared source may not have, which nothing checks inside a tree.
\<close>

lemma demo_copies:
  "copies None [] (snd (the (copy_tree demo_tree 6 ''/w/bin'' ''/s/src/0/bin'' 0 []))) =
     [(''/w/bin/a'', ''/s/src/0/bin/a'', ''data''), (''/w/bin/k/id_rsa'', ''/s/src/0/bin/k/id_rsa'', ''data''),
      (''/w/bin/.git/config'', ''/s/src/0/bin/x/config'', ''data'')]"
  by code_simp

lemma git_link_copied:
  "fst (the (copy_tree demo_tree 6 ''/w/bin'' ''/s/src/0/bin'' 0 [])) = None \<and>
   (''/w/bin/.git/config'', ''/s/src/0/bin/x/config'', ''data'') \<in>
     set (copies None [] (snd (the (copy_tree demo_tree 6 ''/w/bin'' ''/s/src/0/bin'' 0 []))))"
  using demo_copy unfolding demo_copies by auto

lemma tree_credentials_copied:
  "credential ''bin/k/id_rsa'' \<noteq> None \<and>
   (''/w/bin/k/id_rsa'', ''/s/src/0/bin/k/id_rsa'', ''data'') \<in>
     set (copies None [] (snd (the (copy_tree demo_tree 6 ''/w/bin'' ''/s/src/0/bin'' 0 []))))"
  unfolding demo_copies by code_simp

text \<open>
  A source whose path ends in \<open>..\<close> is put at \<open>src\<close> itself, where the other sources are, so its
  \<open>COPY\<close> carries them too.
\<close>

lemma parent_source_merges:
  "context_path ''src'' 0 (path_base ''assets/..'') = ''src''"
  "context_path ''src'' 1 (path_base ''notes'') = ''src/1/notes''"
  by code_simp+

text \<open>The permission bits are all a file keeps of a declared mode: set-user-ID and the sticky bit go.\<close>

lemma special_bits_lost: "chmod_bits 2541 = 493"
  by (simp add: chmod_bits_def)

end
