(* ===== verification/Image_Build.thy ===== *)
theory Image_Build
  imports Image_Stage
begin

text \<open>
  Building an image from a manifest (\<open>internal/session/image.go\<close>): load, plan, choose the
  tag and the build context, build, and keep the context of a build that failed. What is
  done to the context directory itself is a list of calls; what the build does inside it is
  that of \<open>build\<close>.
\<close>

datatype context_call = MakeTempContext | UseContext string | RemoveContext string

record image_env =
  ie_host :: host
  ie_toml :: "string \<Rightarrow> string + (image_manifest \<times> string list)"
  ie_json :: "string list \<Rightarrow> string option"
  ie_sha :: "string \<Rightarrow> string"
  ie_quote :: "string \<Rightarrow> string"
  ie_build :: build_env
  ie_fuel :: nat
  ie_temp :: "string + string"
  ie_use :: "string \<Rightarrow> string option"

record build_request =
  br_manifest :: string
  br_tag :: string
  br_staging :: string

definition image_failure :: "code \<Rightarrow> string \<Rightarrow> goerr" where
  "image_failure c m = Typed (new_failure c ''image.build'' m)"

text \<open>A failure gains one detail and keeps its code; any other error gains it in its text.\<close>

definition with_detail :: "string \<Rightarrow> string \<Rightarrow> goerr \<Rightarrow> goerr" where
  "with_detail key value err =
     (case err of
        Typed f \<Rightarrow> Typed (f\<lparr>f_details := filter (\<lambda>(k, v). k \<noteq> key) (f_details f) @ [(key, value)]\<rparr>)
      | EngineNotFound t \<Rightarrow> EngineNotFound (t @ '' (the build context is at '' @ value @ '')'')
      | PlainErr t \<Rightarrow> PlainErr (t @ '' (the build context is at '' @ value @ '')''))"

definition choose_tag :: "string \<Rightarrow> build_plan \<Rightarrow> goerr + build_plan" where
  "choose_tag requested p =
     (let tag = trim_space requested in
      if tag = [] then Inr p
      else case validate_tag tag of Some err \<Rightarrow> Inl err | None \<Rightarrow> Inr (p\<lparr>pl_tag := tag\<rparr>))"

definition planned_image :: "image_env \<Rightarrow> build_request \<Rightarrow> goerr + build_plan" where
  "planned_image ie rq =
     (if trim_space (br_manifest rq) = [] then Inl (image_failure UsageError ''a manifest path is required'')
      else
        (case load_manifest (ie_host ie) (ie_toml ie) (br_manifest rq) of
           Inl err \<Rightarrow> Inl err
         | Inr m \<Rightarrow>
             (case plan_build (ie_host ie) (ie_json ie) (ie_sha ie) (ie_quote ie) m of
                Inl err \<Rightarrow> Inl err
              | Inr p \<Rightarrow> choose_tag (br_tag rq) p)))"

definition build_context :: "image_env \<Rightarrow> build_request \<Rightarrow> (goerr + string) \<times> context_call list" where
  "build_context ie rq =
     (let staging = trim_space (br_staging rq) in
      if staging = [] then
        (case ie_temp ie of
           Inl err \<Rightarrow> (Inl (image_failure ImageUnavailable ''cannot create a build context: %v''), [MakeTempContext])
         | Inr dir \<Rightarrow> (Inr dir, [MakeTempContext]))
      else
        (case ie_use ie staging of
           Some err \<Rightarrow>
             (Inl (image_failure ImageUnavailable ''cannot use the build context %s: %v''), [UseContext staging])
         | None \<Rightarrow> (Inr staging, [UseContext staging])))"

text \<open>The result comes with the calls on the context, those inside it and the builds asked for.\<close>

definition build_image ::
  "image_env \<Rightarrow> build_engine option \<Rightarrow> build_request \<Rightarrow>
   ((goerr + build_result) \<times> context_call list \<times> calls \<times> build_spec list) option" where
  "build_image ie engine rq =
     (case planned_image ie rq of
        Inl err \<Rightarrow> Some (Inl err, [], [], [])
      | Inr p \<Rightarrow>
          (case build_context ie rq of
             (Inl err, cs) \<Rightarrow> Some (Inl err, cs, [], [])
           | (Inr dir, cs) \<Rightarrow>
               let temporary = (trim_space (br_staging rq) = []) in
               (case build (ie_build ie) (ie_fuel ie) engine p dir of
                  None \<Rightarrow> None
                | Some (Inl err, h, specs) \<Rightarrow>
                    Some (Inl (if temporary then with_detail ''staging'' dir err else err), cs, h, specs)
                | Some (Inr built, h, specs) \<Rightarrow>
                    Some (Inr built, if temporary then cs @ [RemoveContext dir] else cs, h, specs))))"

section \<open>Facts\<close>

lemma with_detail_code [simp]: "err_code (with_detail k v err) = err_code err"
  by (cases err) (simp_all add: with_detail_def err_code_def)

text \<open>
  The context of a failed build is never removed and neither is a directory the caller named;
  a temporary context goes exactly when its build succeeded.
\<close>

lemma context_kept_on_failure:
  assumes "build_image ie engine rq = Some (r, cs, h, specs)"
  shows "RemoveContext dir \<in> set cs \<longleftrightarrow>
    trim_space (br_staging rq) = [] \<and> (\<exists>built. r = Inr built) \<and> ie_temp ie = Inr dir"
  using assms
  by (auto simp: build_image_def build_context_def Let_def
      split: sum.splits if_splits option.splits prod.splits)

lemma build_image_specs:
  assumes "build_image ie engine rq = Some (r, cs, h, specs)" and "specs \<noteq> []"
  shows "\<exists>p dir. planned_image ie rq = Inr p \<and> fst (build_context ie rq) = Inr dir \<and>
    (\<exists>r1. build (ie_build ie) (ie_fuel ie) engine p dir = Some (r1, h, specs))"
  using assms
  by (auto simp: build_image_def Let_def split: sum.splits if_splits option.splits prod.splits)

text \<open>
  The context of a failure that has no code of its own is named in its text only: the
  failure document made of it carries no detail.
\<close>

lemma untyped_failure_names_no_context:
  "with_detail ''staging'' dir (PlainErr t) = PlainErr (t @ '' (the build context is at '' @ dir @ '')'')"
  by (simp add: with_detail_def)

end
