(* ===== verification/Fake_Engine.thy ===== *)
theory Fake_Engine
  imports Complex_Main "HOL-Library.AList" Image_Stage Numbers Session_Service
begin

text \<open>
  The in-process container engine of the tests (\<open>internal/enginetest/fake.go\<close>): it records
  the commands it is asked and answers them from a script, with failures that the script
  injects. Its containers are the world of the session service, so the service runs over it
  as it runs over an adapter; the interface \<open>container_engine\<close> is what the service needs of
  an engine to leave nothing behind.
\<close>

section \<open>The fake\<close>

definition ready_status :: string where
  "ready_status = ''{\"ready\":true,\"weston\":\"running\",\"agent\":\"running\"}''"

record fake_container =
  fc_name :: string
  fc_session :: string
  fc_spec :: create_spec
  fc_running :: bool
  fc_exit :: int
  fc_logs :: string

text \<open>The fields a test sets.\<close>

record script =
  sc_capabilities :: capabilities
  sc_status :: string
  sc_build :: build_result
  sc_build_output :: string
  sc_build_func :: "(build_spec \<Rightarrow> goerr + build_result) option"
  sc_image_id :: string
  sc_image_id_err :: "goerr option"
  sc_capabilities_err :: "goerr option"
  sc_build_err :: "goerr option"
  sc_create_err :: "goerr option"
  sc_start_err :: "goerr option"
  sc_stop_err :: "goerr option"
  sc_remove_err :: "goerr option"
  sc_state_err :: "goerr option"
  sc_logs_err :: "goerr option"
  sc_exec_func :: "(exec_spec \<Rightarrow> exec_result \<times> goerr option) option"
  sc_stream_func :: "(exec_spec \<Rightarrow> goerr option \<times> string \<times> string) option"

record fake =
  fk_calls :: "string list"
  fk_builds :: "build_spec list"
  fk_containers :: "(string \<times> fake_container) list"
  fk_next :: nat

definition new_fake :: fake where
  "new_fake = \<lparr>fk_calls = [], fk_builds = [], fk_containers = [], fk_next = 0\<rparr>"

definition new_script :: script where
  "new_script =
     \<lparr>sc_capabilities = \<lparr>cap_kind = KindDocker, cap_context = ''default'', cap_server_version = ''29.7.2'',
        cap_rootless = True, cap_seccomp = ''builtin'', cap_cgroup_version = ''2'',
        cap_cgroup_driver = ''systemd'', cap_memory_limit = True, cap_pids_limit = True\<rparr>,
      sc_status = ready_status,
      sc_build = \<lparr>brs_tag = [], brs_image_id = [], brs_output = []\<rparr>, sc_build_output = [],
      sc_build_func = None, sc_image_id = [], sc_image_id_err = None, sc_capabilities_err = None,
      sc_build_err = None, sc_create_err = None, sc_start_err = None, sc_stop_err = None,
      sc_remove_err = None, sc_state_err = None, sc_logs_err = None, sc_exec_func = None,
      sc_stream_func = None\<rparr>"

definition record_call :: "string \<Rightarrow> fake \<Rightarrow> fake" where
  "record_call call f = f\<lparr>fk_calls := fk_calls f @ [call]\<rparr>"

definition fake_container_of :: "string \<Rightarrow> fake \<Rightarrow> fake_container option" where
  "fake_container_of i f = map_of (fk_containers f) i"

definition missing :: "string \<Rightarrow> goerr" where
  "missing i = EngineNotFound i"

definition fake_capabilities :: "script \<Rightarrow> fake \<Rightarrow> (goerr + capabilities) \<times> fake" where
  "fake_capabilities sc f =
     ((case sc_capabilities_err sc of Some e \<Rightarrow> Inl e | None \<Rightarrow> Inr (sc_capabilities sc)),
      record_call ''capabilities'' f)"

text \<open>The transcript of a build is what it wrote to its output.\<close>

definition fake_build :: "script \<Rightarrow> build_spec \<Rightarrow> fake \<Rightarrow> (goerr + build_result) \<times> string \<times> fake" where
  "fake_build sc spec f =
     (let f1 = record_call (''build '' @ bs_tag spec @ '' network='' @ (if bs_network spec then ''true'' else ''false'')) f;
          f2 = f1\<lparr>fk_builds := fk_builds f1 @ [spec]\<rparr>
      in case sc_build_func sc of
           Some hook \<Rightarrow> (hook spec, [], f2)
         | None \<Rightarrow> ((case sc_build_err sc of Some e \<Rightarrow> Inl e | None \<Rightarrow> Inr (sc_build sc)), sc_build_output sc, f2))"

definition fake_image_id :: "script \<Rightarrow> string \<Rightarrow> fake \<Rightarrow> (goerr + string) \<times> fake" where
  "fake_image_id sc reference f =
     ((case sc_image_id_err sc of Some e \<Rightarrow> Inl e | None \<Rightarrow> Inr (sc_image_id sc)),
      record_call (''image-id '' @ reference) f)"

definition container_id :: "nat \<Rightarrow> string" where
  "container_id n = ''container-'' @ dec_nat n"

definition fake_create :: "script \<Rightarrow> create_spec \<Rightarrow> fake \<Rightarrow> (goerr + string) \<times> fake" where
  "fake_create sc spec f =
     (let f1 = record_call (''create '' @ cs_name spec) f
      in case sc_create_err sc of
           Some e \<Rightarrow> (Inl e, f1)
         | None \<Rightarrow>
             let n = Suc (fk_next f1); i = container_id n
             in (Inr i, f1\<lparr>fk_next := n, fk_containers := AList.update i
                   \<lparr>fc_name = cs_name spec, fc_session = cs_session spec, fc_spec = spec, fc_running = False,
                    fc_exit = 0, fc_logs = ''wlvision-supervisor: starting'' @ [CHR 0x0A]\<rparr> (fk_containers f1)\<rparr>))"

definition set_running :: "bool \<Rightarrow> string \<Rightarrow> fake \<Rightarrow> fake" where
  "set_running b i f =
     f\<lparr>fk_containers := map (\<lambda>(j, c). (j, if j = i then c\<lparr>fc_running := b\<rparr> else c)) (fk_containers f)\<rparr>"

definition fake_start :: "script \<Rightarrow> string \<Rightarrow> fake \<Rightarrow> goerr option \<times> fake" where
  "fake_start sc i f =
     (let f1 = record_call (''start '' @ i) f
      in case sc_start_err sc of
           Some e \<Rightarrow> (Some e, f1)
         | None \<Rightarrow> (case fake_container_of i f1 of
                      None \<Rightarrow> (Some (missing i), f1)
                    | Some _ \<Rightarrow> (None, set_running True i f1)))"

definition is_status_probe :: "string list \<Rightarrow> bool" where
  "is_status_probe argv = (argv = [''/usr/libexec/wlvision-supervisor'', ''status''])"

definition command_call :: "string \<Rightarrow> exec_spec \<Rightarrow> string" where
  "command_call verb spec = verb @ '' user='' @ dec_nat (ex_user spec) @ '' '' @ join_with (CHR '' '') (ex_argv spec)"

definition fake_exec :: "script \<Rightarrow> exec_spec \<Rightarrow> fake \<Rightarrow> (exec_result \<times> goerr option) \<times> fake" where
  "fake_exec sc spec f =
     ((case sc_exec_func sc of
         Some hook \<Rightarrow> hook spec
       | None \<Rightarrow>
           (\<lparr>xr_exit_code = 0, xr_stdout = (if is_status_probe (ex_argv spec) then sc_status sc else []),
             xr_stderr = []\<rparr>, None)),
      record_call (command_call ''exec'' spec) f)"

definition fake_stream :: "script \<Rightarrow> exec_spec \<Rightarrow> fake \<Rightarrow> (goerr option \<times> string \<times> string) \<times> fake" where
  "fake_stream sc spec f =
     ((case sc_stream_func sc of Some hook \<Rightarrow> hook spec | None \<Rightarrow> (None, [], [])),
      record_call (command_call ''stream'' spec) f)"

definition fake_state :: "script \<Rightarrow> string \<Rightarrow> fake \<Rightarrow> (goerr + bool \<times> int) \<times> fake" where
  "fake_state sc i f =
     (let f1 = record_call (''state '' @ i) f
      in (case sc_state_err sc of
            Some e \<Rightarrow> Inl e
          | None \<Rightarrow> (case fake_container_of i f1 of
                       None \<Rightarrow> Inl (missing i)
                     | Some c \<Rightarrow> Inr (fc_running c, fc_exit c)), f1))"

definition fake_logs :: "script \<Rightarrow> string \<Rightarrow> int \<Rightarrow> fake \<Rightarrow> (goerr option \<times> string) \<times> fake" where
  "fake_logs sc i wanted f =
     (let f1 = record_call (''logs '' @ i @ '' tail='' @ dec_int wanted) f
      in (case sc_logs_err sc of
            Some e \<Rightarrow> (Some e, [])
          | None \<Rightarrow> (case fake_container_of i f1 of
                       None \<Rightarrow> (Some (missing i), [])
                     | Some c \<Rightarrow> (None, fc_logs c)), f1))"

definition fake_stop :: "script \<Rightarrow> string \<Rightarrow> int \<Rightarrow> fake \<Rightarrow> goerr option \<times> fake" where
  "fake_stop sc i limit f =
     (let f1 = record_call (''stop '' @ i) f
      in case sc_stop_err sc of
           Some e \<Rightarrow> (Some e, f1)
         | None \<Rightarrow> (case fake_container_of i f1 of
                      Some _ \<Rightarrow> (None, set_running False i f1)
                    | None \<Rightarrow> (Some (missing i), f1)))"

definition fake_forget :: "string \<Rightarrow> fake \<Rightarrow> fake" where
  "fake_forget i f = f\<lparr>fk_containers := AList.delete i (fk_containers f)\<rparr>"

definition fake_remove :: "script \<Rightarrow> string \<Rightarrow> fake \<Rightarrow> goerr option \<times> fake" where
  "fake_remove sc i f =
     (let f1 = record_call (''remove '' @ i) f
      in case sc_remove_err sc of
           Some e \<Rightarrow> (Some e, f1)
         | None \<Rightarrow> (case fake_container_of i f1 of
                      None \<Rightarrow> (Some (missing i), f1)
                    | Some _ \<Rightarrow> (None, fake_forget i f1)))"

definition count_calls :: "string \<Rightarrow> fake \<Rightarrow> nat" where
  "count_calls prefix f = length (filter (\<lambda>call. has_prefix prefix call) (fk_calls f))"

definition fake_engine :: "script \<Rightarrow> fake engine" where
  "fake_engine sc =
     \<lparr>en_capabilities = fake_capabilities sc, en_create = fake_create sc, en_start = fake_start sc,
      en_exec = fake_exec sc, en_stream = fake_stream sc,
      en_state = (\<lambda>i f. case fake_state sc i f of (r, f1) \<Rightarrow> (map_sum id fst r, f1)),
      en_logs = fake_logs sc, en_stop = fake_stop sc, en_remove = fake_remove sc\<rparr>"

section \<open>What the service needs of an engine\<close>

text \<open>
  An engine holds containers. Only removing makes it let go of one, and it has let go once
  removing answers that it did or that there was nothing to remove.
\<close>

definition gone_answer :: "goerr option \<Rightarrow> bool" where
  "gone_answer e = (case e of None \<Rightarrow> True | Some (EngineNotFound _) \<Rightarrow> True | _ \<Rightarrow> False)"

locale container_engine =
  fixes en :: "'w engine"
    and holds :: "string \<Rightarrow> 'w \<Rightarrow> bool"
    and scripted_missing :: bool
  assumes removed: "en_remove en c w = (e, w') \<Longrightarrow> gone_answer e \<Longrightarrow> \<not> scripted_missing \<Longrightarrow> \<not> holds c w'"
    and created: "en_create en spec w = (Inr c, w') \<Longrightarrow> holds c w'"
    and stopped: "en_stop en c t w = (e, w') \<Longrightarrow> holds d w' = holds d w"
begin

lemma taken_down:
  assumes "take_down en c t s = (None, s')" and "c \<noteq> []" and "\<not> scripted_missing"
  shows "\<not> holds c (sy_world s')"
proof -
  obtain e1 s1 where a: "call_engine (en_stop en c t) s = (e1, s1)" by (cases "call_engine (en_stop en c t) s")
  obtain e2 s2 where b: "call_engine (en_remove en c) s1 = (e2, s2)" by (cases "call_engine (en_remove en c) s1")
  have "engine_failure e2 (engine_failure e1 None) = None" "s' = s2"
    using assms(1,2) a b by (auto simp: take_down_def)
  then have g: "gone_answer e2"
    by (auto simp: engine_failure_def gone_answer_def split: option.splits goerr.splits)
  have "en_remove en c (sy_world s1) = (e2, sy_world s2)"
    using b by (auto simp: call_engine_def split: prod.splits)
  from removed [OF this g assms(3)] show ?thesis using \<open>s' = s2\<close> by simp
qed

text \<open>A session closed without an error leaves no container.\<close>

lemma closed_leaves_nothing:
  assumes "close_session sv en ev i t s = ((r, None), s')" and "load (sy_store s) i = Inr q"
    and "r_state q \<noteq> Closed" and "r_container_id q \<noteq> []" and "\<not> scripted_missing"
  shows "\<not> holds (r_container_id q) (sy_world s')"
proof -
  obtain r1 e1 s1 where mv: "(if r_state q = Closing then ((q, None), s) else move_record ev Closing q s) = ((r1, e1), s1)"
    by (metis prod.collapse)
  have e1: "e1 = None" using assms(1-3) mv by (auto simp: close_session_def split: option.splits)
  have c1: "r_container_id r1 = r_container_id q"
    using mv e1 by (auto simp: move_record_def transition_Inr split: if_splits sum.splits prod.splits)
  let ?t = "if t = 0 then sv_stop_timeout sv else t"
  obtain f s2 where td: "take_down en (r_container_id r1) ?t s1 = (f, s2)" by (cases "take_down en (r_container_id r1) ?t s1")
  have f: "f = None" and w: "sy_world s' = sy_world s2"
    using assms(1-3) mv e1 td
    by (auto simp: close_session_def put_record_def Let_def split: option.splits prod.splits)
  show ?thesis using taken_down [OF td [unfolded f]] c1 w assms(4,5) by simp
qed

end

definition fake_holds :: "string \<Rightarrow> fake \<Rightarrow> bool" where
  "fake_holds i f = (fake_container_of i f \<noteq> None)"

text \<open>A script may answer a removal with the very error of a missing container; then nothing is gone.\<close>

definition scripted_gone :: "script \<Rightarrow> bool" where
  "scripted_gone sc = (case sc_remove_err sc of Some (EngineNotFound _) \<Rightarrow> True | _ \<Rightarrow> False)"

lemma record_call_sel [simp]:
  "fk_containers (record_call c f) = fk_containers f" "fk_next (record_call c f) = fk_next f"
  "fake_container_of i (record_call c f) = fake_container_of i f"
  by (simp_all add: record_call_def fake_container_of_def)

lemma set_running_holds [simp]: "fake_holds j (set_running b i f) = fake_holds j f"
  by (induction "fk_containers f") (auto simp: fake_holds_def fake_container_of_def set_running_def map_of_eq_None_iff image_image case_prod_beta)

interpretation scripted: container_engine "fake_engine sc" fake_holds "scripted_gone sc" for sc
proof unfold_locales
  fix c w e w'
  assume "en_remove (fake_engine sc) c w = (e, w')" and "gone_answer e" and "\<not> scripted_gone sc"
  then show "\<not> fake_holds c w'"
    by (auto simp: fake_engine_def fake_remove_def gone_answer_def scripted_gone_def fake_holds_def fake_forget_def
        fake_container_of_def delete_conv Let_def split: option.splits goerr.splits)
next
  fix spec w c w'
  assume "en_create (fake_engine sc) spec w = (Inr c, w')"
  then show "fake_holds c w'"
    by (auto simp: fake_engine_def fake_create_def fake_holds_def fake_container_of_def update_conv Let_def
        split: option.splits)
next
  fix c t w e w' d
  assume "en_stop (fake_engine sc) c t w = (e, w')"
  then show "fake_holds d w' = fake_holds d w"
    by (auto simp: fake_engine_def fake_stop_def Let_def split: option.splits) (simp_all add: fake_holds_def)
qed

section \<open>Nothing is left behind\<close>

text \<open>Identifiers are never given twice, whatever is removed or forgotten in between.\<close>

definition fresh_ids :: "fake \<Rightarrow> bool" where
  "fresh_ids f \<longleftrightarrow> distinct (map fst (fk_containers f)) \<and>
     (\<forall>i \<in> set (map fst (fk_containers f)). \<exists>n. 0 < n \<and> n \<le> fk_next f \<and> i = container_id n)"

lemma container_id_inj: "container_id m = container_id n \<Longrightarrow> m = n"
  by (simp add: container_id_def) (metis digits_dec_nat option.inject)

lemma create_fresh:
  assumes "fresh_ids f" and "fake_create sc spec f = (Inr i, f')"
  shows "\<not> fake_holds i f" "fresh_ids f'"
proof -
  have i: "i = container_id (Suc (fk_next f))" using assms(2) by (auto simp: fake_create_def Let_def split: option.splits)
  have n: "i \<notin> set (map fst (fk_containers f))"
  proof
    assume "i \<in> set (map fst (fk_containers f))"
    then obtain n where "n \<le> fk_next f" "i = container_id n" using assms(1) by (auto simp: fresh_ids_def)
    then show False using i container_id_inj by fastforce
  qed
  from n show "\<not> fake_holds i f" by (auto simp: fake_holds_def fake_container_of_def map_of_eq_None_iff)
  have "map fst (fk_containers f') = map fst (fk_containers f) @ [i]" "fk_next f' = Suc (fk_next f)"
    using assms(2) n by (auto simp: fake_create_def Let_def update_keys split: option.splits)
  then show "fresh_ids f'" using assms(1) i n unfolding fresh_ids_def by (fastforce intro: le_SucI simp del: set_map)
qed


definition fake_env :: "fake env" where
  "fake_env = \<lparr>ev_now = (\<lambda>_. 100), ev_wall = (\<lambda>_. 0), ev_wait = (\<lambda>f. (False, f))\<rparr>"

definition one_container :: fake where
  "one_container = new_fake\<lparr>fk_containers :=
     [(''c1'', \<lparr>fc_name = ''n'', fc_session = ''demo'', fc_spec = session_spec demo_service demo_record (r_limits demo_record),
               fc_running = True, fc_exit = 0, fc_logs = []\<rparr>)]\<rparr>"

definition fake_sys :: "fake sys" where
  "fake_sys = \<lparr>sy_store = one_store, sy_world = one_container\<rparr>"

lemma fake_closed:
  "snd (fst (close_session demo_service (fake_engine new_script) fake_env ''demo'' 0 fake_sys)) = None"
  by code_simp


end
