(* ===== verification/Agent.thy ===== *)
theory Agent
  imports Complex_Main Path_Below Rpc Control_State Capture_Source Capture_Shm Capture_Session
begin

text \<open>
  The resident controller of a session (\<open>cmd/wlvision-agent/main.go\<close>): the request handler,
  the budget of a request, the capture it stores, how a failure of the control layer becomes
  a result code, and the order in which the agent becomes ready. The control client and the
  capture path are parameters, as they are interfaces in the code; every call made on them is
  recorded with the budget it was given. Reading and writing JSON are parameters.
\<close>

section \<open>Options\<close>

definition ready_marker_name :: string where "ready_marker_name = ''agent.ready''"
definition default_setup_timeout :: int where "default_setup_timeout = 30000000000"
definition default_operation_timeout :: int where "default_operation_timeout = 15000000000"
definition min_operation_timeout_ms :: u32 where "min_operation_timeout_ms = 100"
definition agent_socket :: string where "agent_socket = ''/run/wlvision/control/agent.sock''"
definition agent_control_dir :: string where "agent_control_dir = ''/run/wlvision/control''"

record agent_options =
  ao_socket :: string
  ao_control_uid :: u32
  ao_control_dir :: string
  ao_export_dir :: string
  ao_setup_timeout :: int

definition new_agent :: "agent_options \<Rightarrow> agent_options" where
  "new_agent o0 = o0
     \<lparr>ao_socket := (if ao_socket o0 = [] then agent_socket else ao_socket o0),
      ao_control_dir := (if ao_control_dir o0 = [] then agent_control_dir else ao_control_dir o0),
      ao_export_dir := (if ao_export_dir o0 = [] then export_dir else ao_export_dir o0),
      ao_setup_timeout := (if ao_setup_timeout o0 \<le> 0 then default_setup_timeout else ao_setup_timeout o0)\<rparr>"

text \<open>The identity comes from the environment: \<open>strconv.ParseUint\<close> in base 10 for 32 bits.\<close>

definition control_uid_from_env :: "string \<Rightarrow> u32" where
  "control_uid_from_env v =
     (if v = [] then 0
      else (case parse_nat 10 v of None \<Rightarrow> 0 | Some n \<Rightarrow> if n < 2 ^ 32 then of_nat n else 0))"

section \<open>Failures\<close>

text \<open>An error of the control layer, by the first of the classes the agent tests for.\<close>

datatype ctl_error =
    FailureErr failure
  | RequestErr request_error
  | CodeErr error_code
  | DeadlineErr
  | CanceledErr
  | CaptureRefusedErr
  | ClosedErr
  | OtherErr string

definition agent_usage :: "string \<Rightarrow> failure" where
  "agent_usage fmt = new_failure UsageError ''agent'' fmt"

fun refusal_code :: "error_code \<Rightarrow> code option" where
  "refusal_code ErrWindowNotFound = Some WindowNotFound"
| "refusal_code ErrStaleRevision = Some StaleRevision"
| "refusal_code ErrNotAuthorized = Some NotAuthorized"
| "refusal_code ErrCaptureUnavailable = Some CaptureUnavailable"
| "refusal_code _ = None"

definition coded_failure :: "string \<Rightarrow> error_code \<Rightarrow> failure" where
  "coded_failure operation c =
     (case refusal_code c of
        Some rc \<Rightarrow> new_failure rc operation ''%v''
      | None \<Rightarrow> new_failure SessionNotReady operation ''%v (control code %s)'')"

definition refusal_failure :: "string \<Rightarrow> ctl_error \<Rightarrow> failure option" where
  "refusal_failure operation err =
     (case err of
        RequestErr r \<Rightarrow> Some (coded_failure operation (re_code r))
      | CodeErr c \<Rightarrow> Some (coded_failure operation c)
      | _ \<Rightarrow> None)"

definition agent_failure :: "string \<Rightarrow> ctl_error \<Rightarrow> failure" where
  "agent_failure operation err =
     (case err of
        FailureErr f \<Rightarrow> f
      | _ \<Rightarrow>
          (case refusal_failure operation err of
             Some f \<Rightarrow> f
           | None \<Rightarrow>
               new_failure (case err of DeadlineErr \<Rightarrow> WaitTimeout | CanceledErr \<Rightarrow> WaitTimeout
                              | CaptureRefusedErr \<Rightarrow> CaptureFailed | _ \<Rightarrow> SessionNotReady)
                 operation ''%v''))"

section \<open>The interfaces the agent serves\<close>

datatype ctl_call =
    CSnapshot | CActivate string u64 | CMove string u64 f64 f64 | CResize string size u64
  | CClose string u64 | CPointer pointer_event | CKey key_event | CAuthorize | CCapture

record 'w controller =
  ca_snapshot :: "int \<Rightarrow> 'w \<Rightarrow> (ctl_error + cstate) \<times> 'w"
  ca_activate :: "int \<Rightarrow> string \<Rightarrow> u64 \<Rightarrow> 'w \<Rightarrow> (ctl_error + cstate) \<times> 'w"
  ca_move :: "int \<Rightarrow> string \<Rightarrow> u64 \<Rightarrow> f64 \<Rightarrow> f64 \<Rightarrow> 'w \<Rightarrow> (ctl_error + cstate) \<times> 'w"
  ca_resize :: "int \<Rightarrow> string \<Rightarrow> size \<Rightarrow> u64 \<Rightarrow> 'w \<Rightarrow> (ctl_error + resized) \<times> 'w"
  ca_close :: "int \<Rightarrow> string \<Rightarrow> u64 \<Rightarrow> 'w \<Rightarrow> (ctl_error + cstate) \<times> 'w"
  ca_pointer :: "int \<Rightarrow> pointer_event \<Rightarrow> 'w \<Rightarrow> (ctl_error + unit) \<times> 'w"
  ca_key :: "int \<Rightarrow> key_event \<Rightarrow> 'w \<Rightarrow> (ctl_error + unit) \<times> 'w"
  ca_authorize :: "int \<Rightarrow> 'w \<Rightarrow> (ctl_error + u64) \<times> 'w"
  ca_revision :: "'w \<Rightarrow> u64"
  ca_frames :: "'w \<Rightarrow> frame option \<times> 'w"
  ca_plane :: "(int \<Rightarrow> 'w \<Rightarrow> (ctl_error + source_frame) \<times> 'w) option"
  ca_write :: "string \<Rightarrow> string \<Rightarrow> 'w \<Rightarrow> string option \<times> 'w"

text \<open>The world with what was asked of the interfaces, and the files that were written.\<close>

record 'w agent_world =
  aw_world :: 'w
  aw_calls :: "(int \<times> ctl_call) list"
  aw_files :: "(string \<times> string) list"

definition issue :: "int \<Rightarrow> ctl_call \<Rightarrow> ('w \<Rightarrow> 'r \<times> 'w) \<Rightarrow> 'w agent_world \<Rightarrow> 'r \<times> 'w agent_world" where
  "issue budget c f aw =
     (case f (aw_world aw) of
        (r, w) \<Rightarrow> (r, aw\<lparr>aw_world := w, aw_calls := aw_calls aw @ [(budget, c)]\<rparr>))"

definition write_capture ::
  "'w controller \<Rightarrow> string \<Rightarrow> string \<Rightarrow> 'w agent_world \<Rightarrow> string option \<times> 'w agent_world" where
  "write_capture api path payload aw =
     (case ca_write api path payload (aw_world aw) of
        (Some err, w) \<Rightarrow> (Some err, aw\<lparr>aw_world := w\<rparr>)
      | (None, w) \<Rightarrow> (None, aw\<lparr>aw_world := w, aw_files := aw_files aw @ [(path, payload)]\<rparr>))"

section \<open>Wire values\<close>

definition wire_window :: "window \<Rightarrow> toplevel" where
  "wire_window t =
     \<lparr>tl_handle = wn_handle t, tl_title = wn_title t, tl_app_id = wn_app_id t, tl_x = wn_x t, tl_y = wn_y t,
      tl_width = sz_width (wn_size t), tl_height = sz_height (wn_size t), tl_state = wn_state t,
      tl_revision = wn_revision t\<rparr>"

definition wire_state :: "cstate \<Rightarrow> wstate" where
  "wire_state st = \<lparr>ws_revision = cst_revision st, ws_toplevels = map wire_window (cst_windows st)\<rparr>"

definition wire_resize :: "resized \<Rightarrow> resize_result" where
  "wire_resize r =
     \<lparr>rr_handle = rd_handle r,
      rr_requested_width = sz_width (rd_requested r), rr_requested_height = sz_height (rd_requested r),
      rr_configured_width = sz_width (rd_configured r), rr_configured_height = sz_height (rd_configured r),
      rr_committed_width = sz_width (rd_committed r), rr_committed_height = sz_height (rd_committed r),
      rr_visible_width = sz_width (rd_visible r), rr_visible_height = sz_height (rd_visible r),
      rr_revision = rd_revision r\<rparr>"

definition plain_reply :: "u64 \<Rightarrow> reply" where
  "plain_reply revn =
     \<lparr>rp_revision = revn, rp_state = None, rp_resize = None, rp_frame = None, rp_capture_request_id = 0\<rparr>"

definition state_reply :: "cstate \<Rightarrow> reply" where
  "state_reply st = (plain_reply (cst_revision st))\<lparr>rp_state := Some (wire_state st)\<rparr>"

definition pointer_event_of :: "params \<Rightarrow> failure + pointer_event" where
  "pointer_event_of ps =
     (if p_kind ps = pointer_motion then Inr (Motion (p_x ps) (p_y ps))
      else if p_kind ps = pointer_button then
        (if p_state ps \<noteq> state_pressed \<and> p_state ps \<noteq> state_released
         then Inl (agent_usage ''the button state %q is neither pressed nor released'')
         else Inr (Button (p_button ps) (p_state ps = state_pressed)))
      else if p_kind ps = pointer_axis then Inr (Axis (p_axis ps) (p_value ps))
      else Inl (agent_usage ''the pointer kind %q is not motion, button or axis''))"

definition operation_timeout :: "params \<Rightarrow> failure + int" where
  "operation_timeout ps =
     (if p_timeout_ms ps = 0 then Inr default_operation_timeout
      else if p_timeout_ms ps < min_operation_timeout_ms
      then Inl (agent_usage ''timeout_ms=%d is below the %dms floor'')
      else
        let t = wrap64 (int (unat (p_timeout_ms ps)) * 1000000)
        in Inr (if t > default_operation_timeout then default_operation_timeout else t))"

section \<open>One request\<close>

definition answer_state ::
  "string \<Rightarrow> (ctl_error + cstate) \<times> 'w agent_world \<Rightarrow> (failure + reply) \<times> 'w agent_world" where
  "answer_state operation r =
     (case r of
        (Inl err, aw) \<Rightarrow> (Inl (agent_failure operation err), aw)
      | (Inr st, aw) \<Rightarrow> (Inr (state_reply st), aw))"

definition answer_done ::
  "'w controller \<Rightarrow> string \<Rightarrow> (ctl_error + unit) \<times> 'w agent_world \<Rightarrow> (failure + reply) \<times> 'w agent_world" where
  "answer_done api operation r =
     (case r of
        (Inl err, aw) \<Rightarrow> (Inl (agent_failure operation err), aw)
      | (Inr _, aw) \<Rightarrow> (Inr (plain_reply (ca_revision api (aw_world aw))), aw))"

definition capture_export_path :: "(string \<Rightarrow> string + string) \<Rightarrow> agent_options \<Rightarrow> string \<Rightarrow> failure + string" where
  "capture_export_path absolute o1 requested =
     (if requested = [] then Inl (agent_usage ''a capture path is required'')
      else if is_abs requested then Inl (agent_usage ''the capture path %q must be relative'')
      else
        let cleaned = path_clean requested
        in if cleaned = ''.'' \<or> cleaned = ''..'' \<or> has_prefix cleaned ''../''
           then Inl (agent_usage ''the capture path %q leaves the export directory'')
           else (case absolute (ao_export_dir o1) of
                   Inl err \<Rightarrow> Inl (agent_failure ''capture.screenshot'' (OtherErr err))
                 | Inr base \<Rightarrow>
                     let target = path_join base cleaned
                     in if \<not> has_prefix target (base @ ''/'')
                        then Inl (agent_usage ''the capture path %q leaves the export directory'')
                        else Inr target))"

text \<open>The reply takes the next event of the frame channel, when one is waiting.\<close>

definition observed_frame :: "frame option \<Rightarrow> frame_result \<Rightarrow> frame_result" where
  "observed_frame ev f =
     (case ev of
        None \<Rightarrow> f
      | Some fe \<Rightarrow>
          (let f1 = f\<lparr>fr_sequence := fm_sequence fe\<rparr>
           in if fm_capture_request_id fe \<noteq> 0
              then f1\<lparr>fr_capture_request_id := fm_capture_request_id fe\<rparr> else f1))"

definition agent_capture ::
  "'w controller \<Rightarrow> (string \<Rightarrow> string) \<Rightarrow> (string \<Rightarrow> string + string) \<Rightarrow> agent_options \<Rightarrow> int \<Rightarrow> params \<Rightarrow>
   'w agent_world \<Rightarrow> (failure + reply) \<times> 'w agent_world" where
  "agent_capture api sha absolute o1 budget ps aw =
     (case capture_export_path absolute o1 (p_path ps) of
        Inl f \<Rightarrow> (Inl f, aw)
      | Inr target \<Rightarrow>
          (case ca_plane api of
             None \<Rightarrow> (Inl (new_failure SessionNotReady ''capture.screenshot'' ''the session has no capture source''), aw)
           | Some plane \<Rightarrow>
               (case issue budget CAuthorize (ca_authorize api budget) aw of
                  (Inl err, aw1) \<Rightarrow> (Inl (agent_failure ''capture.screenshot'' err), aw1)
                | (Inr request_id, aw1) \<Rightarrow>
                    (case issue budget CCapture (plane budget) aw1 of
                       (Inl err, aw2) \<Rightarrow> (Inl (agent_failure ''capture.screenshot'' err), aw2)
                     | (Inr fm, aw2) \<Rightarrow>
                         (case write_capture api target (fm_png fm) aw2 of
                            (Some err, aw3) \<Rightarrow> (Inl (agent_failure ''capture.screenshot'' (OtherErr err)), aw3)
                          | (None, aw3) \<Rightarrow>
                              (case ca_frames api (aw_world aw3) of
                                 (ev, w) \<Rightarrow>
                                   (Inr ((plain_reply (ca_revision api (aw_world aw3)))
                                      \<lparr>rp_frame := Some (observed_frame ev
                                         \<lparr>fr_path = target, fr_digest = digest_text (sha (fm_png fm)),
                                          fr_width = fst (fm_size fm), fr_height = snd (fm_size fm),
                                          fr_format = format_string (fm_format fm), fr_sequence = 0,
                                          fr_capture_request_id = request_id\<rparr>)\<rparr>),
                                    aw3\<lparr>aw_world := w\<rparr>)))))))"

definition perform ::
  "'w controller \<Rightarrow> (string \<Rightarrow> string) \<Rightarrow> (string \<Rightarrow> string + string) \<Rightarrow> agent_options \<Rightarrow> int \<Rightarrow> string \<Rightarrow>
   params \<Rightarrow> 'w agent_world \<Rightarrow> (failure + reply) \<times> 'w agent_world" where
  "perform api sha absolute o1 budget operation ps aw =
     (if operation = op_snapshot then
        answer_state ''window.snapshot'' (issue budget CSnapshot (ca_snapshot api budget) aw)
      else if operation = op_activate then
        answer_state ''window.activate''
          (issue budget (CActivate (p_handle ps) (p_revision ps))
             (ca_activate api budget (p_handle ps) (p_revision ps)) aw)
      else if operation = op_move then
        answer_state ''window.move''
          (issue budget (CMove (p_handle ps) (p_revision ps) (p_x ps) (p_y ps))
             (ca_move api budget (p_handle ps) (p_revision ps) (p_x ps) (p_y ps)) aw)
      else if operation = op_resize then
        (let sz = \<lparr>sz_width = p_width ps, sz_height = p_height ps\<rparr>
         in case issue budget (CResize (p_handle ps) sz (p_revision ps))
                   (ca_resize api budget (p_handle ps) sz (p_revision ps)) aw of
              (Inl err, aw1) \<Rightarrow> (Inl (agent_failure ''window.resize'' err), aw1)
            | (Inr r, aw1) \<Rightarrow> (Inr ((plain_reply (rd_revision r))\<lparr>rp_resize := Some (wire_resize r)\<rparr>), aw1))
      else if operation = op_close_window then
        answer_state ''window.close''
          (issue budget (CClose (p_handle ps) (p_revision ps))
             (ca_close api budget (p_handle ps) (p_revision ps)) aw)
      else if operation = op_pointer then
        (case pointer_event_of ps of
           Inl f \<Rightarrow> (Inl f, aw)
         | Inr ev \<Rightarrow> answer_done api ''input.pointer'' (issue budget (CPointer ev) (ca_pointer api budget ev) aw))
      else if operation = op_key then
        (if p_state ps \<noteq> state_pressed \<and> p_state ps \<noteq> state_released
         then (Inl (agent_usage ''the key state %q is neither pressed nor released''), aw)
         else
           let ev = \<lparr>ke_key = p_key ps, ke_pressed = (p_state ps = state_pressed)\<rparr>
           in answer_done api ''input.key'' (issue budget (CKey ev) (ca_key api budget ev) aw))
      else if operation = op_authorize_capture then
        (case issue budget CAuthorize (ca_authorize api budget) aw of
           (Inl err, aw1) \<Rightarrow> (Inl (agent_failure ''capture.authorize'' err), aw1)
         | (Inr request_id, aw1) \<Rightarrow>
             (Inr ((plain_reply (ca_revision api (aw_world aw1)))\<lparr>rp_capture_request_id := request_id\<rparr>), aw1))
      else if operation = op_capture then agent_capture api sha absolute o1 budget ps aw
      else (Inl (agent_usage ''unknown operation %q''), aw))"

text \<open>Decoding gives the operation and the raw arguments, then the arguments.\<close>

record agent_codec =
  ac_request :: "string \<Rightarrow> string + (string \<times> string)"
  ac_params :: "string \<Rightarrow> string + params"
  ac_reply :: "reply \<Rightarrow> string + string"

definition handle_request ::
  "'w controller \<Rightarrow> (string \<Rightarrow> string) \<Rightarrow> (string \<Rightarrow> string + string) \<Rightarrow> agent_codec \<Rightarrow> agent_options \<Rightarrow> string \<Rightarrow>
   'w agent_world \<Rightarrow> (failure + string) \<times> 'w agent_world" where
  "handle_request api sha absolute cd o1 payload aw =
     (case ac_request cd payload of
        Inl err \<Rightarrow> (Inl (agent_usage ''the request is not readable: %v''), aw)
      | Inr (operation, raw) \<Rightarrow>
          (case (if raw = [] then Inr no_params else ac_params cd raw) of
             Inl err \<Rightarrow> (Inl (agent_usage ''the arguments of %s are not readable: %v''), aw)
           | Inr ps \<Rightarrow>
               (case operation_timeout ps of
                  Inl f \<Rightarrow> (Inl f, aw)
                | Inr budget \<Rightarrow>
                    (case perform api sha absolute o1 budget (to_lower (trim_space operation)) ps aw of
                       (Inl f, aw1) \<Rightarrow> (Inl f, aw1)
                     | (Inr rep, aw1) \<Rightarrow>
                         (case ac_reply cd rep of
                            Inl err \<Rightarrow> (Inl (agent_failure ''agent.encode'' (OtherErr err)), aw1)
                          | Inr text \<Rightarrow> (Inr text, aw1))))))"

section \<open>Becoming ready\<close>

datatype serve_call =
    ListenOn string u32 | AttachPlane | AwaitSetup int | LogReady
  | MakeControlDir string | WriteMarker string | ServeRequests | ClosePlane | CloseListener

definition mark_ready :: "(serve_call \<Rightarrow> string option) \<Rightarrow> agent_options \<Rightarrow> string option \<times> serve_call list" where
  "mark_ready fault o1 =
     (let mk = MakeControlDir (ao_control_dir o1);
          wr = WriteMarker (path_join (ao_control_dir o1) ready_marker_name)
      in case fault mk of
           Some err \<Rightarrow> (Some (''wlvision-agent: cannot create '' @ ao_control_dir o1 @ '': '' @ err), [mk])
         | None \<Rightarrow>
             (case fault wr of
                Some err \<Rightarrow> (Some (''wlvision-agent: cannot announce readiness: '' @ err), [mk, wr])
              | None \<Rightarrow> (None, [mk, wr])))"

definition serve_ready :: "(serve_call \<Rightarrow> string option) \<Rightarrow> agent_options \<Rightarrow> string option \<times> serve_call list" where
  "serve_ready fault o1 =
     (case mark_ready fault o1 of
        (Some err, cs) \<Rightarrow> (Some err, cs)
      | (None, cs) \<Rightarrow> (fault ServeRequests, cs @ [ServeRequests]))"

definition serve_attached ::
  "(serve_call \<Rightarrow> string option) \<Rightarrow> agent_options \<Rightarrow> string option \<times> serve_call list" where
  "serve_attached fault o1 =
     (case fault AttachPlane of
        Some err \<Rightarrow> (Some (''wlvision-agent: cannot attach the capture path: '' @ err), [AttachPlane])
      | None \<Rightarrow>
          (case fault (AwaitSetup (ao_setup_timeout o1)) of
             Some err \<Rightarrow>
               (Some (''wlvision-agent: the capture source never became usable: '' @ err),
                [AttachPlane, AwaitSetup (ao_setup_timeout o1), ClosePlane])
           | None \<Rightarrow>
               (case serve_ready fault o1 of
                  (err, cs) \<Rightarrow>
                    (err, [AttachPlane, AwaitSetup (ao_setup_timeout o1), LogReady] @ cs @ [ClosePlane]))))"

definition agent_serve ::
  "(serve_call \<Rightarrow> string option) \<Rightarrow> bool \<Rightarrow> agent_options \<Rightarrow> string option \<times> serve_call list" where
  "agent_serve fault attach o1 =
     (let listening = ListenOn (ao_socket o1) (ao_control_uid o1)
      in case fault listening of
           Some err \<Rightarrow> (Some err, [listening])
         | None \<Rightarrow>
             (case (if attach then serve_attached fault o1 else serve_ready fault o1) of
                (err, cs) \<Rightarrow> (err, [listening] @ cs @ [CloseListener])))"

section \<open>The command\<close>

text \<open>
  \<open>os.Exit\<close> runs no deferred call, so a controller whose service failed is not closed: the
  process takes the connection with it.
\<close>

datatype main_call = ConnectControl | ServeAgent agent_options | ReportError string | CloseController

definition agent_main ::
  "string \<Rightarrow> (unit \<Rightarrow> string option) \<Rightarrow> (agent_options \<Rightarrow> string option) \<Rightarrow> int \<times> main_call list" where
  "agent_main env_uid connect served =
     (case connect () of
        Some err \<Rightarrow> (1, [ConnectControl, ReportError (''wlvision-agent: '' @ err)])
      | None \<Rightarrow>
          (let o1 = new_agent \<lparr> ao_socket = agent_socket, ao_control_uid = control_uid_from_env env_uid,
                 ao_control_dir = agent_control_dir, ao_export_dir = export_dir, ao_setup_timeout = 0 \<rparr>
           in case served o1 of
                Some err \<Rightarrow> (1, [ConnectControl, ServeAgent o1, ReportError (''wlvision-agent: '' @ err)])
              | None \<Rightarrow> (0, [ConnectControl, ServeAgent o1, CloseController])))"

section \<open>The capture path\<close>

datatype attach_call = FindRegistry | BindOutput | BindCaptureGlobal | CreateCaptureSource | BindShmGlobal
  | CloseCaptureSource

definition attach_plane :: "(attach_call \<Rightarrow> string option) \<Rightarrow> string option \<times> attach_call list" where
  "attach_plane fault =
     (case fault FindRegistry of
        Some err \<Rightarrow> (Some ''the controller connection has no registry'', [FindRegistry])
      | None \<Rightarrow>
          (case fault BindOutput of
             Some err \<Rightarrow> (Some err, [FindRegistry, BindOutput])
           | None \<Rightarrow>
               (case fault BindCaptureGlobal of
                  Some err \<Rightarrow> (Some err, [FindRegistry, BindOutput, BindCaptureGlobal])
                | None \<Rightarrow>
                    (case fault CreateCaptureSource of
                       Some err \<Rightarrow>
                         (Some err, [FindRegistry, BindOutput, BindCaptureGlobal, CreateCaptureSource])
                     | None \<Rightarrow>
                         (case fault BindShmGlobal of
                            Some err \<Rightarrow>
                              (Some err, [FindRegistry, BindOutput, BindCaptureGlobal, CreateCaptureSource,
                                 BindShmGlobal, CloseCaptureSource])
                          | None \<Rightarrow>
                              (None, [FindRegistry, BindOutput, BindCaptureGlobal, CreateCaptureSource,
                                 BindShmGlobal]))))))"

text \<open>Closing the capture path closes both halves; the error of the source comes first.\<close>

definition close_plane :: "(unit \<Rightarrow> string option) \<Rightarrow> source \<times> shm \<Rightarrow> string option \<times> source \<times> shm" where
  "close_plane destroy p =
     (case close_source (fst p) of
        (s, destroyed) \<Rightarrow>
          (let source_err = (if destroyed then destroy () else None)
           in case close_shm (snd p) of
                (shm_err, m) \<Rightarrow> (if source_err = None then shm_err else source_err, s, m)))"

section \<open>Facts\<close>

lemma issue_sel:
  "issue budget c f aw = (r, aw') \<Longrightarrow>
     aw_calls aw' = aw_calls aw @ [(budget, c)] \<and> aw_files aw' = aw_files aw"
  by (auto simp: issue_def split: prod.splits)

lemma write_capture_sel:
  "write_capture api path payload aw = (r, aw') \<Longrightarrow>
     aw_calls aw' = aw_calls aw \<and> aw_files aw' = aw_files aw @ (if r = None then [(path, payload)] else [])"
  by (auto simp: write_capture_def split: prod.splits option.splits)

lemma operation_timeout_bounds:
  assumes "operation_timeout ps = Inr budget"
  shows "100000000 \<le> budget \<and> budget \<le> default_operation_timeout"
proof (cases "p_timeout_ms ps = 0")
  case True
  then show ?thesis using assms by (simp add: operation_timeout_def default_operation_timeout_def)
next
  case False
  have floor: "100 \<le> unat (p_timeout_ms ps)"
    using assms False
    by (auto simp: operation_timeout_def min_operation_timeout_ms_def word_less_nat_alt split: if_splits)
  have "int 100 \<le> int (unat (p_timeout_ms ps))" using floor by (simp only: of_nat_le_iff)
  then have floor: "100 \<le> uint (p_timeout_ms ps)" by simp
  have "0 \<le> uint (p_timeout_ms ps)" "uint (p_timeout_ms ps) < 2 ^ 32"
    using unsigned_less [of "p_timeout_ms ps", where ?'a = int] by simp_all
  then have "wrap64 (int (unat (p_timeout_ms ps)) * 1000000) = int (unat (p_timeout_ms ps)) * 1000000"
    by (intro wrap64_nonneg) auto
  then show ?thesis
    using assms False floor
    by (auto simp: operation_timeout_def min_operation_timeout_ms_def default_operation_timeout_def Let_def
        split: if_splits)
qed

text \<open>The calls that answer an operation: one, or two for a capture.\<close>

inductive answers :: "string \<Rightarrow> params \<Rightarrow> ctl_call list \<Rightarrow> bool" where
  "answers op_snapshot ps [CSnapshot]"
| "answers op_activate ps [CActivate (p_handle ps) (p_revision ps)]"
| "answers op_move ps [CMove (p_handle ps) (p_revision ps) (p_x ps) (p_y ps)]"
| "answers op_resize ps
     [CResize (p_handle ps) \<lparr>sz_width = p_width ps, sz_height = p_height ps\<rparr> (p_revision ps)]"
| "answers op_close_window ps [CClose (p_handle ps) (p_revision ps)]"
| "pointer_event_of ps = Inr ev \<Longrightarrow> answers op_pointer ps [CPointer ev]"
| "p_state ps = state_pressed \<Longrightarrow> answers op_key ps [CKey \<lparr>ke_key = p_key ps, ke_pressed = True\<rparr>]"
| "p_state ps = state_released \<Longrightarrow> answers op_key ps [CKey \<lparr>ke_key = p_key ps, ke_pressed = False\<rparr>]"
| "answers op_authorize_capture ps [CAuthorize]"
| "answers op_capture ps [CAuthorize, CCapture]"

definition asked :: "int \<Rightarrow> ctl_call list \<Rightarrow> 'w agent_world \<Rightarrow> 'w agent_world \<Rightarrow> bool" where
  "asked budget cs aw aw' \<longleftrightarrow> aw_calls aw' = aw_calls aw @ map (Pair budget) cs"

lemma released_not_pressed: "state_released \<noteq> state_pressed"
  by (simp add: wire_names)

lemma pairs_of_calls [simp]:
  "[] = map (Pair b) cs \<longleftrightarrow> cs = []"
  "[(b, c)] = map (Pair b) cs \<longleftrightarrow> cs = [c]"
  "[(b, c), (b, d)] = map (Pair b) cs \<longleftrightarrow> cs = [c, d]"
  by (auto simp: Cons_eq_map_conv)

lemma capture_asked:
  assumes "agent_capture api sha absolute o1 budget ps aw = (r, aw')"
  shows "\<exists>cs. asked budget cs aw aw' \<and> (\<forall>rep. r = Inr rep \<longrightarrow> cs = [CAuthorize, CCapture])"
  using assms
  by (auto simp: agent_capture_def asked_def split: sum.splits option.splits prod.splits
      dest!: issue_sel write_capture_sel)

lemma perform_asked:
  assumes "perform api sha absolute o1 budget operation ps aw = (r, aw')"
  shows "\<exists>cs. asked budget cs aw aw' \<and> (\<forall>rep. r = Inr rep \<longrightarrow> answers operation ps cs)"
proof (cases "operation = op_capture")
  case True
  then have "agent_capture api sha absolute o1 budget ps aw = (r, aw')"
    using assms by (simp add: perform_def wire_names)
  from capture_asked [OF this] show ?thesis using True answers.intros(10) by metis
next
  case False
  then show ?thesis
    using assms
    by (auto simp: perform_def asked_def answer_state_def answer_done_def Let_def released_not_pressed
        split: if_splits sum.splits prod.splits dest!: issue_sel intro: answers.intros)
qed

text \<open>What a capture leaves: one file, at a place below the export directory.\<close>

lemma capture_export_path_Inr:
  assumes "capture_export_path absolute o1 requested = Inr target"
  shows "\<exists>base. absolute (ao_export_dir o1) = Inr base \<and> has_prefix target (base @ ''/'') \<and>
    target = path_join base (path_clean requested) \<and> confined (path_clean requested)"
  using assms path_clean_confined [of requested]
  by (auto simp: capture_export_path_def Let_def split: if_splits sum.splits)

lemma agent_capture_Inr:
  assumes "agent_capture api sha absolute o1 budget ps aw = (Inr rep, aw')"
  shows "\<exists>target fm ev request_id f plane w1.
    capture_export_path absolute o1 (p_path ps) = Inr target \<and> ca_plane api = Some plane \<and>
    fst (ca_authorize api budget (aw_world aw)) = Inr request_id \<and>
    snd (ca_authorize api budget (aw_world aw)) = w1 \<and> fst (plane budget w1) = Inr fm \<and>
    aw_files aw' = aw_files aw @ [(target, fm_png fm)] \<and>
    rp_frame rep = Some f \<and> f = observed_frame ev
      \<lparr>fr_path = target, fr_digest = digest_text (sha (fm_png fm)), fr_width = fst (fm_size fm),
       fr_height = snd (fm_size fm), fr_format = format_string (fm_format fm), fr_sequence = 0,
       fr_capture_request_id = request_id\<rparr>"
proof -
  obtain target where target: "capture_export_path absolute o1 (p_path ps) = Inr target"
    using assms by (auto simp: agent_capture_def split: sum.splits)
  obtain plane where plane: "ca_plane api = Some plane"
    using assms target by (auto simp: agent_capture_def split: option.splits)
  obtain request_id w1 where a: "ca_authorize api budget (aw_world aw) = (Inr request_id, w1)"
    using assms target plane by (auto simp: agent_capture_def issue_def split: prod.splits sum.splits)
  obtain fm w2 where c: "plane budget w1 = (Inr fm, w2)"
    using assms target plane a by (auto simp: agent_capture_def issue_def split: prod.splits sum.splits)
  show ?thesis
    using assms target plane a c
    by (auto simp: agent_capture_def issue_def write_capture_def plain_reply_def
        split: prod.splits option.splits)
qed

lemma observed_frame_sel [simp]:
  "fr_path (observed_frame ev f) = fr_path f" "fr_digest (observed_frame ev f) = fr_digest f"
  "fr_width (observed_frame ev f) = fr_width f" "fr_height (observed_frame ev f) = fr_height f"
  by (simp_all add: observed_frame_def Let_def split: option.split)

text \<open>
  The marker of readiness is written last: the socket is bound and, when there is a capture
  path, it is attached and has announced its size and format. Whatever fails, what was opened
  is closed, the capture path before the listener.
\<close>

lemma agent_ready_last:
  assumes "agent_serve fault attach o1 = (err, cs)"
  shows "(\<forall>p. WriteMarker p \<in> set cs \<longrightarrow>
      fault (ListenOn (ao_socket o1) (ao_control_uid o1)) = None \<and> fault (MakeControlDir (ao_control_dir o1)) = None \<and>
      (attach \<longrightarrow> fault AttachPlane = None \<and> fault (AwaitSetup (ao_setup_timeout o1)) = None))"
    and "ServeRequests \<in> set cs \<Longrightarrow> \<exists>p. WriteMarker p \<in> set cs \<and> fault (WriteMarker p) = None"
    and "fault (ListenOn (ao_socket o1) (ao_control_uid o1)) = None \<Longrightarrow> last cs = CloseListener"
    and "ClosePlane \<in> set cs \<longleftrightarrow> AttachPlane \<in> set cs \<and> fault AttachPlane = None"
  using assms
  by (auto simp: agent_serve_def serve_attached_def serve_ready_def mark_ready_def Let_def
      split: option.splits if_splits prod.splits)

text \<open>
  A refusal keeps the code of the control protocol; a failure that already has a code keeps it.
\<close>

lemma agent_failure_codes:
  "agent_failure operation (FailureErr f) = f"
  "refusal_code c = Some rc \<Longrightarrow> f_code (agent_failure operation (CodeErr c)) = rc"
  "refusal_code (re_code r) = Some rc \<Longrightarrow> f_code (agent_failure operation (RequestErr r)) = rc"
  "f_code (agent_failure operation DeadlineErr) = WaitTimeout"
  "f_code (agent_failure operation CaptureRefusedErr) = CaptureFailed"
  "f_code (agent_failure operation ClosedErr) = SessionNotReady"
  by (simp_all add: agent_failure_def refusal_failure_def coded_failure_def)

section \<open>Properties\<close>


text \<open>
  C14. A capture is evidence. When the agent replies to one, it wrote one file, below its
  export directory, under the name it was given; the reply names that file, and its digest is
  that of the bytes written, which are the picture the capture path took after the controller
  authorized it. Every other operation that is answered leaves the files as they were.
\<close>

theorem agent_capture_evidence:
  assumes "perform api sha absolute o1 budget operation ps aw = (Inr rep, aw')"
    and "\<forall>p base. absolute p = Inr base \<longrightarrow> is_abs base"
  shows "if operation \<noteq> op_capture then aw_files aw' = aw_files aw
    else \<exists>base fm request_id w1 plane f.
      absolute (ao_export_dir o1) = Inr base \<and> path_below base (fr_path f) \<and>
      fr_path f = path_join base (path_clean (p_path ps)) \<and>
      ca_authorize api budget (aw_world aw) = (Inr request_id, w1) \<and>
      ca_plane api = Some plane \<and> fst (plane budget w1) = Inr fm \<and>
      rp_frame rep = Some f \<and> fr_digest f = digest_text (sha (fm_png fm)) \<and>
      aw_files aw' = aw_files aw @ [(fr_path f, fm_png fm)]"
proof (cases "operation = op_capture")
  case True
  then have "agent_capture api sha absolute o1 budget ps aw = (Inr rep, aw')"
    using assms(1) by (simp add: perform_def wire_names)
  from agent_capture_Inr [OF this] obtain target fm ev request_id f plane w1 where c:
      "capture_export_path absolute o1 (p_path ps) = Inr target" "ca_plane api = Some plane"
      "fst (ca_authorize api budget (aw_world aw)) = Inr request_id"
      "snd (ca_authorize api budget (aw_world aw)) = w1" "fst (plane budget w1) = Inr fm"
      "aw_files aw' = aw_files aw @ [(target, fm_png fm)]" "rp_frame rep = Some f"
      "fr_path f = target" "fr_digest f = digest_text (sha (fm_png fm))"
    by auto
  obtain base where base: "absolute (ao_export_dir o1) = Inr base" "target = path_join base (path_clean (p_path ps))"
      "confined (path_clean (p_path ps))"
    using capture_export_path_Inr [OF c(1)] by blast
  have "path_below base target"
    unfolding base(2) by (rule path_below_join [OF assms(2) [rule_format, OF base(1)] base(3)])
  moreover have "ca_authorize api budget (aw_world aw) = (Inr request_id, w1)" using c(3,4) by (metis prod.collapse)
  ultimately show ?thesis using True c base by auto
next
  case False
  have "aw_files aw' = aw_files aw"
    using assms(1) False
    by (auto simp: perform_def answer_state_def answer_done_def Let_def
        split: if_splits sum.splits prod.splits dest!: issue_sel)
  then show ?thesis using False by simp
qed

section \<open>Witnesses\<close>

text \<open>A controller whose world is the queue of its frame events.\<close>

definition demo_picture :: source_frame where
  "demo_picture =
     \<lparr>fm_image = \<lparr>im_width = 1, im_height = 1, im_pix = ''rgba''\<rparr>, fm_png = ''png'', fm_digest = [],
      fm_size = (1, 1), fm_format = 0, fm_captured = 3\<rparr>"

definition demo_controller :: "frame list controller" where
  "demo_controller =
     \<lparr>ca_snapshot = \<lambda>_ w. (Inr \<lparr>cst_revision = 7, cst_windows = []\<rparr>, w),
      ca_activate = \<lambda>_ _ _ w. (Inl (CodeErr ErrStaleRevision), w),
      ca_move = \<lambda>_ _ _ _ _ w. (Inl ClosedErr, w),
      ca_resize = \<lambda>_ _ _ _ w. (Inl DeadlineErr, w),
      ca_close = \<lambda>_ _ _ w. (Inl ClosedErr, w),
      ca_pointer = \<lambda>_ _ w. (Inr (), w),
      ca_key = \<lambda>_ _ w. (Inr (), w),
      ca_authorize = \<lambda>_ w. (Inr 2, w),
      ca_revision = \<lambda>_. 7,
      ca_frames = \<lambda>w. case w of [] \<Rightarrow> (None, []) | f # fs \<Rightarrow> (Some f, fs),
      ca_plane = Some (\<lambda>_ w. (Inr demo_picture, w)),
      ca_write = \<lambda>_ _ w. (None, w)\<rparr>"

definition demo_agent :: agent_options where
  "demo_agent = new_agent
     \<lparr>ao_socket = [], ao_control_uid = 1000, ao_control_dir = [], ao_export_dir = [], ao_setup_timeout = 0\<rparr>"

definition demo_codec :: agent_codec where
  "demo_codec =
     \<lparr>ac_request = \<lambda>p. Inr (p, []), ac_params = \<lambda>_. Inl ''bad'', ac_reply = \<lambda>r. Inr (dec_nat (unat (rp_revision r)))\<rparr>"

definition quiet_world :: "frame list \<Rightarrow> frame list agent_world" where
  "quiet_world q = \<lparr>aw_world = q, aw_calls = [], aw_files = []\<rparr>"

definition demo_absolute :: "string \<Rightarrow> string + string" where
  "demo_absolute p = (if is_abs p then Inr (path_clean p) else Inl ''getwd'')"


definition capture_params :: params where
  "capture_params = no_params\<lparr>p_path := ''shots/one.png''\<rparr>"

lemma demo_captured:
  "isl (fst (perform demo_controller id demo_absolute demo_agent 1 op_capture capture_params (quiet_world []))) = False"
  by code_simp

theorem agent_capture_evidence_witness:
  "\<exists>rep aw' f. perform demo_controller id demo_absolute demo_agent 1 op_capture capture_params (quiet_world []) =
      (Inr rep, aw') \<and> rp_frame rep = Some f \<and> path_below ''/run/wlvision/export'' (fr_path f) \<and>
      aw_files aw' = [(fr_path f, ''png'')] \<and> fr_digest f = digest_text ''png''"
proof -
  obtain rep aw' where h: "perform demo_controller id demo_absolute demo_agent 1 op_capture capture_params
      (quiet_world []) = (Inr rep, aw')"
    using demo_captured by (metis isl_def prod.collapse sum.collapse(2))
  have dir: "demo_absolute (ao_export_dir demo_agent) = Inr ''/run/wlvision/export''" by code_simp
  have "\<forall>p base. demo_absolute p = Inr base \<longrightarrow> is_abs base"
    by (auto simp: demo_absolute_def split: if_splits)
  from agent_capture_evidence [OF h this] obtain base fm request_id w1 plane f where
      "demo_absolute (ao_export_dir demo_agent) = Inr base" "path_below base (fr_path f)"
      "ca_plane demo_controller = Some plane" "fst (plane 1 w1) = Inr fm" "rp_frame rep = Some f"
      "fr_digest f = digest_text (id (fm_png fm))"
      "aw_files aw' = aw_files (quiet_world []) @ [(fr_path f, fm_png fm)]"
    unfolding simp_thms if_False by blast
  moreover from this have "fm_png fm = ''png''" by (auto simp: demo_controller_def demo_picture_def)
  ultimately have "rp_frame rep = Some f \<and> path_below ''/run/wlvision/export'' (fr_path f) \<and>
      aw_files aw' = [(fr_path f, ''png'')] \<and> fr_digest f = digest_text ''png''"
    using dir by (simp add: quiet_world_def)
  then show ?thesis using h by blast
qed

text \<open>
  The frame channel carries an event for every repaint, oldest first, and only a capture takes
  one. A capture with events waiting reports the oldest of them as its own: here the picture
  that request 2 took is reported as the frame of request 1.
\<close>

lemma stale_frame_reported:
  "map_option (\<lambda>f. (fr_capture_request_id f, fr_sequence f))
     (case fst (perform demo_controller id demo_absolute demo_agent 1 op_capture capture_params
        (quiet_world [\<lparr>fm_capture_request_id = 1, fm_sequence = 5\<rparr>, \<lparr>fm_capture_request_id = 2, fm_sequence = 9\<rparr>])) of
        Inl _ \<Rightarrow> None | Inr rep \<Rightarrow> rp_frame rep) = Some (1, 5)"
  by code_simp

text \<open>
  An identity that cannot be read becomes 0, which turns the check of the caller's identity
  off: a connection of any user reaches the handler.
\<close>

lemma unreadable_uid_serves_anyone:
  assumes "fst (read_message s) = Inr request"
  shows "control_uid_from_env ''nobody'' = 0 \<and>
    handle_conn \<lparr>cf_path = agent_socket, cf_expected_uid = control_uid_from_env ''nobody'', cf_dir_mode = 0,
      cf_socket_mode = 0\<rparr> rc h peer s w x =
    (case h request x of
       (Inl e, x1) \<Rightarrow> (respond rc (failure_response (failure_from_error e)) w, x1)
     | (Inr p, x1) \<Rightarrow> (respond rc (payload_response p) w, x1))"
proof -
  have "control_uid_from_env ''nobody'' = 0" by (simp add: control_uid_from_env_def parse_nat_def)
  then show ?thesis using assms by (simp add: handle_conn_def)
qed

end
