(* ===== verification/Cli_Flags.thy ===== *)
theory Cli_Flags
  imports Numbers Wire Results Image_Manifest
begin

text \<open>
  Command lines of the host command: what the sources use of the standard packages \<open>flag\<close>
  and \<open>strconv\<close>, and the flag values \<open>cmd/wlvision/main.go\<close> defines itself (sizes,
  durations, octal modes, repeated settings). A flag set is a list of names with the test
  its \<open>Set\<close> makes; parsing returns the assignments made, in order, and either the
  arguments left over or why it stopped, because a command names the session it already
  read when a later flag is wrong. The text of a duration and of a float is read by
  \<open>time.ParseDuration\<close> and \<open>strconv.ParseFloat\<close>, which are parameters.
\<close>

section \<open>Integers in the base their prefix names\<close>

text \<open>
  \<open>flag\<close> reads every integer with base 0: a prefix chooses the base, and underscores may
  stand between digits. \<open>underscore_scan\<close> is the scan that allows them; its state says
  whether the last character was a digit (or the prefix), an underscore, or something else.
\<close>

datatype seen = SeenStart | SeenDigit | SeenUnderscore | SeenOther

definition hex_letter :: "char \<Rightarrow> bool" where
  "hex_letter c \<longleftrightarrow> (let l = of_char (lower_char c) in (97::nat) \<le> l \<and> l \<le> 102)"

fun underscore_scan :: "bool \<Rightarrow> seen \<Rightarrow> string \<Rightarrow> bool" where
  "underscore_scan hex saw [] \<longleftrightarrow> saw \<noteq> SeenUnderscore"
| "underscore_scan hex saw (c # s) \<longleftrightarrow>
     (if is_digit c \<or> (hex \<and> hex_letter c) then underscore_scan hex SeenDigit s
      else if c = CHR ''_'' then saw = SeenDigit \<and> underscore_scan hex SeenUnderscore s
      else saw \<noteq> SeenUnderscore \<and> underscore_scan hex SeenOther s)"

definition has_base_prefix :: "string \<Rightarrow> bool" where
  "has_base_prefix s \<longleftrightarrow> 2 \<le> length s \<and> s ! 0 = CHR ''0'' \<and> lower_char (s ! 1) \<in> set ''box''"

definition underscore_ok :: "string \<Rightarrow> bool" where
  "underscore_ok s =
     (let t = (if s \<noteq> [] \<and> (hd s = CHR ''-'' \<or> hd s = CHR ''+'') then tl s else s)
      in if has_base_prefix t then underscore_scan (lower_char (t ! 1) = CHR ''x'') SeenDigit (drop 2 t)
         else underscore_scan False SeenStart t)"

definition based_digit :: "char \<Rightarrow> nat option" where
  "based_digit c =
     (let l = lower_char c
      in if is_digit c then Some (of_char c - 48)
         else if is_lower l then Some (of_char l - 97 + 10) else None)"

text \<open>The value of the digits, and whether an underscore was among them.\<close>

fun based_value :: "nat \<Rightarrow> nat \<Rightarrow> bool \<Rightarrow> string \<Rightarrow> (nat \<times> bool) option" where
  "based_value base acc joined [] = Some (acc, joined)"
| "based_value base acc joined (c # s) =
     (if c = CHR ''_'' then based_value base acc True s
      else case based_digit c of
             None \<Rightarrow> None
           | Some d \<Rightarrow> if base \<le> d then None else based_value base (acc * base + d) joined s)"

definition split_base :: "string \<Rightarrow> nat \<times> string" where
  "split_base s =
     (if s \<noteq> [] \<and> hd s = CHR ''0'' then
        (if 3 \<le> length s \<and> lower_char (s ! 1) = CHR ''b'' then (2, drop 2 s)
         else if 3 \<le> length s \<and> lower_char (s ! 1) = CHR ''o'' then (8, drop 2 s)
         else if 3 \<le> length s \<and> lower_char (s ! 1) = CHR ''x'' then (16, drop 2 s)
         else (8, tl s))
      else (10, s))"

definition parse_uint :: "string \<Rightarrow> nat option" where
  "parse_uint s =
     (if s = [] then None
      else (case split_base s of
              (base, digits) \<Rightarrow>
                (case based_value base 0 False digits of
                   None \<Rightarrow> None
                 | Some (n, joined) \<Rightarrow>
                     if 2 ^ 64 \<le> n then None else if joined \<and> \<not> underscore_ok s then None else Some n)))"

definition parse_int :: "string \<Rightarrow> int option" where
  "parse_int s =
     (if s = [] then None
      else
        let neg = (hd s = CHR ''-'');
            digits = (if neg \<or> hd s = CHR ''+'' then tl s else s)
        in case parse_uint digits of
             None \<Rightarrow> None
           | Some n \<Rightarrow>
               if \<not> neg \<and> 2 ^ 63 \<le> n then None
               else if neg \<and> 2 ^ 63 < n then None
               else Some (if neg then - int n else int n))"

definition parse_bool :: "string \<Rightarrow> bool option" where
  "parse_bool s =
     (if s \<in> {''1'', ''t'', ''T'', ''true'', ''TRUE'', ''True''} then Some True
      else if s \<in> {''0'', ''f'', ''F'', ''false'', ''FALSE'', ''False''} then Some False
      else None)"

section \<open>The values of the program's own flags\<close>

definition size_multiplier :: "char \<Rightarrow> int option" where
  "size_multiplier c =
     (if c = CHR ''k'' then Some (2 ^ 10) else if c = CHR ''m'' then Some (2 ^ 20)
      else if c = CHR ''g'' then Some (2 ^ 30) else None)"

text \<open>The largest \<open>int64\<close> bounds the product, so the multiplication does not wrap.\<close>

definition parse_size :: "string \<Rightarrow> int option" where
  "parse_size s =
     (let v = trim_space (map lower_char s)
      in if v = [] then None
         else
           let (m, digits) = (case size_multiplier (last v) of Some k \<Rightarrow> (k, butlast v) | None \<Rightarrow> (1, v))
           in case atoi digits of
                None \<Rightarrow> None
              | Some count \<Rightarrow>
                  if count < 0 then None
                  else if (2 ^ 63 - 1) div m < count then None
                  else Some (count * m))"

definition trim_prefix :: "string \<Rightarrow> string \<Rightarrow> string" where
  "trim_prefix p s = (if has_prefix s p then drop (length p) s else s)"

definition octal_mode :: "string \<Rightarrow> u32 option" where
  "octal_mode s =
     (case parse_octal (trim_prefix ''0O'' (trim_prefix ''0o'' (trim_space s))) of
        None \<Rightarrow> None
      | Some m \<Rightarrow> if 4095 < m then None else Some m)"

definition string_list_ok :: "string \<Rightarrow> bool" where
  "string_list_ok s \<longleftrightarrow> CHR ''='' \<in> set s"

definition flag_duration :: "(string \<Rightarrow> int option) \<Rightarrow> string \<Rightarrow> int option" where
  "flag_duration parse s =
     (case parse s of None \<Rightarrow> None | Some d \<Rightarrow> if d < 0 then None else Some d)"

section \<open>Parsing\<close>

datatype flag_kind = BoolFlag | ValueFlag "string \<Rightarrow> bool"

type_synonym flag_set = "(string \<times> flag_kind) list"

datatype flag_error =
    BadSyntax string | NotDefined string | HelpRequested | NeedsArgument string | BadValue string string

text \<open>What one argument is: the end of the flags, the terminator, or a flag with its inline value.\<close>

datatype word_kind = Positional | Terminator | Malformed | FlagWord string "string option"

fun split_value :: "string \<Rightarrow> string \<times> string option" where
  "split_value [] = ([], None)"
| "split_value (c # s) =
     (if c = CHR ''='' then ([], Some s) else (case split_value s of (n, v) \<Rightarrow> (c # n, v)))"

definition word_of :: "string \<Rightarrow> word_kind" where
  "word_of s =
     (if length s < 2 \<or> hd s \<noteq> CHR ''-'' then Positional
      else if s = ''--'' then Terminator
      else
        let n = (if s ! 1 = CHR ''-'' then drop 2 s else drop 1 s)
        in if n = [] \<or> hd n = CHR ''-'' \<or> hd n = CHR ''='' then Malformed
           else (case split_value n of (name, v) \<Rightarrow> FlagWord name v))"

type_synonym assignments = "(string \<times> string) list"

definition undefined_flag :: "string \<Rightarrow> flag_error" where
  "undefined_flag name = (if name = ''help'' \<or> name = ''h'' then HelpRequested else NotDefined name)"

function parse_flags ::
  "flag_set \<Rightarrow> assignments \<Rightarrow> string list \<Rightarrow> assignments \<times> (flag_error + string list)" where
  "parse_flags fl acc [] = (acc, Inr [])"
| "parse_flags fl acc (s # args) =
     (case word_of s of
        Positional \<Rightarrow> (acc, Inr (s # args))
      | Terminator \<Rightarrow> (acc, Inr args)
      | Malformed \<Rightarrow> (acc, Inl (BadSyntax s))
      | FlagWord name v \<Rightarrow>
          (case map_of fl name of
             None \<Rightarrow> (acc, Inl (undefined_flag name))
           | Some BoolFlag \<Rightarrow>
               (case v of
                  None \<Rightarrow> parse_flags fl (acc @ [(name, ''true'')]) args
                | Some x \<Rightarrow>
                    if parse_bool x = None then (acc, Inl (BadValue name x))
                    else parse_flags fl (acc @ [(name, x)]) args)
           | Some (ValueFlag ok) \<Rightarrow>
               (case v of
                  Some x \<Rightarrow>
                    if ok x then parse_flags fl (acc @ [(name, x)]) args else (acc, Inl (BadValue name x))
                | None \<Rightarrow>
                    (case args of
                       [] \<Rightarrow> (acc, Inl (NeedsArgument name))
                     | x # rest \<Rightarrow>
                         if ok x then parse_flags fl (acc @ [(name, x)]) rest
                         else (acc, Inl (BadValue name x))))))"
  by pat_completeness auto
termination by (relation "measure (\<lambda>(fl, acc, args). length args)") auto

declare parse_flags.simps(2) [simp del]

section \<open>Reading the assignments\<close>

definition value_of :: "string \<Rightarrow> assignments \<Rightarrow> string option" where
  "value_of name ps = map_of (rev ps) name"

definition given :: "string \<Rightarrow> assignments \<Rightarrow> bool" where
  "given name ps \<longleftrightarrow> name \<in> set (map fst ps)"

definition read_flag :: "(string \<Rightarrow> 'a option) \<Rightarrow> 'a \<Rightarrow> string \<Rightarrow> assignments \<Rightarrow> 'a" where
  "read_flag parse fallback name ps =
     (case value_of name ps of
        None \<Rightarrow> fallback
      | Some s \<Rightarrow> (case parse s of None \<Rightarrow> fallback | Some x \<Rightarrow> x))"

definition text_flag :: "string \<Rightarrow> assignments \<Rightarrow> string" where
  "text_flag = read_flag Some []"

definition bool_flag :: "string \<Rightarrow> assignments \<Rightarrow> bool" where
  "bool_flag = read_flag parse_bool False"

definition int_flag :: "int \<Rightarrow> string \<Rightarrow> assignments \<Rightarrow> int" where
  "int_flag = read_flag parse_int"

definition uint_flag :: "string \<Rightarrow> assignments \<Rightarrow> nat" where
  "uint_flag = read_flag parse_uint 0"

definition size_flag :: "string \<Rightarrow> assignments \<Rightarrow> int" where
  "size_flag = read_flag parse_size 0"

definition mode_flag :: "string \<Rightarrow> assignments \<Rightarrow> u32" where
  "mode_flag = read_flag octal_mode 0"

definition list_flag :: "string \<Rightarrow> assignments \<Rightarrow> string list" where
  "list_flag name ps = map snd (filter (\<lambda>(n, v). n = name) ps)"

definition duration_flag :: "(string \<Rightarrow> int option) \<Rightarrow> string \<Rightarrow> assignments \<Rightarrow> int" where
  "duration_flag parse = read_flag (flag_duration parse) 0"

definition float_flag :: "(string \<Rightarrow> f64 option) \<Rightarrow> f64 \<Rightarrow> string \<Rightarrow> assignments \<Rightarrow> f64" where
  "float_flag parse fallback = read_flag parse fallback"

abbreviation text_value :: flag_kind where "text_value \<equiv> ValueFlag (\<lambda>_. True)"
abbreviation int_value :: flag_kind where "int_value \<equiv> ValueFlag (\<lambda>s. parse_int s \<noteq> None)"
abbreviation uint_value :: flag_kind where "uint_value \<equiv> ValueFlag (\<lambda>s. parse_uint s \<noteq> None)"
abbreviation size_value :: flag_kind where "size_value \<equiv> ValueFlag (\<lambda>s. parse_size s \<noteq> None)"
abbreviation mode_value :: flag_kind where "mode_value \<equiv> ValueFlag (\<lambda>s. octal_mode s \<noteq> None)"
abbreviation list_value :: flag_kind where "list_value \<equiv> ValueFlag string_list_ok"

abbreviation duration_value :: "(string \<Rightarrow> int option) \<Rightarrow> flag_kind" where
  "duration_value parse \<equiv> ValueFlag (\<lambda>s. flag_duration parse s \<noteq> None)"

abbreviation float_value :: "(string \<Rightarrow> f64 option) \<Rightarrow> flag_kind" where
  "float_value parse \<equiv> ValueFlag (\<lambda>s. parse s \<noteq> None)"

section \<open>Facts\<close>

text \<open>
  Whatever follows the terminator is left over as it stands: no argument of an application
  is ever taken for a flag of the command.
\<close>

lemma parse_flags_terminator:
  assumes "parse_flags fl acc args = (ps, Inr [])" and "\<forall>s \<in> set args. s \<noteq> ''--''"
  shows "parse_flags fl acc (args @ ''--'' # argv) = (ps, Inr argv)"
  using assms
proof (induction fl acc args rule: parse_flags.induct)
  case (1 fl acc)
  then show ?case by (simp add: parse_flags.simps(2) word_of_def)
next
  case (2 fl acc s args)
  have later: "\<forall>x \<in> set args. x \<noteq> ''--''" using "2.prems"(2) by simp
  note run = "2.prems"(1) [unfolded parse_flags.simps(2)]
  show ?case
  proof (cases "word_of s")
    case Positional
    then show ?thesis using run by simp
  next
    case Terminator
    then have "s = ''--''" by (auto simp: word_of_def Let_def split: if_splits prod.splits)
    then show ?thesis using "2.prems"(2) by simp
  next
    case Malformed
    then show ?thesis using run by simp
  next
    case (FlagWord name v)
    then obtain k where k: "map_of fl name = Some k" using run by (cases "map_of fl name") auto
    show ?thesis
    proof (cases k)
      case BoolFlag
      then show ?thesis
        using run "2.IH"(1,2) [OF FlagWord k] later FlagWord k
        by (cases v) (auto simp: parse_flags.simps(2) split: if_splits)
    next
      case (ValueFlag ok)
      show ?thesis
      proof (cases v)
        case None
        then obtain x rest where x: "args = x # rest" "ok x"
          using run FlagWord k ValueFlag by (auto split: list.splits if_splits)
        then show ?thesis
          using run "2.IH"(3) [OF FlagWord k ValueFlag None x] later FlagWord k ValueFlag None
          by (simp add: parse_flags.simps(2))
      next
        case (Some x)
        then show ?thesis
          using run "2.IH"(4) [OF FlagWord k ValueFlag Some] later FlagWord k ValueFlag
          by (auto simp: parse_flags.simps(2) split: if_splits)
      qed
    qed
  qed
qed

text \<open>What a flag accepted fits the machine type it is stored in.\<close>

lemma parse_uint_bound: "parse_uint s = Some n \<Longrightarrow> n < 2 ^ 64"
  by (auto simp: parse_uint_def split: if_splits prod.splits option.splits)

lemma parse_int_bounds: "parse_int s = Some i \<Longrightarrow> - (2 ^ 63) \<le> i \<and> i < 2 ^ 63"
  by (auto simp: parse_int_def Let_def split: if_splits option.splits)

lemma div_bound: "0 < m \<Longrightarrow> c \<le> k div m \<Longrightarrow> c * m \<le> (k :: int)"
  using mult_right_mono [of c "k div m" m] div_mult_mod_eq [of k m] pos_mod_sign [of m k] by linarith

lemma parse_size_bounds:
  assumes "parse_size s = Some n" shows "0 \<le> n \<and> n < 2 ^ 63"
proof -
  define v where "v = trim_space (map lower_char s)"
  define md where "md = (case size_multiplier (last v) of Some k \<Rightarrow> (k, butlast v) | None \<Rightarrow> (1, v))"
  have m: "0 < fst md"
    by (auto simp: md_def size_multiplier_def split: option.split if_splits)
  obtain c where c: "0 \<le> c" "c \<le> (2 ^ 63 - 1) div fst md" "n = c * fst md"
    using assms
    by (cases "atoi (snd md)") (simp_all add: parse_size_def v_def [symmetric] md_def [symmetric] Let_def
        case_prod_beta not_less split: if_splits)
  have "c * fst md \<le> 2 ^ 63 - 1" by (rule div_bound [OF m c(2)])
  then show ?thesis using c m by simp
qed

lemma octal_mode_bound: "octal_mode s = Some m \<Longrightarrow> m \<le> 4095"
  by (auto simp: octal_mode_def split: option.splits if_splits)

text \<open>The two prefixes are trimmed one after the other, so both together are accepted.\<close>

lemma doubled_prefix_accepted: "octal_mode ''0o0O755'' = Some 493"
  by (simp add: octal_mode_def trim_prefix_def trim_space_def is_space_def has_prefix_def parse_octal_def
      parse_nat_def Let_def)

end
