(* ===== verification/Call.thy ===== *)
theory Call
  imports Cli_Flags Session_Agent Rpc
begin

text \<open>
  The command that carries one request into a session (\<open>cmd/wlvision-call/main.go\<close>): it
  reads its flags, exchanges one request with the resident controller over its socket, and
  prints the reply, or one failure document on standard error. Reading and writing JSON are
  parameters; an error comes with whether it is the context's own (a deadline or a
  cancellation), which decides its code when it has none.
\<close>

section \<open>The command\<close>

definition call_default_timeout :: int where
  "call_default_timeout = 30 * second"

datatype call_out =
    ReplyLine string
  | FailureDocument "unit envelope"
  | ErrorLine string
  | FlagUsage

record 'w call_env =
  ce_duration :: "string \<Rightarrow> int option"
  ce_valid_json :: "string \<Rightarrow> bool"
  ce_request :: "string \<Rightarrow> string \<Rightarrow> string + string"
  ce_dial :: "int \<Rightarrow> string \<Rightarrow> 'w \<Rightarrow> (goerr \<times> bool) option \<times> 'w"
  ce_exchange :: "int \<Rightarrow> string \<Rightarrow> 'w \<Rightarrow> (goerr \<times> bool + string) \<times> 'w"
  ce_close :: "'w \<Rightarrow> 'w"
  ce_broken :: "call_out \<Rightarrow> string option"

definition call_failure :: "string \<Rightarrow> goerr \<times> bool \<Rightarrow> failure" where
  "call_failure op x =
     (case fst x of
        Typed f \<Rightarrow> f
      | _ \<Rightarrow> new_failure (if snd x then WaitTimeout else SessionNotReady) op ''%v'')"

definition report_call_failure :: "'w call_env \<Rightarrow> failure \<Rightarrow> nat \<times> call_out list" where
  "report_call_failure ce f =
     (let doc = FailureDocument (env_Fail (f_operation f) [] (Some f))
      in case ce_broken ce doc of
           Some err \<Rightarrow> (1, [ErrorLine (''wlvision-call: '' @ err)])
         | None \<Rightarrow> (exit_code (f_code f), [doc]))"

definition report_call_usage :: "'w call_env \<Rightarrow> string \<Rightarrow> nat \<times> call_out list" where
  "report_call_usage ce message = report_call_failure ce (new_failure UsageError ''call'' message)"

definition call_flags :: "'w call_env \<Rightarrow> flag_set" where
  "call_flags ce =
     [(''socket'', text_value), (''params'', text_value),
      (''timeout'', ValueFlag (\<lambda>s. ce_duration ce s \<noteq> None))]"

text \<open>The connection is closed on every way out once it was opened.\<close>

definition call_exchange ::
  "'w call_env \<Rightarrow> string \<Rightarrow> int \<Rightarrow> string \<Rightarrow> string \<Rightarrow> 'w \<Rightarrow> (nat \<times> call_out list) \<times> 'w" where
  "call_exchange ce op timeout socket encoded w =
     (case ce_dial ce timeout socket w of
        (Some x, w1) \<Rightarrow> (report_call_failure ce (call_failure op x), w1)
      | (None, w1) \<Rightarrow>
          (case ce_exchange ce timeout encoded w1 of
             (Inl x, w2) \<Rightarrow> (report_call_failure ce (call_failure op x), ce_close ce w2)
           | (Inr rep, w2) \<Rightarrow>
               (case ce_broken ce (ReplyLine rep) of
                  Some err \<Rightarrow>
                    (report_call_failure ce (new_failure SessionNotReady op ''cannot write the reply: %v''),
                     ce_close ce w2)
                | None \<Rightarrow> ((0, [ReplyLine rep]), ce_close ce w2))))"

text \<open>
  The flag set prints its own usage text beside the failure document when it cannot read the
  command line, on the same stream.
\<close>

definition call_command :: "'w call_env \<Rightarrow> string list \<Rightarrow> 'w \<Rightarrow> (nat \<times> call_out list) \<times> 'w" where
  "call_command ce args w =
     (case parse_flags (call_flags ce) [] args of
        (_, Inl err) \<Rightarrow> (apsnd (Cons FlagUsage) (report_call_usage ce ''%v''), w)
      | (ps, Inr others) \<Rightarrow>
          let op = (case others of [] \<Rightarrow> [] | a # _ \<Rightarrow> a);
              params = text_flag ''params'' ps;
              socket = (if given ''socket'' ps then text_flag ''socket'' ps
                        else runtime_dir @ ''/control/agent.sock'');
              timeout = (if given ''timeout'' ps then read_flag (ce_duration ce) 0 ''timeout'' ps
                         else call_default_timeout) in
          if op = [] then (report_call_usage ce ''an operation is required'', w)
          else if 1 < length others then
            (report_call_usage ce ''exactly one operation is expected, got %d arguments'', w)
          else if params \<noteq> [] \<and> \<not> ce_valid_json ce params then
            (report_call_usage ce ''the arguments are not valid JSON'', w)
          else
            (case ce_request ce op params of
               Inl err \<Rightarrow>
                 (report_call_failure ce (new_failure UsageError op ''cannot encode the request: %v''), w)
             | Inr encoded \<Rightarrow> call_exchange ce op timeout socket encoded w))"

section \<open>Facts\<close>

text \<open>
  The arguments the session service composes are read back as it meant them, whatever the
  text of the parameters is, as long as the operation does not look like a flag.
\<close>

definition call_argv :: "string \<Rightarrow> string \<Rightarrow> string list" where
  "call_argv params op = [''--socket'', runtime_dir @ ''/control/agent.sock'', ''--params'', params, op]"

lemma call_argv_parses:
  assumes "op \<noteq> []" and "hd op \<noteq> CHR ''-''"
  shows "parse_flags (call_flags ce) [] (call_argv params op) =
    ([(''socket'', runtime_dir @ ''/control/agent.sock''), (''params'', params)], Inr [op])"
proof -
  have "word_of ''--socket'' = FlagWord ''socket'' None" "word_of ''--params'' = FlagWord ''params'' None"
    "word_of op = Positional"
    using assms by (simp_all add: word_of_def)
  then show ?thesis by (simp add: call_argv_def call_flags_def parse_flags.simps(2))
qed

lemma call_failure_sel [simp]:
  "call_failure op (Typed f, late) = f"
  "f_code (call_failure op (PlainErr t, late)) = (if late then WaitTimeout else SessionNotReady)"
  by (simp_all add: call_failure_def)

end
