(* ===== verification/Cli.thy ===== *)
theory Cli
  imports Complex_Main Cli_Flags Session_Agent Input_Service Capture_Session Export
begin

text \<open>
  The host command (\<open>cmd/wlvision/main.go\<close>): one command line, one operation of the session
  service, one envelope, one exit status. A command is a function of the session system that
  returns its verdict; \<open>conclude\<close> turns a verdict into what is written and the exit status.
  A command may run forever, because waiting for a session may, so commands are partial:
  \<open>None\<close> is a command that does not return. The application's own output goes straight from
  the engine to the streams and is not part of a verdict.
\<close>

section \<open>What a command reports\<close>

record key_result =
  ky_keycode :: u32
  ky_name :: string
  ky_state :: string
  ky_tapped :: bool

record wait_view =
  wv_kind :: string
  wv_duration :: int
  wv_probes :: nat
  wv_observations :: nat
  wv_revision :: u64
  wv_frame :: "frame_summary option"
  wv_windows :: "wstate option"
  wv_exit_code :: "int option"

record image_result =
  im_manifest :: string
  im_tag :: string
  im_image_id :: string
  im_output :: string

datatype command_view =
    DoctorView doctor_report
  | CreateView sess_record string
  | ListView "sess_record list" "(string \<times> anomaly) list"
  | InspectView sess_record "(string \<times> anomaly) list"
  | RecordView sess_record
  | PurgeView "string list" string
  | PayloadView payload
  | LogsView int string
  | WindowsView wstate
  | ResizeView resize_result
  | ClickView click_result
  | PointerView string
  | ScrollView nat f64
  | KeyView key_result
  | TypeView string nat
  | CaptureView capture_result
  | BurstView burst_view
  | WaitView wait_view
  | ImageView image_result

text \<open>
  How a command ends: \<open>success\<close>, \<open>fail\<close> with its fallback code, \<open>usageError\<close>. \<open>Printed\<close>
  is text the command wrote to standard output before.
\<close>

datatype verdict =
    Done string string u64 command_view
  | Refused string string goerr code
  | Misused string string string
  | Printed string verdict

type_synonym 'w step = "'w sys \<Rightarrow> (verdict \<times> 'w sys) option"

definition failure_for :: "string \<Rightarrow> string \<Rightarrow> goerr \<Rightarrow> code \<Rightarrow> failure" where
  "failure_for op sid err fallback =
     (case err of
        Typed f \<Rightarrow>
          (let f1 = (if f_operation f = [] then f\<lparr>f_operation := op\<rparr> else f)
           in if f_session f1 = [] then f1\<lparr>f_session := sid\<rparr> else f1)
      | _ \<Rightarrow> new_failure fallback op ''%v'')"

section \<open>Envelopes and exit statuses\<close>

text \<open>What is written, in order. \<open>broken\<close> is the error of rendering a document, if it has one.\<close>

datatype emitted =
    StdoutJson "command_view envelope" | StdoutHuman "command_view envelope" | StderrHuman "command_view envelope"
  | StderrUsage | StderrText string | StdoutText string

type_synonym rendering = "emitted \<Rightarrow> string option"

definition cli_success :: "bool \<Rightarrow> rendering \<Rightarrow> string \<Rightarrow> string \<Rightarrow> u64 \<Rightarrow> command_view \<Rightarrow> nat \<times> emitted list" where
  "cli_success js broken op sid rv v =
     (let doc = (if js then StdoutJson (env_OK op sid rv v) else StdoutHuman (env_OK op sid rv v))
      in case broken doc of
           Some err \<Rightarrow> (1, [StderrText (''wlvision: '' @ err)])
         | None \<Rightarrow> (0, [doc]))"

definition cli_fail :: "bool \<Rightarrow> rendering \<Rightarrow> string \<Rightarrow> string \<Rightarrow> goerr \<Rightarrow> code \<Rightarrow> nat \<times> emitted list" where
  "cli_fail js broken op sid err fallback =
     (let f = failure_for op sid err fallback;
          doc = (if js then StdoutJson (env_Fail op sid (Some f)) else StderrHuman (env_Fail op sid (Some f)))
      in (exit_code (f_code f), if broken doc = None then [doc] else []))"

definition usage_error :: "bool \<Rightarrow> rendering \<Rightarrow> string \<Rightarrow> string \<Rightarrow> nat \<times> emitted list" where
  "usage_error js broken op sid =
     (let op1 = (if op = [] then ''wlvision'' else op);
          (st, outs) = cli_fail js broken op1 sid (Typed (new_failure UsageError op1 ''%v'')) UsageError
      in (st, StderrUsage # outs))"

fun conclude :: "bool \<Rightarrow> rendering \<Rightarrow> verdict \<Rightarrow> nat \<times> emitted list" where
  "conclude js broken (Done op sid rv v) = cli_success js broken op sid rv v"
| "conclude js broken (Refused op sid err fallback) = cli_fail js broken op sid err fallback"
| "conclude js broken (Misused op sid message) = usage_error js broken op sid"
| "conclude js broken (Printed txt v) =
     (let (st, outs) = conclude js broken v in (st, StdoutText txt # outs))"

section \<open>The context of a command\<close>

text \<open>
  The factory builds the service for an image and a readiness timeout, over an engine. The
  remaining fields are what the operations need: the clocks, the decoders, the texts of
  durations and floats, the keymap, and what the contexts with a deadline report.
\<close>

record 'w cli =
  cl_json :: bool
  cl_image :: string
  cl_factory :: "string \<Rightarrow> int \<Rightarrow> goerr + service \<times> 'w engine"
  cl_env :: "'w env"
  cl_codec :: codec
  cl_duration :: "string \<Rightarrow> int option"
  cl_float :: "string \<Rightarrow> f64 option"
  cl_encode :: "params \<Rightarrow> string option"
  cl_decode :: "string \<Rightarrow> reply option"
  cl_cancelled :: "int option \<Rightarrow> ctx \<Rightarrow> 'w \<Rightarrow> bool"
  cl_keymap :: "goerr + artifact"
  cl_round :: "rat \<Rightarrow> rat"
  cl_chunks :: "string \<Rightarrow> string list"

definition with_service ::
  "'w cli \<Rightarrow> int \<Rightarrow> string \<Rightarrow> string \<Rightarrow> (service \<Rightarrow> 'w engine \<Rightarrow> 'w step) \<Rightarrow> 'w step" where
  "with_service c ready op sid k s =
     (case cl_factory c (cl_image c) ready of
        Inl err \<Rightarrow> Some (Refused op sid err EngineUnavailable, s)
      | Inr (sv, en) \<Rightarrow> k sv en s)"

text \<open>The result of an operation becomes a verdict.\<close>

definition report ::
  "string \<Rightarrow> string \<Rightarrow> code \<Rightarrow> ('a \<Rightarrow> u64 \<times> command_view) \<Rightarrow> (goerr + 'a) \<times> 'w sys \<Rightarrow> (verdict \<times> 'w sys) option" where
  "report op sid fallback f x =
     Some (case fst x of
        Inl err \<Rightarrow> Refused op sid err fallback
      | Inr a \<Rightarrow> (case f a of (rv, v) \<Rightarrow> Done op sid rv v), snd x)"

text \<open>A Go pair of a value and an error.\<close>

definition either :: "('a \<times> goerr option) \<times> 's \<Rightarrow> (goerr + 'a) \<times> 's" where
  "either x = (case x of ((a, Some err), s) \<Rightarrow> (Inl err, s) | ((a, None), s) \<Rightarrow> (Inr a, s))"

definition recorded :: "sess_record \<Rightarrow> u64 \<times> command_view" where
  "recorded r = (r_revision r, RecordView r)"

text \<open>The checks the commands of \<open>main.go\<close> make in this order.\<close>

definition unexpected :: string where
  "unexpected = ''unexpected argument %q''"

definition session_required :: string where
  "session_required = ''--session is required''"

section \<open>The commands\<close>

definition cli_doctor :: "'w cli \<Rightarrow> string list \<Rightarrow> 'w step" where
  "cli_doctor c args s =
     (let op = ''doctor'' in
      case parse_flags [] [] args of
        (_, Inl err) \<Rightarrow> Some (Misused op [] ''%v'', s)
      | (_, Inr others) \<Rightarrow>
          if others \<noteq> [] then Some (Misused op [] unexpected, s)
          else with_service c 0 op []
            (\<lambda>sv en s. report op [] EngineUnavailable (\<lambda>d. (0, DoctorView d)) (doctor sv en (cl_env c) s)) s)"

definition create_flags :: "'w cli \<Rightarrow> flag_set" where
  "create_flags c =
     [(''session'', text_value), (''memory'', size_value), (''pids'', int_value), (''file-size'', size_value),
      (''open-files'', int_value), (''retention'', duration_value (cl_duration c)), (''wait'', BoolFlag)]"

definition create_limits :: "assignments \<Rightarrow> limits" where
  "create_limits ps =
     \<lparr>lim_memory_bytes = size_flag ''memory'' ps, lim_pids = int_flag 0 ''pids'' ps,
      lim_file_size_bytes = size_flag ''file-size'' ps, lim_open_files = int_flag 0 ''open-files'' ps\<rparr>"

definition create_and_wait ::
  "'w cli \<Rightarrow> string \<Rightarrow> assignments \<Rightarrow> service \<Rightarrow> 'w engine \<Rightarrow> 'w step" where
  "create_and_wait c i ps sv en s =
     (let op = ''session.create'' in
      case create_session sv en (cl_env c) i (create_limits ps)
             (duration_flag (cl_duration c) ''retention'' ps) s of
        ((_, Some err), s1) \<Rightarrow> Some (Refused op i err SessionNotReady, s1)
      | ((r, None), s1) \<Rightarrow>
          if bool_flag ''wait'' ps then
            (case start_session (cl_codec c) sv en (cl_env c) i s1 of
               None \<Rightarrow> None
             | Some x \<Rightarrow> report op i SessionNotReady (\<lambda>r. (r_revision r, CreateView r [])) (either x))
          else Some (Done op i (r_revision r)
                 (CreateView r ''session created in state creating; pass --wait to start it''), s1))"

definition session_create :: "'w cli \<Rightarrow> string list \<Rightarrow> 'w step" where
  "session_create c args s =
     (let op = ''session.create'' in
      case parse_flags (create_flags c) [] args of
        (ps, Inl err) \<Rightarrow> Some (Misused op (text_flag ''session'' ps) ''%v'', s)
      | (ps, Inr others) \<Rightarrow>
          let i = text_flag ''session'' ps in
          if others \<noteq> [] then Some (Misused op i unexpected, s)
          else if i = [] then Some (Misused op [] session_required, s)
          else if int_flag 0 ''pids'' ps < 0 \<or> int_flag 0 ''open-files'' ps < 0 then
            Some (Misused op i ''--pids and --open-files must not be negative'', s)
          else with_service c 0 op i (create_and_wait c i ps) s)"

definition session_list :: "'w cli \<Rightarrow> string list \<Rightarrow> 'w step" where
  "session_list c args s =
     (let op = ''session.list'' in
      case parse_flags [] [] args of
        (_, Inl err) \<Rightarrow> Some (Misused op [] ''%v'', s)
      | (_, Inr others) \<Rightarrow>
          if others \<noteq> [] then Some (Misused op [] unexpected, s)
          else with_service c 0 op []
            (\<lambda>sv en s. report op [] SessionNotReady (\<lambda>(rs, as). (0, ListView rs as))
               (list_sessions en (cl_env c) s)) s)"

text \<open>The flag set of the commands that take a session and nothing else.\<close>

definition only_session :: flag_set where
  "only_session = [(''session'', text_value)]"

definition session_inspect :: "'w cli \<Rightarrow> string list \<Rightarrow> 'w step" where
  "session_inspect c args s =
     (let op = ''session.inspect'' in
      case parse_flags only_session [] args of
        (ps, Inl err) \<Rightarrow> Some (Misused op (text_flag ''session'' ps) ''%v'', s)
      | (ps, Inr others) \<Rightarrow>
          let i = text_flag ''session'' ps in
          if others \<noteq> [] then Some (Misused op i unexpected, s)
          else if i = [] then Some (Misused op [] session_required, s)
          else with_service c 0 op i
            (\<lambda>sv en s. report op i SessionNotReady (\<lambda>(r, as). (r_revision r, InspectView r as))
               (inspect en (cl_env c) i s)) s)"

definition session_close :: "'w cli \<Rightarrow> string list \<Rightarrow> 'w step" where
  "session_close c args s =
     (let op = ''session.close'' in
      case parse_flags (only_session @ [(''stop-timeout'', duration_value (cl_duration c))]) [] args of
        (ps, Inl err) \<Rightarrow> Some (Misused op (text_flag ''session'' ps) ''%v'', s)
      | (ps, Inr others) \<Rightarrow>
          let i = text_flag ''session'' ps in
          if others \<noteq> [] then Some (Misused op i unexpected, s)
          else if i = [] then Some (Misused op [] session_required, s)
          else with_service c 0 op i
            (\<lambda>sv en s. report op i SessionNotReady recorded
               (either (close_session sv en (cl_env c) i (duration_flag (cl_duration c) ''stop-timeout'' ps) s))) s)"

definition purge_message :: "string list \<Rightarrow> string" where
  "purge_message purged =
     (if purged = [] then ''nothing was past its retention deadline''
      else ''released '' @ dec_nat (length purged) @ '' session(s)'')"

definition session_purge :: "'w cli \<Rightarrow> string list \<Rightarrow> 'w step" where
  "session_purge c args s =
     (let op = ''session.purge'' in
      case parse_flags [] [] args of
        (_, Inl err) \<Rightarrow> Some (Misused op [] ''%v'', s)
      | (_, Inr others) \<Rightarrow>
          if others \<noteq> [] then Some (Misused op [] unexpected, s)
          else with_service c 0 op []
            (\<lambda>sv en s. report op [] SessionNotReady (\<lambda>ids. (0, PurgeView ids (purge_message ids)))
               (either (purge sv en (cl_env c) s))) s)"

definition cli_session :: "'w cli \<Rightarrow> string list \<Rightarrow> 'w step" where
  "cli_session c args s =
     (case args of
        [] \<Rightarrow> Some (Misused ''session'' [] ''a session subcommand is required'', s)
      | sub # rest \<Rightarrow>
          if sub = ''create'' then session_create c rest s
          else if sub = ''list'' then session_list c rest s
          else if sub = ''inspect'' then session_inspect c rest s
          else if sub = ''close'' then session_close c rest s
          else if sub = ''purge'' then session_purge c rest s
          else Some (Misused ''session'' [] ''unknown session subcommand %q'', s))"

text \<open>Everything left over is the application's command.\<close>

definition run_flags :: "'w cli \<Rightarrow> flag_set" where
  "run_flags c =
     [(''session'', text_value), (''ephemeral'', BoolFlag), (''workdir'', text_value), (''env'', list_value),
      (''ready-timeout'', duration_value (cl_duration c))]"

definition zero_limits :: limits where
  "zero_limits = \<lparr>lim_memory_bytes = 0, lim_pids = 0, lim_file_size_bytes = 0, lim_open_files = 0\<rparr>"

definition run_request_of :: "assignments \<Rightarrow> string list \<Rightarrow> run_request" where
  "run_request_of ps argv =
     \<lparr>rq_session = text_flag ''session'' ps, rq_limits = zero_limits, rq_argv = argv,
      rq_env = list_flag ''env'' ps, rq_workdir = text_flag ''workdir'' ps,
      rq_ephemeral = bool_flag ''ephemeral'' ps, rq_retention = 0\<rparr>"

definition run_application :: "'w cli \<Rightarrow> string list \<Rightarrow> 'w step" where
  "run_application c args s =
     (let op = ''run'' in
      case parse_flags (run_flags c) [] args of
        (ps, Inl err) \<Rightarrow> Some (Misused op (text_flag ''session'' ps) ''%v'', s)
      | (ps, Inr argv) \<Rightarrow>
          let i = text_flag ''session'' ps in
          if i = [] then Some (Misused op [] session_required, s)
          else if argv = [] then Some (Misused op i ''an application command is required after --'', s)
          else with_service c (duration_flag (cl_duration c) ''ready-timeout'' ps) op i
            (\<lambda>sv en s.
               case run_session (cl_codec c) sv en (cl_env c) (run_request_of ps argv) s of
                 None \<Rightarrow> None
               | Some x \<Rightarrow> report op i SessionNotReady recorded (either x)) s)"

text \<open>Where the application's standard output goes: with \<open>--json\<close> standard output is the envelope's.\<close>

datatype std_stream = ToStdout | ToStderr

definition application_stdout :: "bool \<Rightarrow> std_stream" where
  "application_stdout js = (if js then ToStderr else ToStdout)"

definition inject_flags :: flag_set where
  "inject_flags =
     [(''session'', text_value), (''binary'', text_value), (''bundle'', text_value), (''mode'', mode_value),
      (''max-bytes'', size_value), (''max-files'', int_value)]"

definition inject_request_of :: "assignments \<Rightarrow> inject_request" where
  "inject_request_of ps =
     (let bundle = text_flag ''bundle'' ps
      in \<lparr>ij_session = text_flag ''session'' ps, ij_kind = (if bundle \<noteq> [] then ''tar'' else ''binary''),
          ij_name = (if bundle \<noteq> [] then bundle else text_flag ''binary'' ps),
          ij_mode = unat (mode_flag ''mode'' ps), ij_max_bytes = size_flag ''max-bytes'' ps,
          ij_max_files = int_flag 0 ''max-files'' ps, ij_has_source = True\<rparr>)"

definition cli_inject :: "'w cli \<Rightarrow> string list \<Rightarrow> 'w step" where
  "cli_inject c args s =
     (let op = ''inject'' in
      case parse_flags inject_flags [] args of
        (ps, Inl err) \<Rightarrow> Some (Misused op (text_flag ''session'' ps) ''%v'', s)
      | (ps, Inr others) \<Rightarrow>
          let i = text_flag ''session'' ps; binary = text_flag ''binary'' ps; bundle = text_flag ''bundle'' ps in
          if others \<noteq> [] then Some (Misused op i unexpected, s)
          else if i = [] then Some (Misused op [] session_required, s)
          else if binary \<noteq> [] \<and> bundle \<noteq> [] then
            Some (Misused op i ''--binary and --bundle are mutually exclusive'', s)
          else if binary = [] \<and> bundle = [] then
            Some (Misused op i ''one of --binary or --bundle is required'', s)
          else if int_flag 0 ''max-files'' ps < 0 then
            Some (Misused op i ''--max-files must not be negative'', s)
          else with_service c 0 op i
            (\<lambda>sv en s. report op i SessionNotReady (\<lambda>p. (0, PayloadView p))
               (inject (cl_codec c) sv en (cl_env c) (inject_request_of ps) s)) s)"

text \<open>
  With \<open>--json\<close> the log is carried by the envelope; otherwise what the engine wrote is on
  standard output already, whether or not it failed afterwards.
\<close>

definition logs_with :: "'w cli \<Rightarrow> string \<Rightarrow> int \<Rightarrow> service \<Rightarrow> 'w engine \<Rightarrow> 'w step" where
  "logs_with c i n sv en s =
     (case session_logs en i n s of
        ((err, txt), s1) \<Rightarrow>
          (let v = (case err of
                      Some e \<Rightarrow> Refused ''logs'' i e SessionNotReady
                    | None \<Rightarrow> Done ''logs'' i 0 (LogsView n (if cl_json c then txt else [])))
           in Some (if cl_json c then v else Printed txt v, s1)))"

definition cli_logs :: "'w cli \<Rightarrow> string list \<Rightarrow> 'w step" where
  "cli_logs c args s =
     (let op = ''logs'' in
      case parse_flags (only_session @ [(''tail'', int_value)]) [] args of
        (ps, Inl err) \<Rightarrow> Some (Misused op (text_flag ''session'' ps) ''%v'', s)
      | (ps, Inr others) \<Rightarrow>
          let i = text_flag ''session'' ps; n = int_flag 0 ''tail'' ps in
          if others \<noteq> [] then Some (Misused op i unexpected, s)
          else if i = [] then Some (Misused op [] session_required, s)
          else if n < 0 then Some (Misused op i ''--tail must not be negative'', s)
          else with_service c 0 op i (logs_with c i n) s)"

section \<open>The service a command runs against\<close>

record globals =
  gl_json :: bool
  gl_state_root :: string
  gl_image :: string
  gl_context :: string
  gl_engine :: string

definition global_flags :: flag_set where
  "global_flags =
     [(''json'', BoolFlag), (''state-root'', text_value), (''image'', text_value), (''context'', text_value),
      (''engine'', text_value)]"

definition parse_globals :: "string list \<Rightarrow> globals \<times> (flag_error + string list)" where
  "parse_globals args =
     (case parse_flags global_flags [] args of
        (ps, r) \<Rightarrow>
          (\<lparr>gl_json = bool_flag ''json'' ps, gl_state_root = text_flag ''state-root'' ps,
            gl_image = text_flag ''image'' ps, gl_context = text_flag ''context'' ps,
            gl_engine = (if given ''engine'' ps then text_flag ''engine'' ps else ''docker'')\<rparr>, r))"

definition default_root :: "string \<Rightarrow> string + string \<Rightarrow> goerr + string" where
  "default_root state_home home =
     (if state_home \<noteq> [] then Inr (path_join state_home ''wlvision'')
      else case home of
             Inl err \<Rightarrow> Inl (PlainErr (''session: cannot locate the state directory: '' @ err))
           | Inr h \<Rightarrow> Inr (path_join h ''.local/state/wlvision''))"

definition open_store :: "(string \<Rightarrow> string option) \<Rightarrow> string \<Rightarrow> goerr + string" where
  "open_store mkdir base =
     (if base = [] then Inl (PlainErr ''session: a state root is required'')
      else case mkdir (path_join base ''sessions'') of
             Some err \<Rightarrow> Inl (PlainErr (''session: cannot create '' @ path_join base ''sessions'' @ '': '' @ err))
           | None \<Rightarrow> Inr base)"

definition choose_adapter :: "globals \<Rightarrow> goerr + adapter" where
  "choose_adapter g =
     (if gl_engine g = ''docker'' \<or> gl_engine g = [] then new_adapter KindDocker (gl_context g)
      else if gl_engine g = ''podman'' then new_adapter KindPodman (gl_context g)
      else Inl (usage ''wlvision'' ''--engine must be %s or %s, got %q''))"

text \<open>
  The production factory. \<open>engine_of\<close> runs an adapter through the command line of its
  engine; \<open>mkdir\<close> is \<open>os.MkdirAll\<close>.
\<close>

definition new_docker_service ::
  "string \<Rightarrow> string + string \<Rightarrow> (string \<Rightarrow> string option) \<Rightarrow> (adapter \<Rightarrow> 'w engine) \<Rightarrow> globals \<Rightarrow>
   string \<Rightarrow> int \<Rightarrow> goerr + service \<times> 'w engine" where
  "new_docker_service state_home home mkdir engine_of g img ready =
     (case (if gl_state_root g = [] then default_root state_home home else Inr (gl_state_root g)) of
        Inl err \<Rightarrow> Inl err
      | Inr base \<Rightarrow>
          (case open_store mkdir base of
             Inl err \<Rightarrow> Inl err
           | Inr _ \<Rightarrow>
               (case choose_adapter g of
                  Inl err \<Rightarrow> Inl err
                | Inr ad \<Rightarrow>
                    (case new_service img 0 0 0 ready 0 of
                       Inl err \<Rightarrow> Inl err
                     | Inr sv \<Rightarrow> Inr (sv, engine_of ad)))))"

end
