(* ===== verification/Cli_Input.thy ===== *)
theory Cli_Input
  imports Cli
begin

text \<open>
  The window and input commands of the host command (\<open>cmd/wlvision/interaction.go\<close>). Each
  reads its flags, makes one operation of the input service over the session's controller,
  and reports it. An unsigned flag is a 64-bit value; where the source narrows it to 32 bits
  the narrowing is written out.
\<close>

section \<open>The caller of one session\<close>

text \<open>
  A call goes through the session service to the resident controller; \<open>d\<close> is the deadline of
  the context it is made under, when the command sets one.
\<close>

definition session_caller ::
  "'w cli \<Rightarrow> service \<Rightarrow> 'w engine \<Rightarrow> int option \<Rightarrow> string \<Rightarrow> 'w sys caller" where
  "session_caller c sv en d i cx op ps s =
     call_controller (cl_codec c) (cl_decode c) (cl_cancelled c d cx) sv en i op (cl_encode c ps) s"

definition over_channel :: "('s chan \<Rightarrow> 'r \<times> 's chan) \<Rightarrow> 's \<Rightarrow> 'r \<times> 's" where
  "over_channel f s = (case f \<lparr>ch_world = s, ch_sent = []\<rparr> of (r, ch) \<Rightarrow> (r, ch_world ch))"

definition interact ::
  "'w cli \<Rightarrow> string \<Rightarrow> string \<Rightarrow> int option \<Rightarrow> code \<Rightarrow> ('a \<Rightarrow> u64 \<times> command_view) \<Rightarrow>
   ('w sys caller \<Rightarrow> 'w sys chan \<Rightarrow> (goerr + 'a) \<times> 'w sys chan) \<Rightarrow> 'w step" where
  "interact c op i d fallback f g =
     with_service c 0 op i
       (\<lambda>sv en s. report op i fallback f (over_channel (g (session_caller c sv en d i)) s))"

definition settled :: "goerr option \<times> 's \<Rightarrow> (goerr + unit) \<times> 's" where
  "settled x = ((case fst x of None \<Rightarrow> Inr () | Some err \<Rightarrow> Inl err), snd x)"

definition windowed :: "wstate \<Rightarrow> u64 \<times> command_view" where
  "windowed st = (ws_revision st, WindowsView st)"

section \<open>Shared flags\<close>

definition window_flags :: flag_set where
  "window_flags = [(''window'', text_value), (''revision'', uint_value)]"

definition window_target :: "assignments \<Rightarrow> target" where
  "window_target ps =
     \<lparr>tg_handle = text_flag ''window'' ps, tg_revision = of_nat (uint_flag ''revision'' ps)\<rparr>"

definition window_required :: string where
  "window_required = ''--window is required''"

text \<open>\<open>sessionArgs\<close> and then \<open>checkSessionArgs\<close>: the session and the assignments, or the verdict.\<close>

definition session_args :: "string \<Rightarrow> flag_set \<Rightarrow> string list \<Rightarrow> verdict + string \<times> assignments" where
  "session_args op extra args =
     (case parse_flags (only_session @ extra) [] args of
        (ps, Inl err) \<Rightarrow> Inl (Misused op (text_flag ''session'' ps) ''%v'')
      | (ps, Inr others) \<Rightarrow>
          let i = text_flag ''session'' ps in
          if i = [] then Inl (Misused op [] session_required)
          else if others \<noteq> [] then Inl (Misused op i unexpected)
          else Inr (i, ps))"

definition narrow :: "nat \<Rightarrow> u32" where
  "narrow n = of_nat n"

definition nan_flag :: "'w cli \<Rightarrow> string \<Rightarrow> assignments \<Rightarrow> f64" where
  "nan_flag c = float_flag (cl_float c) NaN"

section \<open>Window commands\<close>

definition cli_windows :: "'w cli \<Rightarrow> string list \<Rightarrow> 'w step" where
  "cli_windows c args s =
     (let op = ''windows'' in
      case session_args op [] args of
        Inl v \<Rightarrow> Some (v, s)
      | Inr (i, ps) \<Rightarrow> interact c op i None SessionNotReady windowed windows s)"

definition cli_activate :: "'w cli \<Rightarrow> string list \<Rightarrow> 'w step" where
  "cli_activate c args s =
     (let op = ''activate'' in
      case session_args op window_flags args of
        Inl v \<Rightarrow> Some (v, s)
      | Inr (i, ps) \<Rightarrow>
          if tg_handle (window_target ps) = [] then Some (Misused op i window_required, s)
          else interact c op i None SessionNotReady windowed (\<lambda>cl. activate cl (window_target ps)) s)"

definition point_flags :: "'w cli \<Rightarrow> flag_set" where
  "point_flags c = [(''x'', float_value (cl_float c)), (''y'', float_value (cl_float c))]"

definition cli_move :: "'w cli \<Rightarrow> string list \<Rightarrow> 'w step" where
  "cli_move c args s =
     (let op = ''move'' in
      case session_args op (window_flags @ point_flags c) args of
        Inl v \<Rightarrow> Some (v, s)
      | Inr (i, ps) \<Rightarrow>
          let x = nan_flag c ''x'' ps; y = nan_flag c ''y'' ps in
          if tg_handle (window_target ps) = [] then Some (Misused op i window_required, s)
          else if x = NaN \<or> y = NaN then Some (Misused op i ''--x and --y are required'', s)
          else interact c op i None SessionNotReady windowed
            (\<lambda>cl. move_window cl \<lparr>mv_target = window_target ps, mv_x = x, mv_y = y\<rparr>) s)"

definition resize_grace :: int where
  "resize_grace = 2 * second"

definition resize_flags :: "'w cli \<Rightarrow> flag_set" where
  "resize_flags c =
     window_flags @ [(''width'', uint_value), (''height'', uint_value),
       (''timeout'', duration_value (cl_duration c))]"

definition resize_request_of :: "'w cli \<Rightarrow> assignments \<Rightarrow> resize_request" where
  "resize_request_of c ps =
     (let timeout = duration_flag (cl_duration c) ''timeout'' ps
      in \<lparr>rz_target = window_target ps, rz_width = narrow (uint_flag ''width'' ps),
          rz_height = narrow (uint_flag ''height'' ps),
          rz_timeout_ms = (if timeout > 0 then of_int (timeout div millisecond) else 0)\<rparr>)"

definition resize_deadline :: "'w cli \<Rightarrow> assignments \<Rightarrow> int option" where
  "resize_deadline c ps =
     (let timeout = duration_flag (cl_duration c) ''timeout'' ps
      in if timeout > 0 then Some (wrap64 (timeout + resize_grace)) else None)"

definition max_uint32 :: nat where
  "max_uint32 = 4294967295"

definition cli_resize :: "'w cli \<Rightarrow> string list \<Rightarrow> 'w step" where
  "cli_resize c args s =
     (let op = ''resize'' in
      case session_args op (resize_flags c) args of
        Inl v \<Rightarrow> Some (v, s)
      | Inr (i, ps) \<Rightarrow>
          let width = uint_flag ''width'' ps; height = uint_flag ''height'' ps in
          if tg_handle (window_target ps) = [] then Some (Misused op i window_required, s)
          else if width = 0 \<or> height = 0 then
            Some (Misused op i ''--width and --height are required and must not be zero'', s)
          else if max_uint32 < width \<or> max_uint32 < height then
            Some (Misused op i ''--width and --height must fit in 32 bits'', s)
          else interact c op i (resize_deadline c ps) WaitTimeout (\<lambda>r. (rr_revision r, ResizeView r))
            (\<lambda>cl. resize_window cl (resize_request_of c ps)) s)"

definition cli_close_window :: "'w cli \<Rightarrow> string list \<Rightarrow> 'w step" where
  "cli_close_window c args s =
     (let op = ''close-window'' in
      case session_args op window_flags args of
        Inl v \<Rightarrow> Some (v, s)
      | Inr (i, ps) \<Rightarrow>
          if tg_handle (window_target ps) = [] then Some (Misused op i window_required, s)
          else interact c op i None SessionNotReady windowed (\<lambda>cl. close_window cl (window_target ps)) s)"

section \<open>Pointer commands\<close>

definition click_request_of :: "'w cli \<Rightarrow> assignments \<Rightarrow> click_request" where
  "click_request_of c ps =
     \<lparr>ck_target = window_target ps, ck_x = nan_flag c ''x'' ps, ck_y = nan_flag c ''y'' ps,
      ck_button = narrow (uint_flag ''button'' ps)\<rparr>"

definition cli_click :: "'w cli \<Rightarrow> string list \<Rightarrow> 'w step" where
  "cli_click c args s =
     (let op = ''click'' in
      case session_args op (window_flags @ point_flags c @ [(''button'', uint_value)]) args of
        Inl v \<Rightarrow> Some (v, s)
      | Inr (i, ps) \<Rightarrow>
          if tg_handle (window_target ps) = [] then Some (Misused op i window_required, s)
          else if nan_flag c ''x'' ps = NaN \<or> nan_flag c ''y'' ps = NaN then
            Some (Misused op i ''--x and --y are required'', s)
          else interact c op i None SessionNotReady (\<lambda>r. (Input_Service.cr_revision r, ClickView r))
            (\<lambda>cl. click (cl_round c) cl (click_request_of c ps)) s)"

definition pointer_flags :: "'w cli \<Rightarrow> flag_set" where
  "pointer_flags c =
     point_flags c @ [(''button'', uint_value), (''axis'', uint_value),
       (''value'', float_value (cl_float c)), (''state'', text_value)]"

definition no_pointer :: pointer_request where
  "no_pointer =
     \<lparr>pt_kind = [], pt_x = zero_f64, pt_y = zero_f64, pt_button = 0, pt_state = [], pt_axis = 0,
      pt_value = zero_f64\<rparr>"

text \<open>Which action the flags that were given name; the message of the refusal otherwise.\<close>

definition pointer_request_of :: "'w cli \<Rightarrow> assignments \<Rightarrow> string + pointer_request" where
  "pointer_request_of c ps =
     (let st = text_flag ''state'' ps; rq = no_pointer\<lparr>pt_state := st\<rparr> in
      if given ''x'' ps \<or> given ''y'' ps then
        (if \<not> given ''x'' ps \<or> \<not> given ''y'' ps then Inl ''--x and --y belong together''
         else Inr (rq\<lparr>pt_kind := pointer_motion, pt_x := nan_flag c ''x'' ps, pt_y := nan_flag c ''y'' ps\<rparr>))
      else if given ''button'' ps \<or> given ''state'' ps then
        (if \<not> given ''button'' ps \<or> st = [] then Inl ''--button requires --state pressed or released''
         else Inr (rq\<lparr>pt_kind := pointer_button, pt_button := narrow (uint_flag ''button'' ps)\<rparr>))
      else if given ''axis'' ps \<or> given ''value'' ps then
        (if \<not> given ''value'' ps then Inl ''--axis requires --value''
         else Inr (rq\<lparr>pt_kind := pointer_axis, pt_axis := narrow (uint_flag ''axis'' ps),
                      pt_value := float_flag (cl_float c) zero_f64 ''value'' ps\<rparr>))
      else Inl ''one of motion (--x/--y), a button (--button/--state) or an axis (--axis/--value) is required'')"

definition cli_pointer :: "'w cli \<Rightarrow> string list \<Rightarrow> 'w step" where
  "cli_pointer c args s =
     (let op = ''pointer'' in
      case session_args op (pointer_flags c) args of
        Inl v \<Rightarrow> Some (v, s)
      | Inr (i, ps) \<Rightarrow>
          (case pointer_request_of c ps of
             Inl message \<Rightarrow> Some (Misused op i message, s)
           | Inr rq \<Rightarrow>
               interact c op i None SessionNotReady (\<lambda>_. (0, PointerView (pt_kind rq)))
                 (\<lambda>cl ch. settled (pointer_op cl rq ch)) s))"

definition cli_scroll :: "'w cli \<Rightarrow> string list \<Rightarrow> 'w step" where
  "cli_scroll c args s =
     (let op = ''scroll'' in
      case session_args op [(''axis'', uint_value), (''value'', float_value (cl_float c))] args of
        Inl v \<Rightarrow> Some (v, s)
      | Inr (i, ps) \<Rightarrow>
          let axis = uint_flag ''axis'' ps; v = float_flag (cl_float c) zero_f64 ''value'' ps in
          if \<not> given ''value'' ps then Some (Misused op i ''--value is required'', s)
          else interact c op i None SessionNotReady (\<lambda>_. (0, ScrollView axis v))
            (\<lambda>cl ch. settled (scroll cl (narrow axis) v ch)) s)"

section \<open>Keyboard commands\<close>

definition key_flags :: flag_set where
  "key_flags = [(''keycode'', uint_value), (''name'', text_value), (''state'', text_value)]"

definition key_request_of :: "assignments \<Rightarrow> key_request" where
  "key_request_of ps =
     \<lparr>kr_keycode = narrow (uint_flag ''keycode'' ps), kr_name = text_flag ''name'' ps,
      kr_state = text_flag ''state'' ps\<rparr>"

definition cli_key :: "'w cli \<Rightarrow> string list \<Rightarrow> 'w step" where
  "cli_key c args s =
     (let op = ''key'' in
      case session_args op key_flags args of
        Inl v \<Rightarrow> Some (v, s)
      | Inr (i, ps) \<Rightarrow>
          let rq = key_request_of ps in
          if (uint_flag ''keycode'' ps = 0) = (text_flag ''name'' ps = []) then
            Some (Misused op i ''exactly one of --keycode or --name is required'', s)
          else if kr_state rq = [] then
            interact c op i None SessionNotReady
              (\<lambda>_. (0, KeyView \<lparr>ky_keycode = kr_keycode rq, ky_name = kr_name rq, ky_state = [],
                                ky_tapped = True\<rparr>))
              (\<lambda>cl ch. settled (tap_key (cl_keymap c) cl rq ch)) s
          else
            interact c op i None SessionNotReady
              (\<lambda>_. (0, KeyView \<lparr>ky_keycode = kr_keycode rq, ky_name = kr_name rq, ky_state = kr_state rq,
                                ky_tapped = False\<rparr>))
              (\<lambda>cl ch. settled (press_key (cl_keymap c) cl rq ch)) s)"

text \<open>The text is the flag's or the one argument; both together are refused, so is neither.\<close>

definition text_to_type :: "assignments \<Rightarrow> string list \<Rightarrow> string + string" where
  "text_to_type ps others =
     (let txt = text_flag ''text'' ps in
      if txt \<noteq> [] \<and> others \<noteq> [] then Inl ''--text and a positional text are mutually exclusive''
      else if 1 < length others then Inl unexpected
      else if length others = 1 then Inr (hd others)
      else if txt = [] then Inl ''the text to type is required''
      else Inr txt)"

definition cli_type :: "'w cli \<Rightarrow> string list \<Rightarrow> 'w step" where
  "cli_type c args s =
     (let op = ''type'' in
      case parse_flags (only_session @ [(''text'', text_value)]) [] args of
        (ps, Inl err) \<Rightarrow> Some (Misused op (text_flag ''session'' ps) ''%v'', s)
      | (ps, Inr others) \<Rightarrow>
          let i = text_flag ''session'' ps in
          if i = [] then Some (Misused op [] session_required, s)
          else (case text_to_type ps others of
                  Inl message \<Rightarrow> Some (Misused op i message, s)
                | Inr txt \<Rightarrow>
                    interact c op i None SessionNotReady (\<lambda>(t, n). (0, TypeView t n))
                      (\<lambda>cl. type_text (cl_keymap c) cl txt) s))"

section \<open>What narrowing and precedence lose\<close>

text \<open>A keycode above 32 bits is accepted and another key is sent; a small budget becomes no budget.\<close>

lemma keycode_wraps:
  "uint_flag ''keycode'' [(''keycode'', ''0x100000024'')] = 4294967332"
  "kr_keycode (key_request_of [(''keycode'', ''0x100000024'')]) = 36"
proof -
  have "parse_uint ''0x100000024'' = Some 4294967332"
    by (simp add: parse_uint_def split_base_def based_digit_def lower_char_def is_upper_def is_digit_def)
  then show "uint_flag ''keycode'' [(''keycode'', ''0x100000024'')] = 4294967332"
    by (simp add: uint_flag_def read_flag_def value_of_def)
  then show "kr_keycode (key_request_of [(''keycode'', ''0x100000024'')]) = 36"
    by (simp add: key_request_of_def narrow_def)
qed

lemma resize_budget_lost:
  assumes "cl_duration c t = Some 500000"
  shows "rz_timeout_ms (resize_request_of c [(''timeout'', t)]) = 0"
    and "resize_deadline c [(''timeout'', t)] = Some 2000500000"
  using assms
  by (simp_all add: resize_request_of_def resize_deadline_def duration_flag_def read_flag_def value_of_def
      flag_duration_def millisecond_def resize_grace_def second_def wrap64_def)

lemma pointer_button_ignored:
  "pointer_request_of c [(''x'', x), (''y'', y), (''button'', b)] = pointer_request_of c [(''x'', x), (''y'', y)]"
  by (simp add: pointer_request_of_def given_def text_flag_def read_flag_def value_of_def nan_flag_def
      float_flag_def Let_def)

end
