(* ===== verification/Cli_Vision.thy ===== *)
theory Cli_Vision
  imports Cli_Input
begin

text \<open>
  The capture and wait commands of the host command (\<open>cmd/wlvision/capture.go\<close> and
  \<open>wait.go\<close>): their flags, the predicate a wait watches, the adapters of one session they
  run against, and what they report. A wait or a burst runs over the session system; its
  clock and the export tree act on the world and never on the stored records.
\<close>

section \<open>One session as the capture services see it\<close>

record 'w vision =
  vi_clock :: "'w clock"
  vi_ctx_err :: "'w \<Rightarrow> string option"
  vi_cwd :: "string + string"
  vi_store :: "export_tree \<Rightarrow> 'w destination"
  vi_codecs :: codecs
  vi_marshal :: "manifest_document \<Rightarrow> string + string"

definition sys_clock :: "'w clock \<Rightarrow> 'w sys clock" where
  "sys_clock ck =
     \<lparr>ck_now = call_engine (ck_now ck), ck_await = (\<lambda>d. call_engine (ck_await ck d))\<rparr>"

definition sys_ctx_err :: "'w vision \<Rightarrow> 'w sys \<Rightarrow> string option" where
  "sys_ctx_err vi s = vi_ctx_err vi (sy_world s)"

definition session_call :: "'w cli \<Rightarrow> service \<Rightarrow> 'w engine \<Rightarrow> string \<Rightarrow> 'w sys service_call" where
  "session_call c sv en i = session_caller c sv en None i CallerCtx"

definition session_file ::
  "'w cli \<Rightarrow> service \<Rightarrow> 'w engine \<Rightarrow> string \<Rightarrow> string \<Rightarrow> 'w sys \<Rightarrow> (goerr option \<times> string) \<times> 'w sys" where
  "session_file c sv en i = fetch (cl_codec c) (cl_chunks c) sv en i"

definition session_record :: "string \<Rightarrow> 'w sys \<Rightarrow> (goerr + sess_record) \<times> 'w sys" where
  "session_record i s = (load (sy_store s) i, s)"

definition session_store_in :: "'w vision \<Rightarrow> export_tree \<Rightarrow> 'w sys destination" where
  "session_store_in vi t name payload = call_engine (vi_store vi t name payload)"

definition wait_deps_of :: "'w cli \<Rightarrow> 'w vision \<Rightarrow> service \<Rightarrow> 'w engine \<Rightarrow> string \<Rightarrow> 'w sys wait_deps" where
  "wait_deps_of c vi sv en i =
     \<lparr>wd_clock = Some (sys_clock (vi_clock vi)),
      wd_capturer = Some (session_capture (session_call c sv en i)),
      wd_observer = Some \<lparr>ob_snapshot = session_snapshot (session_call c sv en i),
                          ob_exited = session_exited (session_record i)\<rparr>\<rparr>"

section \<open>Wait\<close>

definition default_wait_timeout :: int where
  "default_wait_timeout = 10 * second"

definition wait_flags :: "'w cli \<Rightarrow> flag_set" where
  "wait_flags c =
     [(''timeout'', duration_value (cl_duration c)), (''stable-for'', duration_value (cl_duration c)),
      (''window-count'', int_value), (''process-exit'', BoolFlag), (''new-frame'', uint_value),
      (''window'', text_value), (''width'', uint_value), (''height'', uint_value), (''state'', uint_value)]"

text \<open>The mistakes a command line is refused for before a service is built.\<close>

definition wait_mistake :: "assignments \<Rightarrow> string option" where
  "wait_mistake ps =
     (if int_flag (-1) ''window-count'' ps < -1 then Some ''--window-count must not be negative''
      else if max_uint32 < uint_flag ''width'' ps \<or> max_uint32 < uint_flag ''height'' ps then
        Some ''--width and --height must fit in 32 bits''
      else if \<not> given ''stable-for'' ps \<and> \<not> given ''window-count'' ps \<and> \<not> given ''process-exit'' ps \<and>
              \<not> given ''new-frame'' ps \<and> \<not> given ''window'' ps then
        Some ''one predicate is required: --stable-for, --window-count, --process-exit, --new-frame or --window''
      else if \<not> given ''window'' ps \<and> (given ''width'' ps \<or> given ''height'' ps \<or> given ''state'' ps) then
        Some ''--width, --height and --state require --window''
      else None)"

definition wait_timeout_of :: "'w cli \<Rightarrow> assignments \<Rightarrow> int" where
  "wait_timeout_of c ps =
     (let t = duration_flag (cl_duration c) ''timeout'' ps in if t = 0 then default_wait_timeout else t)"

definition window_want_of :: "assignments \<Rightarrow> window_want" where
  "window_want_of ps =
     \<lparr>ww_handle = text_flag ''window'' ps, ww_width = narrow (uint_flag ''width'' ps),
      ww_height = narrow (uint_flag ''height'' ps),
      ww_state = (if given ''state'' ps then Some (narrow (uint_flag ''state'' ps)) else None)\<rparr>"

text \<open>
  The predicate: the first that was given, in the order of the source; two mistakes are seen
  only here, after the service was built.
\<close>

definition wait_for ::
  "'w cli \<Rightarrow> 'w vision \<Rightarrow> service \<Rightarrow> 'w engine \<Rightarrow> string \<Rightarrow> assignments \<Rightarrow> 'w sys \<Rightarrow>
   (string + ((wait_result \<times> goerr option) \<times> 'w sys) option)" where
  "wait_for c vi sv en i ps s =
     (let deps = wait_deps_of c vi sv en i; timeout = wait_timeout_of c ps;
          stable_for = duration_flag (cl_duration c) ''stable-for'' ps;
          count = int_flag (-1) ''window-count'' ps in
      if given ''stable-for'' ps then
        (if stable_for \<le> 0 then Inl ''--stable-for must be positive''
         else Inr (map_option (\<lambda>((out, err, probes), s1). ((out, err), s1))
                (wait_stable deps (sys_ctx_err vi) stable_for timeout s)))
      else if given ''window-count'' ps then
        (if count < 0 then Inl ''--window-count must not be negative''
         else Inr (wait_window_count deps (sys_ctx_err vi) count timeout s))
      else if given ''process-exit'' ps then Inr (wait_exited deps (sys_ctx_err vi) timeout s)
      else if given ''new-frame'' ps then
        Inr (wait_new_frame deps (sys_ctx_err vi) (of_nat (uint_flag ''new-frame'' ps)) timeout s)
      else Inr (wait_window_state deps (sys_ctx_err vi) (window_want_of ps) timeout s))"

definition recorded_exit :: "string \<Rightarrow> assignments \<Rightarrow> 'w sys \<Rightarrow> int option" where
  "recorded_exit i ps s =
     (if given ''process-exit'' ps then
        (case load (sy_store s) i of
           Inl _ \<Rightarrow> None
         | Inr r \<Rightarrow> map_option px_code (r_process r))
      else None)"

definition wait_view_of :: "wait_result \<Rightarrow> int option \<Rightarrow> wait_view" where
  "wait_view_of out code =
     \<lparr>wv_kind = wr_kind out, wv_duration = wr_duration out, wv_probes = wr_probes out,
      wv_observations = wr_observations out, wv_revision = wr_revision out,
      wv_frame = summarize (wr_last out), wv_windows = wr_state out, wv_exit_code = code\<rparr>"

definition wait_with ::
  "'w cli \<Rightarrow> 'w vision \<Rightarrow> string \<Rightarrow> assignments \<Rightarrow> service \<Rightarrow> 'w engine \<Rightarrow> 'w step" where
  "wait_with c vi i ps sv en s =
     (let op = ''wait'' in
      case wait_for c vi sv en i ps s of
        Inl message \<Rightarrow> Some (Misused op i message, s)
      | Inr None \<Rightarrow> None
      | Inr (Some ((out, Some err), s1)) \<Rightarrow> Some (Refused op i err WaitTimeout, s1)
      | Inr (Some ((out, None), s1)) \<Rightarrow>
          Some (Done op i (wr_revision out) (WaitView (wait_view_of out (recorded_exit i ps s1))), s1))"

definition cli_wait :: "'w cli \<Rightarrow> 'w vision \<Rightarrow> string list \<Rightarrow> 'w step" where
  "cli_wait c vi args s =
     (let op = ''wait'' in
      case session_args op (wait_flags c) args of
        Inl v \<Rightarrow> Some (v, s)
      | Inr (i, ps) \<Rightarrow>
          (case wait_mistake ps of
             Some message \<Rightarrow> Some (Misused op i message, s)
           | None \<Rightarrow> with_service c 0 op i (wait_with c vi i ps) s))"

section \<open>Screenshot\<close>

definition default_screenshot :: string where
  "default_screenshot = ''screenshot.png''"

definition screenshot_name :: "assignments \<Rightarrow> string" where
  "screenshot_name ps = (if given ''output'' ps then text_flag ''output'' ps else default_screenshot)"

definition screenshot_with ::
  "'w cli \<Rightarrow> 'w vision \<Rightarrow> string \<Rightarrow> string \<Rightarrow> service \<Rightarrow> 'w engine \<Rightarrow> 'w step" where
  "screenshot_with c vi i name sv en s =
     (let op = ''screenshot'' in
      case open_tree (vi_cwd vi) (st_root (sy_store s)) i of
        Inl err \<Rightarrow> Some (Refused op i err UsageError, s)
      | Inr t \<Rightarrow>
          (case screenshot (cd_sha (vi_codecs vi)) (tree_path t) (session_call c sv en i)
                  (session_file c sv en i) (session_store_in vi t) name \<lparr>bw_world = s, bw_log = []\<rparr> of
             (Inl (err, fallback), bw) \<Rightarrow> Some (Refused op i err fallback, bw_world bw)
           | (Inr (rv, res), bw) \<Rightarrow> Some (Done op i rv (CaptureView res), bw_world bw)))"

definition cli_screenshot :: "'w cli \<Rightarrow> 'w vision \<Rightarrow> string list \<Rightarrow> 'w step" where
  "cli_screenshot c vi args s =
     (let op = ''screenshot'' in
      case session_args op [(''output'', text_value)] args of
        Inl v \<Rightarrow> Some (v, s)
      | Inr (i, ps) \<Rightarrow>
          if screenshot_name ps = [] then Some (Misused op i ''--output must not be empty'', s)
          else with_service c 0 op i (screenshot_with c vi i (screenshot_name ps)) s)"

section \<open>Burst\<close>

definition burst_flags :: "'w cli \<Rightarrow> flag_set" where
  "burst_flags c =
     [(''interval'', duration_value (cl_duration c)), (''duration'', duration_value (cl_duration c)),
      (''frames'', int_value), (''output'', text_value), (''contact-sheet'', BoolFlag)]"

definition burst_plan_of :: "'w cli \<Rightarrow> assignments \<Rightarrow> burst_plan" where
  "burst_plan_of c ps =
     \<lparr>bp_interval = duration_flag (cl_duration c) ''interval'' ps,
      bp_duration = duration_flag (cl_duration c) ''duration'' ps,
      bp_max_frames = int_flag 0 ''frames'' ps, bp_prefix = [],
      bp_contact_sheet = bool_flag ''contact-sheet'' ps, bp_bytes = 0\<rparr>"

definition burst_deps_of ::
  "'w cli \<Rightarrow> 'w vision \<Rightarrow> service \<Rightarrow> 'w engine \<Rightarrow> string \<Rightarrow> export_tree \<Rightarrow> string \<Rightarrow> 'w sys burst_deps" where
  "burst_deps_of c vi sv en i t prefix =
     \<lparr>bd_clock = Some (sys_clock (vi_clock vi)),
      bd_capturer = Some (session_capture (session_call c sv en i)),
      bd_fetcher = Some (session_fetch (session_file c sv en i)),
      bd_destination = Some (export_destination prefix (session_store_in vi t))\<rparr>"

definition burst_with ::
  "'w cli \<Rightarrow> 'w vision \<Rightarrow> string \<Rightarrow> assignments \<Rightarrow> service \<Rightarrow> 'w engine \<Rightarrow> 'w step" where
  "burst_with c vi i ps sv en s =
     (let op = ''capture''; prefix = text_flag ''output'' ps in
      case open_tree (vi_cwd vi) (st_root (sy_store s)) i of
        Inl err \<Rightarrow> Some (Refused op i err UsageError, s)
      | Inr t \<Rightarrow>
          (case (if prefix = [] then Inr [] else tree_path t prefix) of
             Inl err \<Rightarrow> Some (Refused op i err UsageError, s)
           | Inr _ \<Rightarrow>
               (case burst (vi_codecs vi) (vi_marshal vi) (sys_ctx_err vi) (burst_plan_of c ps)
                       (burst_deps_of c vi sv en i t prefix) \<lparr>bw_world = s, bw_log = []\<rparr> of
                  None \<Rightarrow> None
                | Some ((rep, Some err), bw) \<Rightarrow> Some (Refused op i err SessionNotReady, bw_world bw)
                | Some ((rep, None), bw) \<Rightarrow>
                    Some (Done op i 0 (BurstView (burst_view_of rep)), bw_world bw))))"

definition cli_capture :: "'w cli \<Rightarrow> 'w vision \<Rightarrow> string list \<Rightarrow> 'w step" where
  "cli_capture c vi args s =
     (let op = ''capture'' in
      case session_args op (burst_flags c) args of
        Inl v \<Rightarrow> Some (v, s)
      | Inr (i, ps) \<Rightarrow>
          if int_flag 0 ''frames'' ps < 0 then Some (Misused op i ''--frames must not be negative'', s)
          else with_service c 0 op i (burst_with c vi i ps) s)"

end
