(* ===== verification/Cli_Run.thy ===== *)
theory Cli_Run
  imports Cli_Vision Image_Build Capture_Conserved Input_Conserved Call
begin

text \<open>
  The whole host command: \<open>run\<close> and \<open>main\<close> of \<open>cmd/wlvision/main.go\<close> and the image command
  of \<open>image.go\<close>. Here the components meet: whatever command line is given, one envelope and
  one exit status come out, a usage error touches nothing, and the stored sessions move only
  along the life cycle; and a refusal inside a session reaches the exit status unchanged.
\<close>

section \<open>The image command\<close>

record 'w program =
  pg_cli :: "'w cli"
  pg_vision :: "'w vision"
  pg_image :: image_env
  pg_builder :: "'w engine \<Rightarrow> build_engine"
  pg_broken :: rendering

definition image_flags :: flag_set where
  "image_flags = [(''manifest'', text_value), (''tag'', text_value), (''staging'', text_value)]"

definition image_with :: "'w program \<Rightarrow> assignments \<Rightarrow> service \<Rightarrow> 'w engine \<Rightarrow> 'w step" where
  "image_with pg ps sv en s =
     (case build_image (pg_image pg) (Some (pg_builder pg en))
             \<lparr>br_manifest = text_flag ''manifest'' ps, br_tag = text_flag ''tag'' ps,
              br_staging = text_flag ''staging'' ps\<rparr> of
        None \<Rightarrow> None
      | Some (r, _) \<Rightarrow>
          report ''image.build'' [] ImageUnavailable
            (\<lambda>built. (0, ImageView \<lparr>im_manifest = text_flag ''manifest'' ps, im_tag = brs_tag built,
                                    im_image_id = brs_image_id built, im_output = brs_output built\<rparr>)) (r, s))"

definition image_build :: "'w program \<Rightarrow> string list \<Rightarrow> 'w step" where
  "image_build pg args s =
     (let op = ''image.build'' in
      case parse_flags image_flags [] args of
        (ps, Inl err) \<Rightarrow> Some (Misused op [] ''%v'', s)
      | (ps, Inr others) \<Rightarrow>
          if others \<noteq> [] then Some (Misused op [] (''unexpected argument '' @ hd others), s)
          else if trim_space (text_flag ''manifest'' ps) = [] then
            Some (Misused op [] ''--manifest is required'', s)
          else with_service (pg_cli pg) 0 op [] (image_with pg ps) s)"

definition cli_image :: "'w program \<Rightarrow> string list \<Rightarrow> 'w step" where
  "cli_image pg args s =
     (case args of
        [] \<Rightarrow> Some (Misused ''image'' [] ''an image subcommand is required'', s)
      | sub # rest \<Rightarrow>
          if sub = ''build'' then image_build pg rest s
          else Some (Misused ''image'' [] ''unknown image subcommand %q'', s))"

section \<open>Dispatch\<close>

definition cli_commands :: "'w program \<Rightarrow> (string \<times> (string list \<Rightarrow> 'w step)) list" where
  "cli_commands pg =
     (let c = pg_cli pg; vi = pg_vision pg in
      [(''doctor'', cli_doctor c), (''image'', cli_image pg), (''session'', cli_session c),
       (''run'', run_application c), (''inject'', cli_inject c), (''logs'', cli_logs c),
       (''windows'', cli_windows c), (''activate'', cli_activate c), (''move'', cli_move c),
       (''resize'', cli_resize c), (''close-window'', cli_close_window c), (''click'', cli_click c),
       (''pointer'', cli_pointer c), (''scroll'', cli_scroll c), (''key'', cli_key c),
       (''type'', cli_type c), (''screenshot'', cli_screenshot c vi), (''capture'', cli_capture c vi),
       (''wait'', cli_wait c vi)])"

definition dispatch :: "'w program \<Rightarrow> flag_error + string list \<Rightarrow> 'w step" where
  "dispatch pg r s =
     (case r of
        Inl err \<Rightarrow> Some (Misused ''wlvision'' [] ''%v'', s)
      | Inr [] \<Rightarrow> Some (Misused ''wlvision'' [] ''a command is required'', s)
      | Inr (command # rest) \<Rightarrow>
          (case map_of (cli_commands pg) command of
             None \<Rightarrow> Some (Misused command [] ''unknown command %q'', s)
           | Some f \<Rightarrow> f rest s))"

definition with_globals :: "globals \<Rightarrow> 'w program \<Rightarrow> 'w program" where
  "with_globals g pg = pg\<lparr>pg_cli := (pg_cli pg)\<lparr>cl_json := gl_json g, cl_image := gl_image g\<rparr>\<rparr>"

definition run_line :: "'w program \<Rightarrow> string list \<Rightarrow> 'w sys \<Rightarrow> ((nat \<times> emitted list) \<times> 'w sys) option" where
  "run_line pg args s =
     (case parse_globals args of
        (g, r) \<Rightarrow>
          map_option (\<lambda>(v, s1). (conclude (gl_json g) (pg_broken pg) v, s1)) (dispatch (with_globals g pg) r s))"

text \<open>\<open>main\<close> parses the globals once more, for the factory.\<close>

definition cli_main ::
  "string \<Rightarrow> string + string \<Rightarrow> (string \<Rightarrow> string option) \<Rightarrow> (adapter \<Rightarrow> 'w engine) \<Rightarrow> 'w program \<Rightarrow>
   string list \<Rightarrow> 'w sys \<Rightarrow> ((nat \<times> emitted list) \<times> 'w sys) option" where
  "cli_main state_home home mkdir engine_of pg args s =
     (let factory = new_docker_service state_home home mkdir engine_of (fst (parse_globals args))
      in run_line (pg\<lparr>pg_cli := (pg_cli pg)\<lparr>cl_factory := factory\<rparr>\<rparr>) args s)"

section \<open>What every command keeps\<close>

fun tidy :: "bool \<Rightarrow> verdict \<Rightarrow> bool" where
  "tidy js (Printed t v) \<longleftrightarrow> \<not> js \<and> (case v of Printed _ _ \<Rightarrow> False | Misused _ _ _ \<Rightarrow> False | _ \<Rightarrow> True)"
| "tidy js v \<longleftrightarrow> True"

fun misused :: "verdict \<Rightarrow> bool" where
  "misused (Misused a b m) \<longleftrightarrow> True"
| "misused v \<longleftrightarrow> False"

text \<open>One command from \<open>s\<close>: its verdict is tidy, the sessions live on, a misuse did nothing.\<close>

definition stepped :: "bool \<Rightarrow> 'w sys \<Rightarrow> (verdict \<times> 'w sys) option \<Rightarrow> bool" where
  "stepped js s x \<longleftrightarrow>
     (\<forall>v s'. x = Some (v, s') \<longrightarrow> tidy js v \<and> lives s s' \<and> (misused v \<longrightarrow> s' = s))"

lemma stepped_None [simp]: "stepped js s None"
  by (simp add: stepped_def)

lemma stepped_verdict:
  "tidy js v \<Longrightarrow> \<not> misused v \<Longrightarrow> lives s s' \<Longrightarrow> stepped js s (Some (v, s'))"
  by (simp add: stepped_def)

lemma stepped_done [simp]:
  "stepped js s (Some (Done op i rv v, s')) \<longleftrightarrow> lives s s'"
  "stepped js s (Some (Refused op i err fb, s')) \<longleftrightarrow> lives s s'"
  "stepped js s (Some (Misused op i m, s)) \<longleftrightarrow> True"
  by (auto simp: stepped_def)

lemma stepped_service:
  "(\<And>sv en. stepped js s (k sv en s)) \<Longrightarrow> stepped js s (with_service c r op i k s)"
  by (auto simp: with_service_def split: sum.split)

lemma stepped_report: "lives s (snd x) \<Longrightarrow> stepped js s (report op i fb f x)"
  by (auto simp: report_def split: sum.split prod.split)

lemma snd_either [simp]: "snd (either x) = snd x"
  by (auto simp: either_def split: prod.split option.split)

lemma lives_store: "sy_store s' = sy_store s \<Longrightarrow> lives s s'"
  by (metis same_store(3) quiet_lives)

lemma lives_create: "create_session sv en ev i l q s = (x, s') \<Longrightarrow> lives s s'"
  by (metis create_effect(1) effect_lives prod.collapse)

lemma lives_start: "start_session cd sv en ev i s = Some (x, s') \<Longrightarrow> lives s s'"
  by (metis start_effect(1) quiet_lives prod.collapse)

lemma lives_run: "run_session cd sv en ev rq s = Some (x, s') \<Longrightarrow> lives s s'"
  by (metis run_effect(1) effect_lives prod.collapse)

lemma lives_service:
  "lives s (snd (close_session sv en ev i t s))"
  "lives s (snd (purge sv en ev s))"
  "lives s (snd (list_sessions en ev s))"
  "lives s (snd (inspect en ev i s))"
  "lives s (snd (inject cd sv en ev q s))"
  by (metis close_effect(1) quiet_lives prod.collapse, metis purge_lives prod.collapse,
      metis list_lives prod.collapse, metis inspect_effect(1) quiet_lives prod.collapse,
      metis inject_effect quiet_lives prod.collapse)

lemma lives_doctor: "lives s (snd (doctor sv en ev s))"
  by (auto simp: doctor_def split: sum.split prod.split dest!: call_engine_store lives_store list_lives
      intro: lives_trans)

lemma lives_logs: "session_logs en i n s = (x, s') \<Longrightarrow> lives s s'"
  by (auto simp: session_logs_def split: sum.splits if_splits dest!: call_engine_store lives_store)

section \<open>Talking to a session conserves the stored records\<close>

lemma session_caller_store: "sy_store (snd (session_caller c sv en d i cx op ps s)) = sy_store s"
  by (auto simp: session_caller_def call_controller_def Let_def dest: call_engine_store
      split: sum.split if_split prod.split option.split)

lemma session_file_store: "session_file c sv en i name s = (x, s') \<Longrightarrow> sy_store s' = sy_store s"
  by (auto simp: session_file_def fetch_def Let_def dest: call_engine_store
      split: sum.splits if_splits prod.splits option.splits)

interpretation session_calls: conserved_caller sy_store "session_caller c sv en d i"
  for c :: "'w cli" and sv :: service and en :: "'w engine" and d :: "int option" and i :: string
  by unfold_locales (rule session_caller_store)

lemma session_call_store: "session_call c sv en i op ps s = (x, s') \<Longrightarrow> sy_store s' = sy_store s"
  using session_caller_store [of c sv en None i CallerCtx op ps s] by (simp add: session_call_def)

interpretation session_watch: conserved_burst sy_store "sys_clock ck" "session_capture (session_call c sv en i)"
    "session_fetch (session_file c sv en i)" "export_destination prefix (session_store_in vi t)"
  for ck :: "'w clock" and c :: "'w cli" and sv :: service and en :: "'w engine" and i :: string
    and prefix :: string and vi :: "'w vision" and t :: export_tree
proof
  show "sy_store (snd (ck_now (sys_clock ck) s)) = sy_store s" for s
    by (simp add: sys_clock_def call_engine_def split: prod.split)
  show "sy_store (snd (ck_await (sys_clock ck) d s)) = sy_store s" for d s
    by (simp add: sys_clock_def call_engine_def split: prod.split)
  show "sy_store (snd (session_capture (session_call c sv en i) s)) = sy_store s" for s
    by (auto simp: session_capture_def dest: session_call_store split: prod.split sum.split option.split)
  show "sy_store (snd (session_fetch (session_file c sv en i) name s)) = sy_store s" for name s
    by (auto simp: session_fetch_def dest: session_file_store split: prod.split option.split)
  show "sy_store (snd (export_destination prefix (session_store_in vi t) name payload s)) = sy_store s" for name payload s
    by (simp add: export_destination_def session_store_in_def call_engine_def split: prod.split)
qed

interpretation session_observe: conserved_observer sy_store "sys_clock ck"
    "\<lparr>ob_snapshot = session_snapshot (session_call c sv en i), ob_exited = session_exited (session_record i)\<rparr>"
  for ck :: "'w clock" and c :: "'w cli" and sv :: service and en :: "'w engine" and i :: string
proof
  show "sy_store (snd (ob_snapshot \<lparr>ob_snapshot = session_snapshot (session_call c sv en i),
      ob_exited = session_exited (session_record i)\<rparr> s)) = sy_store s" for s
    by (auto simp: session_snapshot_def dest: session_call_store split: prod.split sum.split option.split)
  show "sy_store (snd (ob_exited \<lparr>ob_snapshot = session_snapshot (session_call c sv en i),
      ob_exited = session_exited (session_record i)\<rparr> since s)) = sy_store s" for since s
    by (simp add: session_exited_def session_record_def split: sum.split option.split)
qed

section \<open>Every command is a step\<close>

lemmas stepped_intros = stepped_service stepped_report lives_doctor lives_service

lemma stepped_doctor: "stepped js s (cli_doctor c args s)"
  by (auto simp: cli_doctor_def Let_def intro!: stepped_intros split: prod.split sum.split)

lemma stepped_create_and_wait: "stepped js s (create_and_wait c i ps sv en s)"
proof -
  obtain r e s1 where made: "create_session sv en (cl_env c) i (create_limits ps)
      (duration_flag (cl_duration c) ''retention'' ps) s = ((r, e), s1)" by (metis prod.exhaust)
  have "stepped js s (report op i fb f (either x))"
    if "start_session (cl_codec c) sv en (cl_env c) i s1 = Some x" for op fb f x
    using lives_trans [OF lives_create [OF made] lives_start] that
    by (cases x) (auto intro!: stepped_report)
  then show ?thesis
    using lives_create [OF made] made
    by (auto simp: create_and_wait_def Let_def split: option.split)
qed

lemma stepped_create: "stepped js s (session_create c args s)"
  by (auto simp: session_create_def Let_def intro!: stepped_service stepped_create_and_wait
      split: prod.split sum.split)

lemma stepped_list: "stepped js s (session_list c args s)"
  by (auto simp: session_list_def Let_def intro!: stepped_intros split: prod.split sum.split)

lemma stepped_inspect: "stepped js s (session_inspect c args s)"
  by (auto simp: session_inspect_def Let_def intro!: stepped_intros split: prod.split sum.split)

lemma stepped_close: "stepped js s (session_close c args s)"
  by (auto simp: session_close_def Let_def intro!: stepped_intros split: prod.split sum.split)

lemma stepped_purge: "stepped js s (session_purge c args s)"
  by (auto simp: session_purge_def Let_def intro!: stepped_intros split: prod.split sum.split)

lemma stepped_session: "stepped js s (cli_session c args s)"
  by (cases args)
    (simp_all add: cli_session_def stepped_create stepped_list stepped_inspect stepped_close stepped_purge)

lemma stepped_run: "stepped js s (run_application c args s)"
  by (auto simp: run_application_def Let_def intro!: stepped_service stepped_report
      dest!: lives_run split: prod.split sum.split option.split)

lemma stepped_inject: "stepped js s (cli_inject c args s)"
  by (auto simp: cli_inject_def Let_def intro!: stepped_intros split: prod.split sum.split)

lemma stepped_logs_with: "stepped (cl_json c) s (logs_with c i n sv en s)"
proof -
  obtain err printed s1 where logs: "session_logs en i n s = ((err, printed), s1)" by (metis prod.exhaust)
  show ?thesis
    using lives_logs [OF logs] by (cases err) (auto simp: logs logs_with_def Let_def intro!: stepped_verdict)
qed

lemma stepped_logs: "stepped (cl_json c) s (cli_logs c args s)"
  by (auto simp: cli_logs_def Let_def intro!: stepped_service stepped_logs_with split: prod.split sum.split)

lemma stepped_interact:
  assumes "\<And>sv en ch r ch'. g (session_caller c sv en d i) ch = (r, ch') \<Longrightarrow>
    sy_store (ch_world ch') = sy_store (ch_world ch)"
  shows "stepped js s (interact c op i d fb f g s)"
  unfolding interact_def
proof (rule stepped_service, rule stepped_report, rule lives_store)
  fix sv en
  obtain r ch where "g (session_caller c sv en d i) \<lparr>ch_world = s, ch_sent = []\<rparr> = (r, ch)" by fastforce
  with assms [OF this] show "sy_store (snd (over_channel (g (session_caller c sv en d i)) s)) = sy_store s"
    by (simp add: over_channel_def)
qed

lemma settled_kept: "settled x = (r, ch') \<Longrightarrow> ch' = snd x"
  by (simp add: settled_def)

text \<open>A verdict of the shared checks is a misuse.\<close>

lemma session_args_Inl: "session_args op extra args = Inl v \<Longrightarrow> \<exists>i m. v = Misused op i m"
  by (auto simp: session_args_def Let_def split: prod.splits sum.splits if_splits)

lemma stepped_args:
  "(\<And>i ps. stepped js s (k i ps)) \<Longrightarrow>
   stepped js s (case session_args op extra args of Inl v \<Rightarrow> Some (v, s) | Inr (i, ps) \<Rightarrow> k i ps)"
  by (auto dest: session_args_Inl split: sum.split)

lemmas stepped_input = stepped_args stepped_interact

lemma stepped_windows: "stepped js s (cli_windows c args s)"
  unfolding cli_windows_def Let_def by (intro stepped_input session_calls.windows_kept(1))

lemma stepped_activate: "stepped js s (cli_activate c args s)"
  unfolding cli_activate_def Let_def
  by (rule stepped_args) (auto intro!: stepped_interact dest: session_calls.windows_kept)

lemma stepped_move: "stepped js s (cli_move c args s)"
  unfolding cli_move_def Let_def
  by (rule stepped_args) (auto intro!: stepped_interact dest: session_calls.windows_kept)

lemma stepped_resize: "stepped js s (cli_resize c args s)"
  unfolding cli_resize_def Let_def
  by (rule stepped_args) (auto intro!: stepped_interact dest: session_calls.windows_kept)

lemma stepped_close_window: "stepped js s (cli_close_window c args s)"
  unfolding cli_close_window_def Let_def
  by (rule stepped_args) (auto intro!: stepped_interact dest: session_calls.windows_kept)

lemma stepped_click: "stepped js s (cli_click c args s)"
  unfolding cli_click_def Let_def
  by (rule stepped_args) (auto intro!: stepped_interact dest: session_calls.click_kept)

lemma pointer_settled:
  "settled (pointer_op (session_caller c sv en d i) rq ch) = (r, ch') \<Longrightarrow>
     sy_store (ch_world ch') = sy_store (ch_world ch)"
  "settled (scroll (session_caller c sv en d i) axis value ch) = (r, ch') \<Longrightarrow>
     sy_store (ch_world ch') = sy_store (ch_world ch)"
  by (metis settled_kept prod.collapse session_calls.pointer_kept)+

lemma key_settled:
  "settled (press_key keymap (session_caller c sv en d i) kq ch) = (r, ch') \<Longrightarrow>
     sy_store (ch_world ch') = sy_store (ch_world ch)"
  "settled (tap_key keymap (session_caller c sv en d i) kq ch) = (r, ch') \<Longrightarrow>
     sy_store (ch_world ch') = sy_store (ch_world ch)"
  by (metis settled_kept prod.collapse session_calls.key_kept)+

lemma stepped_pointer: "stepped js s (cli_pointer c args s)"
  unfolding cli_pointer_def Let_def
  by (rule stepped_args) (auto intro!: stepped_interact dest: pointer_settled split: sum.split)

lemma stepped_scroll: "stepped js s (cli_scroll c args s)"
  unfolding cli_scroll_def Let_def
  by (rule stepped_args) (auto intro!: stepped_interact dest: pointer_settled)

lemma stepped_key: "stepped js s (cli_key c args s)"
  unfolding cli_key_def Let_def
  by (rule stepped_args) (auto intro!: stepped_interact dest: key_settled)

lemma stepped_type: "stepped js s (cli_type c args s)"
  by (auto simp: cli_type_def Let_def intro!: stepped_interact dest: session_calls.type_text_kept
      split: prod.split sum.split)

section \<open>Captures and waits are steps\<close>

lemma inside_session:
  "inside (session_call c sv en i op ps) bw = (x, bw') \<Longrightarrow> sy_store (bw_world bw') = sy_store (bw_world bw)"
  "inside (session_file c sv en i name) bw = (y, bw') \<Longrightarrow> sy_store (bw_world bw') = sy_store (bw_world bw)"
  "store_in (session_store_in vi t) name payload bw = (z, bw') \<Longrightarrow> sy_store (bw_world bw') = sy_store (bw_world bw)"
  by (auto simp: inside_def store_in_def session_store_in_def
      dest!: session_call_store session_file_store call_engine_store split: prod.splits)

lemma screenshot_store:
  "screenshot sha path (session_call c sv en i) (session_file c sv en i) (session_store_in vi t) name bw = (r, bw') \<Longrightarrow>
   sy_store (bw_world bw') = sy_store (bw_world bw)"
  by (auto simp: screenshot_def dest!: inside_session split: sum.splits prod.splits option.splits)

lemma stepped_screenshot: "stepped js s (cli_screenshot c vi args s)"
  unfolding cli_screenshot_def Let_def
  by (rule stepped_args) (auto simp: screenshot_with_def Let_def intro!: stepped_service lives_store
      dest!: screenshot_store split: sum.split prod.split)

lemma burst_store:
  "burst cd marshal ctx_err plan (burst_deps_of c vi sv en i t prefix) bw = Some (x, bw') \<Longrightarrow>
   sy_store (bw_world bw') = sy_store (bw_world bw)"
  by (erule session_watch.burst_kept) (simp_all add: burst_deps_of_def)

lemma stepped_capture: "stepped js s (cli_capture c vi args s)"
  unfolding cli_capture_def Let_def
  by (rule stepped_args) (auto simp: burst_with_def Let_def intro!: stepped_service lives_store
      dest!: burst_store split: sum.split prod.split option.split)

lemma wait_for_store:
  assumes "wait_for c vi sv en i ps s = Inr (Some (x, s'))"
  shows "sy_store s' = sy_store s"
proof -
  have deps: "wd_clock (wait_deps_of c vi sv en i) = Some (sys_clock (vi_clock vi))"
    "wd_capturer (wait_deps_of c vi sv en i) = Some (session_capture (session_call c sv en i))"
    "wd_observer (wait_deps_of c vi sv en i) = Some \<lparr>ob_snapshot = session_snapshot (session_call c sv en i),
       ob_exited = session_exited (session_record i)\<rparr>"
    by (simp_all add: wait_deps_of_def)
  show ?thesis
    using assms
    by (auto simp: wait_for_def Let_def split: if_splits
        dest: session_watch.wait_stable_kept [OF _ deps(1,2)] session_watch.wait_new_frame_kept [OF _ deps(1,2)]
          session_observe.observed_waits_kept [OF deps(1,3)])
qed

lemma stepped_wait_with: "stepped js s (wait_with c vi i ps sv en s)"
  by (auto simp: wait_with_def Let_def intro!: lives_store dest: wait_for_store
      split: sum.split prod.split option.split)

lemma stepped_wait: "stepped js s (cli_wait c vi args s)"
  unfolding cli_wait_def Let_def
  by (rule stepped_args) (auto intro!: stepped_service stepped_wait_with split: option.split)

lemma stepped_image: "stepped js s (cli_image pg args s)"
  by (auto simp: cli_image_def image_build_def image_with_def Let_def
      intro!: stepped_service stepped_report split: list.split prod.split sum.split option.split)

lemma stepped_dispatch: "stepped (cl_json (pg_cli pg)) s (dispatch pg r s)"
proof -
  have "stepped (cl_json (pg_cli pg)) s (f rest s)" if "(command, f) \<in> set (cli_commands pg)" for command f rest
    using that
    by (auto simp: cli_commands_def Let_def stepped_doctor stepped_image stepped_session stepped_run
        stepped_inject stepped_logs stepped_windows stepped_activate stepped_move stepped_resize
        stepped_close_window stepped_click stepped_pointer stepped_scroll stepped_key stepped_type
        stepped_screenshot stepped_capture stepped_wait)
  then show ?thesis
    by (auto simp: dispatch_def dest: map_of_SomeD split: sum.split list.split option.split)
qed

section \<open>One envelope, one exit status\<close>

fun document_of :: "emitted \<Rightarrow> command_view envelope option" where
  "document_of (StdoutJson e) = Some e"
| "document_of (StdoutHuman e) = Some e"
| "document_of (StderrHuman e) = Some e"
| "document_of x = None"

fun on_stdout :: "emitted \<Rightarrow> bool" where
  "on_stdout (StdoutJson e) \<longleftrightarrow> True"
| "on_stdout (StdoutHuman e) \<longleftrightarrow> True"
| "on_stdout (StdoutText t) \<longleftrightarrow> True"
| "on_stdout x \<longleftrightarrow> False"

definition documents :: "emitted list \<Rightarrow> command_view envelope list" where
  "documents outs = List.map_filter document_of outs"

definition answered :: "bool \<Rightarrow> nat \<Rightarrow> emitted list \<Rightarrow> command_view envelope \<Rightarrow> bool" where
  "answered js status outs env \<longleftrightarrow>
     documents outs = [env] \<and> env_schema env = schema \<and>
     (case env_error env of
        None \<Rightarrow> env_ok env \<and> status = 0
      | Some f \<Rightarrow> \<not> env_ok env \<and> status = exit_code (f_code f)) \<and>
     (js \<longrightarrow> filter on_stdout outs = [StdoutJson env])"

lemmas answered_defs = answered_def documents_def cli_success_def cli_fail_def usage_error_def Let_def
  env_OK_def env_Fail_def List.map_filter_simps

lemma answered_plain:
  assumes "\<forall>x. broken x = None"
  shows "cli_success js broken op sid rv v = (status, outs) \<Longrightarrow> \<exists>env. answered js status outs env"
    and "cli_fail js broken op sid err fb = (status, outs) \<Longrightarrow> \<exists>env. answered js status outs env"
    and "usage_error js broken op sid = (status, outs) \<Longrightarrow> \<exists>env. answered js status outs env"
  using assms by (auto simp: answered_defs split: if_splits)

lemma answered_printed: "answered False status outs env \<Longrightarrow> answered False status (StdoutText t # outs) env"
  by (simp add: answered_def documents_def List.map_filter_simps)

lemma conclude_answered:
  assumes "tidy js v" and "\<forall>x. broken x = None" and "conclude js broken v = (status, outs)"
  shows "\<exists>env. answered js status outs env"
proof (cases v)
  case (Printed t u)
  obtain st os where u: "conclude js broken u = (st, os)" by fastforce
  have js: "js = False" using assms(1) Printed by simp
  have "\<exists>env. answered False st os env"
    using u assms(1) Printed answered_plain [OF assms(2), of False] js by (cases u) simp_all
  then obtain env where "answered False st os env" by blast
  then have "answered False st (StdoutText t # os) env" by (rule answered_printed)
  moreover have "st = status" "outs = StdoutText t # os" using assms(3) Printed u by simp_all
  ultimately show ?thesis using js by blast
qed (use assms answered_plain in auto)

lemma conclude_usage:
  assumes "tidy js v" and "conclude js broken v = (status, outs)" and "StderrUsage \<in> set outs"
  shows "misused v \<and> status = 2"
proof (cases v)
  case (Printed t u)
  then show ?thesis
    using assms by (cases u) (auto simp: cli_success_def cli_fail_def Let_def split: option.splits if_splits prod.splits)
qed (use assms in \<open>auto simp: cli_success_def cli_fail_def usage_error_def failure_for_def Let_def
  split: option.splits if_splits prod.splits\<close>)

section \<open>Properties\<close>

text \<open>
  C3. Whatever the command line, a run of the host command that returns wrote exactly one
  document, an envelope of the contract's schema (as long as documents can be written), and
  its exit status says what the envelope says: zero for success, and the status of the
  failure's code otherwise; with \<open>--json\<close> that document is all there is on standard output.
  When the usage text was printed the status is that of a usage error and nothing was
  touched. Whatever happened, the stored sessions moved only along the life cycle.
\<close>

theorem cli_contract:
  assumes "run_line pg args s = Some ((status, outs), s')"
  shows "((\<forall>x. pg_broken pg x = None) \<longrightarrow>
      (\<exists>env. answered (gl_json (fst (parse_globals args))) status outs env)) \<and>
    (StderrUsage \<in> set outs \<longrightarrow> status = 2 \<and> s' = s) \<and> lives s s'"
proof -
  obtain g r where g: "parse_globals args = (g, r)" by fastforce
  then obtain v where v: "dispatch (with_globals g pg) r s = Some (v, s')"
      "conclude (gl_json g) (pg_broken pg) v = (status, outs)"
    using assms by (auto simp: run_line_def)
  have "stepped (gl_json g) s (dispatch (with_globals g pg) r s)"
    using stepped_dispatch [of "with_globals g pg" s r] by (simp add: with_globals_def)
  then have st: "tidy (gl_json g) v" "lives s s'" "misused v \<longrightarrow> s' = s"
    using v(1) by (auto simp: stepped_def)
  show ?thesis
    using conclude_answered [OF st(1) _ v(2)] conclude_usage [OF st(1) v(2)] st(2,3) g by auto
qed

definition demo_cli :: "nat cli" where
  "demo_cli =
     \<lparr>cl_json = False, cl_image = [], cl_factory = (\<lambda>_ _. Inr (demo_service, Session_Service.demo_engine)), cl_env = demo_env,
      cl_codec = demo_codec, cl_duration = (\<lambda>_. None), cl_float = (\<lambda>_. None), cl_encode = (\<lambda>_. None),
      cl_decode = (\<lambda>_. None), cl_cancelled = (\<lambda>_ _ _. False), cl_keymap = Inl (PlainErr []), cl_round = id,
      cl_chunks = (\<lambda>t. [t])\<rparr>"

text \<open>Reading the log of a session, with \<open>--json\<close>.\<close>

definition logs_line :: "string list" where
  "logs_line = [''--json'', ''logs'', ''--session=demo'', ''--tail'', ''0x10'']"

definition demo_program :: "nat vision \<Rightarrow> image_env \<Rightarrow> nat program" where
  "demo_program vi ie =
     \<lparr>pg_cli = demo_cli, pg_vision = vi, pg_image = ie,
      pg_builder = (\<lambda>_. \<lparr>en_image_id = (\<lambda>_. Inl (PlainErr [])), en_build = (\<lambda>_. (Inl [], []))\<rparr>),
      pg_broken = (\<lambda>_. None)\<rparr>"

lemma demo_words:
  "word_of ''--json'' = FlagWord ''json'' None" "word_of ''logs'' = Positional"
  "word_of ''--session=demo'' = FlagWord ''session'' (Some ''demo'')" "word_of ''--tail'' = FlagWord ''tail'' None"
  by (simp_all add: word_of_def)

lemma demo_globals:
  "parse_globals logs_line = (\<lparr>gl_json = True, gl_state_root = [], gl_image = [], gl_context = [], gl_engine = ''docker''\<rparr>,
     Inr [''logs'', ''--session=demo'', ''--tail'', ''0x10''])"
  by (simp add: parse_globals_def logs_line_def global_flags_def parse_flags.simps(2) demo_words bool_flag_def
      text_flag_def read_flag_def value_of_def given_def parse_bool_def)

lemma demo_tail: "parse_int ''0x10'' = Some 16"
  by (simp add: parse_int_def parse_uint_def split_base_def based_digit_def lower_char_def is_upper_def
      is_digit_def)

lemma demo_dispatch:
  "dispatch (with_globals g (demo_program vi ie)) (Inr [''logs'', ''--session=demo'', ''--tail'', ''0x10'']) demo_sys =
    cli_logs (demo_cli\<lparr>cl_json := gl_json g, cl_image := gl_image g\<rparr>) [''--session=demo'', ''--tail'', ''0x10''] demo_sys"
  by (simp add: dispatch_def cli_commands_def with_globals_def demo_program_def Let_def)

lemma demo_logs:
  "cli_logs (demo_cli\<lparr>cl_json := True, cl_image := []\<rparr>) [''--session=demo'', ''--tail'', ''0x10''] demo_sys =
    Some (Done ''logs'' ''demo'' 0 (LogsView 16 []), demo_sys\<lparr>sy_world := 1\<rparr>)"
proof -
  have "load (sy_store demo_sys) ''demo'' = Inr demo_record" by (simp add: load_records demo_sys_record)
  then have "session_logs Session_Service.demo_engine ''demo'' 16 demo_sys = ((None, []), demo_sys\<lparr>sy_world := 1\<rparr>)"
    by (simp add: session_logs_def demo_record_def call_engine_def Session_Service.demo_engine_def demo_sys_def)
  then show ?thesis
    by (simp add: cli_logs_def logs_with_def with_service_def demo_cli_def parse_flags.simps(2) demo_words demo_tail
        only_session_def text_flag_def int_flag_def read_flag_def value_of_def Let_def)
qed

theorem cli_contract_witness:
  "\<forall>vi ie. \<exists>s' env. run_line (demo_program vi ie) logs_line demo_sys = Some ((0, [StdoutJson env]), s') \<and>
     answered True 0 [StdoutJson env] env \<and> env_operation env = ''logs'' \<and> lives demo_sys s'"
proof (intro allI)
  fix vi ie
  let ?env = "env_OK ''logs'' ''demo'' 0 (LogsView 16 [])"
  have run: "run_line (demo_program vi ie) logs_line demo_sys =
      Some ((0, [StdoutJson ?env]), demo_sys\<lparr>sy_world := 1\<rparr>)"
    unfolding run_line_def demo_globals prod.case demo_dispatch
    by (simp add: demo_logs cli_success_def Let_def) (simp add: demo_program_def)
  have "\<exists>env. answered True 0 [StdoutJson ?env] env" "lives demo_sys (demo_sys\<lparr>sy_world := 1\<rparr>)"
    using cli_contract [OF run] demo_globals by (simp_all add: demo_program_def)
  moreover have "documents [StdoutJson ?env] = [?env]" by (simp add: documents_def List.map_filter_simps)
  ultimately have "answered True 0 [StdoutJson ?env] ?env" by (auto simp: answered_def)
  then show "\<exists>s' env. run_line (demo_program vi ie) logs_line demo_sys = Some ((0, [StdoutJson env]), s') \<and>
     answered True 0 [StdoutJson env] env \<and> env_operation env = ''logs'' \<and> lives demo_sys s'"
    using run \<open>lives demo_sys (demo_sys\<lparr>sy_world := 1\<rparr>)\<close> by (auto simp: env_OK_def)
qed

section \<open>A refusal inside a session\<close>

fun is_reply :: "call_out \<Rightarrow> bool" where
  "is_reply (ReplyLine t) \<longleftrightarrow> True"
| "is_reply x \<longleftrightarrow> False"

text \<open>What the engine sees of one run of the call command; \<open>show_out\<close> is the text of what it wrote.\<close>

definition call_result :: "'x call_env \<Rightarrow> (call_out \<Rightarrow> string) \<Rightarrow> string list \<Rightarrow> 'x \<Rightarrow> exec_result" where
  "call_result ce show_out args w =
     (case fst (call_command ce args w) of
        (status, outs) \<Rightarrow>
          \<lparr>xr_exit_code = status, xr_stdout = concat (map show_out (filter is_reply outs)),
           xr_stderr = concat (map show_out (filter (\<lambda>x. \<not> is_reply x) outs))\<rparr>)"

definition failure_document :: "failure \<Rightarrow> call_out" where
  "failure_document f = FailureDocument (env_Fail (f_operation f) [] (Some f))"

lemma call_command_refused:
  assumes "op \<noteq> []" and "hd op \<noteq> CHR ''-''" and "params \<noteq> [] \<longrightarrow> ce_valid_json ce params"
    and "ce_request ce op params = Inr encoded"
    and "ce_dial ce call_default_timeout agent_path w = (None, w1)"
    and "agent_path = runtime_dir @ ''/control/agent.sock''"
    and "fst (ce_exchange ce call_default_timeout encoded w1) = Inl (Typed f, late)"
    and "\<forall>x. ce_broken ce x = None"
  shows "fst (call_command ce (call_argv params op) w) = (exit_code (f_code f), [failure_document f])"
proof -
  obtain w2 where ex: "ce_exchange ce call_default_timeout encoded w1 = (Inl (Typed f, late), w2)"
    using assms(7) by (metis prod.collapse)
  have flags: "text_flag ''params'' [(''socket'', agent_path), (''params'', params)] = params"
    "text_flag ''socket'' [(''socket'', agent_path), (''params'', params)] = agent_path"
    "given ''socket'' [(''socket'', agent_path), (''params'', params)]"
    "\<not> given ''timeout'' [(''socket'', agent_path), (''params'', params)]"
    by (simp_all add: text_flag_def read_flag_def value_of_def given_def)
  have parsed: "parse_flags (call_flags ce) [] (call_argv params op) =
      ([(''socket'', agent_path), (''params'', params)], Inr [op])"
    using call_argv_parses [OF assms(1,2)] assms(6) by simp
  have "call_command ce (call_argv params op) w =
      call_exchange ce op call_default_timeout agent_path encoded w"
    unfolding call_command_def parsed using assms(1,3,4) flags by (auto simp: Let_def)
  then show ?thesis
    using assms(5,8) ex by (simp add: call_exchange_def report_call_failure_def failure_document_def Let_def)
qed

text \<open>
  C6. A refusal reaches the exit status unchanged. When the controller answers a call with a
  failure, whatever its code, the command inside the session ends with the exit status of
  that code; the host's call returns that failure, bound to the operation and the session
  where it named none; and a command of the host that reports it ends with the same exit
  status. What is relied on is that the engine runs the command it is given and that a
  failure document is read back as it was written.
\<close>

theorem refusal_reaches_exit:
  assumes "load (sy_store s) i = Inr r" and "interactive (r_state r)"
    and "trim_space op = op" and "op \<noteq> []" and "hd op \<noteq> CHR ''-''"
    and "cl_encode c ps = Some params" and "params \<noteq> [] \<longrightarrow> ce_valid_json ce params"
    and "ce_request ce op params = Inr encoded"
    and "ce_dial ce call_default_timeout (runtime_dir @ ''/control/agent.sock'') w = (None, wd)"
    and "fst (ce_exchange ce call_default_timeout encoded wd) = Inl (Typed f, late)"
    and "\<forall>x. ce_broken ce x = None"
    and "\<forall>spec. ex_argv spec = ''/usr/libexec/wlvision-call'' # call_argv params op \<longrightarrow>
      fst (en_exec en spec (sy_world s)) = (call_result ce show_out (tl (ex_argv spec)) w, None)"
    and "decode_failure (cl_codec c) (show_out (failure_document f)) = Some f"
  shows "fst (fst (call_command ce (call_argv params op) w)) = exit_code (f_code f) \<and>
    fst (session_caller c sv en d i cx op ps s) = Inl (Typed (bind_failure f op i)) \<and>
    fst (cli_fail js broken command i (Typed (bind_failure f op i)) fallback) = exit_code (f_code f)"
proof -
  have refused: "fst (call_command ce (call_argv params op) w) = (exit_code (f_code f), [failure_document f])"
    by (rule call_command_refused [OF assms(4,5,7,8,9) refl assms(10,11)])
  let ?spec = "\<lparr>ex_container = r_container_id r, ex_user = sv_control_uid sv, ex_workdir = [], ex_env = [],
      ex_argv = ''/usr/libexec/wlvision-call'' # call_argv params op\<rparr>"
  have result: "call_result ce show_out (call_argv params op) w =
      \<lparr>xr_exit_code = exit_code (f_code f), xr_stdout = [], xr_stderr = show_out (failure_document f)\<rparr>"
    by (simp add: call_result_def refused failure_document_def)
  have "fst (en_exec en ?spec (sy_world s)) = (call_result ce show_out (call_argv params op) w, None)"
    using assms(12) by simp
  then obtain w' where exec: "en_exec en ?spec (sy_world s) = ((call_result ce show_out (call_argv params op) w, None), w')"
    by (metis prod.collapse)
  have "exit_code (f_code f) \<noteq> 0" using exit_code_range [of "f_code f"] by auto
  then have "fst (session_caller c sv en d i cx op ps s) = Inl (Typed (bind_failure f op i))"
    using assms(1-4,6,13) exec
    by (simp add: session_caller_def call_controller_def call_engine_def call_argv_def [symmetric] result Let_def)
  moreover have "f_code (failure_for command i (Typed (bind_failure f op i)) fallback) = f_code f"
    by (simp add: failure_for_def bind_failure_sel Let_def)
  ultimately show ?thesis using refused by (simp add: cli_fail_def Let_def)
qed

text \<open>A window that is gone: the controller refuses with the code the protocol has for it.\<close>

definition gone :: failure where
  "gone = new_failure WindowNotFound ''window.activate'' ''%v''"

definition gone_env :: "unit call_env" where
  "gone_env =
     \<lparr>ce_duration = (\<lambda>_. None), ce_valid_json = (\<lambda>_. True), ce_request = (\<lambda>op ps. Inr op),
      ce_dial = (\<lambda>_ _ w. (None, w)), ce_exchange = (\<lambda>_ _ w. (Inl (Typed gone, False), w)),
      ce_close = id, ce_broken = (\<lambda>_. None)\<rparr>"

definition gone_engine :: "nat engine" where
  "gone_engine = Session_Service.demo_engine
     \<lparr>en_exec := (\<lambda>spec w. ((call_result gone_env (\<lambda>_. ''refused'') (tl (ex_argv spec)) (), None), w + 1))\<rparr>"

definition gone_cli :: "nat cli" where
  "gone_cli = demo_cli\<lparr>cl_encode := (\<lambda>_. Some ''{}''), cl_codec := demo_codec\<lparr>cd_envelope := (\<lambda>_. Some (Some gone))\<rparr>\<rparr>"

theorem refusal_reaches_exit_witness:
  "fst (session_caller gone_cli demo_service gone_engine None ''demo'' CallerCtx ''activate'' no_params demo_sys) =
     Inl (Typed (bind_failure gone ''activate'' ''demo'')) \<and>
   fst (cli_fail True (\<lambda>_. None) ''activate'' ''demo'' (Typed (bind_failure gone ''activate'' ''demo''))
     SessionNotReady) = 4"
proof -
  have "load (sy_store demo_sys) ''demo'' = Inr demo_record" by (simp add: load_records demo_sys_record)
  note refusal = refusal_reaches_exit [OF this, where c = gone_cli and ce = gone_env and f = gone and late = False
      and op = "''activate''" and params = "''{}''" and encoded = "''activate''" and w = "()" and wd = "()"
      and ps = no_params and en = gone_engine and sv = demo_service and d = None and cx = CallerCtx
      and show_out = "\<lambda>_. ''refused''" and js = True and broken = "\<lambda>_. None" and command = "''activate''"
      and fallback = SessionNotReady]
  have "f_code gone = WindowNotFound" by (simp add: gone_def)
  then show ?thesis
    using refusal
    by (simp add: gone_cli_def gone_env_def gone_engine_def demo_record_def trim_space_def is_space_def
        decode_failure_def)
qed

end
