(* ===== verification/Replace_Check.thy ===== *)
theory Replace_Check
  imports Complex_Main "HOL-Library.AList" "HOL-Library.List_Lexorder" "HOL-Library.Char_ord" Engine Cli_Flags
begin

text \<open>
  The check of module files (\<open>internal/tools/checkreplace/main.go\<close>): which filesystem
  replacements the given module directories declare, against the ones expected. What
  \<open>go mod edit -json\<close> and its decoding yield for a directory is the parameter \<open>replaces\<close>.
\<close>

record module_ref =
  mr_path :: string
  mr_version :: string

record replace_entry =
  re_old :: module_ref
  re_new :: module_ref

record expected_pair =
  xp_old :: string
  xp_new :: string

record replace_finding =
  rf_dir :: string
  rf_target :: string

definition module_ref_string :: "module_ref \<Rightarrow> string" where
  "module_ref_string r = (if mr_version r \<noteq> [] then mr_path r @ '' '' @ mr_version r else mr_path r)"

definition expected_string :: "expected_pair \<Rightarrow> string" where
  "expected_string e = xp_old e @ '' => '' @ xp_new e"

text \<open>One \<open>-expect\<close> value; an error is the flag's.\<close>

definition parse_expectation :: "string \<Rightarrow> expected_pair option" where
  "parse_expectation v =
     (case cut_at (CHR ''='') v of
        None \<Rightarrow> None
      | Some (a, b) \<Rightarrow> if a = [] \<or> b = [] then None else Some \<lparr>xp_old = a, xp_new = b\<rparr>)"

type_synonym found_map = "(string \<times> replace_finding list) list"

definition found_at :: "found_map \<Rightarrow> string \<Rightarrow> replace_finding list" where
  "found_at found k = (case map_of found k of None \<Rightarrow> [] | Some ts \<Rightarrow> ts)"

definition add_entry :: "string \<Rightarrow> replace_entry \<Rightarrow> found_map \<Rightarrow> found_map" where
  "add_entry dir e found =
     (let k = module_ref_string (re_old e);
          t = \<lparr>rf_dir = dir, rf_target = module_ref_string (re_new e)\<rparr>
      in AList.update k (found_at found k @ [t]) found)"

definition sorted_keys :: "found_map \<Rightarrow> string list" where
  "sorted_keys found = sort (map fst found)"

fun join_text :: "string \<Rightarrow> string list \<Rightarrow> string" where
  "join_text sep [] = []"
| "join_text sep [x] = x"
| "join_text sep (x # y # ys) = x @ sep @ join_text sep (y # ys)"

definition describe_found :: "replace_finding list \<Rightarrow> string" where
  "describe_found ts = join_text '', '' (map (\<lambda>t. rf_target t @ '' ('' @ rf_dir t @ '')'') ts)"

definition expectation_complaint :: "found_map \<Rightarrow> expected_pair \<Rightarrow> string list" where
  "expectation_complaint found e =
     (let ts = found_at found (xp_old e)
      in if ts = [] then [''expected replace '' @ expected_string e @ '' is missing'']
         else if list_ex (\<lambda>t. rf_target t = xp_new e) ts then []
         else [''expected replace '' @ expected_string e @ '' is missing; found '' @ describe_found ts])"

definition replace_problems :: "found_map \<Rightarrow> expected_pair list \<Rightarrow> string list" where
  "replace_problems found want =
     (if want = [] then
        concat (map (\<lambda>k. map (\<lambda>t. ''found replace '' @ k @ '' => '' @ rf_target t @ '' ('' @ rf_dir t @ '')'')
          (found_at found k)) (sorted_keys found))
      else
        concat (map (expectation_complaint found) want) @
        concat (map (\<lambda>k. if k \<in> set (map xp_old want) then []
          else map (\<lambda>t. ''unexpected replace '' @ k @ '' => '' @ rf_target t @ '' ('' @ rf_dir t @ '') is present'')
            (found_at found k)) (sorted_keys found)))"

text \<open>The walk over the directories: what was found and which directories could not be read.\<close>

fun collect_replaces ::
  "(string \<Rightarrow> string + replace_entry list) \<Rightarrow> string list \<Rightarrow> found_map \<Rightarrow> string list \<Rightarrow> found_map \<times> string list" where
  "collect_replaces replaces [] found errs = (found, errs)"
| "collect_replaces replaces (dir # dirs) found errs =
     (case replaces dir of
        Inl e \<Rightarrow> collect_replaces replaces dirs found (errs @ [''checkreplace: '' @ dir @ '': '' @ e])
      | Inr es \<Rightarrow> collect_replaces replaces dirs (fold (add_entry dir) es found) errs)"

definition check_flags :: flag_set where
  "check_flags = [(''expect'', ValueFlag (\<lambda>v. parse_expectation v \<noteq> None))]"

definition wanted_pairs :: "assignments \<Rightarrow> expected_pair list" where
  "wanted_pairs acc = List.map_filter (parse_expectation \<circ> snd) acc"

text \<open>\<open>main\<close>: the exit status and the lines on the standard error beside those of the flag package.\<close>

definition check_main :: "(string \<Rightarrow> string + replace_entry list) \<Rightarrow> string list \<Rightarrow> nat \<times> string list" where
  "check_main replaces args =
     (case parse_flags check_flags [] args of
        (_, Inl HelpRequested) \<Rightarrow> (0, [])
      | (_, Inl _) \<Rightarrow> (2, [])
      | (acc, Inr dirs) \<Rightarrow>
          if dirs = [] then (2, [''usage: checkreplace [-expect OLD=NEW]... <dir>...''])
          else
            (case collect_replaces replaces dirs [] [] of
               (found, errs) \<Rightarrow>
                 (let out = errs @ map (\<lambda>c. ''checkreplace: '' @ c) (replace_problems found (wanted_pairs acc))
                  in (if out = [] then 0 else 1, out))))"

section \<open>What the check accepts\<close>

lemma found_keys: "(\<exists>k. found_at found k \<noteq> [] \<and> P k) \<longleftrightarrow> (\<exists>k \<in> set (sorted_keys found). found_at found k \<noteq> [] \<and> P k)"
proof -
  have "k \<in> set (sorted_keys found)" if "found_at found k \<noteq> []" for k
    using that by (cases "map_of found k") (auto simp: found_at_def sorted_keys_def dest: map_of_SomeD intro: rev_image_eqI)
  then show ?thesis by blast
qed

lemma expectation_complaint_none:
  "expectation_complaint found e = [] \<longleftrightarrow> (\<exists>t \<in> set (found_at found (xp_old e)). rf_target t = xp_new e)"
  by (auto simp: expectation_complaint_def Let_def list_ex_iff)

text \<open>
  The check is silent exactly when there is no replacement and none was expected, or every
  expected one is there and every module replaced is one of the expected.
\<close>

lemma replace_problems_none:
  "replace_problems found want = [] \<longleftrightarrow>
    (if want = [] then \<forall>k. found_at found k = []
     else (\<forall>e \<in> set want. \<exists>t \<in> set (found_at found (xp_old e)). rf_target t = xp_new e) \<and>
       (\<forall>k. found_at found k \<noteq> [] \<longrightarrow> k \<in> xp_old ` set want))"
proof (cases "want = []")
  case True
  then show ?thesis using found_keys [of found "\<lambda>k. True"] by (auto simp: replace_problems_def)
next
  case False
  have "(\<forall>k \<in> set (sorted_keys found). k \<notin> xp_old ` set want \<longrightarrow> found_at found k = []) \<longleftrightarrow>
      (\<forall>k. found_at found k \<noteq> [] \<longrightarrow> k \<in> xp_old ` set want)"
    using found_keys [of found "\<lambda>k. k \<notin> xp_old ` set want"] by blast
  then show ?thesis using False by (auto simp: replace_problems_def expectation_complaint_none)
qed

text \<open>
  A second module directory that replaces an expected module by another checkout passes:
  one right target among those found is enough.
\<close>

lemma second_target_accepted:
  "check_main (\<lambda>dir. Inr [\<lparr>re_old = \<lparr>mr_path = ''m'', mr_version = []\<rparr>,
       re_new = \<lparr>mr_path = (if dir = ''a'' then ''../m'' else ''/elsewhere/m''), mr_version = []\<rparr>\<rparr>])
     [''-expect'', ''m=../m'', ''a'', ''b''] = (0, [])"
  by code_simp

end
